(* ===== verification/PyDecimal.thy ===== *)
theory PyDecimal
  imports Prelude
begin

text \<open>
  Python's \<open>decimal.Decimal\<close> as the application uses it: the default context, 28
  significant digits and ROUND\_HALF\_EVEN.  A finite decimal is its value, a \<open>rat\<close>;
  every arithmetic operator rounds its exact result to 28 significant digits
  (\<open>ctx\<close>), and \<open>quantize\<close> raises \<open>InvalidOperation\<close> when the rounded
  coefficient has more than 28 digits.  Both depend on the values of the operands only, not on
  their exponents, so the value model is exact for finite operands.  Not represented: NaN and
  the infinities (the ingestion component has its own type for those), the sign of zero, the
  rendering of a decimal as text, and the exponent range of the context (Emax 999999), which no
  quantity of the application approaches.
\<close>

section \<open>Round half to even\<close>

definition round_he :: "rat \<Rightarrow> int" where
  "round_he x = (let f = \<lfloor>x\<rfloor>; r = x - of_int f in
     if r < 1/2 then f else if 1/2 < r then f + 1 else if even f then f else f + 1)"

text \<open>Evaluation of the floor of a rational literal.\<close>

lemma floor_rat_frac [simp]:
  "\<lfloor>numeral a / numeral b :: rat\<rfloor> = numeral a div numeral b"
  "\<lfloor>1 / numeral b :: rat\<rfloor> = 1 div numeral b"
  "\<lfloor>- (numeral a / numeral b) :: rat\<rfloor> = (- numeral a) div numeral b"
  "\<lfloor>- (1 / numeral b) :: rat\<rfloor> = (- 1) div numeral b"
  using floor_divide_of_int_eq [of "numeral a" "numeral b", where 'a = rat]
    floor_divide_of_int_eq [of 1 "numeral b", where 'a = rat]
    floor_divide_of_int_eq [of "- numeral a" "numeral b", where 'a = rat]
    floor_divide_of_int_eq [of "- 1" "numeral b", where 'a = rat]
  by simp_all

lemma round_he_of_int [simp]: "round_he (of_int n) = n"
  by (simp add: round_he_def)

lemma round_he_zero [simp]: "round_he 0 = 0"
  using round_he_of_int [of 0] by simp

lemma round_he_bounds: "\<bar>of_int (round_he x) - x\<bar> \<le> 1/2"
proof -
  have "of_int \<lfloor>x\<rfloor> \<le> x" "x < of_int \<lfloor>x\<rfloor> + 1"
    using floor_correct [of x] by auto
  then show ?thesis
    unfolding round_he_def Let_def by (simp add: abs_le_iff; linarith)
qed

lemma round_he_floor_cases: "round_he x = \<lfloor>x\<rfloor> \<or> round_he x = \<lfloor>x\<rfloor> + 1"
  by (auto simp: round_he_def Let_def)

lemma round_he_unique:
  assumes "\<bar>of_int n - x\<bar> < 1/2" shows "round_he x = n"
proof -
  have "\<bar>of_int (round_he x) - (of_int n :: rat)\<bar> < 1"
    using round_he_bounds [of x] assms by linarith
  then have "\<bar>round_he x - n\<bar> < 1" by linarith
  then show ?thesis by simp
qed

lemma round_he_tie_even:
  assumes "\<bar>of_int (round_he x) - x\<bar> = 1/2" shows "even (round_he x)"
  using assms floor_correct [of x] unfolding round_he_def Let_def
  by (auto split: if_splits)

lemma round_he_mono: assumes "x \<le> y" shows "round_he x \<le> round_he y"
proof (cases "\<lfloor>x\<rfloor> = \<lfloor>y\<rfloor>")
  case True
  with assms show ?thesis unfolding round_he_def Let_def by auto
next
  case False
  with floor_mono [OF assms] have "\<lfloor>x\<rfloor> + 1 \<le> \<lfloor>y\<rfloor>" by linarith
  then show ?thesis using round_he_floor_cases [of x] round_he_floor_cases [of y] by linarith
qed

lemma round_he_char:
  assumes "\<bar>of_int n - x\<bar> \<le> 1/2" and "\<bar>of_int n - x\<bar> = 1/2 \<Longrightarrow> even n"
  shows "round_he x = n"
proof (cases "\<bar>of_int n - x\<bar> = 1/2")
  case False
  with assms(1) show ?thesis by (intro round_he_unique) linarith
next
  case tie: True
  with assms(2) have ev: "even n" by simp
  have "\<bar>of_int (round_he x) - (of_int n :: rat)\<bar> \<le> 1"
    using round_he_bounds [of x] tie by linarith
  then have near: "\<bar>round_he x - n\<bar> \<le> 1" by linarith
  show ?thesis
  proof (rule ccontr)
    assume ne: "round_he x \<noteq> n"
    with near have "round_he x = n + 1 \<or> round_he x = n - 1" by linarith
    then have odd: "odd (round_he x)" using ev by auto
    have "\<bar>of_int (round_he x) - x\<bar> = 1/2"
      using \<open>round_he x = n + 1 \<or> round_he x = n - 1\<close> tie round_he_bounds [of x]
      by (auto simp: abs_if split: if_splits)
    with odd show False using round_he_tie_even by blast
  qed
qed

lemma round_he_minus: "round_he (- x) = - round_he x"
proof (rule round_he_char)
  show "\<bar>of_int (- round_he x) - - x\<bar> \<le> 1/2"
    using round_he_bounds [of x] by (simp add: abs_minus_commute)
next
  assume "\<bar>of_int (- round_he x) - - x\<bar> = 1/2"
  then have "\<bar>of_int (round_he x) - x\<bar> = 1/2" by (simp add: abs_minus_commute)
  then show "even (- round_he x)" using round_he_tie_even by simp
qed

lemma round_he_nonneg: "0 \<le> x \<Longrightarrow> 0 \<le> round_he x"
  using round_he_mono [of 0 x] by simp

lemma round_he_nonpos: "x \<le> 0 \<Longrightarrow> round_he x \<le> 0"
  using round_he_mono [of x 0] by simp

lemma round_he_abs: "round_he \<bar>x\<bar> = \<bar>round_he x\<bar>"
proof (cases "0 \<le> x")
  case True
  then show ?thesis using round_he_nonneg [of x] by simp
next
  case False
  then show ?thesis using round_he_nonpos [of x] by (simp add: round_he_minus)
qed

section \<open>Rounding to a number of significant digits\<close>

fun ndigits :: "nat \<Rightarrow> nat" where
  "ndigits n = (if n < 10 then 1 else Suc (ndigits (n div 10)))"

declare ndigits.simps [simp del]

lemma ndigits_bounds: "n > 0 \<Longrightarrow> 10 ^ (ndigits n - 1) \<le> n \<and> n < 10 ^ ndigits n"
proof (induction n rule: ndigits.induct)
  case (1 n)
  show ?case
  proof (cases "n < 10")
    case True
    with "1.prems" show ?thesis by (simp add: ndigits.simps [of n])
  next
    case False
    let ?d = "ndigits (n div 10)"
    have IH: "10 ^ (?d - 1) \<le> n div 10" "n div 10 < 10 ^ ?d"
      using "1.IH" False by auto
    have pos: "?d > 0" by (subst ndigits.simps) simp
    have "10 * 10 ^ (?d - 1) \<le> n" using IH(1) by linarith
    then have lo: "10 ^ ?d \<le> n" using pos by (cases ?d) auto
    have hi: "n < 10 * 10 ^ ?d" using IH(2) by linarith
    from lo hi False show ?thesis by (simp add: ndigits.simps [of n])
  qed
qed

text \<open>\<open>dec_exp x\<close> is the adjusted exponent of \<open>x\<close>: the power of ten of its leading digit.\<close>

definition dec_exp :: "rat \<Rightarrow> int" where
  "dec_exp x = (case quotient_of \<bar>x\<bar> of (n, d) \<Rightarrow>
     let e = int (ndigits (nat n)) - int (ndigits (nat d)) in
     if of_int d * 10 powi e \<le> (of_int n :: rat) then e else e - 1)"

definition sig_round :: "nat \<Rightarrow> rat \<Rightarrow> rat" where
  "sig_round p x = (if x = 0 then 0 else
     let s = int p - 1 - dec_exp x in of_int (round_he (x * 10 powi s)) / 10 powi s)"

definition prec :: nat where "prec = 28"

definition ctx :: "rat \<Rightarrow> rat" where "ctx x = sig_round prec x"

lemma powi10_pos [simp]: "(0::rat) < 10 powi e"
  by (simp add: power_int_def)

lemma powi10_nz [simp]: "(10::rat) powi e \<noteq> 0"
  using powi10_pos [of e] by linarith

lemma powi10_nat: "0 \<le> e \<Longrightarrow> (10::rat) powi e = of_int (10 ^ nat e)"
  by (simp add: power_int_def)

lemma ndigits_rat:
  assumes "0 < n"
  shows "10 powi (int (ndigits (nat n)) - 1) \<le> (of_int n :: rat)"
    and "(of_int n :: rat) < 10 powi int (ndigits (nat n))"
proof -
  have b: "10 ^ (ndigits (nat n) - 1) \<le> nat n" "nat n < 10 ^ ndigits (nat n)"
    using ndigits_bounds [of "nat n"] assms by auto
  have pos: "ndigits (nat n) \<ge> 1" by (subst ndigits.simps) simp
  have "(of_nat (10 ^ (ndigits (nat n) - 1)) :: rat) \<le> of_nat (nat n)"
    using b(1) by (subst of_nat_le_iff)
  then show "10 powi (int (ndigits (nat n)) - 1) \<le> (of_int n :: rat)"
    using assms pos by (simp add: power_int_def nat_diff_distrib)
  have "(of_nat (nat n) :: rat) < of_nat (10 ^ ndigits (nat n))"
    using b(2) by (subst of_nat_less_iff)
  then show "(of_int n :: rat) < 10 powi int (ndigits (nat n))"
    using assms by (simp add: power_int_def)
qed

lemma dec_exp_bounds:
  assumes "x \<noteq> 0"
  shows "10 powi dec_exp x \<le> \<bar>x\<bar>" and "\<bar>x\<bar> < 10 powi (dec_exp x + 1)"
proof -
  obtain n d where q: "quotient_of \<bar>x\<bar> = (n, d)" by (cases "quotient_of \<bar>x\<bar>")
  have d: "0 < d" using quotient_of_denom_pos [OF q] .
  have xe: "\<bar>x\<bar> = of_int n / of_int d" using quotient_of_div [OF q] .
  have "0 < (of_int n / of_int d :: rat)" using assms xe [symmetric] by simp
  with d have n: "0 < n" by (simp add: zero_less_divide_iff)
  define a where "a = int (ndigits (nat n))"
  define b where "b = int (ndigits (nat d))"
  have an: "10 powi (a - 1) \<le> (of_int n :: rat)" "(of_int n :: rat) < 10 powi a"
    using ndigits_rat [OF n] by (simp_all add: a_def)
  have bd: "10 powi (b - 1) \<le> (of_int d :: rat)" "(of_int d :: rat) < 10 powi b"
    using ndigits_rat [OF d] by (simp_all add: b_def)
  have up: "(of_int n :: rat) < of_int d * 10 powi (a - b + 1)"
  proof -
    have "(of_int n :: rat) < 10 powi (b - 1) * 10 powi (a - b + 1)"
      using an(2) by (simp add: power_int_add [symmetric])
    also have "\<dots> \<le> of_int d * 10 powi (a - b + 1)"
      using bd(1) by (intro mult_right_mono) simp_all
    finally show ?thesis .
  qed
  have lo: "of_int d * 10 powi (a - b - 1) \<le> (of_int n :: rat)"
  proof -
    have "of_int d * 10 powi (a - b - 1) \<le> (10 powi b * 10 powi (a - b - 1) :: rat)"
      using bd(2) by (intro mult_right_mono) simp_all
    also have "\<dots> = 10 powi (a - 1)" by (simp add: power_int_add [symmetric])
    also have "\<dots> \<le> of_int n" by (rule an(1))
    finally show ?thesis .
  qed
  have e: "dec_exp x = (if of_int d * 10 powi (a - b) \<le> (of_int n :: rat) then a - b else a - b - 1)"
    by (simp add: dec_exp_def q a_def b_def Let_def)
  have dq: "(0::rat) < of_int d" using d by simp
  show "10 powi dec_exp x \<le> \<bar>x\<bar>"
    using lo dq by (simp add: e xe pos_le_divide_eq mult.commute)
  show "\<bar>x\<bar> < 10 powi (dec_exp x + 1)"
    using up dq by (simp add: e xe pos_divide_less_eq mult.commute)
qed

lemma dec_exp_minus [simp]: "dec_exp (- x) = dec_exp x"
  by (simp add: dec_exp_def)

lemma powi10_less_iff [simp]: "(10::rat) powi a < 10 powi b \<longleftrightarrow> a < b"
  by (metis linorder_neqE_linordered_idom one_less_numeral_iff order_less_asym
      order_less_irrefl power_int_strict_increasing semiring_norm(76))

lemma powi10_le_iff [simp]: "(10::rat) powi a \<le> 10 powi b \<longleftrightarrow> a \<le> b"
  using powi10_less_iff [of b a] by (simp add: not_less [symmetric])

lemma dec_exp_less:
  assumes "x \<noteq> 0" and "\<bar>x\<bar> < 10 powi m" shows "dec_exp x < m"
proof -
  have "(10::rat) powi dec_exp x < 10 powi m"
    using dec_exp_bounds(1) [OF assms(1)] assms(2) by linarith
  then show ?thesis by simp
qed

lemma dec_exp_ge:
  assumes "10 powi m \<le> \<bar>x\<bar>" shows "m \<le> dec_exp x"
proof -
  have "x \<noteq> 0" using assms powi10_pos [of m] by (metis abs_zero not_less)
  then have "(10::rat) powi m < 10 powi (dec_exp x + 1)"
    using dec_exp_bounds(2) assms by (meson le_less_trans)
  then show ?thesis by simp
qed

lemma sig_round_0 [simp]: "sig_round p 0 = 0"
  by (simp add: sig_round_def)

lemma sig_round_minus: "sig_round p (- x) = - sig_round p x"
  by (simp add: sig_round_def Let_def round_he_minus)

text \<open>A value whose coefficient fits is left alone.\<close>

lemma sig_round_exact:
  assumes x: "x = of_int c * 10 powi k" and c: "\<bar>c\<bar> < 10 ^ p"
  shows "sig_round p x = x"
proof (cases "x = 0")
  case False
  have "\<bar>x\<bar> = of_int \<bar>c\<bar> * 10 powi k" by (simp add: x abs_mult)
  also have "\<dots> < 10 ^ p * 10 powi k"
    using c by (metis mult_less_cancel_right_pos of_int_less_numeral_power_cancel_iff powi10_pos)
  also have "\<dots> = 10 powi (int p + k)" by (simp add: power_int_add)
  finally have "dec_exp x < int p + k" by (rule dec_exp_less [OF False])
  then have s: "0 \<le> int p - 1 - dec_exp x + k" by simp
  define s' where "s' = int p - 1 - dec_exp x"
  have "x * 10 powi s' = of_int (c * 10 ^ nat (s' + k))"
    using s by (simp add: x s'_def mult.assoc power_int_add [symmetric] add.commute powi10_nat)
  then have "of_int (round_he (x * 10 powi s')) = x * 10 powi s'"
    by (metis round_he_of_int)
  then show ?thesis using False by (simp add: sig_round_def Let_def s'_def)
qed simp

lemma sig_round_error:
  "\<bar>sig_round p x - x\<bar> \<le> 10 powi (dec_exp x + 1 - int p) / 2"
proof (cases "x = 0")
  case False
  define s where "s = int p - 1 - dec_exp x"
  have "sig_round p x - x = (of_int (round_he (x * 10 powi s)) - x * 10 powi s) / 10 powi s"
    using False by (simp add: sig_round_def Let_def s_def diff_divide_distrib)
  then have "\<bar>sig_round p x - x\<bar> = \<bar>of_int (round_he (x * 10 powi s)) - x * 10 powi s\<bar> / 10 powi s"
    by (simp add: abs_divide)
  also have "\<dots> \<le> (1/2) / 10 powi s"
    by (intro divide_right_mono round_he_bounds) simp
  also have "\<dots> = 10 powi (dec_exp x + 1 - int p) / 2"
    by (simp add: s_def power_int_diff power_int_add field_simps)
  finally show ?thesis .
qed simp

text \<open>The absolute error of an operation whose exact result is below a power of ten.\<close>

lemma sig_round_error_below:
  assumes "\<bar>x\<bar> < 10 powi m"
  shows "\<bar>sig_round p x - x\<bar> \<le> 10 powi (m - int p) / 2"
proof (cases "x = 0")
  case False
  have "dec_exp x < m" by (rule dec_exp_less [OF False assms])
  then have "(10::rat) powi (dec_exp x + 1 - int p) \<le> 10 powi (m - int p)" by simp
  with sig_round_error [of p x] show ?thesis by linarith
qed simp

lemma sig_round_pos:
  assumes "0 < x" and "1 \<le> p" shows "10 powi dec_exp x \<le> sig_round p x"
proof -
  define s where "s = int p - 1 - dec_exp x"
  have "10 powi (dec_exp x) \<le> x" using dec_exp_bounds(1) [of x] assms by simp
  then have "10 powi (dec_exp x) * 10 powi s \<le> x * 10 powi s"
    by (intro mult_right_mono) simp_all
  moreover have "10 powi (dec_exp x) * 10 powi s = (of_int (10 ^ (p - 1)) :: rat)"
    using assms(2) by (simp add: s_def power_int_add [symmetric] powi10_nat nat_diff_distrib)
  ultimately have "round_he (of_int (10 ^ (p - 1))) \<le> round_he (x * 10 powi s)"
    by (intro round_he_mono) simp
  then have "10 ^ (p - 1) \<le> round_he (x * 10 powi s)" by (simp only: round_he_of_int)
  then have "(of_int (10 ^ (p - 1)) :: rat) \<le> of_int (round_he (x * 10 powi s))"
    by (subst of_int_le_iff)
  then have "of_int (10 ^ (p - 1)) / 10 powi s \<le> (of_int (round_he (x * 10 powi s)) / 10 powi s :: rat)"
    by (intro divide_right_mono) simp_all
  moreover have "of_int (10 ^ (p - 1)) / 10 powi s = (10 powi dec_exp x :: rat)"
    using \<open>10 powi (dec_exp x) * 10 powi s = (of_int (10 ^ (p - 1)) :: rat)\<close> [symmetric] by simp
  ultimately show ?thesis using assms by (simp add: sig_round_def Let_def s_def)
qed

lemma sig_round_below:
  assumes "0 < x" and "1 \<le> p" shows "sig_round p x \<le> 10 powi (dec_exp x + 1)"
proof -
  define s where "s = int p - 1 - dec_exp x"
  have "x * 10 powi s \<le> 10 powi (dec_exp x + 1) * 10 powi s"
    using dec_exp_bounds(2) [of x] assms by (intro mult_right_mono) simp_all
  also have "\<dots> = of_int (10 ^ p)"
    by (simp add: s_def power_int_add [symmetric] powi10_nat)
  finally have "round_he (x * 10 powi s) \<le> round_he (of_int (10 ^ p))" by (rule round_he_mono)
  then have "round_he (x * 10 powi s) \<le> 10 ^ p" by (simp only: round_he_of_int)
  then have "(of_int (round_he (x * 10 powi s)) :: rat) \<le> of_int (10 ^ p)"
    by (subst of_int_le_iff)
  then have "(of_int (round_he (x * 10 powi s)) / 10 powi s :: rat) \<le> of_int (10 ^ p) / 10 powi s"
    by (intro divide_right_mono) simp_all
  also have "\<dots> = 10 powi (dec_exp x + 1)"
    by (simp add: s_def power_int_diff power_int_add field_simps)
  finally show ?thesis using assms by (simp add: sig_round_def Let_def s_def)
qed

lemma sig_round_mono_pos:
  assumes "0 < x" and "x \<le> y" and p: "1 \<le> p"
  shows "sig_round p x \<le> sig_round p y"
proof -
  have y: "0 < y" using assms by linarith
  have "dec_exp x < dec_exp y + 1"
    using dec_exp_bounds(2) [of y] assms y by (intro dec_exp_less) auto
  then consider "dec_exp x = dec_exp y" | "dec_exp x < dec_exp y" by linarith
  then show ?thesis
  proof cases
    case 1
    have "round_he (x * 10 powi (int p - 1 - dec_exp y)) \<le> round_he (y * 10 powi (int p - 1 - dec_exp y))"
      using assms(2) by (intro round_he_mono mult_right_mono) simp_all
    then show ?thesis using assms y 1
      by (simp add: sig_round_def Let_def divide_right_mono)
  next
    case 2
    have "sig_round p x \<le> 10 powi (dec_exp x + 1)" by (rule sig_round_below [OF assms(1) p])
    also have "\<dots> \<le> 10 powi dec_exp y" using 2 by simp
    also have "\<dots> \<le> sig_round p y" by (rule sig_round_pos [OF y p])
    finally show ?thesis .
  qed
qed

lemma sig_round_pos_sign: "0 < x \<Longrightarrow> 1 \<le> p \<Longrightarrow> 0 < sig_round p x"
  using sig_round_pos [of x p] powi10_pos [of "dec_exp x"] by linarith

lemma sig_round_neg_sign: "x < 0 \<Longrightarrow> 1 \<le> p \<Longrightarrow> sig_round p x < 0"
  using sig_round_pos_sign [of "- x" p] by (simp add: sig_round_minus)

lemma sig_round_mono:
  assumes "x \<le> y" and p: "1 \<le> p" shows "sig_round p x \<le> sig_round p y"
proof -
  consider "0 < x" | "x \<le> 0" "0 \<le> y" | "y < 0" by linarith
  then show ?thesis
  proof cases
    case 1
    then show ?thesis using assms by (intro sig_round_mono_pos)
  next
    case 2
    have "sig_round p x \<le> 0" using 2(1) sig_round_neg_sign [of x p] p by (cases "x = 0") auto
    also have "0 \<le> sig_round p y" using 2(2) sig_round_pos_sign [of y p] p by (cases "y = 0") auto
    finally show ?thesis .
  next
    case 3
    then have "sig_round p (- y) \<le> sig_round p (- x)" using assms by (intro sig_round_mono_pos) auto
    then show ?thesis by (simp add: sig_round_minus)
  qed
qed

section \<open>Grids: multiples of a power of ten\<close>

definition on_grid :: "nat \<Rightarrow> rat \<Rightarrow> bool" where
  "on_grid k x = (of_int \<lfloor>x * 10 ^ k\<rfloor> = x * 10 ^ k)"

named_theorems grid_intros \<open>closure of the grids under arithmetic\<close>

lemma on_grid_iff: "on_grid k x \<longleftrightarrow> (\<exists>c::int. x = of_int c / 10 ^ k)"
proof
  assume "on_grid k x"
  then have "of_int \<lfloor>x * 10 ^ k\<rfloor> = x * 10 ^ k" by (simp only: on_grid_def)
  then have "x = of_int \<lfloor>x * 10 ^ k\<rfloor> / 10 ^ k" by (metis nonzero_mult_div_cancel_right power_not_zero zero_neq_numeral)
  then show "\<exists>c::int. x = of_int c / 10 ^ k" by blast
next
  assume "\<exists>c::int. x = of_int c / 10 ^ k"
  then show "on_grid k x" by (auto simp: on_grid_def)
qed

lemma on_gridE:
  assumes "on_grid k x" obtains c where "x = of_int c / 10 ^ k"
  using assms by (auto simp: on_grid_iff)

lemma on_grid_frac [simp, grid_intros]: "on_grid k (of_int c / 10 ^ k)"
  by (auto simp: on_grid_iff)

lemma on_grid_of_int [simp, grid_intros]: "on_grid k (of_int c)"
  by (simp add: on_grid_def)

lemma on_grid_numerals [simp]: "on_grid k 1" "on_grid k (numeral n)" "on_grid k (- 1)" "on_grid k (- numeral n)"
  using on_grid_of_int [of k 1] on_grid_of_int [of k "numeral n"] on_grid_of_int [of k "- 1"]
    on_grid_of_int [of k "- numeral n"] by simp_all

lemma on_grid_0 [simp, grid_intros]: "on_grid k 0"
  by (simp add: on_grid_def)

lemma on_grid_add [grid_intros]: "on_grid k x \<Longrightarrow> on_grid k y \<Longrightarrow> on_grid k (x + y)"
  by (auto simp: on_grid_iff add_divide_distrib [symmetric] of_int_add [symmetric] simp del: of_int_add)

lemma on_grid_minus [grid_intros]: "on_grid k x \<Longrightarrow> on_grid k (- x)"
  by (auto simp: on_grid_iff minus_divide_left of_int_minus [symmetric] simp del: of_int_minus)

lemma on_grid_diff [grid_intros]: "on_grid k x \<Longrightarrow> on_grid k y \<Longrightarrow> on_grid k (x - y)"
  using on_grid_add [of k x "- y"] on_grid_minus [of k y] by simp

lemma on_grid_mult [grid_intros]: "on_grid j x \<Longrightarrow> on_grid k y \<Longrightarrow> on_grid (j + k) (x * y)"
  by (auto simp: on_grid_iff power_add of_int_mult [symmetric] simp del: of_int_mult)

lemma on_grid_coarser: "on_grid j x \<Longrightarrow> j \<le> k \<Longrightarrow> on_grid k x"
  using on_grid_mult [of j x "k - j" 1] on_grid_of_int [of "k - j" 1] by simp

lemma on_grid_sum_list [grid_intros]: "(\<And>x. x \<in> set xs \<Longrightarrow> on_grid k x) \<Longrightarrow> on_grid k (sum_list xs)"
  by (induction xs) (auto intro: on_grid_add)

text \<open>
  \<open>fits k x\<close>: \<open>x\<close> has at most \<open>k\<close> decimal places and a coefficient of at most 28 digits,
  so the context leaves it alone.  \<open>amount x\<close>: a value of a NUMERIC(18,4) column.
\<close>

definition fits :: "nat \<Rightarrow> rat \<Rightarrow> bool" where
  "fits k x = (on_grid k x \<and> \<bar>x\<bar> * 10 ^ k < 10 ^ prec)"

definition amount :: "rat \<Rightarrow> bool" where
  "amount x = (on_grid 4 x \<and> \<bar>x\<bar> < 10 ^ 14)"

lemma fitsI: "on_grid k x \<Longrightarrow> \<bar>x\<bar> * 10 ^ k < 10 ^ prec \<Longrightarrow> fits k x"
  by (simp add: fits_def)

lemma amount_fits: assumes "amount x" shows "fits 4 x"
proof -
  have "\<bar>x\<bar> * 10 ^ 4 < 10 ^ 14 * 10 ^ 4"
    using assms by (intro mult_strict_right_mono) (simp_all add: amount_def)
  then show ?thesis using assms by (simp add: amount_def fits_def prec_def)
qed

lemma amount_0 [simp]: "amount 0"
  by (simp add: amount_def)

lemma amount_minus: "amount x \<Longrightarrow> amount (- x)"
  by (simp add: amount_def grid_intros)

lemma ctx_exact: assumes "fits k x" shows "ctx x = x"
proof -
  obtain c where c: "x = of_int c / 10 ^ k" using assms by (auto simp: fits_def on_grid_iff)
  have "of_int \<bar>c\<bar> < (10 ^ prec :: rat)" using assms by (simp add: fits_def c)
  then have "\<bar>c\<bar> < 10 ^ prec" by (metis of_int_less_numeral_power_cancel_iff)
  moreover have "x = of_int c * 10 powi (- int k)" by (simp add: c power_int_minus field_simps)
  ultimately show ?thesis unfolding ctx_def by (intro sig_round_exact)
qed

lemma ctx_0 [simp]: "ctx 0 = 0" by (simp add: ctx_def)

lemma ctx_minus: "ctx (- x) = - ctx x"
  by (simp add: ctx_def sig_round_minus)

lemma ctx_mono: "x \<le> y \<Longrightarrow> ctx x \<le> ctx y"
  by (simp add: ctx_def sig_round_mono prec_def)

lemma ctx_pos [simp]: "0 < ctx x \<longleftrightarrow> 0 < x"
proof -
  have "0 < x \<Longrightarrow> 0 < ctx x" by (simp add: ctx_def sig_round_pos_sign prec_def)
  moreover have "x \<le> 0 \<Longrightarrow> ctx x \<le> 0" using ctx_mono [of x 0] by simp
  ultimately show ?thesis by linarith
qed

lemma ctx_neg [simp]: "ctx x < 0 \<longleftrightarrow> x < 0"
  using ctx_pos [of "- x"] by (simp add: ctx_minus)

lemma ctx_eq_0 [simp]: "ctx x = 0 \<longleftrightarrow> x = 0"
proof
  assume "ctx x = 0"
  then have "\<not> 0 < ctx x" "\<not> ctx x < 0" by simp_all
  then show "x = 0" by (simp only: ctx_pos ctx_neg not_less)
qed simp

lemma ctx_nonneg [simp]: "0 \<le> ctx x \<longleftrightarrow> 0 \<le> x"
  by (simp only: not_less [symmetric] ctx_neg)

lemma ctx_nonpos [simp]: "ctx x \<le> 0 \<longleftrightarrow> x \<le> 0"
  by (simp only: not_less [symmetric] ctx_pos)

lemma ctx_error: assumes "\<bar>x\<bar> < 10 powi m" shows "\<bar>ctx x - x\<bar> \<le> 10 powi (m - 28) / 2"
  using sig_round_error_below [OF assms, of prec] by (simp add: ctx_def prec_def)

section \<open>The arithmetic operators\<close>

lemma ctx_rel_error: "\<bar>ctx x - x\<bar> \<le> \<bar>x\<bar> / (2 * 10 ^ 27)"
proof (cases "x = 0")
  case False
  have e: "\<bar>ctx x - x\<bar> \<le> 10 powi (dec_exp x + 1 - 28) / 2"
    using sig_round_error [of prec x] by (simp add: ctx_def prec_def)
  have "(10::rat) powi (dec_exp x + 1 - 28) = 10 powi dec_exp x * 10 powi (- 27)"
    using power_int_add [of "10 :: rat" "dec_exp x" "- 27"] by simp
  also have "\<dots> \<le> \<bar>x\<bar> * 10 powi (- 27)"
    by (intro mult_right_mono dec_exp_bounds(1) [OF False]) simp
  also have "(10::rat) powi (- 27) = 1 / 10 ^ 27" by (simp add: power_int_minus)
  finally show ?thesis using e by simp
qed simp

text \<open>Rounding to the context precision is idempotent.\<close>

lemma ctx_idem [simp]: "ctx (ctx x) = ctx x"
proof -
  have pos: "sig_round prec (sig_round prec x) = sig_round prec x" if "0 < x" for x
  proof -
    define s c where "s = int prec - 1 - dec_exp x" and "c = round_he (x * 10 powi s)"
    have v: "sig_round prec x = of_int c * 10 powi (- s)"
      using that unfolding sig_round_def Let_def s_def [symmetric] c_def [symmetric]
      by (simp only: power_int_minus divide_inverse) simp
    have "0 < prec" by (simp add: prec_def)
    then have "of_int c * 10 powi (- s) \<le> (10 :: rat) powi (dec_exp x + 1)" using sig_round_below [OF that] by (simp only: v [symmetric])
    then have "of_int c * 10 powi (- s) * (10 :: rat) powi s \<le> 10 powi (dec_exp x + 1) * 10 powi s" by (rule mult_right_mono) simp
    then have "of_int c \<le> (10 :: rat) powi (int prec)" by (simp add: mult.assoc power_int_add [symmetric] s_def)
    then have c: "c \<le> 10 ^ prec" by simp
    have "0 \<le> c" using that by (simp add: c_def round_he_nonneg)
    show ?thesis
    proof (cases "c = 10 ^ prec")
      case True
      then have "sig_round prec x = of_int 1 * 10 powi (int prec - s)" by (simp add: v power_int_diff power_int_minus divide_inverse)
      then show ?thesis by (rule sig_round_exact) (simp add: prec_def)
    qed (use c \<open>0 \<le> c\<close> v in \<open>auto intro!: sig_round_exact\<close>)
  qed
  consider "0 < x" | "x = 0" | "0 < - x" by linarith
  then show ?thesis
  proof cases
    case 3
    have "ctx (ctx (- x)) = ctx (- x)" using pos [OF 3] by (simp add: ctx_def)
    then show ?thesis by (simp add: ctx_minus)
  qed (use pos in \<open>simp_all add: ctx_def\<close>)
qed

definition dadd :: "rat \<Rightarrow> rat \<Rightarrow> rat" where "dadd x y = ctx (x + y)"
definition dsub :: "rat \<Rightarrow> rat \<Rightarrow> rat" where "dsub x y = ctx (x - y)"
definition dmul :: "rat \<Rightarrow> rat \<Rightarrow> rat" where "dmul x y = ctx (x * y)"
definition dneg :: "rat \<Rightarrow> rat" where "dneg x = ctx (- x)"
definition dabs :: "rat \<Rightarrow> rat" where "dabs x = ctx \<bar>x\<bar>"

text \<open>Division by zero signals \<open>DivisionByZero\<close>; \<open>0 / 0\<close> signals \<open>DivisionUndefined\<close>, a
  subclass of \<open>InvalidOperation\<close>.\<close>

definition ddiv :: "rat \<Rightarrow> rat \<Rightarrow> rat res" where
  "ddiv x y = (if y = 0 then Inl (if x = 0 then InvalidOperation else DivisionByZero)
     else Inr (ctx (x / y)))"

text \<open>\<open>sum(xs, Decimal(0))\<close> and the accumulation loops written \<open>total += x\<close>.\<close>

definition dsum :: "rat list \<Rightarrow> rat" where "dsum xs = foldl dadd 0 xs"

text \<open>
  \<open>x ** n\<close> for an integer \<open>n\<close>, as libmpdec computes it: binary exponentiation from the
  most significant bit of \<open>n\<close> at a working precision of 28 plus the digits of \<open>n\<close> plus 2 (one
  more for a negative exponent, whose base is first inverted), then one rounding to 28 digits.
\<close>

fun pow_work :: "nat \<Rightarrow> rat \<Rightarrow> nat \<Rightarrow> rat" where
  "pow_work w x n = (if n \<le> 1 then x else
     let r = pow_work w x (n div 2); s = sig_round w (r * r) in
     if odd n then sig_round w (s * x) else s)"

declare pow_work.simps [simp del]

definition dpow :: "rat \<Rightarrow> int \<Rightarrow> rat res" where
  "dpow x n = (if n = 0 then (if x = 0 then Inl InvalidOperation else Inr 1)
     else if 0 < n then Inr (ctx (pow_work (prec + ndigits (nat n) + 2) x (nat n)))
     else if x = 0 then Inl DivisionByZero
     else let w = prec + ndigits (nat (- n)) + 3 in
       Inr (ctx (pow_work w (sig_round w (1 / x)) (nat (- n)))))"

lemmas dec_ops = dadd_def dsub_def dmul_def dneg_def dabs_def

lemma dadd_exact: "fits k (x + y) \<Longrightarrow> dadd x y = x + y"
  and dsub_exact: "fits k (x - y) \<Longrightarrow> dsub x y = x - y"
  and dmul_exact: "fits k (x * y) \<Longrightarrow> dmul x y = x * y"
  and dneg_exact: "fits k (- x) \<Longrightarrow> dneg x = - x"
  and dabs_exact: "fits k \<bar>x\<bar> \<Longrightarrow> dabs x = \<bar>x\<bar>"
  by (simp_all add: dec_ops ctx_exact)

lemma dadd_0 [simp]: "fits k x \<Longrightarrow> dadd x 0 = x" "fits k x \<Longrightarrow> dadd 0 x = x"
  by (simp_all add: dadd_exact)

lemma fits_add_amounts: assumes "amount x" "amount y" shows "fits 4 (x + y)"
proof -
  have "\<bar>x\<bar> < 10 ^ 14" "\<bar>y\<bar> < 10 ^ 14" using assms by (simp_all add: amount_def)
  then have "\<bar>x + y\<bar> < 2 * 10 ^ 14" using abs_triangle_ineq [of x y] by linarith
  then have "\<bar>x + y\<bar> * 10 ^ 4 < 2 * 10 ^ 14 * 10 ^ 4" by (intro mult_strict_right_mono) simp_all
  then show ?thesis using assms by (simp add: amount_def fits_def prec_def grid_intros)
qed

lemma fits_diff_amounts: "amount x \<Longrightarrow> amount y \<Longrightarrow> fits 4 (x - y)"
  using fits_add_amounts [of x "- y"] amount_minus [of y] by simp

lemma dadd_amounts: "amount x \<Longrightarrow> amount y \<Longrightarrow> dadd x y = x + y"
  by (rule dadd_exact [OF fits_add_amounts])

lemma dsub_amounts: "amount x \<Longrightarrow> amount y \<Longrightarrow> dsub x y = x - y"
  by (rule dsub_exact [OF fits_diff_amounts])

lemma dmul_pos: "0 < x \<Longrightarrow> 0 < y \<Longrightarrow> 0 < dmul x y"
  by (simp add: dmul_def)

lemma dmul_nonneg: "0 \<le> x \<Longrightarrow> 0 \<le> y \<Longrightarrow> 0 \<le> dmul x y"
  by (simp add: dmul_def)

lemma dsub_sign [simp]: "dsub x y < 0 \<longleftrightarrow> x < y" "0 < dsub x y \<longleftrightarrow> y < x" "dsub x y = 0 \<longleftrightarrow> x = y"
    "0 \<le> dsub x y \<longleftrightarrow> y \<le> x" "dsub x y \<le> 0 \<longleftrightarrow> x \<le> y"
  by (simp_all add: dsub_def)

lemma dabs_nonneg [simp]: "0 \<le> dabs x"
  by (simp add: dabs_def)

lemma dabs_eq_0 [simp]: "dabs x = 0 \<longleftrightarrow> x = 0"
  by (simp add: dabs_def)

lemma ddiv_ok [simp]: "y \<noteq> 0 \<Longrightarrow> ddiv x y = Inr (ctx (x / y))"
  by (simp add: ddiv_def)

text \<open>Summation of values on one grid is exact while the partial sums fit.\<close>

definition sum_bound :: "rat list \<Rightarrow> rat" where "sum_bound xs = (\<Sum>x\<leftarrow>xs. \<bar>x\<bar>)"

lemma member_le_sum_bound: "x \<in> set xs \<Longrightarrow> \<bar>x\<bar> \<le> sum_bound xs"
proof (induction xs)
  case (Cons y ys)
  have "0 \<le> sum_bound ys" unfolding sum_bound_def by (intro sum_list_nonneg) auto
  with Cons show ?case by (auto simp: sum_bound_def)
qed simp

lemma foldl_dadd_exact:
  assumes "\<And>x. x \<in> set xs \<Longrightarrow> on_grid k x" and "on_grid k a"
    and "(\<bar>a\<bar> + sum_bound xs) * 10 ^ k < 10 ^ prec"
  shows "foldl dadd a xs = a + sum_list xs"
  using assms
proof (induction xs arbitrary: a)
  case (Cons x xs)
  have nn: "0 \<le> sum_bound xs" unfolding sum_bound_def by (intro sum_list_nonneg) auto
  have le: "(\<bar>a + x\<bar> + sum_bound xs) * 10 ^ k \<le> (\<bar>a\<bar> + sum_bound (x # xs)) * 10 ^ k"
    by (intro mult_right_mono) (auto simp: sum_bound_def)
  have "\<bar>a + x\<bar> * 10 ^ k \<le> (\<bar>a + x\<bar> + sum_bound xs) * 10 ^ k"
    using nn by (intro mult_right_mono) auto
  also have "\<dots> < 10 ^ prec" by (rule le_less_trans [OF le Cons.prems(3)])
  finally have f: "fits k (a + x)" using Cons.prems by (auto simp: fits_def grid_intros)
  have "foldl dadd (a + x) xs = a + x + sum_list xs"
    using Cons.prems(1,2) le_less_trans [OF le Cons.prems(3)]
    by (intro Cons.IH) (auto simp: grid_intros)
  then show ?case by (simp add: dadd_exact [OF f])
qed simp

lemma dsum_exact:
  assumes "\<And>x. x \<in> set xs \<Longrightarrow> on_grid k x" and "sum_bound xs * 10 ^ k < 10 ^ prec"
  shows "dsum xs = sum_list xs"
  using foldl_dadd_exact [of xs k 0] assms by (simp add: dsum_def)

lemma dsum_simps [simp]: "dsum [] = 0" "dsum (xs @ [x]) = dadd (dsum xs) x"
  by (simp_all add: dsum_def)

lemma foldl_dadd_nonneg: "0 \<le> a \<Longrightarrow> (\<And>x. x \<in> set xs \<Longrightarrow> 0 \<le> x) \<Longrightarrow> 0 \<le> foldl dadd a xs"
proof (induction xs arbitrary: a)
  case (Cons x xs)
  then have "0 \<le> dadd a x" by (simp add: dadd_def)
  with Cons show ?case by simp
qed simp

lemma dsum_nonneg: "(\<And>x. x \<in> set xs \<Longrightarrow> 0 \<le> x) \<Longrightarrow> 0 \<le> dsum xs"
  by (simp add: dsum_def foldl_dadd_nonneg)

end
