(* ===== verification/Rounding.thy ===== *)
theory Rounding
  imports PyDecimal
begin

text \<open>
  \<open>Decimal.quantize\<close> to a fixed number of decimal places under ROUND\_HALF\_EVEN, and the
  rounding helpers built on it: \<open>round_currency\<close> (4 places; the identical one-line helper is
  repeated in every analytics module), \<open>round_percentage\<close> of the price review (6 places),
  \<open>round_rate\<close> of the capital module (6 places), and the days (1), ratio (2) and percentage (2)
  helpers of management accounting.

  What the rest of the application relies on is the locale \<open>rounder\<close>: a rounding helper returns
  the nearest value of its grid, leaves values of its grid alone, is monotone and odd, and fails
  only with \<open>InvalidOperation\<close> and only on magnitudes of 24 integer digits or more.  The lemmas
  the calculations share (signs, idempotence, error bounds, conservation of a split) are proved
  once inside it, and every helper is an interpretation.
\<close>

section \<open>quantize\<close>

definition quantize :: "nat \<Rightarrow> rat \<Rightarrow> rat res" where
  "quantize k x = (let c = round_he (x * 10 ^ k) in
     if 10 ^ prec \<le> \<bar>c\<bar> then Inl InvalidOperation else Inr (of_int c / 10 ^ k))"

definition round_currency :: "rat \<Rightarrow> rat res" where
  "round_currency value = quantize 4 value"

definition round_percentage :: "rat \<Rightarrow> rat res" where
  "round_percentage value = quantize 6 value"

definition round_rate :: "rat \<Rightarrow> rat res" where
  "round_rate value = quantize 6 value"

definition round_days :: "rat \<Rightarrow> rat res" where
  "round_days value = quantize 1 value"

definition round_ratio :: "rat \<Rightarrow> rat res" where
  "round_ratio value = quantize 2 value"

definition round_percentage_ma :: "rat \<Rightarrow> rat res" where
  "round_percentage_ma value = quantize 2 value"

lemma quantize_InrD:
  "quantize k x = Inr y \<Longrightarrow> y = of_int (round_he (x * 10 ^ k)) / 10 ^ k \<and> \<bar>round_he (x * 10 ^ k)\<bar> < 10 ^ prec"
  by (auto simp: quantize_def Let_def split: if_splits)

lemma quantize_InlD: "quantize k x = Inl e \<Longrightarrow> e = InvalidOperation \<and> 10 ^ prec \<le> \<bar>round_he (x * 10 ^ k)\<bar>"
  by (auto simp: quantize_def Let_def split: if_splits)

lemma quantize_small:
  assumes "\<bar>x\<bar> * 10 ^ k + 1 \<le> 10 ^ prec" shows "\<exists>y. quantize k x = Inr y"
proof -
  have "\<bar>of_int (round_he (x * 10 ^ k)) - x * 10 ^ k\<bar> \<le> 1/2" by (rule round_he_bounds)
  moreover have "\<bar>x * 10 ^ k\<bar> + 1 \<le> 10 ^ prec" using assms by (simp add: abs_mult)
  ultimately have "\<bar>of_int (round_he (x * 10 ^ k))\<bar> < (10 ^ prec :: rat)" by linarith
  then have "\<bar>round_he (x * 10 ^ k)\<bar> < 10 ^ prec"
    by (metis of_int_abs of_int_less_numeral_power_cancel_iff)
  then show ?thesis by (simp add: quantize_def Let_def)
qed

section \<open>The interface of a rounding helper\<close>

locale rounder =
  fixes places :: nat and rnd :: "rat \<Rightarrow> rat res"
  assumes on_grid: "rnd x = Inr y \<Longrightarrow> on_grid places y"
    and nearest: "rnd x = Inr y \<Longrightarrow> \<bar>y - x\<bar> \<le> 1 / (2 * 10 ^ places)"
    and exact: "on_grid places x \<Longrightarrow> \<bar>x\<bar> * 10 ^ places < 10 ^ prec \<Longrightarrow> rnd x = Inr x"
    and mono: "rnd x = Inr a \<Longrightarrow> rnd y = Inr b \<Longrightarrow> x \<le> y \<Longrightarrow> a \<le> b"
    and odd: "rnd (- x) = (case rnd x of Inl e \<Rightarrow> Inl e | Inr y \<Rightarrow> Inr (- y))"
    and fails: "rnd x = Inl e \<Longrightarrow> e = InvalidOperation \<and> 10 ^ prec \<le> \<bar>x\<bar> * 10 ^ places + 1"
begin

lemma defined: "\<bar>x\<bar> * 10 ^ places + 1 < 10 ^ prec \<Longrightarrow> \<exists>y. rnd x = Inr y"
  by (metis fails not_le obj_sumE)

lemma zero [simp]: "rnd 0 = Inr 0"
  by (simp add: exact prec_def)

lemma minus: "rnd x = Inr y \<Longrightarrow> rnd (- x) = Inr (- y)"
  by (simp add: odd)

lemma nonneg: "rnd x = Inr y \<Longrightarrow> 0 \<le> x \<Longrightarrow> 0 \<le> y"
  using mono [OF zero] by blast

lemma nonpos: "rnd x = Inr y \<Longrightarrow> x \<le> 0 \<Longrightarrow> y \<le> 0"
  using mono [OF _ zero] by blast

lemma sign: "rnd x = Inr y \<Longrightarrow> y < 0 \<Longrightarrow> x < 0" "rnd x = Inr y \<Longrightarrow> 0 < y \<Longrightarrow> 0 < x"
  by (meson nonneg nonpos not_less)+

lemma fits_exact: "fits places x \<Longrightarrow> rnd x = Inr x"
  by (simp add: fits_def exact)

text \<open>
  The pattern \<open>round(a op b)\<close> of the calculations: the operator rounds to 28 digits first, which
  keeps the result between any two grid values that bracket the exact one.
\<close>

lemma between:
  assumes "rnd (ctx x) = Inr y" "lo \<le> x" "x \<le> hi" "fits places lo" "fits places hi"
  shows "lo \<le> y" "y \<le> hi"
  using mono [OF fits_exact assms(1)] mono [OF assms(1) fits_exact] ctx_mono [of lo x] ctx_mono [of x hi]
    assms by (simp_all add: ctx_exact)

lemma ctx_total:
  assumes "lo \<le> x" "x \<le> hi" "fits places lo" "fits places hi"
    and b: "\<bar>lo\<bar> * 10 ^ places + 1 < 10 ^ prec" "\<bar>hi\<bar> * 10 ^ places + 1 < 10 ^ prec"
  shows "\<exists>y. rnd (ctx x) = Inr y \<and> lo \<le> y \<and> y \<le> hi"
proof -
  have c: "lo \<le> ctx x" "ctx x \<le> hi"
    using ctx_mono [of lo x] ctx_mono [of x hi] assms by (simp_all add: ctx_exact)
  then have "\<bar>ctx x\<bar> \<le> \<bar>lo\<bar> \<or> \<bar>ctx x\<bar> \<le> \<bar>hi\<bar>" by linarith
  then have "\<bar>ctx x\<bar> * 10 ^ places \<le> \<bar>lo\<bar> * 10 ^ places \<or> \<bar>ctx x\<bar> * 10 ^ places \<le> \<bar>hi\<bar> * 10 ^ places"
    by (simp add: mult_le_cancel_right)
  with b have "\<bar>ctx x\<bar> * 10 ^ places + 1 < 10 ^ prec" by linarith
  with defined obtain y where "rnd (ctx x) = Inr y" by blast
  with between assms show ?thesis by blast
qed

text \<open>A grid value within half a unit of the argument, and nearer than half, is the result.\<close>

lemma grid_gap:
  assumes "on_grid places x" "on_grid places y" "\<bar>x - y\<bar> < 1 / 10 ^ places" shows "x = y"
proof -
  obtain a b where ab: "x = of_int a / 10 ^ places" "y = of_int b / 10 ^ places"
    using assms(1,2) by (metis on_gridE)
  have "\<bar>(of_int (a - b) :: rat)\<bar> / 10 ^ places < 1 / 10 ^ places"
    using assms(3) by (simp add: ab diff_divide_distrib [symmetric] abs_divide)
  then have "\<bar>(of_int (a - b) :: rat)\<bar> < 1" by (simp add: divide_less_cancel)
  then have "\<bar>a - b\<bar> < 1" by linarith
  then show ?thesis by (simp add: ab)
qed

lemma near_unique:
  assumes "rnd x = Inr y" "on_grid places z" "\<bar>z - x\<bar> < 1 / (2 * 10 ^ places)" shows "y = z"
proof (rule grid_gap [OF on_grid [OF assms(1)] assms(2)])
  have "\<bar>y - z\<bar> \<le> \<bar>y - x\<bar> + \<bar>z - x\<bar>" by linarith
  also have "\<dots> < 1 / (2 * 10 ^ places) + 1 / (2 * 10 ^ places)"
    using nearest [OF assms(1)] assms(3) by linarith
  finally show "\<bar>y - z\<bar> < 1 / 10 ^ places" by simp
qed

lemma idempotent: "rnd x = Inr y \<Longrightarrow> \<bar>y\<bar> * 10 ^ places < 10 ^ prec \<Longrightarrow> rnd y = Inr y"
  by (simp add: exact on_grid)

text \<open>
  Rounding two shares of a total that lies on the grid: the rounded shares miss the total by
  at most one unit, and not at all unless both shares are ties.
\<close>

lemma split_error:
  assumes "rnd a = Inr x" "rnd b = Inr y"
  shows "\<bar>(x + y) - (a + b)\<bar> \<le> 1 / 10 ^ places"
proof -
  have "\<bar>(x + y) - (a + b)\<bar> \<le> \<bar>x - a\<bar> + \<bar>y - b\<bar>" by linarith
  also have "\<dots> \<le> 1 / (2 * 10 ^ places) + 1 / (2 * 10 ^ places)"
    using nearest [OF assms(1)] nearest [OF assms(2)] by linarith
  finally show ?thesis by simp
qed

lemma split_exact:
  assumes r: "rnd a = Inr x" "rnd b = Inr y"
    and t: "on_grid places t" and e: "\<bar>(a + b) - t\<bar> < d"
    and tie: "\<bar>x - a\<bar> + d / 2 < 1 / (2 * 10 ^ places)" "\<bar>y - b\<bar> + d / 2 < 1 / (2 * 10 ^ places)"
  shows "x + y = t"
proof (rule grid_gap)
  show "on_grid places (x + y)" using r by (intro on_grid_add on_grid)
  show "on_grid places t" by (rule t)
  have "\<bar>x + y - t\<bar> \<le> \<bar>x - a\<bar> + \<bar>y - b\<bar> + \<bar>(a + b) - t\<bar>" by linarith
  also have "\<dots> < \<bar>x - a\<bar> + \<bar>y - b\<bar> + d" using e by linarith
  also have "\<dots> \<le> 1 / (2 * 10 ^ places) + 1 / (2 * 10 ^ places)" using tie by linarith
  finally show "\<bar>x + y - t\<bar> < 1 / 10 ^ places" by simp
qed

end

lemma quantize_rounder: "rounder k (quantize k)"
proof (unfold_locales, goal_cases)
  case (1 x y)
  then show ?case by (auto dest: quantize_InrD)
next
  case (2 x y)
  then have y: "y = of_int (round_he (x * 10 ^ k)) / 10 ^ k" by (simp add: quantize_InrD)
  have "y - x = (of_int (round_he (x * 10 ^ k)) - x * 10 ^ k) / 10 ^ k"
    by (simp add: y diff_divide_distrib)
  then have "\<bar>y - x\<bar> = \<bar>of_int (round_he (x * 10 ^ k)) - x * 10 ^ k\<bar> / 10 ^ k"
    by (simp add: abs_divide)
  also have "\<dots> \<le> (1/2) / 10 ^ k" by (intro divide_right_mono round_he_bounds) simp
  finally show ?case by simp
next
  case (3 x)
  then obtain c where c: "x = of_int c / 10 ^ k" by (auto elim: on_gridE)
  have "of_int \<bar>c\<bar> < (10 ^ prec :: rat)" using 3(2) by (simp add: c)
  then have "\<bar>c\<bar> < 10 ^ prec" by (metis of_int_less_numeral_power_cancel_iff)
  then show ?case by (simp add: c quantize_def Let_def)
next
  case (4 x a y b)
  have "round_he (x * 10 ^ k) \<le> round_he (y * 10 ^ k)"
    using 4(3) by (intro round_he_mono mult_right_mono) simp_all
  then show ?case using 4(1,2) by (auto dest!: quantize_InrD simp: divide_right_mono)
next
  case (5 x)
  then show ?case by (simp add: quantize_def Let_def round_he_minus)
next
  case (6 x e)
  then have "\<not> \<bar>x\<bar> * 10 ^ k + 1 \<le> 10 ^ prec" using quantize_small by force
  with 6 show ?case using quantize_InlD by fastforce
qed

interpretation cur: rounder 4 round_currency
  unfolding round_currency_def by (rule quantize_rounder)

interpretation pct: rounder 6 round_percentage
  unfolding round_percentage_def by (rule quantize_rounder)

interpretation rate: rounder 6 round_rate
  unfolding round_rate_def by (rule quantize_rounder)

interpretation days: rounder 1 round_days
  unfolding round_days_def by (rule quantize_rounder)

interpretation ratio: rounder 2 round_ratio
  unfolding round_ratio_def by (rule quantize_rounder)

interpretation pct2: rounder 2 round_percentage_ma
  unfolding round_percentage_ma_def by (rule quantize_rounder)

lemmas round_defs = round_currency_def round_percentage_def round_rate_def round_days_def
  round_ratio_def round_percentage_ma_def quantize_def

text \<open>Evaluation of a calculation on literal arguments of at most ten decimal places.\<close>

lemmas dec_eval = dec_ops ctx_exact [of 10] fits_def on_grid_def prec_def round_defs round_he_def Let_def

text \<open>Values of a NUMERIC(18,4) column survive currency rounding.\<close>

lemma round_amount [simp]: "amount x \<Longrightarrow> round_currency x = Inr x"
  by (rule cur.fits_exact [OF amount_fits])

lemma round_currency_defined:
  assumes "\<bar>x\<bar> < 10 ^ 23" shows "\<exists>y. round_currency x = Inr y"
proof (rule cur.defined)
  have "\<bar>x\<bar> * 10 ^ 4 + 1 < 10 ^ 23 * 10 ^ 4 + 1"
    using assms by (intro add_strict_right_mono mult_strict_right_mono) simp_all
  then show "\<bar>x\<bar> * 10 ^ 4 + 1 < 10 ^ prec" by (simp add: prec_def)
qed

lemma round_sum_amounts: "amount x \<Longrightarrow> amount y \<Longrightarrow> round_currency (dadd x y) = Inr (x + y)"
  by (simp add: dadd_amounts cur.fits_exact fits_add_amounts)

lemma round_diff_amounts: "amount x \<Longrightarrow> amount y \<Longrightarrow> round_currency (dsub x y) = Inr (x - y)"
  by (simp add: dsub_amounts cur.fits_exact fits_diff_amounts)

end
