(* ===== verification/CashFlow.thy ===== *)
theory CashFlow
  imports Rounding
begin

text \<open>
  Cash and revenue: the 13-week forecast (\<open>app/analytics/cash_forecast.py\<close>), the gross-to-net
  waterfall (\<open>app/analytics/revenue_waterfall.py\<close>) and FX exposure
  (\<open>app/analytics/treasury_engine.py\<close>).  A result dictionary whose keys depend on completeness is a
  datatype with one constructor per shape; a missing key and a \<open>None\<close> value are both \<open>None\<close>, as
  \<open>week.get(key) is None\<close> treats them.
\<close>

section \<open>The 13-week forecast\<close>

definition resolve_weekly_cash_receipts :: "rat \<Rightarrow> rat \<Rightarrow> rat \<Rightarrow> rat res" where
  "resolve_weekly_cash_receipts contractual_dso_expected_receipts disputed_amount unapplied_cash =
     round_currency (dadd (dsub contractual_dso_expected_receipts disputed_amount) unapplied_cash)"

definition resolve_weekly_supplier_payments :: "rat \<Rightarrow> rat \<Rightarrow> rat res" where
  "resolve_weekly_supplier_payments contractual_dpo_expected_payments grni_amount =
     round_currency (dadd contractual_dpo_expected_payments grni_amount)"

record cash_position =
  cp_ending_cash :: rat
  cp_is_overdraft :: bool

definition calculate_weekly_cash_position :: "rat \<Rightarrow> rat \<Rightarrow> rat \<Rightarrow> rat \<Rightarrow> cash_position res" where
  "calculate_weekly_cash_position starting_cash resolved_cash_receipts forced_supplier_payments
      gate_b_operational_cost_pools =
     bindR (round_currency (dsub (dsub (dadd starting_cash resolved_cash_receipts)
        forced_supplier_payments) gate_b_operational_cost_pools)) (\<lambda>ending_cash.
     Inr \<lparr> cp_ending_cash = ending_cash, cp_is_overdraft = (ending_cash < 0) \<rparr>)"

record week_input =
  wi_resolved_cash_receipts :: "rat option"
  wi_forced_supplier_payments :: "rat option"
  wi_gate_b_operational_cost_pools :: "rat option"

definition missing_keys :: "week_input \<Rightarrow> string list" where
  "missing_keys w =
     (if wi_resolved_cash_receipts w = None then [''resolved_cash_receipts''] else [])
     @ (if wi_forced_supplier_payments w = None then [''forced_supplier_payments''] else [])
     @ (if wi_gate_b_operational_cost_pools w = None then [''gate_b_operational_cost_pools''] else [])"

datatype forecast_error = Wrong_number_of_weeks int | Week_missing int "string list"

datatype forecast = Locked forecast_error
  | Complete "(int \<times> cash_position) list" "int option"

fun first_incomplete :: "int \<Rightarrow> week_input list \<Rightarrow> (int \<times> string list) option" where
  "first_incomplete n [] = None"
| "first_incomplete n (w # ws) =
     (if missing_keys w \<noteq> [] then Some (n, missing_keys w) else first_incomplete (n + 1) ws)"

fun forecast_loop :: "int \<Rightarrow> rat \<Rightarrow> int option \<Rightarrow> week_input list
    \<Rightarrow> ((int \<times> cash_position) list \<times> int option) res" where
  "forecast_loop n running_cash first_overdraft_week [] = Inr ([], first_overdraft_week)"
| "forecast_loop n running_cash first_overdraft_week (w # ws) =
     bindR (calculate_weekly_cash_position running_cash (the (wi_resolved_cash_receipts w))
       (the (wi_forced_supplier_payments w)) (the (wi_gate_b_operational_cost_pools w))) (\<lambda>p.
     bindR (forecast_loop (n + 1) (cp_ending_cash p)
       (if cp_is_overdraft p \<and> first_overdraft_week = None then Some n else first_overdraft_week) ws)
       (\<lambda>(ps, f). Inr ((n, p) # ps, f)))"

definition build_13_week_cash_forecast :: "rat \<Rightarrow> week_input list \<Rightarrow> forecast res" where
  "build_13_week_cash_forecast opening_cash weekly_inputs =
     (if length weekly_inputs \<noteq> 13 then Inr (Locked (Wrong_number_of_weeks (int (length weekly_inputs))))
      else case first_incomplete 1 weekly_inputs of
        Some (n, ks) \<Rightarrow> Inr (Locked (Week_missing n ks))
      | None \<Rightarrow> bindR (forecast_loop 1 opening_cash None weekly_inputs) (\<lambda>(weeks, f).
          Inr (Complete weeks f)))"

section \<open>The gross-to-net waterfall\<close>

record waterfall_input =
  gw_gross_sales :: rat
  gw_settlement_discounts :: "rat option"
  gw_volume_growth_rebates :: "rat option"
  gw_credit_notes_issued :: "rat option"
  gw_operational_claims_returns :: "rat option"
  gw_retro_pricing_adjustment :: "rat option"
  gw_supplier_recoveries_allowances :: "rat option"

definition all_line_values :: "waterfall_input \<Rightarrow> (string, rat option) pydict" where
  "all_line_values i =
     [(''settlement_discounts'', gw_settlement_discounts i),
      (''volume_growth_rebates'', gw_volume_growth_rebates i),
      (''credit_notes_issued'', gw_credit_notes_issued i),
      (''operational_claims_returns'', gw_operational_claims_returns i),
      (''retro_pricing_adjustment'', gw_retro_pricing_adjustment i),
      (''supplier_recoveries_allowances'', gw_supplier_recoveries_allowances i)]"

datatype waterfall = Incomplete "string list" rat
  | Net_revenue (wf_gross: rat) (wf_net: rat) (wf_lines: "(string, rat) pydict")

definition calculate_gross_to_net_waterfall :: "waterfall_input \<Rightarrow> waterfall res" where
  "calculate_gross_to_net_waterfall i =
     (let missing_lines = map fst (filter (\<lambda>(n, v). v = None) (all_line_values i)) in
      if missing_lines \<noteq> []
      then bindR (round_currency (gw_gross_sales i)) (\<lambda>g. Inr (Incomplete missing_lines g))
      else
        let vs = map (\<lambda>(n, v). (n, the v)) (all_line_values i);
            after_deductions = foldl dsub (gw_gross_sales i) (map snd (take 4 vs));
            net_revenue = foldl dadd after_deductions (map snd (drop 4 vs))
        in bindR (round_currency (gw_gross_sales i)) (\<lambda>g.
           bindR (round_currency net_revenue) (\<lambda>n.
           bindR (mapR (\<lambda>(nm, v). bindR (round_currency v) (\<lambda>r. Inr (nm, r))) vs) (\<lambda>ls.
           Inr (Net_revenue g n ls)))))"

section \<open>FX exposure\<close>

record fx_exposure =
  fx_is_hedged :: bool
  fx_hedging_gain_loss :: "rat option"
  fx_unrealized_variance :: "rat option"
  fx_fec_contract_rate :: "rat option"

definition calculate_fx_transaction_exposure ::
    "rat \<Rightarrow> rat \<Rightarrow> rat \<Rightarrow> rat option \<Rightarrow> fx_exposure res" where
  "calculate_fx_transaction_exposure foreign_currency_amount transaction_date_spot_rate
      reporting_date_spot_rate fec_contract_rate =
     (if transaction_date_spot_rate \<le> 0 then Inl (ValueError ''transaction_date_spot_rate must be positive'')
      else if reporting_date_spot_rate \<le> 0 then Inl (ValueError ''reporting_date_spot_rate must be positive'')
      else case fec_contract_rate of
        Some fec \<Rightarrow>
          if fec \<le> 0 then Inl (ValueError ''fec_contract_rate must be positive'')
          else bindR (round_currency (dmul (dsub reporting_date_spot_rate fec) foreign_currency_amount)) (\<lambda>h.
            Inr \<lparr> fx_is_hedged = True, fx_hedging_gain_loss = Some h, fx_unrealized_variance = None,
              fx_fec_contract_rate = Some fec \<rparr>)
      | None \<Rightarrow>
          bindR (round_currency (dmul (dsub reporting_date_spot_rate transaction_date_spot_rate)
            foreign_currency_amount)) (\<lambda>u.
            Inr \<lparr> fx_is_hedged = False, fx_hedging_gain_loss = None, fx_unrealized_variance = Some u,
              fx_fec_contract_rate = None \<rparr>))"

section \<open>Lemmas\<close>

definition week_net :: "week_input \<Rightarrow> rat" where
  "week_net w = the (wi_resolved_cash_receipts w) - the (wi_forced_supplier_payments w)
     - the (wi_gate_b_operational_cost_pools w)"

definition week_gross :: "week_input \<Rightarrow> rat" where
  "week_gross w = \<bar>the (wi_resolved_cash_receipts w)\<bar> + \<bar>the (wi_forced_supplier_payments w)\<bar>
     + \<bar>the (wi_gate_b_operational_cost_pools w)\<bar>"

definition week_on_grid :: "week_input \<Rightarrow> bool" where
  "week_on_grid w \<longleftrightarrow> on_grid 4 (the (wi_resolved_cash_receipts w)) \<and>
     on_grid 4 (the (wi_forced_supplier_payments w)) \<and> on_grid 4 (the (wi_gate_b_operational_cost_pools w))"

lemma fits4I: "on_grid 4 x \<Longrightarrow> \<bar>x\<bar> < 10 ^ 23 \<Longrightarrow> fits 4 x"
  by (simp add: fits_def prec_def)

lemma position_exact:
  assumes "on_grid 4 s" "week_on_grid w" "\<bar>s\<bar> + week_gross w < 10 ^ 23"
  shows "calculate_weekly_cash_position s (the (wi_resolved_cash_receipts w))
      (the (wi_forced_supplier_payments w)) (the (wi_gate_b_operational_cost_pools w))
    = Inr \<lparr> cp_ending_cash = s + week_net w, cp_is_overdraft = (s + week_net w < 0) \<rparr>"
proof -
  define r p g where "r = the (wi_resolved_cash_receipts w)" and "p = the (wi_forced_supplier_payments w)"
    and "g = the (wi_gate_b_operational_cost_pools w)"
  have b: "\<bar>s\<bar> + (\<bar>r\<bar> + \<bar>p\<bar> + \<bar>g\<bar>) < 10 ^ 23" using assms(3) by (simp add: week_gross_def r_def p_def g_def)
  have o: "on_grid 4 r" "on_grid 4 p" "on_grid 4 g" using assms(2) by (simp_all add: week_on_grid_def r_def p_def g_def)
  have "\<bar>s + r\<bar> < 10 ^ 23" "\<bar>s + r - p\<bar> < 10 ^ 23" "\<bar>s + r - p - g\<bar> < 10 ^ 23" using b by linarith+
  then have f: "fits 4 (s + r)" "fits 4 (s + r - p)" "fits 4 (s + r - p - g)"
    using o assms(1) by (auto intro!: fits4I grid_intros)
  then have e: "round_currency (dsub (dsub (dadd s r) p) g) = Inr (s + r - p - g)"
    by (simp add: dadd_exact [OF f(1)] dsub_exact [OF f(2)] dsub_exact [OF f(3)] cur.fits_exact)
  have n: "s + week_net w = s + r - p - g" by (simp add: week_net_def r_def p_def g_def)
  show ?thesis unfolding calculate_weekly_cash_position_def r_def [symmetric] p_def [symmetric] g_def [symmetric]
    by (simp only: n e bindR_Inr)
qed

lemma week_net_bound: "\<bar>week_net w\<bar> \<le> week_gross w" "0 \<le> week_gross w"
  unfolding week_net_def week_gross_def by linarith+

lemma week_net_grid: "week_on_grid w \<Longrightarrow> on_grid 4 (week_net w)"
  by (simp add: week_on_grid_def week_net_def grid_intros)

lemma sum_week_gross_nonneg: "0 \<le> (\<Sum>w\<leftarrow>ws. week_gross w)"
  using week_net_bound(2) by (intro sum_list_nonneg) auto

text \<open>The balances and the first overdraft as plain recursions over the weeks.\<close>

fun balances :: "rat \<Rightarrow> week_input list \<Rightarrow> rat list" where
  "balances c [] = []"
| "balances c (w # ws) = (c + week_net w) # balances (c + week_net w) ws"

definition position_of :: "rat \<Rightarrow> cash_position" where
  "position_of c = \<lparr> cp_ending_cash = c, cp_is_overdraft = (c < 0) \<rparr>"

fun first_negative :: "int \<Rightarrow> rat list \<Rightarrow> int option" where
  "first_negative n [] = None"
| "first_negative n (b # bs) = (if b < 0 then Some n else first_negative (n + 1) bs)"

lemma length_balances [simp]: "length (balances c ws) = length ws"
  by (induction c ws rule: balances.induct) auto

lemma balances_nth: "k < length ws \<Longrightarrow> balances c ws ! k = c + (\<Sum>w\<leftarrow>take (Suc k) ws. week_net w)"
proof (induction c ws arbitrary: k rule: balances.induct)
  case (2 c w ws)
  then show ?case by (cases k) auto
qed simp

lemma first_negative_Some:
  "first_negative n bs = Some m \<Longrightarrow> \<exists>k < length bs. m = n + int k \<and> bs ! k < 0 \<and> (\<forall>j<k. 0 \<le> bs ! j)"
proof (induction n bs rule: first_negative.induct)
  case (2 n b bs)
  show ?case
  proof (cases "b < 0")
    case True
    then show ?thesis using 2(2) by (intro exI [of _ 0]) auto
  next
    case False
    then obtain k where "k < length bs" "m = n + 1 + int k" "bs ! k < 0" "\<forall>j<k. 0 \<le> bs ! j"
      using 2 by auto
    then show ?thesis using False by (intro exI [of _ "Suc k"]) (auto simp: nth_Cons split: nat.split)
  qed
qed simp

lemma first_negative_None: "first_negative n bs = None \<longleftrightarrow> (\<forall>b\<in>set bs. 0 \<le> b)"
  by (induction n bs rule: first_negative.induct) auto

lemma forecast_loop_exact:
  assumes "on_grid 4 c" "\<And>w. w \<in> set ws \<Longrightarrow> week_on_grid w" "\<bar>c\<bar> + (\<Sum>w\<leftarrow>ws. week_gross w) < 10 ^ 23"
  shows "forecast_loop n c f ws =
    Inr (zip (map (\<lambda>k. n + int k) [0..<length ws]) (map position_of (balances c ws)),
      (case f of Some k \<Rightarrow> Some k | None \<Rightarrow> first_negative n (balances c ws)))"
  using assms
proof (induction n c f ws rule: forecast_loop.induct)
  case (2 n c f w ws)
  have b: "\<bar>c\<bar> + week_gross w < 10 ^ 23" "\<bar>c + week_net w\<bar> + (\<Sum>w\<leftarrow>ws. week_gross w) < 10 ^ 23"
    using 2(4) sum_week_gross_nonneg [of ws] week_net_bound [of w] by auto
  have p: "calculate_weekly_cash_position c (the (wi_resolved_cash_receipts w))
      (the (wi_forced_supplier_payments w)) (the (wi_gate_b_operational_cost_pools w))
    = Inr (position_of (c + week_net w))"
    using position_exact [OF 2(2) 2(3) b(1)] by (simp add: position_of_def)
  have c': "cp_ending_cash (position_of x) = x" "cp_is_overdraft (position_of x) = (x < 0)" for x
    by (simp_all add: position_of_def)
  have g: "on_grid 4 (c + week_net w)" using 2(2,3) by (simp add: grid_intros week_net_grid)
  have ih: "forecast_loop (n + 1) (c + week_net w) (if c + week_net w < 0 \<and> f = None then Some n else f) ws =
      Inr (zip (map (\<lambda>k. n + 1 + int k) [0..<length ws]) (map position_of (balances (c + week_net w) ws)),
        (case if c + week_net w < 0 \<and> f = None then Some n else f of Some k \<Rightarrow> Some k
         | None \<Rightarrow> first_negative (n + 1) (balances (c + week_net w) ws)))"
    using 2(1) [OF p] g 2(3) b(2) unfolding c' by simp
  have ix: "map (\<lambda>k. n + int k) [0..<Suc (length ws)] = n # map (\<lambda>k. n + 1 + int k) [0..<length ws]"
    by (simp only: upt_conv_Cons zero_less_Suc list.map(2) map_Suc_upt [symmetric] map_map) (simp add: comp_def)
  show ?case
    by (simp only: forecast_loop.simps p bindR_Inr ih prod.case balances.simps list.map length_Cons ix zip_Cons_Cons c')
      (auto split: option.split)
qed (simp split: option.split)

lemma first_incomplete_None: "first_incomplete n ws = None \<longleftrightarrow> (\<forall>w\<in>set ws. missing_keys w = [])"
  by (induction n ws rule: first_incomplete.induct) auto

lemma missing_keys_empty: "missing_keys w = [] \<longleftrightarrow> wi_resolved_cash_receipts w \<noteq> None \<and>
    wi_forced_supplier_payments w \<noteq> None \<and> wi_gate_b_operational_cost_pools w \<noteq> None"
  by (auto simp: missing_keys_def)

lemma foldl_dsub_exact:
  assumes "\<And>x. x \<in> set xs \<Longrightarrow> on_grid k x" "on_grid k a" "(\<bar>a\<bar> + sum_bound xs) * 10 ^ k < 10 ^ prec"
  shows "foldl dsub a xs = a - sum_list xs"
proof -
  have "foldl dsub a xs = foldl dadd a (map uminus xs)"
    by (simp add: foldl_map dadd_def dsub_def [abs_def])
  also have "\<dots> = a + sum_list (map uminus xs)"
    using assms by (intro foldl_dadd_exact [of _ k]) (auto simp: sum_bound_def comp_def intro: on_grid_minus)
  also have "sum_list (map uminus xs) = - sum_list xs" by (induction xs) auto
  finally show ?thesis by simp
qed

lemma fx_sides:
  "calculate_fx_transaction_exposure a t r fec = Inr x \<Longrightarrow>
     0 < t \<and> 0 < r \<and> fx_fec_contract_rate x = fec \<and> (fx_is_hedged x \<longleftrightarrow> fec \<noteq> None) \<and>
     (fx_hedging_gain_loss x \<noteq> None \<longleftrightarrow> fec \<noteq> None) \<and> (fx_unrealized_variance x \<noteq> None \<longleftrightarrow> fec = None)"
  by (auto simp: calculate_fx_transaction_exposure_def res_simps not_le split: if_splits option.splits)

section \<open>Properties\<close>

text \<open>The forecast is all or nothing: it is complete exactly when 13 weeks are given and none lacks a
  figure; otherwise it is locked with the number of weeks or the first incomplete week named, and no
  balance is reported.\<close>

lemma forecast_all_or_nothing:
  "(build_13_week_cash_forecast cash ws = Inr (Locked e) \<longleftrightarrow>
      (length ws \<noteq> 13 \<and> e = Wrong_number_of_weeks (int (length ws))) \<or>
      (length ws = 13 \<and> (\<exists>n ks. first_incomplete 1 ws = Some (n, ks) \<and> e = Week_missing n ks))) \<and>
   ((\<exists>ps f. build_13_week_cash_forecast cash ws = Inr (Complete ps f)) \<longrightarrow>
      length ws = 13 \<and> (\<forall>w\<in>set ws. missing_keys w = []))"
  by (auto simp: build_13_week_cash_forecast_def bindR_eq_Inr split: option.splits
      dest: first_incomplete_None [THEN iffD1])

lemma forecast_all_or_nothing_witness:
  "build_13_week_cash_forecast 100 [] = Inr (Locked (Wrong_number_of_weeks 0))"
  using forecast_all_or_nothing [of 100 "[]" "Wrong_number_of_weeks 0"] by simp

text \<open>The running cash of a complete forecast: each week's closing balance is the opening cash plus all
  receipts less all payments and costs so far, to the last stored place, and the first overdraft week
  is the first week whose balance is negative, or none.\<close>

lemma forecast_running_cash:
  assumes "length ws = 13" "\<And>w. w \<in> set ws \<Longrightarrow> missing_keys w = [] \<and> week_on_grid w"
    and "on_grid 4 cash" "\<bar>cash\<bar> + (\<Sum>w\<leftarrow>ws. week_gross w) < 10 ^ 23"
  shows "\<exists>ps f. build_13_week_cash_forecast cash ws = Inr (Complete ps f) \<and>
    map fst ps = [1..13] \<and>
    (\<forall>k<13. cp_ending_cash (snd (ps ! k)) = cash + (\<Sum>w\<leftarrow>take (Suc k) ws. week_net w)) \<and>
    (\<forall>m. f = Some m \<longleftrightarrow> (\<exists>k<13. m = 1 + int k \<and> cash + (\<Sum>w\<leftarrow>take (Suc k) ws. week_net w) < 0 \<and>
       (\<forall>j<k. 0 \<le> cash + (\<Sum>w\<leftarrow>take (Suc j) ws. week_net w))))"
proof -
  define bs where "bs = balances cash ws"
  define ps where "ps = zip (map (\<lambda>k. 1 + int k) [0..<length ws]) (map position_of bs)"
  have lb: "length bs = 13" using assms(1) by (simp add: bs_def)
  have nth: "bs ! k = cash + (\<Sum>w\<leftarrow>take (Suc k) ws. week_net w)" if "k < 13" for k
    using that assms(1) by (simp add: bs_def balances_nth)
  have r: "build_13_week_cash_forecast cash ws = Inr (Complete ps (first_negative 1 bs))"
  proof -
    have "first_incomplete 1 ws = None" using assms(2) by (simp add: first_incomplete_None)
    then show ?thesis using forecast_loop_exact [of cash ws 1 None] assms
      by (simp add: build_13_week_cash_forecast_def ps_def bs_def)
  qed
  have "map fst ps = map (\<lambda>k. 1 + int k) [0..<13]" using lb assms(1) by (simp add: ps_def)
  also have "\<dots> = [1..13]" by (simp add: upt_rec upto.simps)
  finally have m: "map fst ps = [1..13]" .
  have e: "cp_ending_cash (snd (ps ! k)) = bs ! k" if "k < 13" for k
    using that lb assms(1) by (simp add: ps_def position_of_def)
  have "first_negative 1 bs = Some m \<longleftrightarrow> (\<exists>k<13. m = 1 + int k \<and> bs ! k < 0 \<and> (\<forall>j<k. 0 \<le> bs ! j))" for m
  proof
    assume "first_negative 1 bs = Some m"
    then show "\<exists>k<13. m = 1 + int k \<and> bs ! k < 0 \<and> (\<forall>j<k. 0 \<le> bs ! j)"
      using first_negative_Some lb by force
  next
    assume "\<exists>k<13. m = 1 + int k \<and> bs ! k < 0 \<and> (\<forall>j<k. 0 \<le> bs ! j)"
    then obtain k where k: "k < 13" "m = 1 + int k" "bs ! k < 0" "\<forall>j<k. 0 \<le> bs ! j" by blast
    obtain m' where m': "first_negative 1 bs = Some m'"
      using first_negative_None [of 1 bs] k(1,3) lb by (cases "first_negative 1 bs") (auto simp: not_less [symmetric])
    then obtain k' where k': "k' < 13" "m' = 1 + int k'" "bs ! k' < 0" "\<forall>j<k'. 0 \<le> bs ! j"
      using first_negative_Some [OF m'] lb by auto
    have "k = k'" using k(3,4) k'(3,4) by (meson linorder_neqE_nat not_le)
    then show "first_negative 1 bs = Some m" using m' k' k by simp
  qed
  moreover have "(\<exists>k<13. m = 1 + int k \<and> bs ! k < 0 \<and> (\<forall>j<k. 0 \<le> bs ! j)) \<longleftrightarrow>
      (\<exists>k<13. m = 1 + int k \<and> cash + (\<Sum>w\<leftarrow>take (Suc k) ws. week_net w) < 0 \<and>
       (\<forall>j<k. 0 \<le> cash + (\<Sum>w\<leftarrow>take (Suc j) ws. week_net w)))" for m
    by (intro iff_exI) (auto simp: nth)
  ultimately show ?thesis using r m e nth by (intro exI [of _ ps] exI [of _ "first_negative 1 bs"]) simp
qed

definition example_week :: week_input where
  "example_week = \<lparr> wi_resolved_cash_receipts = Some 100, wi_forced_supplier_payments = Some 110,
     wi_gate_b_operational_cost_pools = Some 10 \<rparr>"

lemma forecast_running_cash_witness:
  "\<exists>ps. build_13_week_cash_forecast 50 (replicate 13 example_week) = Inr (Complete ps (Some 3))"
proof -
  have w: "missing_keys example_week = []" "week_on_grid example_week" "week_gross example_week = 220"
    "week_net example_week = - 20"
    by (simp_all add: example_week_def missing_keys_def week_on_grid_def week_gross_def week_net_def)
  have "\<exists>ps f. build_13_week_cash_forecast 50 (replicate 13 example_week) = Inr (Complete ps f) \<and>
    map fst ps = [1..13] \<and>
    (\<forall>k<13. cp_ending_cash (snd (ps ! k)) = 50 + (\<Sum>w\<leftarrow>take (Suc k) (replicate 13 example_week). week_net w)) \<and>
    (\<forall>m. f = Some m \<longleftrightarrow> (\<exists>k<13. m = 1 + int k \<and> 50 + (\<Sum>w\<leftarrow>take (Suc k) (replicate 13 example_week). week_net w) < 0 \<and>
       (\<forall>j<k. 0 \<le> 50 + (\<Sum>w\<leftarrow>take (Suc j) (replicate 13 example_week). week_net w))))"
    by (rule forecast_running_cash) (use w in \<open>auto simp: sum_list_replicate\<close>)
  then obtain ps f where r: "build_13_week_cash_forecast 50 (replicate 13 example_week) = Inr (Complete ps f)"
    and f: "\<And>m. f = Some m \<longleftrightarrow> (\<exists>k<13. m = 1 + int k \<and> 50 + (\<Sum>w\<leftarrow>take (Suc k) (replicate 13 example_week). week_net w) < 0 \<and>
       (\<forall>j<k. 0 \<le> 50 + (\<Sum>w\<leftarrow>take (Suc j) (replicate 13 example_week). week_net w)))" by blast
  have "f = Some 3"
    unfolding f by (intro exI [of _ 2] conjI allI impI) (auto simp: w sum_list_replicate take_replicate less_Suc_eq)
  with r show ?thesis by blast
qed

text \<open>The waterfall never invents a zero: it is complete exactly when all six lines are given, then
  net revenue is gross sales less the four deductions plus the two signed lines; otherwise every
  missing line is listed and no net revenue is reported.\<close>

lemma waterfall_complete:
  assumes g: "on_grid 4 (gw_gross_sales i)" "\<bar>gw_gross_sales i\<bar> < 10 ^ 14"
    and l: "\<And>n v. (n, Some v) \<in> set (all_line_values i) \<Longrightarrow> amount v"
  shows "(if \<exists>n. (n, None) \<in> set (all_line_values i)
     then \<exists>ms. calculate_gross_to_net_waterfall i = Inr (Incomplete ms (gw_gross_sales i)) \<and>
       set ms = {n. (n, None) \<in> set (all_line_values i)}
     else \<exists>ls. calculate_gross_to_net_waterfall i = Inr (Net_revenue (gw_gross_sales i)
       (gw_gross_sales i - the (gw_settlement_discounts i) - the (gw_volume_growth_rebates i)
        - the (gw_credit_notes_issued i) - the (gw_operational_claims_returns i)
        + the (gw_retro_pricing_adjustment i) + the (gw_supplier_recoveries_allowances i)) ls))"
proof -
  have rg: "round_currency (gw_gross_sales i) = Inr (gw_gross_sales i)"
    using g by (intro round_amount) (simp add: amount_def)
  let ?missing = "map fst (filter (\<lambda>(n, v). v = None) (all_line_values i))"
  have "set (map fst (filter (\<lambda>(n, v). v = None) xs)) = {n. (n, None) \<in> set xs}" for xs :: "(string \<times> rat option) list"
    by (auto simp: image_iff)
  then have sm: "set ?missing = {n. (n, None) \<in> set (all_line_values i)}" .
  show ?thesis
  proof (cases "\<exists>n. (n, None) \<in> set (all_line_values i)")
    case True
    then have "set ?missing \<noteq> {}" unfolding sm by blast
    then have "?missing \<noteq> []" by (metis set_empty)
    then have "calculate_gross_to_net_waterfall i = Inr (Incomplete ?missing (gw_gross_sales i))"
      unfolding calculate_gross_to_net_waterfall_def Let_def by (simp only: if_True not_False_eq_True rg bindR_Inr)
    with True sm show ?thesis by (simp only: if_True) blast
  next
    case False
    have nn: "(n, None) \<notin> set (all_line_values i)" for n using False by blast
    obtain a where v1: "gw_settlement_discounts i = Some a" using nn [of "''settlement_discounts''"] by (cases "gw_settlement_discounts i") (simp_all add: all_line_values_def)
    obtain b where v2: "gw_volume_growth_rebates i = Some b" using nn [of "''volume_growth_rebates''"] by (cases "gw_volume_growth_rebates i") (simp_all add: all_line_values_def)
    obtain c where v3: "gw_credit_notes_issued i = Some c" using nn [of "''credit_notes_issued''"] by (cases "gw_credit_notes_issued i") (simp_all add: all_line_values_def)
    obtain d where v4: "gw_operational_claims_returns i = Some d" using nn [of "''operational_claims_returns''"] by (cases "gw_operational_claims_returns i") (simp_all add: all_line_values_def)
    obtain e where v5: "gw_retro_pricing_adjustment i = Some e" using nn [of "''retro_pricing_adjustment''"] by (cases "gw_retro_pricing_adjustment i") (simp_all add: all_line_values_def)
    obtain f where v6: "gw_supplier_recoveries_allowances i = Some f" using nn [of "''supplier_recoveries_allowances''"] by (cases "gw_supplier_recoveries_allowances i") (simp_all add: all_line_values_def)
    note v = v1 v2 v3 v4 v5 v6
    have am: "amount a" "amount b" "amount c" "amount d" "amount e" "amount f"
      using l [of "''settlement_discounts''" a] l [of "''volume_growth_rebates''" b]
        l [of "''credit_notes_issued''" c] l [of "''operational_claims_returns''" d]
        l [of "''retro_pricing_adjustment''" e] l [of "''supplier_recoveries_allowances''" f]
      by (simp_all add: all_line_values_def v)
    have bd: "\<bar>a\<bar> < 10 ^ 14" "\<bar>b\<bar> < 10 ^ 14" "\<bar>c\<bar> < 10 ^ 14" "\<bar>d\<bar> < 10 ^ 14" "\<bar>e\<bar> < 10 ^ 14" "\<bar>f\<bar> < 10 ^ 14"
      and gr: "on_grid 4 a" "on_grid 4 b" "on_grid 4 c" "on_grid 4 d" "on_grid 4 e" "on_grid 4 f"
      using am by (simp_all add: amount_def)
    let ?x = "gw_gross_sales i - (a + b + c + d)"
    have sb: "sum_bound [a, b, c, d] < 4 * 10 ^ 14" "sum_bound [e, f] < 2 * 10 ^ 14"
      using bd by (simp_all add: sum_bound_def)
    have s1: "foldl dsub (gw_gross_sales i) [a, b, c, d] = ?x"
    proof -
      have "(\<bar>gw_gross_sales i\<bar> + sum_bound [a, b, c, d]) * 10 ^ 4 < 10 ^ prec"
        using g(2) sb(1) by (simp add: prec_def)
      then show ?thesis using foldl_dsub_exact [of "[a, b, c, d]" 4 "gw_gross_sales i", OF _ g(1)] gr
        by (simp only: set_simps insert_iff empty_iff) (auto simp: add.assoc)
    qed
    have b1: "\<bar>?x\<bar> < 5 * 10 ^ 14" using g(2) bd unfolding abs_less_iff by simp
    have g1: "on_grid 4 ?x" using g(1) gr by (simp add: grid_intros)
    have s2: "foldl dadd ?x [e, f] = ?x + (e + f)"
    proof -
      have "(\<bar>?x\<bar> + sum_bound [e, f]) * 10 ^ 4 < 10 ^ prec" using b1 sb(2) by (simp add: prec_def)
      then show ?thesis using foldl_dadd_exact [of "[e, f]" 4 ?x, OF _ g1] gr
        by (simp only: set_simps insert_iff empty_iff) auto
    qed
    have "\<bar>?x + (e + f)\<bar> < 10 ^ 23" using b1 bd(5,6) unfolding abs_less_iff by simp
    then have s3: "round_currency (?x + (e + f)) = Inr (?x + (e + f))"
      using g1 gr by (intro cur.fits_exact fits4I) (simp_all add: grid_intros)
    have "?missing = []" by (simp add: all_line_values_def v)
    then have "\<exists>ls. calculate_gross_to_net_waterfall i = Inr (Net_revenue (gw_gross_sales i) (?x + (e + f)) ls)"
      using s1 s2 s3 rg am unfolding calculate_gross_to_net_waterfall_def Let_def
      by (simp add: all_line_values_def v)
    moreover have "?x + (e + f) = gw_gross_sales i - a - b - c - d + e + f" by simp
    ultimately show ?thesis using False by (simp only: v option.sel if_False)
  qed
qed

lemma waterfall_complete_witness:
  "\<exists>ls. calculate_gross_to_net_waterfall (waterfall_input.make 1000 (Some 10) (Some 20) (Some 30) (Some 40) (Some (- 5)) (Some 15))
     = Inr (Net_revenue 1000 910 ls)"
proof -
  let ?i = "waterfall_input.make 1000 (Some 10) (Some 20) (Some 30) (Some 40) (Some (- 5)) (Some 15) :: waterfall_input"
  have "amount v" if "(n, Some v) \<in> set (all_line_values ?i)" for n v
    using that by (auto simp: all_line_values_def waterfall_input.defs amount_def)
  with waterfall_complete [of ?i] show ?thesis by (simp add: waterfall_input.defs all_line_values_def)
qed

text \<open>A transaction is either hedged or exposed, never both: exactly one of the hedging result and the
  unrealized variance is reported, according to whether a forward contract covers it, and the spot
  rates are positive.\<close>

lemma fx_never_double_counted:
  assumes "calculate_fx_transaction_exposure a t r fec = Inr x"
  shows "0 < t \<and> 0 < r \<and> (fx_hedging_gain_loss x = None \<longleftrightarrow> fx_unrealized_variance x \<noteq> None) \<and>
    (fx_is_hedged x \<longleftrightarrow> fec \<noteq> None) \<and> (fx_hedging_gain_loss x \<noteq> None \<longleftrightarrow> fec \<noteq> None)"
  using fx_sides [OF assms] by auto

lemma fx_never_double_counted_witness:
  "\<exists>x. calculate_fx_transaction_exposure 1000 18 19 (Some (37 / 2)) = Inr x \<and>
     fx_hedging_gain_loss x = Some 500 \<and> fx_unrealized_variance x = None"
proof -
  have x: "calculate_fx_transaction_exposure 1000 18 19 (Some (37 / 2)) =
    Inr \<lparr> fx_is_hedged = True, fx_hedging_gain_loss = Some 500, fx_unrealized_variance = None,
      fx_fec_contract_rate = Some (37 / 2) \<rparr>"
    by (simp add: calculate_fx_transaction_exposure_def dec_eval cong: bindR_weak_cong)
  from fx_never_double_counted [OF x] x show ?thesis by simp
qed

end
