(* ===== verification/PyDate.thy ===== *)
theory PyDate
  imports Prelude
begin

text \<open>
  \<open>datetime.date\<close> of the standard library: the proleptic Gregorian calendar with years 1 to
  9999.  A date is year, month and day; \<open>mk_date\<close> is the checked constructor, \<open>toordinal\<close> and
  \<open>fromordinal\<close> follow CPython's \<open>_ymd2ord\<close> and \<open>_ord2ymd\<close>, subtraction of two dates gives
  days, and \<open>date_minus_days\<close> is subtraction of a \<open>timedelta(days=n)\<close>.  The order of Python
  dates is lexicographic, an instance of \<open>linorder\<close>; on valid dates it agrees with the order
  of the ordinals.
\<close>

datatype pydate = PyDate (year: int) (month: int) (day: int)

instantiation pydate :: linorder
begin

definition less_eq_pydate :: "pydate \<Rightarrow> pydate \<Rightarrow> bool" where
  "less_eq_pydate a b = (year a < year b \<or> year a = year b \<and>
     (month a < month b \<or> month a = month b \<and> day a \<le> day b))"

definition less_pydate :: "pydate \<Rightarrow> pydate \<Rightarrow> bool" where
  "less_pydate a b = (year a < year b \<or> year a = year b \<and>
     (month a < month b \<or> month a = month b \<and> day a < day b))"

instance
  by standard (auto simp: less_eq_pydate_def less_pydate_def pydate.expand)

end

definition is_leap :: "int \<Rightarrow> bool" where
  "is_leap y = (y mod 4 = 0 \<and> (y mod 100 \<noteq> 0 \<or> y mod 400 = 0))"

definition month_days :: "int list" where
  "month_days = [31, 28, 31, 30, 31, 30, 31, 31, 30, 31, 30, 31]"

definition days_before :: "int list" where
  "days_before = [0, 31, 59, 90, 120, 151, 181, 212, 243, 273, 304, 334]"

definition cal_days_in_month :: "int \<Rightarrow> int \<Rightarrow> int" where
  "cal_days_in_month y m = month_days ! nat (m - 1) + (if m = 2 \<and> is_leap y then 1 else 0)"

definition days_before_month :: "int \<Rightarrow> int \<Rightarrow> int" where
  "days_before_month y m = days_before ! nat (m - 1) + (if 2 < m \<and> is_leap y then 1 else 0)"

definition days_before_year :: "int \<Rightarrow> int" where
  "days_before_year y = (let p = y - 1 in p * 365 + p div 4 - p div 100 + p div 400)"

definition valid_date :: "pydate \<Rightarrow> bool" where
  "valid_date d = (1 \<le> year d \<and> year d \<le> 9999 \<and> 1 \<le> month d \<and> month d \<le> 12 \<and>
     1 \<le> day d \<and> day d \<le> cal_days_in_month (year d) (month d))"

definition mk_date :: "int \<Rightarrow> int \<Rightarrow> int \<Rightarrow> pydate res" where
  "mk_date y m d = (if valid_date (PyDate y m d) then Inr (PyDate y m d)
     else Inl (ValueError ''date out of range''))"

definition toordinal :: "pydate \<Rightarrow> int" where
  "toordinal d = days_before_year (year d) + days_before_month (year d) (month d) + day d"

definition max_ordinal :: int where "max_ordinal = 3652059"

text \<open>The month and day of the \<open>n\<close>-th day (from 0) of a year, by CPython's estimate.\<close>

definition month_day_of :: "bool \<Rightarrow> int \<Rightarrow> int \<times> int" where
  "month_day_of leap n =
     (let m = (n + 50) div 32;
          pre = days_before ! nat (m - 1) + (if 2 < m \<and> leap then 1 else 0)
      in if n < pre
         then (let m' = m - 1;
                   pre' = pre - (month_days ! nat (m' - 1) + (if m' = 2 \<and> leap then 1 else 0))
               in (m', n - pre' + 1))
         else (m, n - pre + 1))"

definition ord2ymd :: "int \<Rightarrow> pydate" where
  "ord2ymd k =
     (let n = k - 1; n400 = n div 146097; r400 = n mod 146097;
          n100 = r400 div 36524; r100 = r400 mod 36524;
          n4 = r100 div 1461; r4 = r100 mod 1461;
          n1 = r4 div 365; r1 = r4 mod 365;
          y = n400 * 400 + 1 + n100 * 100 + n4 * 4 + n1
      in if n1 = 4 \<or> n100 = 4 then PyDate (y - 1) 12 31
         else (case month_day_of (n1 = 3 \<and> (n4 \<noteq> 24 \<or> n100 = 3)) r1 of (m, d) \<Rightarrow> PyDate y m d))"

definition fromordinal :: "int \<Rightarrow> pydate res" where
  "fromordinal k = (if 1 \<le> k \<and> k \<le> max_ordinal then Inr (ord2ymd k) else Inl OverflowError)"

definition date_minus_days :: "pydate \<Rightarrow> int \<Rightarrow> pydate res" where
  "date_minus_days d n = fromordinal (toordinal d - n)"

definition days_between :: "pydate \<Rightarrow> pydate \<Rightarrow> int" where
  "days_between a b = toordinal a - toordinal b"

section \<open>Years and months\<close>

lemma div_pred: assumes "0 < (k::int)" shows "y div k = (y - 1) div k + (if y mod k = 0 then 1 else 0)"
proof -
  define q r where "q = y div k" and "r = y mod k"
  have y: "y = k * q + r" by (simp add: q_def r_def)
  have r: "0 \<le> r" "r < k" using assms by (simp_all add: r_def)
  show ?thesis
  proof (cases "r = 0")
    case True
    then have "y - 1 = k * (q - 1) + (k - 1)" by (simp add: y algebra_simps)
    then have "(y - 1) div k = q - 1" by (rule int_div_pos_eq) (use assms in auto)
    with True show ?thesis by (simp add: q_def r_def)
  next
    case False
    have "y - 1 = k * q + (r - 1)" by (simp add: y)
    then have "(y - 1) div k = q" by (rule int_div_pos_eq) (use False r in auto)
    with False show ?thesis by (simp add: q_def r_def)
  qed
qed

lemma days_before_year_Suc: "days_before_year (y + 1) = days_before_year y + (if is_leap y then 366 else 365)"
proof -
  have d: "y mod 400 = 0 \<Longrightarrow> y mod 100 = 0" "y mod 100 = 0 \<Longrightarrow> y mod 4 = 0"
    using dvd_trans [of 100 400 y] dvd_trans [of 4 100 y] by (simp_all only: mod_eq_0_iff_dvd) simp_all
  have p: "y div 4 = (y - 1) div 4 + (if y mod 4 = 0 then 1 else 0)"
    "y div 100 = (y - 1) div 100 + (if y mod 100 = 0 then 1 else 0)"
    "y div 400 = (y - 1) div 400 + (if y mod 400 = 0 then 1 else 0)"
    by (rule div_pred, simp)+
  have e: "days_before_year (y + 1) - days_before_year y =
      365 + (y div 4 - (y - 1) div 4) - (y div 100 - (y - 1) div 100) + (y div 400 - (y - 1) div 400)"
    by (simp add: days_before_year_def Let_def)
  have i: "y div 4 - (y - 1) div 4 = (if y mod 4 = 0 then 1 else 0)"
    "y div 100 - (y - 1) div 100 = (if y mod 100 = 0 then 1 else 0)"
    "y div 400 - (y - 1) div 400 = (if y mod 400 = 0 then 1 else 0)"
    using p by linarith+
  show ?thesis
  proof (cases "y mod 4 = 0")
    case True
    then show ?thesis using e d unfolding i is_leap_def by (cases "y mod 100 = 0"; cases "y mod 400 = 0") simp_all
  next
    case False
    then have "y mod 100 \<noteq> 0" "y mod 400 \<noteq> 0" using d by auto
    with False e show ?thesis unfolding i is_leap_def by simp
  qed
qed

lemma days_before_year_mono: "a \<le> b \<Longrightarrow> days_before_year a \<le> days_before_year b"
proof (induction b rule: int_ge_induct)
  case (step b)
  then show ?case using days_before_year_Suc [of b] by (simp split: if_splits)
qed simp

lemma month_cases:
  assumes "1 \<le> (m::int)" "m \<le> 12"
  shows "m = 1 \<or> m = 2 \<or> m = 3 \<or> m = 4 \<or> m = 5 \<or> m = 6 \<or> m = 7 \<or> m = 8 \<or> m = 9 \<or> m = 10 \<or> m = 11 \<or> m = 12"
  using assms by presburger

lemmas month_defs = cal_days_in_month_def days_before_month_def month_days_def days_before_def

lemma cal_days_bounds: "1 \<le> m \<Longrightarrow> m \<le> 12 \<Longrightarrow> 28 \<le> cal_days_in_month y m \<and> cal_days_in_month y m \<le> 31"
  by (drule (1) month_cases) (auto simp: month_defs)

lemma days_before_month_step:
  "1 \<le> m \<Longrightarrow> m < 12 \<Longrightarrow> days_before_month y (m + 1) = days_before_month y m + cal_days_in_month y m"
  using month_cases [of m] by (auto simp: month_defs)

lemma days_before_month_last:
  "days_before_month y 12 + cal_days_in_month y 12 = (if is_leap y then 366 else 365)"
  by (simp add: month_defs)

lemma days_before_month_mono:
  assumes "1 \<le> a" "a \<le> b" "b \<le> 12" shows "days_before_month y a \<le> days_before_month y b"
  using assms(2,3)
proof (induction b rule: int_ge_induct)
  case (step b)
  then show ?case using days_before_month_step [of b y] cal_days_bounds [of b y] assms(1) by simp
qed simp

lemma days_before_month_lt:
  assumes "1 \<le> a" "a < b" "b \<le> 12"
  shows "days_before_month y a + cal_days_in_month y a \<le> days_before_month y b"
  using days_before_month_mono [of "a + 1" b y] days_before_month_step [of a y] assms by simp

lemma days_before_month_end:
  assumes "1 \<le> m" "m \<le> 12"
  shows "days_before_month y m + cal_days_in_month y m \<le> (if is_leap y then 366 else 365)"
proof (cases "m = 12")
  case False
  then show ?thesis
    using days_before_month_lt [of m 12 y] days_before_month_last [of y] cal_days_bounds [of 12 y] assms
    by simp
qed (simp only: days_before_month_last order_refl)

section \<open>The order of dates is the order of their ordinals\<close>

lemma ordinal_in_year:
  assumes "valid_date d"
  shows "days_before_year (year d) < toordinal d" "toordinal d \<le> days_before_year (year d + 1)"
proof -
  have m: "1 \<le> month d" "month d \<le> 12" "1 \<le> day d" "day d \<le> cal_days_in_month (year d) (month d)"
    using assms by (simp_all add: valid_date_def)
  have "0 \<le> days_before_month (year d) (month d)"
    using days_before_month_mono [of 1 "month d" "year d"] m by (simp add: month_defs)
  then show "days_before_year (year d) < toordinal d" using m by (simp add: toordinal_def)
  show "toordinal d \<le> days_before_year (year d + 1)"
    using days_before_month_end [of "month d" "year d"] m by (simp add: toordinal_def days_before_year_Suc)
qed

lemma toordinal_strict_mono:
  assumes a: "valid_date a" and b: "valid_date b" and l: "a < b"
  shows "toordinal a < toordinal b"
proof -
  consider "year a < year b" | "year a = year b" "month a < month b"
    | "year a = year b" "month a = month b" "day a < day b"
    using l by (auto simp: less_pydate_def)
  then show ?thesis
  proof cases
    case 1
    then show ?thesis
      using ordinal_in_year(2) [OF a] ordinal_in_year(1) [OF b] days_before_year_mono [of "year a + 1" "year b"]
      by linarith
  next
    case 2
    then show ?thesis
      using days_before_month_lt [of "month a" "month b" "year b"] a b
      by (simp add: toordinal_def valid_date_def)
  qed (simp add: toordinal_def)
qed

lemma toordinal_less_iff: "valid_date a \<Longrightarrow> valid_date b \<Longrightarrow> toordinal a < toordinal b \<longleftrightarrow> a < b"
  by (metis toordinal_strict_mono less_irrefl less_trans linorder_neqE)

lemma toordinal_le_iff: "valid_date a \<Longrightarrow> valid_date b \<Longrightarrow> toordinal a \<le> toordinal b \<longleftrightarrow> a \<le> b"
  by (meson toordinal_less_iff not_less)

lemma toordinal_inj: "valid_date a \<Longrightarrow> valid_date b \<Longrightarrow> toordinal a = toordinal b \<longleftrightarrow> a = b"
  by (metis toordinal_strict_mono less_irrefl linorder_neqE)

lemma days_between_pos: "valid_date a \<Longrightarrow> valid_date b \<Longrightarrow> 0 < days_between a b \<longleftrightarrow> b < a"
  by (simp add: days_between_def toordinal_less_iff)

lemma days_between_nonneg: "valid_date a \<Longrightarrow> valid_date b \<Longrightarrow> 0 \<le> days_between a b \<longleftrightarrow> b \<le> a"
  by (simp add: days_between_def toordinal_le_iff)

lemma days_between_self [simp]: "days_between a a = 0"
  by (simp add: days_between_def)

section \<open>Ordinals and back\<close>

definition month_day_ok :: "bool \<Rightarrow> int \<Rightarrow> bool" where
  "month_day_ok leap n = (case month_day_of leap n of (m, d) \<Rightarrow>
     1 \<le> m \<and> m \<le> 12 \<and> 1 \<le> d \<and>
     d \<le> month_days ! nat (m - 1) + (if m = 2 \<and> leap then 1 else 0) \<and>
     days_before ! nat (m - 1) + (if 2 < m \<and> leap then 1 else 0) + d = n + 1)"

lemma month_day_table:
  "list_all (month_day_ok False) [0..364]" "list_all (month_day_ok True) [0..365]"
  by code_simp+

lemma month_day_of_ok:
  assumes "0 \<le> n" "n \<le> (if leap then 365 else 364)" shows "month_day_ok leap n"
  using month_day_table assms by (cases leap) (simp_all add: list_all_iff)

text \<open>The decomposition of an ordinal into cycles of 400, 100, 4 and 1 years.\<close>

lemma days_before_cycles:
  assumes "0 \<le> n1" "n1 \<le> 3" "0 \<le> n4" "n4 \<le> 24" "0 \<le> n100" "n100 \<le> 3"
  shows "days_before_year (n400 * 400 + 1 + n100 * 100 + n4 * 4 + n1)
     = n400 * 146097 + n100 * 36524 + n4 * 1461 + n1 * 365"
    and "is_leap (n400 * 400 + 1 + n100 * 100 + n4 * 4 + n1)
     \<longleftrightarrow> n1 = 3 \<and> (n4 \<noteq> 24 \<or> n100 = 3)"
proof -
  define p where "p = n400 * 400 + n100 * 100 + n4 * 4 + n1"
  have "p = 4 * (n400 * 100 + n100 * 25 + n4) + n1" by (simp add: p_def)
  then have d4: "p div 4 = n400 * 100 + n100 * 25 + n4" by (rule int_div_pos_eq) (use assms in auto)
  have "p = 100 * (n400 * 4 + n100) + (n4 * 4 + n1)" by (simp add: p_def)
  then have d100: "p div 100 = n400 * 4 + n100" by (rule int_div_pos_eq) (use assms in auto)
  have "p = 400 * n400 + (n100 * 100 + n4 * 4 + n1)" by (simp add: p_def)
  then have d400: "p div 400 = n400" by (rule int_div_pos_eq) (use assms in auto)
  have y: "n400 * 400 + 1 + n100 * 100 + n4 * 4 + n1 = p + 1" by (simp add: p_def)
  show "days_before_year (n400 * 400 + 1 + n100 * 100 + n4 * 4 + n1)
     = n400 * 146097 + n100 * 36524 + n4 * 1461 + n1 * 365"
    unfolding y days_before_year_def by (simp add: d4 d100 d400) (simp add: p_def)
  have "p + 1 = n1 + 1 + 4 * (n400 * 100 + n100 * 25 + n4)" by (simp add: p_def)
  then have m4: "(p + 1) mod 4 = (n1 + 1) mod 4" by (simp only: mod_mult_self2)
  have "p + 1 = n4 * 4 + n1 + 1 + 100 * (n400 * 4 + n100)" by (simp add: p_def)
  then have m100: "(p + 1) mod 100 = (n4 * 4 + n1 + 1) mod 100" by (simp only: mod_mult_self2)
  have "p + 1 = n100 * 100 + n4 * 4 + n1 + 1 + 400 * n400" by (simp add: p_def)
  then have m400: "(p + 1) mod 400 = (n100 * 100 + n4 * 4 + n1 + 1) mod 400" by (simp only: mod_mult_self2)
  have "(n1 + 1) mod 4 = 0 \<longleftrightarrow> n1 = 3" using assms by (cases "n1 = 3") auto
  moreover have "(n4 * 4 + n1 + 1) mod 100 = 0 \<longleftrightarrow> n4 = 24 \<and> n1 = 3"
    using assms by (cases "n4 * 4 + n1 + 1 = 100") auto
  moreover have "(n100 * 100 + n4 * 4 + n1 + 1) mod 400 = 0 \<longleftrightarrow> n100 = 3 \<and> n4 = 24 \<and> n1 = 3"
  proof (cases "n100 * 100 + n4 * 4 + n1 + 1 = 400")
    case True
    moreover from this have "n100 = 3" "n4 = 24" "n1 = 3" using assms by linarith+
    ultimately show ?thesis by simp
  qed (use assms in auto)
  ultimately show "is_leap (n400 * 400 + 1 + n100 * 100 + n4 * 4 + n1)
     \<longleftrightarrow> n1 = 3 \<and> (n4 \<noteq> 24 \<or> n100 = 3)"
    unfolding y is_leap_def m4 m100 m400 by auto
qed


text \<open>Every ordinal from 1 to the maximum is the ordinal of the valid date \<open>ord2ymd\<close> computes.\<close>

lemma ord2ymd_correct:
  assumes "1 \<le> k" "k \<le> max_ordinal"
  shows "valid_date (ord2ymd k)" and "toordinal (ord2ymd k) = k"
proof -
  define n where "n = k - 1"
  define n400 where "n400 = n div 146097"
  define r400 where "r400 = n mod 146097"
  define n100 where "n100 = r400 div 36524"
  define r100 where "r100 = r400 mod 36524"
  define n4 where "n4 = r100 div 1461"
  define r4 where "r4 = r100 mod 1461"
  define n1 where "n1 = r4 div 365"
  define r1 where "r1 = r4 mod 365"
  have e1: "n = 146097 * n400 + r400" by (simp add: n400_def r400_def)
  have e2: "r400 = 36524 * n100 + r100" by (simp add: n100_def r100_def)
  have e3: "r100 = 1461 * n4 + r4" by (simp add: n4_def r4_def)
  have e4: "r4 = 365 * n1 + r1" by (simp add: n1_def r1_def)
  have nn: "0 \<le> n" "n < 3652059" using assms by (simp_all add: n_def max_ordinal_def)
  have r: "0 \<le> r400" "r400 < 146097" "0 \<le> r100" "r100 < 36524" "0 \<le> r4" "r4 < 1461" "0 \<le> r1" "r1 < 365"
    by (simp_all add: r400_def r100_def r4_def r1_def)
  have b400: "0 \<le> n400" "n400 \<le> 24" using e1 nn r by linarith+
  have b100: "0 \<le> n100" "n100 \<le> 4" using e2 r by linarith+
  have b4: "0 \<le> n4" "n4 \<le> 24" using e3 r by linarith+
  have b1: "0 \<le> n1" "n1 \<le> 4" using e4 r by linarith+
  define y where "y = n400 * 400 + 1 + n100 * 100 + n4 * 4 + n1"
  have k: "k = n400 * 146097 + n100 * 36524 + n4 * 1461 + n1 * 365 + r1 + 1"
    using e1 e2 e3 e4 n_def by linarith
  have o: "ord2ymd k = (if n1 = 4 \<or> n100 = 4 then PyDate (y - 1) 12 31
     else (case month_day_of (n1 = 3 \<and> (n4 \<noteq> 24 \<or> n100 = 3)) r1 of (m, d) \<Rightarrow> PyDate y m d))"
    by (simp add: ord2ymd_def Let_def n_def n400_def r400_def n100_def r100_def n4_def r4_def n1_def r1_def y_def)
  have n400_9999: "n400 = 24 \<Longrightarrow> n100 \<noteq> 4"
    using e1 e2 nn r by linarith
  have "valid_date (ord2ymd k) \<and> toordinal (ord2ymd k) = k"
  proof (cases "n1 = 4 \<or> n100 = 4")
    case True
    have dec31: "valid_date (PyDate Y 12 31) \<and> toordinal (PyDate Y 12 31) = days_before_year (Y + 1)"
      if "1 \<le> Y" "Y \<le> 9999" for Y
      using that days_before_month_last [of Y]
      by (simp add: valid_date_def toordinal_def month_defs days_before_year_Suc)
    show ?thesis
    proof (cases "n100 = 4")
      case h: True
      then have z: "n4 = 0" "n1 = 0" "r1 = 0" using e2 e3 e4 r b4 b1 by linarith+
      have "y = (n400 + 1) * 400 + 1" by (simp add: y_def h z)
      moreover from this have "days_before_year y = k"
        using days_before_cycles(1) [of 0 0 0 "n400 + 1"] by (simp add: k h z algebra_simps)
      moreover have "n400 \<noteq> 24" using n400_9999 h by blast
      ultimately show ?thesis using dec31 [of "y - 1"] b400 by (simp add: o h)
    next
      case h: False
      with True have f: "n1 = 4" by simp
      then have z: "r1 = 0" using e4 r by linarith
      have q: "n4 \<noteq> 24" using e3 e4 f r by linarith
      have "y = n400 * 400 + 1 + n100 * 100 + (n4 + 1) * 4 + 0" by (simp add: y_def f)
      moreover from this have "days_before_year y = k"
        using days_before_cycles(1) [of 0 "n4 + 1" n100 n400] b4 b100 h q by (simp add: k f z algebra_simps)
      ultimately show ?thesis using dec31 [of "y - 1"] b400 b100 b4 h q by (simp add: o f)
    qed
  next
    case False
    then have c: "0 \<le> n1" "n1 \<le> 3" "0 \<le> n100" "n100 \<le> 3" using b1 b100 by auto
    have dy: "days_before_year y = n400 * 146097 + n100 * 36524 + n4 * 1461 + n1 * 365"
      and lp: "is_leap y \<longleftrightarrow> n1 = 3 \<and> (n4 \<noteq> 24 \<or> n100 = 3)"
      unfolding y_def by (rule days_before_cycles; use c b4 in simp)+
    obtain m d where md: "month_day_of (is_leap y) r1 = (m, d)" by (cases "month_day_of (is_leap y) r1")
    have "month_day_ok (is_leap y) r1" using r by (intro month_day_of_ok) auto
    then have ok: "1 \<le> m" "m \<le> 12" "1 \<le> d" "d \<le> cal_days_in_month y m" "days_before_month y m + d = r1 + 1"
      by (simp_all add: month_day_ok_def md cal_days_in_month_def days_before_month_def)
    have "1 \<le> y" using b400 c b4 by (simp add: y_def)
    moreover have "y \<le> 9999"
    proof (rule ccontr)
      assume "\<not> y \<le> 9999"
      then have "n400 = 24" "n100 = 3" "n4 = 24" "n1 = 3" using b400 c b4 by (simp_all add: y_def)
      with e1 e2 e3 e4 nn r show False by simp
    qed
    moreover have "ord2ymd k = PyDate y m d" unfolding o using False md [unfolded lp] by simp
    moreover have "toordinal (PyDate y m d) = k" using ok(5) by (simp add: toordinal_def dy k)
    ultimately show ?thesis using ok by (simp add: valid_date_def)
  qed
  then show "valid_date (ord2ymd k)" "toordinal (ord2ymd k) = k" by simp_all
qed

lemma toordinal_range:
  assumes "valid_date d" shows "1 \<le> toordinal d" "toordinal d \<le> max_ordinal"
proof -
  have y: "1 \<le> year d" "year d \<le> 9999" using assms by (simp_all add: valid_date_def)
  have "days_before_year 1 = 0" "days_before_year 10000 = max_ordinal"
    by (simp_all add: days_before_year_def max_ordinal_def)
  then show "1 \<le> toordinal d" "toordinal d \<le> max_ordinal"
    using ordinal_in_year [OF assms] days_before_year_mono [of 1 "year d"]
      days_before_year_mono [of "year d + 1" 10000] y by linarith+
qed

lemma fromordinal_toordinal: "valid_date d \<Longrightarrow> fromordinal (toordinal d) = Inr d"
  using toordinal_range [of d] ord2ymd_correct [of "toordinal d"]
  by (simp add: fromordinal_def toordinal_inj)

lemma fromordinal_InrD:
  "fromordinal k = Inr d \<Longrightarrow> valid_date d \<and> toordinal d = k"
  using ord2ymd_correct [of k] by (auto simp: fromordinal_def split: if_splits)

lemma date_minus_days_InrD:
  "date_minus_days d n = Inr e \<Longrightarrow> valid_date e \<and> days_between d e = n"
  by (auto simp: date_minus_days_def days_between_def dest!: fromordinal_InrD)

lemma date_minus_days_ok:
  "valid_date d \<Longrightarrow> 0 \<le> n \<Longrightarrow> n < toordinal d \<Longrightarrow> \<exists>e. date_minus_days d n = Inr e"
  using toordinal_range [of d] by (simp add: date_minus_days_def fromordinal_def)

lemma mk_date_InrD: "mk_date y m d = Inr e \<Longrightarrow> e = PyDate y m d \<and> valid_date e"
  by (auto simp: mk_date_def split: if_splits)

end
