(* ===== verification/Tiers.thy ===== *)
theory Tiers
  imports Prelude
begin

text \<open>
  Selection of a tier: \<open>max(applicable, key=...)\<close> and \<open>sorted(..., key=...)[0]\<close> over a list of bands,
  as the rebate and the contract modules both use them.  Python's \<open>max\<close> returns the first maximal
  element and \<open>sorted\<close> is stable, as \<open>sort_key\<close> is.

  The locale \<open>tier_selection\<close> is what the callers rely on: a choice function that returns a reached
  band with the highest threshold, and nothing exactly when no band is reached.  What follows from
  that (a higher spend selects a higher threshold; below the next threshold the choice does not
  change) is proved once inside it.
\<close>

fun max_by :: "('a \<Rightarrow> 'k::linorder) \<Rightarrow> 'a \<Rightarrow> 'a list \<Rightarrow> 'a" where
  "max_by key best [] = best"
| "max_by key best (x # xs) = max_by key (if key best < key x then x else best) xs"

lemma max_by_in: "max_by key b xs \<in> insert b (set xs)"
proof (induction xs arbitrary: b)
  case (Cons x xs)
  then show ?case using Cons.IH [of x] Cons.IH [of b] by auto
qed simp

lemma max_by_ge_acc: "key b \<le> key (max_by key b xs)"
proof (induction xs arbitrary: b)
  case (Cons x xs)
  have "key b \<le> key (if key b < key x then x else b)" by auto
  also have "\<dots> \<le> key (max_by key (if key b < key x then x else b) xs)" by (rule Cons.IH)
  finally show ?case by simp
qed simp

lemma max_by_ge: "x \<in> insert b (set xs) \<Longrightarrow> key x \<le> key (max_by key b xs)"
proof (induction xs arbitrary: b)
  case (Cons y ys)
  let ?b = "if key b < key y then y else b"
  consider "x = b" | "x = y" | "x \<in> set ys" using Cons.prems by auto
  then show ?case
  proof cases
    case 3
    then show ?thesis using Cons.IH [of ?b] by simp
  next
    case 1
    then show ?thesis using max_by_ge_acc [of key b "y # ys"] by simp
  next
    case 2
    have "key y \<le> key ?b" by auto
    also have "\<dots> \<le> key (max_by key ?b ys)" by (rule max_by_ge_acc)
    finally show ?thesis using 2 by simp
  qed
qed simp

locale tier_selection =
  fixes threshold :: "'b \<Rightarrow> rat" and select :: "rat \<Rightarrow> 'b list \<Rightarrow> 'b option"
  assumes select_None: "select s bs = None \<longleftrightarrow> (\<forall>b\<in>set bs. s < threshold b)"
    and select_reached: "select s bs = Some b \<Longrightarrow> b \<in> set bs \<and> threshold b \<le> s"
    and select_highest: "select s bs = Some b \<Longrightarrow> c \<in> set bs \<Longrightarrow> threshold c \<le> s \<Longrightarrow> threshold c \<le> threshold b"
begin

lemma reached_some: "b \<in> set bs \<Longrightarrow> threshold b \<le> s \<Longrightarrow> \<exists>c. select s bs = Some c"
  using select_None [of s bs] by (cases "select s bs") auto

lemma mono:
  assumes "select s bs = Some b" "s \<le> s'"
  shows "\<exists>c. select s' bs = Some c \<and> threshold b \<le> threshold c"
proof -
  have b: "b \<in> set bs" "threshold b \<le> s'" using select_reached [OF assms(1)] assms(2) by auto
  then obtain c where c: "select s' bs = Some c" using reached_some by blast
  then show ?thesis using select_highest [OF c] b by blast
qed

lemma same_threshold_within_tier:
  assumes "select s bs = Some b" "select s' bs = Some c" "s \<le> s'"
    and "\<forall>d\<in>set bs. s < threshold d \<longrightarrow> s' < threshold d"
  shows "threshold b = threshold c"
proof (rule antisym)
  show "threshold b \<le> threshold c" using mono [OF assms(1,3)] assms(2) by auto
  have "c \<in> set bs" "threshold c \<le> s" using select_reached [OF assms(2)] assms(4) by (auto simp: not_less [symmetric])
  then show "threshold c \<le> threshold b" using select_highest [OF assms(1)] by blast
qed

lemma none_below: "select s' bs = None \<Longrightarrow> s \<le> s' \<Longrightarrow> select s bs = None"
  by (meson le_less_trans select_None)

end

definition best_reached :: "('b \<Rightarrow> rat) \<Rightarrow> rat \<Rightarrow> 'b list \<Rightarrow> 'b option" where
  "best_reached threshold s bs = (case filter (\<lambda>b. threshold b \<le> s) bs of
     [] \<Rightarrow> None | b # bs' \<Rightarrow> Some (max_by threshold b bs'))"

lemma best_reached_tier_selection: "tier_selection threshold (best_reached threshold)"
proof (unfold_locales, goal_cases)
  case (1 s bs)
  show ?case by (auto simp: best_reached_def filter_empty_conv not_le split: list.split
        dest: filter_eq_ConsD)
next
  case (2 s bs b)
  then obtain x xs where f: "filter (\<lambda>b. threshold b \<le> s) bs = x # xs" and b: "b = max_by threshold x xs"
    by (auto simp: best_reached_def split: list.splits)
  have "b \<in> set (filter (\<lambda>b. threshold b \<le> s) bs)" using max_by_in [of threshold x xs] by (simp add: f b)
  then show ?case by simp
next
  case (3 s bs b c)
  then obtain x xs where f: "filter (\<lambda>b. threshold b \<le> s) bs = x # xs" and b: "b = max_by threshold x xs"
    by (auto simp: best_reached_def split: list.splits)
  have "c \<in> set (filter (\<lambda>b. threshold b \<le> s) bs)" using 3 by simp
  then show ?case using max_by_ge [of c x xs threshold] by (simp add: f b)
qed

text \<open>The first element of the bands above a value, sorted by threshold.\<close>

definition next_above :: "('b \<Rightarrow> rat) \<Rightarrow> rat \<Rightarrow> 'b list \<Rightarrow> 'b option" where
  "next_above threshold s bs = (case sort_key threshold (filter (\<lambda>b. s < threshold b) bs) of
     [] \<Rightarrow> None | b # _ \<Rightarrow> Some b)"

lemma next_above_None: "next_above threshold s bs = None \<longleftrightarrow> (\<forall>b\<in>set bs. threshold b \<le> s)"
proof -
  have "next_above threshold s bs = None \<longleftrightarrow> sort_key threshold (filter (\<lambda>b. s < threshold b) bs) = []"
    by (simp add: next_above_def split: list.split)
  also have "\<dots> \<longleftrightarrow> set (filter (\<lambda>b. s < threshold b) bs) = {}"
    by (metis set_empty set_sort)
  finally show ?thesis by (auto simp: not_less)
qed

lemma next_above_SomeD:
  assumes "next_above threshold s bs = Some b"
  shows "b \<in> set bs" "s < threshold b" "\<And>c. c \<in> set bs \<Longrightarrow> s < threshold c \<Longrightarrow> threshold b \<le> threshold c"
proof -
  let ?f = "filter (\<lambda>b. s < threshold b) bs"
  obtain xs where e: "sort_key threshold ?f = b # xs"
    using assms by (auto simp: next_above_def split: list.splits)
  then have "b \<in> set ?f" by (metis list.set_intros(1) set_sort)
  then show "b \<in> set bs" "s < threshold b" by auto
  have "sorted (map threshold (b # xs))" using e by (metis sorted_sort_key)
  moreover have "set ?f = set (b # xs)" using e by (metis set_sort)
  ultimately show "c \<in> set bs \<Longrightarrow> s < threshold c \<Longrightarrow> threshold b \<le> threshold c" for c by auto
qed

end
