(* ===== verification/ContractCalc.thy ===== *)
theory ContractCalc
  imports Rounding PyDate Tiers
begin

text \<open>
  The contract lifecycle: \<open>app/analytics/contract_calculations.py\<close>.  Notice deadline, renewal date by
  month arithmetic, status as a function of dates, due alerts, and price escalation.  An alert type
  string \<open>expiry_N\<close> is the constructor \<open>Expiry N\<close>, which has the same equality.
\<close>

section \<open>Types\<close>

datatype contract_status = ACTIVE | NOTICE_PERIOD_OPEN | EXPIRING_SOON | EXPIRED | AUTO_RENEWING

datatype escalation_type = NONE | FIXED_PERCENTAGE | CPI_LINKED | TIERED | NEGOTIATED

datatype alert_type = Expiry int | Notice_deadline

record tiered_escalation_band =
  esc_threshold_spend :: rat
  esc_rate_pct :: rat

section \<open>Dates\<close>

definition default_alert_thresholds_days :: "int list" where
  "default_alert_thresholds_days = [180, 90, 60, 30]"

definition calculate_notice_deadline :: "pydate \<Rightarrow> int \<Rightarrow> pydate res" where
  "calculate_notice_deadline expiry_date notice_period_days =
     (if notice_period_days < 0 then Inl (ValueError ''notice_period_days cannot be negative'')
      else date_minus_days expiry_date notice_period_days)"

definition is_notice_window_open :: "pydate \<Rightarrow> pydate \<Rightarrow> pydate \<Rightarrow> bool" where
  "is_notice_window_open today notice_deadline expiry_date =
     (today \<le> notice_deadline \<and> today \<le> expiry_date)"

definition days_in_month :: "int \<Rightarrow> int \<Rightarrow> int res" where
  "days_in_month y m =
     (if m = 12
      then bindR (mk_date (y + 1) 1 1) (\<lambda>a. bindR (mk_date y 12 1) (\<lambda>b. Inr (days_between a b)))
      else bindR (mk_date y (m + 1) 1) (\<lambda>a. bindR (mk_date y m 1) (\<lambda>b. Inr (days_between a b))))"

definition add_months :: "pydate \<Rightarrow> int \<Rightarrow> pydate res" where
  "add_months base months =
     (let month_index = month base - 1 + months;
          y = year base + month_index div 12;
          m = month_index mod 12 + 1
      in bindR (days_in_month y m) (\<lambda>n. mk_date y m (min (day base) n)))"

definition calculate_next_renewal_date :: "pydate \<Rightarrow> bool \<Rightarrow> int option \<Rightarrow> pydate option res" where
  "calculate_next_renewal_date expiry_date auto_renew renewal_term_months =
     (if \<not> auto_renew then Inr None
      else case renewal_term_months of
        None \<Rightarrow> Inl (ValueError ''auto_renew=True requires a positive renewal_term_months'')
      | Some n \<Rightarrow> if n \<le> 0 then Inl (ValueError ''auto_renew=True requires a positive renewal_term_months'')
          else bindR (add_months expiry_date n) (\<lambda>d. Inr (Some d)))"

definition classify_contract_status :: "pydate \<Rightarrow> pydate \<Rightarrow> pydate \<Rightarrow> bool \<Rightarrow> int \<Rightarrow> contract_status" where
  "classify_contract_status today expiry_date notice_deadline auto_renew expiring_soon_threshold_days =
     (if expiry_date < today then EXPIRED
      else if notice_deadline < today then (if auto_renew then AUTO_RENEWING else NOTICE_PERIOD_OPEN)
      else if days_between expiry_date today \<le> expiring_soon_threshold_days then EXPIRING_SOON
      else ACTIVE)"

definition determine_due_alerts ::
    "pydate \<Rightarrow> pydate \<Rightarrow> pydate \<Rightarrow> alert_type set \<Rightarrow> int list \<Rightarrow> alert_type list" where
  "determine_due_alerts today expiry_date notice_deadline already_fired thresholds_days =
     (let days_to_expiry = days_between expiry_date today
      in map Expiry (filter (\<lambda>t. days_to_expiry \<le> t \<and> Expiry t \<notin> already_fired)
             (rev (sort thresholds_days)))
         @ (if today = notice_deadline \<and> Notice_deadline \<notin> already_fired then [Notice_deadline] else []))"

section \<open>Escalation\<close>

definition calculate_escalated_price ::
    "rat \<Rightarrow> escalation_type \<Rightarrow> rat option \<Rightarrow> rat option \<Rightarrow> int \<Rightarrow> rat res" where
  "calculate_escalated_price base_price ty escalation_rate_pct external_index_value_pct periods_elapsed =
     (case ty of
        NONE \<Rightarrow> round_currency base_price
      | FIXED_PERCENTAGE \<Rightarrow> (case escalation_rate_pct of
          None \<Rightarrow> Inl (ValueError ''fixed_percentage escalation requires escalation_rate_pct'')
        | Some r \<Rightarrow> bindR (dpow (dadd 1 r) periods_elapsed) (\<lambda>factor. round_currency (dmul base_price factor)))
      | CPI_LINKED \<Rightarrow> (case external_index_value_pct of
          None \<Rightarrow> Inl (ValueError ''cpi_linked escalation requires external_index_value_pct'')
        | Some r \<Rightarrow> bindR (dpow (dadd 1 r) periods_elapsed) (\<lambda>factor. round_currency (dmul base_price factor)))
      | _ \<Rightarrow> Inl (ValueError ''calculate_escalated_price does not support this type directly''))"

definition escalation_tier :: "rat \<Rightarrow> tiered_escalation_band list \<Rightarrow> tiered_escalation_band option" where
  "escalation_tier cumulative_spend bands = best_reached esc_threshold_spend cumulative_spend bands"

definition calculate_tiered_escalated_price ::
    "rat \<Rightarrow> rat \<Rightarrow> tiered_escalation_band list \<Rightarrow> rat res" where
  "calculate_tiered_escalated_price base_price cumulative_spend bands =
     (if bands = [] then Inl (ValueError ''tiered escalation requires at least one band'')
      else case escalation_tier cumulative_spend bands of
        None \<Rightarrow> round_currency base_price
      | Some best \<Rightarrow> round_currency (dmul base_price (dadd 1 (esc_rate_pct best))))"

interpretation et: tier_selection esc_threshold_spend escalation_tier
  unfolding escalation_tier_def [abs_def] by (rule best_reached_tier_selection)

section \<open>Month arithmetic\<close>

lemma mk_date_first: "1 \<le> y \<Longrightarrow> y \<le> 9999 \<Longrightarrow> 1 \<le> m \<Longrightarrow> m \<le> 12 \<Longrightarrow>
    mk_date y m 1 = Inr (PyDate y m 1)"
  using cal_days_bounds [of m y] by (simp add: mk_date_def valid_date_def)

lemma days_in_month_ok:
  assumes "1 \<le> y" "y \<le> 9999" "1 \<le> m" "m \<le> 12" "\<not> (y = 9999 \<and> m = 12)"
  shows "days_in_month y m = Inr (cal_days_in_month y m)"
proof (cases "m = 12")
  case True
  then have "y + 1 \<le> 9999" using assms by simp
  then show ?thesis using assms True days_before_year_Suc [of y] days_before_month_last [of y]
    by (simp add: days_in_month_def mk_date_first days_between_def toordinal_def) (simp add: month_defs)
next
  case False
  then show ?thesis using assms days_before_month_step [of m y]
    by (simp add: days_in_month_def mk_date_first days_between_def toordinal_def)
qed

lemma days_in_month_9999: "days_in_month 9999 12 = Inl (ValueError ''date out of range'')"
  by (simp add: days_in_month_def mk_date_def valid_date_def)

text \<open>A date as a number of months: year and month in mixed radix.\<close>

definition month_number :: "pydate \<Rightarrow> int" where "month_number d = year d * 12 + (month d - 1)"

lemma month_number_split:
  assumes "1 \<le> month d" "month d \<le> 12"
  shows "year d = month_number d div 12" "month d = month_number d mod 12 + 1"
  using assms by (simp_all add: month_number_def)

lemma add_months_ok:
  assumes v: "valid_date base" and n: "month_number base + n < 9999 * 12 + 11" "12 \<le> month_number base + n"
  shows "\<exists>d. add_months base n = Inr d \<and> valid_date d \<and> month_number d = month_number base + n \<and>
    day d = min (day base) (cal_days_in_month (year d) (month d))"
proof -
  define mi where "mi = month base - 1 + n"
  define y m where "y = year base + mi div 12" and "m = mi mod 12 + 1"
  have k: "y * 12 + (m - 1) = month_number base + n"
    by (simp add: y_def m_def mi_def month_number_def algebra_simps)
  have m: "1 \<le> m" "m \<le> 12" by (simp_all add: m_def)
  have y: "1 \<le> y" "y \<le> 9999" "\<not> (y = 9999 \<and> m = 12)" using k m n by linarith+
  have b: "1 \<le> day base" using v by (simp add: valid_date_def)
  have "28 \<le> cal_days_in_month y m" using cal_days_bounds [OF m] by blast
  then have "valid_date (PyDate y m (min (day base) (cal_days_in_month y m)))"
    using y m b by (simp add: valid_date_def)
  then show ?thesis using days_in_month_ok [OF y(1,2) m y(3)] k
    by (simp add: add_months_def Let_def mi_def [symmetric] y_def [symmetric] m_def [symmetric]
        mk_date_def month_number_def)
qed

lemma month_number_less:
  assumes "1 \<le> month a" "month a \<le> 12" "1 \<le> month b" "month b \<le> 12" "month_number a < month_number b"
  shows "a < b"
  using assms by (auto simp: less_pydate_def month_number_def)

lemma notice_deadline_InrD:
  assumes "calculate_notice_deadline e n = Inr d" "valid_date e"
  shows "0 \<le> n" "valid_date d" "days_between e d = n" "d \<le> e"
proof -
  show n: "0 \<le> n" and d: "valid_date d" "days_between e d = n"
    using assms date_minus_days_InrD [of e n d] by (auto simp: calculate_notice_deadline_def split: if_splits)
  show "d \<le> e" using days_between_nonneg [OF assms(2) d(1)] n d(2) by simp
qed

section \<open>Properties\<close>

text \<open>Adding months keeps the calendar valid: the result is a real date the given number of
  calendar months later, with the day of the month kept where it exists and the last day of the
  month otherwise (so 31 January plus one month is the end of February, in leap years too).\<close>

lemma add_months_calendar:
  assumes "valid_date base" and "12 \<le> month_number base + n" "month_number base + n < 9999 * 12 + 11"
  shows "\<exists>d. add_months base n = Inr d \<and> valid_date d \<and> month_number d = month_number base + n \<and>
    day d = min (day base) (cal_days_in_month (year d) (month d))"
  by (rule add_months_ok [OF assms(1,3,2)])

lemma add_months_calendar_witness:
  "add_months (PyDate 2024 1 31) 1 = Inr (PyDate 2024 2 29)"
proof -
  have v: "valid_date (PyDate 2024 1 31)" by code_simp
  have m: "month_number (PyDate 2024 1 31) = 24288" by (simp add: month_number_def)
  obtain d where d: "add_months (PyDate 2024 1 31) 1 = Inr d" "valid_date d" "month_number d = 24289"
    "day d = min 31 (cal_days_in_month (year d) (month d))"
    using add_months_calendar [OF v, of 1] by (auto simp: m)
  have "year d = 2024" "month d = 2"
    using month_number_split [of d] d(2,3) by (simp_all add: valid_date_def)
  moreover have "cal_days_in_month 2024 2 = 29" by code_simp
  ultimately have "d = PyDate 2024 2 29" using d(4) by (simp add: pydate.expand)
  with d(1) show ?thesis by simp
qed

text \<open>An auto-renewing contract renews strictly after it expires, exactly the renewal term later,
  and a contract that does not renew has no renewal date.\<close>

lemma renewal_after_expiry:
  assumes "calculate_next_renewal_date expiry auto_renew term = Inr r" and "valid_date expiry"
    and "\<And>n. term = Some n \<Longrightarrow> month_number expiry + n < 9999 * 12 + 11"
  shows "(\<not> auto_renew \<longrightarrow> r = None) \<and>
    (auto_renew \<longrightarrow> (\<exists>d n. r = Some d \<and> term = Some n \<and> expiry < d \<and> month_number d = month_number expiry + n))"
proof (cases auto_renew)
  case True
  then obtain n where n: "term = Some n" "0 < n"
    using assms(1) by (auto simp: calculate_next_renewal_date_def split: option.splits if_splits)
  have e: "12 \<le> month_number expiry + n" using assms(2) n by (simp add: month_number_def valid_date_def)
  obtain d where d: "add_months expiry n = Inr d" "valid_date d" "month_number d = month_number expiry + n"
    using add_months_ok [OF assms(2) assms(3) [OF n(1)] e] by auto
  have "expiry < d" using d n assms(2) by (intro month_number_less) (simp_all add: valid_date_def)
  moreover have "r = Some d" using assms(1) True n d(1) by (simp add: calculate_next_renewal_date_def)
  ultimately show ?thesis using True n d by blast
qed (use assms(1) in \<open>simp add: calculate_next_renewal_date_def\<close>)

lemma renewal_after_expiry_witness:
  "\<exists>r. calculate_next_renewal_date (PyDate 2025 11 30) True (Some 3) = Inr r \<and> r \<noteq> None"
proof -
  have v: "valid_date (PyDate 2025 11 30)" by code_simp
  obtain d where "add_months (PyDate 2025 11 30) 3 = Inr d"
    using add_months_ok [OF v, of 3] by (auto simp: month_number_def)
  then have r: "calculate_next_renewal_date (PyDate 2025 11 30) True (Some 3) = Inr (Some d)"
    by (simp add: calculate_next_renewal_date_def)
  then have "PyDate 2025 11 30 < d"
    using renewal_after_expiry [OF r v] by (auto simp: month_number_def)
  with r show ?thesis by blast
qed

text \<open>The status is a function of where today lies: before the notice deadline the contract is
  active or, within the threshold of expiry, expiring soon; after expiry it is expired.  The status
  \<open>notice_period_open\<close> is given only when notice can no longer be given: whenever it is the status,
  \<open>is_notice_window_open\<close> is false.\<close>

lemma status_against_notice_window:
  assumes "s = classify_contract_status today expiry deadline auto k"
  shows "(s = NOTICE_PERIOD_OPEN \<longrightarrow> \<not> is_notice_window_open today deadline expiry) \<and>
    (s = ACTIVE \<or> s = EXPIRING_SOON \<longleftrightarrow> is_notice_window_open today deadline expiry) \<and>
    (s = EXPIRED \<longleftrightarrow> expiry < today) \<and>
    (s = AUTO_RENEWING \<longrightarrow> auto)"
  unfolding assms by (auto simp: classify_contract_status_def is_notice_window_open_def not_le)

lemma status_against_notice_window_witness:
  "classify_contract_status (PyDate 2026 5 1) (PyDate 2026 6 30) (PyDate 2026 4 1) False 90 = NOTICE_PERIOD_OPEN \<and>
   \<not> is_notice_window_open (PyDate 2026 5 1) (PyDate 2026 4 1) (PyDate 2026 6 30)"
proof -
  have "NOTICE_PERIOD_OPEN = classify_contract_status (PyDate 2026 5 1) (PyDate 2026 6 30) (PyDate 2026 4 1) False 90"
    by (simp add: classify_contract_status_def less_pydate_def)
  from status_against_notice_window [OF this] this show ?thesis by simp
qed

text \<open>The window of \<open>is_notice_window_open\<close> has no opening date: it is already open at every day
  up to the deadline, however early, although its documentation says it is false before the window
  opens.\<close>

lemma notice_window_always_open_before_deadline:
  "is_notice_window_open today deadline expiry \<longleftrightarrow> today \<le> min deadline expiry"
  by (simp add: is_notice_window_open_def)

text \<open>For a fixed-percentage contract a supplied index value is ignored, not rejected, and for a
  CPI-linked one so is a contract rate; the two types escalate by the same formula.\<close>

lemma escalation_ignores_other_rate:
  "calculate_escalated_price p FIXED_PERCENTAGE (Some r) x n = calculate_escalated_price p FIXED_PERCENTAGE (Some r) None n \<and>
   calculate_escalated_price p CPI_LINKED y (Some r) n = calculate_escalated_price p CPI_LINKED None (Some r) n \<and>
   calculate_escalated_price p FIXED_PERCENTAGE (Some r) x n = calculate_escalated_price p CPI_LINKED y (Some r) n"
  by (simp add: calculate_escalated_price_def)

end
