(* ===== verification/Contracts.thy ===== *)
theory Contracts
  imports ContractCalc
begin

text \<open>
  The contract service (\<open>app/services/contract_service.py\<close>) with the extraction staging it promotes
  from (\<open>app/ai/contract_extraction_service.py\<close>) and the promotion guard
  (\<open>app/ai/extraction_guardrails.py\<close>).  A contract row is a dictionary of attributes holding Python
  values, because promotion assigns attributes by name (\<open>setattr\<close>) from extracted text; reading an
  attribute with the wrong type raises \<open>TypeError\<close>, as the Python operators do.  A handler that
  raises does not commit, so its result carries no state.  Not represented: the timestamp
  \<open>status_calculated_at\<close>, audit rows, and the columns no operation reads.
\<close>

section \<open>The promotion guard\<close>

record extracted_field =
  ef_value :: string
  ef_confidence :: rat

type_synonym extracted = "(string, extracted_field) pydict"

definition allowed_promotion_fields :: "string list" where
  "allowed_promotion_fields = [''title'', ''contract_number'', ''start_date'', ''expiry_date'',
     ''notice_period_days'', ''auto_renew'', ''renewal_term_months'', ''payment_terms_days'',
     ''escalation_type'', ''escalation_rate_pct'', ''rebate_terms_summary'', ''sla_terms_summary'',
     ''minimum_spend_commitment'']"

definition ensure_verified :: "string \<Rightarrow> unit res" where
  "ensure_verified verification_status =
     (if verification_status \<noteq> ''human_verified'' then Inl (PermissionDeniedError ''Cannot promote fields'')
      else Inr ())"

fun select_loop :: "extracted \<Rightarrow> (string, string) pydict \<Rightarrow> string list \<Rightarrow> (string, string) pydict" where
  "select_loop fs selected [] = selected"
| "select_loop fs selected (n # ns) = (case map_of fs n of
     None \<Rightarrow> select_loop fs selected ns
   | Some entry \<Rightarrow> select_loop fs (AList.update n (ef_value entry) selected) ns)"

definition select_promotable_fields :: "extracted \<Rightarrow> string list \<Rightarrow> (string, string) pydict res" where
  "select_promotable_fields extracted_fields field_names =
     (if list_all (\<lambda>n. n \<in> set allowed_promotion_fields) field_names
      then Inr (select_loop extracted_fields [] field_names)
      else Inl (ValidationFailedError ''Cannot promote unrecognised fields''))"

definition promote_fields_from_extraction ::
    "extracted \<Rightarrow> string \<Rightarrow> string list \<Rightarrow> (string, string) pydict res" where
  "promote_fields_from_extraction extracted_fields verification_status field_names =
     bindR (ensure_verified verification_status) (\<lambda>_. select_promotable_fields extracted_fields field_names)"

section \<open>Contract rows\<close>

datatype pyval = PV_none | PV_str string | PV_int int | PV_bool bool | PV_dec rat | PV_date pydate

type_synonym contract = "(string, pyval) pydict"

definition attr :: "contract \<Rightarrow> string \<Rightarrow> pyval" where
  "attr c name = dict_get c name PV_none"

fun truthy :: "pyval \<Rightarrow> bool" where
  "truthy PV_none = False"
| "truthy (PV_str s) = (s \<noteq> [])"
| "truthy (PV_int n) = (n \<noteq> 0)"
| "truthy (PV_bool b) = b"
| "truthy (PV_dec x) = (x \<noteq> 0)"
| "truthy (PV_date d) = True"

fun status_value :: "contract_status \<Rightarrow> string" where
  "status_value ACTIVE = ''active''"
| "status_value NOTICE_PERIOD_OPEN = ''notice_period_open''"
| "status_value EXPIRING_SOON = ''expiring_soon''"
| "status_value EXPIRED = ''expired''"
| "status_value AUTO_RENEWING = ''auto_renewing''"

definition contract_deadline :: "contract \<Rightarrow> (pydate \<times> pydate) res" where
  "contract_deadline c = (case attr c ''notice_period_days'' of
     PV_int n \<Rightarrow> if n < 0 then Inl (ValueError ''notice_period_days cannot be negative'')
       else (case attr c ''expiry_date'' of
         PV_date e \<Rightarrow> bindR (calculate_notice_deadline e n) (\<lambda>d. Inr (e, d))
       | _ \<Rightarrow> Inl (TypeError ''unsupported operand type(s) for -''))
   | _ \<Rightarrow> Inl (TypeError ''not supported between instances''))"

definition refresh_status :: "contract \<Rightarrow> pydate \<Rightarrow> contract res" where
  "refresh_status c as_of_date = bindR (contract_deadline c) (\<lambda>(e, deadline).
     let status = classify_contract_status as_of_date e deadline (truthy (attr c ''auto_renew'')) 90
     in Inr (AList.update ''status'' (PV_str (status_value status)) c))"

text \<open>The fields of \<open>ContractCreate\<close> and its validator.\<close>

record contract_create =
  cc_title :: string
  cc_start_date :: pydate
  cc_expiry_date :: pydate
  cc_notice_period_days :: int
  cc_auto_renew :: bool
  cc_renewal_term_months :: "int option"
  cc_escalation_type :: escalation_type
  cc_escalation_rate_pct :: "rat option"

definition opt_val :: "('a \<Rightarrow> pyval) \<Rightarrow> 'a option \<Rightarrow> pyval" where
  "opt_val f x = (case x of None \<Rightarrow> PV_none | Some v \<Rightarrow> f v)"

fun escalation_value :: "escalation_type \<Rightarrow> string" where
  "escalation_value NONE = ''none''"
| "escalation_value FIXED_PERCENTAGE = ''fixed_percentage''"
| "escalation_value CPI_LINKED = ''cpi_linked''"
| "escalation_value TIERED = ''tiered''"
| "escalation_value NEGOTIATED = ''negotiated''"

definition validate_contract_create :: "contract_create \<Rightarrow> unit res" where
  "validate_contract_create p =
     (if cc_notice_period_days p < 0 \<or> (\<exists>n\<in>set_option (cc_renewal_term_months p). n \<le> 0) \<or>
         (\<exists>r\<in>set_option (cc_escalation_rate_pct p). r < - 1 \<or> 1 < r) then Inl (ValueError ''field constraint'')
      else if cc_expiry_date p \<le> cc_start_date p then Inl (ValueError ''expiry_date must be after start_date'')
      else if cc_auto_renew p \<and> cc_renewal_term_months p = None
        then Inl (ValueError ''auto_renew requires renewal_term_months'')
      else if cc_escalation_type p = FIXED_PERCENTAGE \<and> cc_escalation_rate_pct p = None
        then Inl (ValueError ''fixed_percentage escalation requires escalation_rate_pct'')
      else Inr ())"

definition create_contract :: "bool \<Rightarrow> contract_create \<Rightarrow> pydate \<Rightarrow> contract res" where
  "create_contract supplier_found p as_of_date =
     (if \<not> supplier_found then Inl (NotFoundError ''Supplier not found'')
      else refresh_status
        [(''title'', PV_str (cc_title p)), (''start_date'', PV_date (cc_start_date p)),
         (''expiry_date'', PV_date (cc_expiry_date p)),
         (''notice_period_days'', PV_int (cc_notice_period_days p)),
         (''auto_renew'', PV_bool (cc_auto_renew p)),
         (''renewal_term_months'', opt_val PV_int (cc_renewal_term_months p)),
         (''escalation_type'', PV_str (escalation_value (cc_escalation_type p))),
         (''escalation_rate_pct'', opt_val PV_dec (cc_escalation_rate_pct p))] as_of_date)"

definition get_derived_fields :: "contract \<Rightarrow> (pydate \<times> pydate option) res" where
  "get_derived_fields c = bindR (contract_deadline c) (\<lambda>(e, deadline).
     if \<not> truthy (attr c ''auto_renew'') then Inr (deadline, None)
     else (case attr c ''renewal_term_months'' of
       PV_int n \<Rightarrow> bindR (calculate_next_renewal_date e True (Some n)) (\<lambda>r. Inr (deadline, r))
     | PV_none \<Rightarrow> bindR (calculate_next_renewal_date e True None) (\<lambda>r. Inr (deadline, r))
     | _ \<Rightarrow> Inl (TypeError ''not supported between instances'')))"

definition escalation_of_value :: "string \<Rightarrow> escalation_type option" where
  "escalation_of_value s =
     find (\<lambda>t. escalation_value t = s) [NONE, FIXED_PERCENTAGE, CPI_LINKED, TIERED, NEGOTIATED]"

definition calculate_escalated_price_for_contract ::
    "contract \<Rightarrow> rat \<Rightarrow> int \<Rightarrow> rat option \<Rightarrow> rat res" where
  "calculate_escalated_price_for_contract c base_price periods_elapsed external_index_value_pct =
     (case (case attr c ''escalation_type'' of PV_str s \<Rightarrow> escalation_of_value s | _ \<Rightarrow> None) of
        None \<Rightarrow> Inl (ValueError ''not a valid EscalationType'')
      | Some ty \<Rightarrow>
          if ty \<noteq> CPI_LINKED \<and> external_index_value_pct \<noteq> None
          then Inl (ValidationFailedError ''external_index_value_pct was supplied'')
          else (case attr c ''escalation_rate_pct'' of
            PV_dec r \<Rightarrow> calculate_escalated_price base_price ty (Some r) external_index_value_pct periods_elapsed
          | PV_none \<Rightarrow> calculate_escalated_price base_price ty None external_index_value_pct periods_elapsed
          | _ \<Rightarrow> Inl InvalidOperation))"

section \<open>Alerts\<close>

record contract_alert =
  ca_contract_id :: int
  ca_alert_type :: alert_type
  ca_trigger_date :: pydate

definition run_alert_check ::
    "contract_alert list \<Rightarrow> int \<Rightarrow> contract \<Rightarrow> pydate \<Rightarrow> (contract_alert list \<times> contract_alert list) res" where
  "run_alert_check table contract_id c as_of_date = bindR (contract_deadline c) (\<lambda>(e, deadline).
     let already_fired = set (map ca_alert_type (filter (\<lambda>a. ca_contract_id a = contract_id) table));
         due_types = determine_due_alerts as_of_date e deadline already_fired default_alert_thresholds_days;
         new_alerts = map (\<lambda>t. \<lparr> ca_contract_id = contract_id, ca_alert_type = t,
           ca_trigger_date = as_of_date \<rparr>) due_types
     in Inr (new_alerts, table @ new_alerts))"

section \<open>Extraction and promotion\<close>

record extraction =
  ex_fields :: extracted
  ex_verification_status :: string
  ex_verified_by :: "int option"

definition stage_extraction :: "extracted \<Rightarrow> extraction" where
  "stage_extraction result_fields =
     \<lparr> ex_fields = result_fields, ex_verification_status = ''pending'', ex_verified_by = None \<rparr>"

definition assign_attrs :: "contract \<Rightarrow> (string, string) pydict \<Rightarrow> contract" where
  "assign_attrs c promotable = foldl (\<lambda>c (n, v). AList.update n (PV_str v) c) c promotable"

definition promote_extraction_fields ::
    "int \<Rightarrow> extraction \<Rightarrow> contract \<Rightarrow> string list \<Rightarrow> pydate \<Rightarrow> (extraction \<times> contract) res" where
  "promote_extraction_fields user_id ex c field_names as_of_date =
     bindR (promote_fields_from_extraction (ex_fields ex) (ex_verification_status ex) field_names) (\<lambda>promotable.
     bindR (refresh_status (assign_attrs c promotable) as_of_date) (\<lambda>c'.
       Inr (ex\<lparr> ex_verification_status := ''human_verified'', ex_verified_by := Some user_id \<rparr>, c')))"

text \<open>The states an extraction row can reach: staged, then changed only by a committed promotion.\<close>

inductive extraction_reachable :: "extraction \<Rightarrow> bool" where
  staged: "extraction_reachable (stage_extraction fs)"
| promoted: "extraction_reachable ex \<Longrightarrow>
    promote_extraction_fields u ex c ns today = Inr (ex', c') \<Longrightarrow> extraction_reachable ex'"

section \<open>The guard and the staging state machine\<close>

lemma attr_update [simp]: "attr (AList.update n v c) m = (if m = n then v else attr c m)"
  by (simp add: attr_def dict_get_def)

lemma ensure_verified_iff: "ensure_verified s = Inr u \<longleftrightarrow> s = ''human_verified''"
  by (simp add: ensure_verified_def)

lemma select_loop_lookup:
  "map_of (select_loop fs acc ns) k =
     (if k \<in> set ns \<and> map_of fs k \<noteq> None then map_option ef_value (map_of fs k) else map_of acc k)"
  by (induction fs acc ns rule: select_loop.induct) (auto split: option.split)

lemma promotion_guard_InrD:
  assumes "promote_fields_from_extraction fs st ns = Inr p"
  shows "st = ''human_verified''" "set ns \<subseteq> set allowed_promotion_fields" "p = select_loop fs [] ns"
  using assms by (auto simp: promote_fields_from_extraction_def select_promotable_fields_def res_simps
      ensure_verified_iff list_all_iff split: if_splits)

inductive_cases extraction_reachableE: "extraction_reachable ex"

lemma extraction_pending: "extraction_reachable ex \<Longrightarrow> ex_verification_status ex = ''pending''"
proof (induction rule: extraction_reachable.induct)
  case (promoted ex u c ns today ex' c')
  then have "ex_verification_status ex = ''human_verified''"
    by (auto simp: promote_extraction_fields_def res_simps dest: promotion_guard_InrD)
  with promoted.IH show ?case by simp
qed (simp add: stage_extraction_def)

lemma refresh_statusD:
  "refresh_status c today = Inr c' \<Longrightarrow> \<exists>e d. contract_deadline c = Inr (e, d) \<and>
     c' = AList.update ''status'' (PV_str (status_value
       (classify_contract_status today e d (truthy (attr c ''auto_renew'')) 90))) c"
  by (auto simp: refresh_status_def res_simps Let_def)

lemma contract_deadlineD:
  "contract_deadline c = Inr (e, d) \<Longrightarrow> \<exists>n. attr c ''notice_period_days'' = PV_int n \<and>
     attr c ''expiry_date'' = PV_date e \<and> calculate_notice_deadline e n = Inr d"
  by (auto simp: contract_deadline_def res_simps split: pyval.splits if_splits)

lemma due_alerts_distinct:
  assumes "distinct ths" shows "distinct (determine_due_alerts t e d fired ths)"
  using assms by (auto simp: determine_due_alerts_def Let_def distinct_map inj_on_def)

lemma due_alerts_fresh: "a \<in> set (determine_due_alerts t e d fired ths) \<Longrightarrow> a \<notin> fired"
  by (auto simp: determine_due_alerts_def Let_def split: if_splits)

lemma due_alerts_done:
  "set (determine_due_alerts t e d fired ths) \<subseteq> fired' \<Longrightarrow> fired \<subseteq> fired' \<Longrightarrow>
     determine_due_alerts t e d fired' ths = []"
  by (auto simp: determine_due_alerts_def Let_def filter_empty_conv split: if_splits)

lemma run_alert_checkD:
  assumes "run_alert_check table k c today = Inr (new, table')"
  obtains e d where "contract_deadline c = Inr (e, d)"
    "map ca_alert_type new = determine_due_alerts today e d
       (set (map ca_alert_type (filter (\<lambda>a. ca_contract_id a = k) table))) default_alert_thresholds_days"
    "table' = table @ new" "\<And>a. a \<in> set new \<Longrightarrow> ca_contract_id a = k"
proof -
  obtain e d where ed: "contract_deadline c = Inr (e, d)"
    using assms by (auto simp: run_alert_check_def bindR_eq_Inr)
  define due where "due = determine_due_alerts today e d
       (set (map ca_alert_type (filter (\<lambda>a. ca_contract_id a = k) table))) default_alert_thresholds_days"
  have new: "new = map (\<lambda>t. \<lparr> ca_contract_id = k, ca_alert_type = t, ca_trigger_date = today \<rparr>) due"
    and t: "table' = table @ new"
    using assms unfolding run_alert_check_def ed bindR_Inr by (auto simp: Let_def due_def)
  have "map ca_alert_type new = due" by (simp add: new comp_def)
  moreover have "\<And>a. a \<in> set new \<Longrightarrow> ca_contract_id a = k" by (auto simp: new)
  ultimately show ?thesis using that [OF ed] t by (simp add: due_def)
qed

definition create_row :: "contract_create \<Rightarrow> contract" where
  "create_row p =
     [(''title'', PV_str (cc_title p)), (''start_date'', PV_date (cc_start_date p)),
      (''expiry_date'', PV_date (cc_expiry_date p)),
      (''notice_period_days'', PV_int (cc_notice_period_days p)),
      (''auto_renew'', PV_bool (cc_auto_renew p)),
      (''renewal_term_months'', opt_val PV_int (cc_renewal_term_months p)),
      (''escalation_type'', PV_str (escalation_value (cc_escalation_type p))),
      (''escalation_rate_pct'', opt_val PV_dec (cc_escalation_rate_pct p))]"

lemma create_row_attrs:
  "attr (create_row p) ''expiry_date'' = PV_date (cc_expiry_date p)"
  "attr (create_row p) ''notice_period_days'' = PV_int (cc_notice_period_days p)"
  "attr (create_row p) ''auto_renew'' = PV_bool (cc_auto_renew p)"
  "attr (create_row p) ''renewal_term_months'' = opt_val PV_int (cc_renewal_term_months p)"
  by (simp_all add: attr_def dict_get_def create_row_def)

lemma create_contract_attrs:
  assumes "create_contract True p today = Inr c"
  obtains d where "calculate_notice_deadline (cc_expiry_date p) (cc_notice_period_days p) = Inr d"
    "c = AList.update ''status'' (PV_str (status_value
       (classify_contract_status today (cc_expiry_date p) d (cc_auto_renew p) 90))) (create_row p)"
proof -
  have "refresh_status (create_row p) today = Inr c" using assms by (simp add: create_contract_def create_row_def)
  then obtain e d where d: "contract_deadline (create_row p) = Inr (e, d)"
    and c: "c = AList.update ''status'' (PV_str (status_value
       (classify_contract_status today e d (truthy (attr (create_row p) ''auto_renew'')) 90))) (create_row p)"
    using refresh_statusD by blast
  have "e = cc_expiry_date p" "calculate_notice_deadline e (cc_notice_period_days p) = Inr d"
    using contract_deadlineD [OF d] by (auto simp: create_row_attrs)
  then show ?thesis using that [of d] c by (simp add: create_row_attrs)
qed

section \<open>Properties\<close>

text \<open>Nothing extracted by the model can ever reach a contract: staging writes the status pending,
  only a committed promotion writes human_verified, and promotion demands human_verified first, so
  from every reachable extraction every promotion is refused, whatever fields are asked for.\<close>

lemma extraction_never_promoted:
  assumes "extraction_reachable ex"
  shows "promote_extraction_fields u ex c ns today = Inl (PermissionDeniedError ''Cannot promote fields'')"
  using extraction_pending [OF assms]
  by (simp add: promote_extraction_fields_def promote_fields_from_extraction_def ensure_verified_def)

lemma extraction_never_promoted_witness:
  "promote_extraction_fields 7 (stage_extraction [(''title'', \<lparr> ef_value = ''Supply'', ef_confidence = 1 \<rparr>)])
     [(''title'', PV_str ''old'')] [''title''] (PyDate 2026 1 1)
   = Inl (PermissionDeniedError ''Cannot promote fields'')"
  by (rule extraction_never_promoted [OF extraction_reachable.staged])

text \<open>The promotion guard: whatever is promoted comes from a human-verified extraction, only
  requested and allowed field names are set, and each to exactly the extracted value; a field the
  model did not extract is skipped.\<close>

lemma promotion_guard:
  assumes "promote_fields_from_extraction fs st ns = Inr promotable"
  shows "st = ''human_verified'' \<and> set ns \<subseteq> set allowed_promotion_fields \<and>
    (\<forall>k v. map_of promotable k = Some v \<longleftrightarrow>
      k \<in> set ns \<and> (\<exists>f. map_of fs k = Some f \<and> v = ef_value f))"
  using promotion_guard_InrD [OF assms] by (auto simp: select_loop_lookup)

lemma promotion_guard_witness:
  "\<exists>p. promote_fields_from_extraction [(''title'', \<lparr> ef_value = ''Supply'', ef_confidence = 1 \<rparr>)]
     ''human_verified'' [''title'', ''currency''] = Inl (ValidationFailedError ''Cannot promote unrecognised fields'') \<and>
   promote_fields_from_extraction [(''title'', \<lparr> ef_value = ''Supply'', ef_confidence = 1 \<rparr>)]
     ''human_verified'' [''title''] = Inr p \<and> map_of p ''title'' = Some ''Supply''"
proof -
  let ?fs = "[(''title'', \<lparr> ef_value = ''Supply'', ef_confidence = 1 \<rparr>)]"
  have "promote_fields_from_extraction ?fs ''human_verified'' [''title'', ''currency'']
      = Inl (ValidationFailedError ''Cannot promote unrecognised fields'')"
    by (simp add: promote_fields_from_extraction_def ensure_verified_def select_promotable_fields_def
        allowed_promotion_fields_def)
  moreover obtain p where p: "promote_fields_from_extraction ?fs ''human_verified'' [''title''] = Inr p"
    by (simp add: promote_fields_from_extraction_def ensure_verified_def select_promotable_fields_def
        allowed_promotion_fields_def)
  moreover have "map_of p ''title'' = Some ''Supply''"
    using promotion_guard [OF p] by simp
  ultimately show ?thesis by blast
qed

text \<open>Even a verified extraction cannot set a date or a number: extracted values are strings, so
  promoting the expiry date or the notice period makes the status refresh raise a type error.\<close>

lemma promoting_dates_raises:
  assumes "map_of fs n = Some f" and "n = ''notice_period_days'' \<or> n = ''expiry_date''"
    and "attr c ''notice_period_days'' = PV_int k" "0 \<le> k"
    and "ex_fields ex = fs" "ex_verification_status ex = ''human_verified''"
  shows "\<exists>m. promote_extraction_fields u ex c [n] today = Inl (TypeError m)"
proof -
  have "n \<in> set allowed_promotion_fields" using assms(2) by (auto simp: allowed_promotion_fields_def)
  then have "promote_fields_from_extraction fs ''human_verified'' [n] = Inr [(n, ef_value f)]"
    using assms(1) by (simp add: promote_fields_from_extraction_def ensure_verified_def
        select_promotable_fields_def)
  then show ?thesis using assms
    by (auto simp: promote_extraction_fields_def assign_attrs_def refresh_status_def contract_deadline_def)
qed

lemma promoting_dates_raises_witness:
  "\<exists>m. promote_extraction_fields 7
     \<lparr> ex_fields = [(''expiry_date'', \<lparr> ef_value = ''2027-01-31'', ef_confidence = 1 \<rparr>)],
       ex_verification_status = ''human_verified'', ex_verified_by = None \<rparr>
     [(''notice_period_days'', PV_int 90)] [''expiry_date''] (PyDate 2026 1 1) = Inl (TypeError m)"
  by (rule promoting_dates_raises [where k = 90]) (simp_all add: attr_def dict_get_def)

text \<open>The alert job is idempotent: it never raises an alert a contract already has, raises none
  twice, and a second run on the same day adds nothing.\<close>

lemma alert_check_idempotent:
  assumes "run_alert_check table k c today = Inr (new, table')"
  shows "distinct (map ca_alert_type new) \<and>
    set (map ca_alert_type new) \<inter> set (map ca_alert_type (filter (\<lambda>a. ca_contract_id a = k) table)) = {} \<and>
    run_alert_check table' k c today = Inr ([], table')"
  using assms
proof (rule run_alert_checkD)
  fix e d
  assume h: "contract_deadline c = Inr (e, d)"
    "map ca_alert_type new = determine_due_alerts today e d
       (set (map ca_alert_type (filter (\<lambda>a. ca_contract_id a = k) table))) default_alert_thresholds_days"
    "table' = table @ new" "\<And>a. a \<in> set new \<Longrightarrow> ca_contract_id a = k"
  let ?fired = "set (map ca_alert_type (filter (\<lambda>a. ca_contract_id a = k) table))"
  let ?fired' = "set (map ca_alert_type (filter (\<lambda>a. ca_contract_id a = k) table'))"
  have f: "filter (\<lambda>a. ca_contract_id a = k) new = new" using h(4) by (simp add: filter_id_conv)
  then have "?fired' = ?fired \<union> set (map ca_alert_type new)" by (simp add: h(3) image_Un)
  then have "determine_due_alerts today e d ?fired' default_alert_thresholds_days = []"
    unfolding h(2) by (intro due_alerts_done) auto
  then have "run_alert_check table' k c today = Inr ([], table')"
    unfolding run_alert_check_def h(1) bindR_Inr by (simp add: Let_def)
  moreover have "distinct (map ca_alert_type new)"
    unfolding h(2) by (rule due_alerts_distinct) (simp add: default_alert_thresholds_days_def)
  ultimately show ?thesis using due_alerts_fresh unfolding h(2) by blast
qed

definition example_contract :: contract where
  "example_contract = [(''expiry_date'', PV_date (PyDate 2026 6 30)), (''notice_period_days'', PV_int 30),
     (''auto_renew'', PV_bool False)]"

lemma alert_check_idempotent_witness:
  "\<exists>new t. run_alert_check [] 1 example_contract (PyDate 2026 5 31) = Inr (new, t) \<and>
     map ca_alert_type new = [Expiry 180, Expiry 90, Expiry 60, Expiry 30, Notice_deadline] \<and>
     run_alert_check t 1 example_contract (PyDate 2026 5 31) = Inr ([], t)"
proof -
  let ?d = "PyDate 2026 5 31"
  have c: "contract_deadline example_contract = Inr (PyDate 2026 6 30, ?d)" by code_simp
  have "days_between (PyDate 2026 6 30) ?d = 30" by code_simp
  then have due: "determine_due_alerts ?d (PyDate 2026 6 30) ?d {} default_alert_thresholds_days
      = [Expiry 180, Expiry 90, Expiry 60, Expiry 30, Notice_deadline]"
    by (simp add: determine_due_alerts_def default_alert_thresholds_days_def)
  define new where "new = map (\<lambda>t. \<lparr> ca_contract_id = 1, ca_alert_type = t, ca_trigger_date = ?d \<rparr>)
      [Expiry 180, Expiry 90, Expiry 60, Expiry 30, Notice_deadline]"
  have r: "run_alert_check [] 1 example_contract ?d = Inr (new, new)"
    unfolding run_alert_check_def c bindR_Inr by (simp add: due new_def Let_def)
  have n: "map ca_alert_type new = [Expiry 180, Expiry 90, Expiry 60, Expiry 30, Notice_deadline]"
    by (simp add: new_def)
  have "run_alert_check new 1 example_contract ?d = Inr ([], new)"
    using alert_check_idempotent [OF r] by (elim conjE)
  then show ?thesis using r n by (intro exI conjI)
qed

text \<open>A created contract carries the status its dates give: the notice deadline lies the notice
  period before expiry and the stored status is the classification of the day of creation.\<close>

lemma create_contract_status:
  assumes "create_contract True p today = Inr c" and "valid_date (cc_expiry_date p)"
  shows "\<exists>d. valid_date d \<and> d \<le> cc_expiry_date p \<and>
    days_between (cc_expiry_date p) d = cc_notice_period_days p \<and>
    attr c ''status'' = PV_str (status_value
      (classify_contract_status today (cc_expiry_date p) d (cc_auto_renew p) 90)) \<and>
    is_ok (get_derived_fields c) = (\<not> cc_auto_renew p \<or>
      is_ok (calculate_next_renewal_date (cc_expiry_date p) True (cc_renewal_term_months p)))"
  using assms(1)
proof (rule create_contract_attrs)
  fix d
  assume d: "calculate_notice_deadline (cc_expiry_date p) (cc_notice_period_days p) = Inr d"
    and c: "c = AList.update ''status'' (PV_str (status_value
       (classify_contract_status today (cc_expiry_date p) d (cc_auto_renew p) 90))) (create_row p)"
  note nd = notice_deadline_InrD [OF d assms(2)]
  have a: "attr c ''expiry_date'' = PV_date (cc_expiry_date p)"
    "attr c ''notice_period_days'' = PV_int (cc_notice_period_days p)"
    "attr c ''auto_renew'' = PV_bool (cc_auto_renew p)"
    "attr c ''renewal_term_months'' = opt_val PV_int (cc_renewal_term_months p)"
    unfolding c attr_update by (simp_all add: create_row_attrs)
  have dc: "contract_deadline c = Inr (cc_expiry_date p, d)"
    using nd(1) d by (simp add: contract_deadline_def a)
  have "is_ok (get_derived_fields c) = (\<not> cc_auto_renew p \<or>
      is_ok (calculate_next_renewal_date (cc_expiry_date p) True (cc_renewal_term_months p)))"
    by (cases "calculate_next_renewal_date (cc_expiry_date p) True (cc_renewal_term_months p)";
        cases "cc_renewal_term_months p")
      (simp_all add: get_derived_fields_def dc a opt_val_def)
  moreover have "attr c ''status'' = PV_str (status_value
      (classify_contract_status today (cc_expiry_date p) d (cc_auto_renew p) 90))"
    unfolding c attr_update by simp
  ultimately show ?thesis by (intro exI [of _ d] conjI nd)
qed

definition example_create :: contract_create where
  "example_create = \<lparr> cc_title = ''Supply'', cc_start_date = PyDate 2025 7 1,
     cc_expiry_date = PyDate 2026 6 30, cc_notice_period_days = 30, cc_auto_renew = False,
     cc_renewal_term_months = None, cc_escalation_type = NONE, cc_escalation_rate_pct = None \<rparr>"

lemma create_contract_status_witness:
  "\<exists>c. create_contract True example_create (PyDate 2026 1 1) = Inr c \<and>
     attr c ''status'' = PV_str ''active'' \<and> is_ok (get_derived_fields c)"
proof -
  have e: "calculate_notice_deadline (PyDate 2026 6 30) 30 = Inr (PyDate 2026 5 31)" by code_simp
  have days: "days_between (PyDate 2026 6 30) (PyDate 2026 1 1) = 180" by code_simp
  have v: "valid_date (cc_expiry_date example_create)" by code_simp
  obtain c where c: "create_contract True example_create (PyDate 2026 1 1) = Inr c"
    by (simp add: create_contract_def refresh_status_def contract_deadline_def attr_def dict_get_def
        example_create_def e Let_def)
  obtain d where d: "days_between (PyDate 2026 6 30) d = 30" "valid_date d"
    "attr c ''status'' = PV_str (status_value
       (classify_contract_status (PyDate 2026 1 1) (PyDate 2026 6 30) d False 90))"
    "is_ok (get_derived_fields c)"
    using create_contract_status [OF c v] by (auto simp: example_create_def)
  have "days_between (PyDate 2026 6 30) (PyDate 2026 5 31) = 30" "valid_date (PyDate 2026 5 31)" by code_simp+
  then have "toordinal d = toordinal (PyDate 2026 5 31)" using d(1) by (simp add: days_between_def)
  then have "d = PyDate 2026 5 31"
    using toordinal_inj [OF d(2) \<open>valid_date (PyDate 2026 5 31)\<close>] by simp
  then show ?thesis using c d(3,4) days by (simp add: classify_contract_status_def less_pydate_def)
qed

end
