(* ===== verification/ManagementAccounting.thy ===== *)
theory ManagementAccounting
  imports Rounding PyDate
begin

text \<open>
  Management accounting and cost to serve: \<open>app/analytics/management_accounting.py\<close>.  Dictionaries
  with fixed keys are records; the evidence status strings are strings, because the code looks them
  up and raises on an unknown one.
\<close>

section \<open>Allocation\<close>

datatype allocation_level = DIRECT | ACTIVITY_RATE | VOLUMETRIC | UNALLOCATED

definition recognized_allocation_types :: "string list" where
  "recognized_allocation_types = [''per_unit'', ''per_pallet'', ''per_km'', ''pct_revenue'']"

definition determine_allocation_level :: "bool \<Rightarrow> bool \<Rightarrow> bool \<Rightarrow> allocation_level" where
  "determine_allocation_level has_direct_cost has_activity_rate_basis has_volumetric_basis =
     (if has_direct_cost then DIRECT
      else if has_activity_rate_basis then ACTIVITY_RATE
      else if has_volumetric_basis then VOLUMETRIC
      else UNALLOCATED)"

definition allocate_activity_cost :: "rat \<Rightarrow> rat \<Rightarrow> string \<Rightarrow> rat option res" where
  "allocate_activity_cost total_cost_pool activity_volume allocation_type =
     (if allocation_type \<notin> set recognized_allocation_types
      then Inl (ValueError ''Unrecognized allocation_type'')
      else if activity_volume = 0 then Inr None
      else bindR (ddiv total_cost_pool activity_volume) (\<lambda>q. bindR (round_currency q) (\<lambda>r. Inr (Some r))))"

section \<open>Customer margin\<close>

definition resolve_trade_spend_for_period :: "rat option \<Rightarrow> bool \<Rightarrow> rat res" where
  "resolve_trade_spend_for_period trade_spend_record agreement_exists =
     (if \<not> agreement_exists then Inr 0
      else case trade_spend_record of
        None \<Rightarrow> Inl (ValueError ''A sell-side trade spend agreement exists'')
      | Some t \<Rightarrow> Inr t)"

record net_margin_result =
  nm_net_revenue :: rat
  nm_gross_margin :: rat
  nm_cost_to_serve :: rat
  nm_net_margin :: rat
  nm_net_margin_pct :: "rat option"
  nm_is_net_revenue_negative :: bool

definition calculate_customer_net_margin ::
    "rat \<Rightarrow> rat \<Rightarrow> rat \<Rightarrow> rat \<Rightarrow> rat \<Rightarrow> string \<Rightarrow> net_margin_result res" where
  "calculate_customer_net_margin revenue cogs direct_logistics_cost warehouse_abc_cost trade_spend revenue_basis =
     (if revenue_basis \<notin> {''gross'', ''net_of_waterfall''} then Inl (ValueError ''Unrecognized revenue_basis'')
      else if revenue_basis = ''net_of_waterfall'' \<and> trade_spend \<noteq> 0
        then Inl (ValueError ''revenue_basis='')
      else
        bindR (round_currency (dsub revenue trade_spend)) (\<lambda>net_revenue.
        bindR (round_currency (dsub net_revenue cogs)) (\<lambda>gross_margin.
        bindR (round_currency (dadd direct_logistics_cost warehouse_abc_cost)) (\<lambda>cost_to_serve.
        bindR (round_currency (dsub gross_margin cost_to_serve)) (\<lambda>net_margin.
        bindR (if revenue = 0 then Inr None
               else bindR (ddiv net_margin revenue) (\<lambda>q.
                 bindR (round_percentage_ma (dmul q 100)) (\<lambda>p. Inr (Some p)))) (\<lambda>net_margin_pct.
        Inr \<lparr> nm_net_revenue = net_revenue, nm_gross_margin = gross_margin,
          nm_cost_to_serve = cost_to_serve, nm_net_margin = net_margin,
          nm_net_margin_pct = net_margin_pct, nm_is_net_revenue_negative = (net_revenue < 0) \<rparr>))))))"

section \<open>Working capital\<close>

record wc_metrics =
  wc_dso :: "rat option"
  wc_dio :: "rat option"
  wc_dpo :: "rat option"
  wc_ccc :: "rat option"
  wc_working_capital_ratio :: "rat option"

definition days_metric :: "rat \<Rightarrow> rat \<Rightarrow> rat option res" where
  "days_metric x annual = (if annual = 0 then Inr None
     else bindR (ddiv x annual) (\<lambda>q. bindR (round_days (dmul q 365)) (\<lambda>d. Inr (Some d))))"

definition ccc_of :: "rat option \<Rightarrow> rat option \<Rightarrow> rat option \<Rightarrow> rat option res" where
  "ccc_of dio dso dpo = (case (dio, dso, dpo) of
     (Some i, Some s, Some p) \<Rightarrow> bindR (round_days (dsub (dadd i s) p)) (\<lambda>c. Inr (Some c))
   | _ \<Rightarrow> Inr None)"

definition calculate_working_capital_metrics ::
    "rat \<Rightarrow> rat \<Rightarrow> rat \<Rightarrow> rat \<Rightarrow> rat \<Rightarrow> rat option \<Rightarrow> wc_metrics res" where
  "calculate_working_capital_metrics ar ap inventory annual_revenue annual_cogs cash =
     bindR (days_metric ar annual_revenue) (\<lambda>dso.
     bindR (days_metric inventory annual_cogs) (\<lambda>dio.
     bindR (days_metric ap annual_cogs) (\<lambda>dpo.
     bindR (ccc_of dio dso dpo) (\<lambda>ccc.
     bindR (case cash of None \<Rightarrow> Inr None
       | Some c \<Rightarrow> if ap = 0 then Inr None
           else bindR (ddiv (dadd (dadd ar inventory) c) ap) (\<lambda>q.
             bindR (round_ratio q) (\<lambda>r. Inr (Some r)))) (\<lambda>ratio.
     Inr \<lparr> wc_dso = dso, wc_dio = dio, wc_dpo = dpo, wc_ccc = ccc,
       wc_working_capital_ratio = ratio \<rparr>)))))"

section \<open>Reconciliation\<close>

datatype reconciliation_status = REC_RECONCILED | REC_DIVERGENT

record reconciliation_result =
  rr_control_total :: rat
  rr_sub_ledger_extract :: rat
  rr_variance :: rat
  rr_is_reconciled :: bool
  rr_status :: reconciliation_status

definition check_inventory_reconciliation :: "rat \<Rightarrow> rat \<Rightarrow> rat \<Rightarrow> reconciliation_result res" where
  "check_inventory_reconciliation control_total sub_ledger_extract tolerance =
     bindR (round_currency (dsub control_total sub_ledger_extract)) (\<lambda>variance.
     let is_reconciled = (dabs variance \<le> tolerance) in
     bindR (round_currency control_total) (\<lambda>c.
     bindR (round_currency sub_ledger_extract) (\<lambda>s.
     Inr \<lparr> rr_control_total = c, rr_sub_ledger_extract = s, rr_variance = variance,
       rr_is_reconciled = is_reconciled,
       rr_status = (if is_reconciled then REC_RECONCILED else REC_DIVERGENT) \<rparr>)))"

definition default_tolerance :: rat where "default_tolerance = 1 / 100"

definition resolve_gated_inventory_value :: "reconciliation_result \<Rightarrow> bool \<Rightarrow> rat option" where
  "resolve_gated_inventory_value reconciliation timing_bridge_documented =
     (if rr_is_reconciled reconciliation then Some (rr_control_total reconciliation)
      else if timing_bridge_documented then Some (rr_control_total reconciliation)
      else None)"

definition refuse_timing_bridge_allocation :: "rat \<Rightarrow> string option \<Rightarrow> unit res" where
  "refuse_timing_bridge_allocation variance entity_reference =
     (if variance \<noteq> 0 \<and> entity_reference \<noteq> None then Inl (ValueError ''Refusing to allocate'')
      else Inr ())"

record bridge_result =
  br_reconciled_total :: rat
  br_final_variance :: rat
  br_is_fully_explained :: bool

definition validate_reconciliation_bridge_completeness :: "rat \<Rightarrow> rat \<Rightarrow> rat \<Rightarrow> bridge_result res" where
  "validate_reconciliation_bridge_completeness control_total raw_subledger_total bridge_total =
     bindR (round_currency (dadd raw_subledger_total bridge_total)) (\<lambda>reconciled_total.
     bindR (round_currency (dsub reconciled_total control_total)) (\<lambda>final_variance.
     Inr \<lparr> br_reconciled_total = reconciled_total, br_final_variance = final_variance,
       br_is_fully_explained = (final_variance = 0) \<rparr>))"

section \<open>Replacement cost, rates, GMROI\<close>

record exposure_result =
  er_exposure_per_unit :: rat
  er_total_exposure :: rat
  er_is_adverse :: bool

definition calculate_future_replacement_exposure :: "rat \<Rightarrow> rat \<Rightarrow> rat \<Rightarrow> exposure_result res" where
  "calculate_future_replacement_exposure quantity_on_hand current_replacement_unit_cost recorded_mac_unit_cost =
     bindR (round_currency (dsub current_replacement_unit_cost recorded_mac_unit_cost)) (\<lambda>e.
     bindR (round_currency (dmul e quantity_on_hand)) (\<lambda>t.
     Inr \<lparr> er_exposure_per_unit = e, er_total_exposure = t, er_is_adverse = (0 < t) \<rparr>))"

definition flag_replacement_cost_divergence :: "rat \<Rightarrow> rat \<Rightarrow> rat \<Rightarrow> bool res" where
  "flag_replacement_cost_divergence aggregate_replacement_exposure mac_control_total materiality_threshold_pct =
     (if mac_control_total = 0 then Inr False
      else bindR (ddiv (dabs aggregate_replacement_exposure) mac_control_total) (\<lambda>ratio.
        Inr (materiality_threshold_pct < ratio)))"

definition is_rate_stale :: "pydate option \<Rightarrow> pydate \<Rightarrow> int \<Rightarrow> bool" where
  "is_rate_stale rate_effective_date as_of_date staleness_threshold_days =
     (case rate_effective_date of None \<Rightarrow> True
      | Some d \<Rightarrow> staleness_threshold_days \<le> days_between as_of_date d)"

definition calculate_gmroi :: "rat \<Rightarrow> rat \<Rightarrow> rat option res" where
  "calculate_gmroi gross_margin average_inventory_value =
     (if average_inventory_value = 0 then Inr None
      else bindR (ddiv gross_margin average_inventory_value) (\<lambda>q.
        bindR (round_ratio q) (\<lambda>r. Inr (Some r))))"

definition calculate_markdown_adjusted_gmroi :: "rat \<Rightarrow> rat \<Rightarrow> rat \<Rightarrow> rat \<Rightarrow> rat option res" where
  "calculate_markdown_adjusted_gmroi gross_margin average_inventory_value at_risk_inventory_value markdown_pct =
     bindR (round_currency (dmul at_risk_inventory_value markdown_pct)) (\<lambda>markdown_amount.
     bindR (round_currency (dsub gross_margin markdown_amount)) (\<lambda>adjusted.
     calculate_gmroi adjusted average_inventory_value))"

definition flag_zero_mass_risk :: "rat \<Rightarrow> bool \<Rightarrow> bool" where
  "flag_zero_mass_risk recorded_mass_kg has_recorded_sales_or_movement =
     (recorded_mass_kg = 0 \<and> has_recorded_sales_or_movement)"

datatype rate_confidence = Rate_fallback | Rate_matched

record allocation_variance =
  av_activity_based_cost :: rat
  av_currently_allocated_cost :: rat
  av_variance :: rat
  av_is_undercosted :: bool
  av_rate_confidence :: rate_confidence

definition calculate_allocation_variance ::
    "rat \<Rightarrow> rat \<Rightarrow> rat \<Rightarrow> bool \<Rightarrow> allocation_variance option res" where
  "calculate_allocation_variance entity_activity_volume activity_based_rate currently_allocated_cost is_fallback_rate =
     (if activity_based_rate = 0 then Inr None
      else bindR (round_currency (dmul entity_activity_volume activity_based_rate)) (\<lambda>c.
        bindR (round_currency (dsub currently_allocated_cost c)) (\<lambda>v.
        bindR (round_currency currently_allocated_cost) (\<lambda>a.
        Inr (Some \<lparr> av_activity_based_cost = c, av_currently_allocated_cost = a, av_variance = v,
          av_is_undercosted = (v < 0),
          av_rate_confidence = (if is_fallback_rate then Rate_fallback else Rate_matched) \<rparr>)))))"

section \<open>Evidence tiers\<close>

definition evidence_tier_by_status :: "(string, int) pydict" where
  "evidence_tier_by_status = [(''unknown'', 0), (''not_applicable'', 0), (''legacy_unverified'', 1),
     (''estimated'', 2), (''calculated'', 3), (''confirmed'', 4)]"

definition downgrade_appropriate_reason_codes :: "string list" where
  "downgrade_appropriate_reason_codes = [''correction'', ''evidence_withdrawn'', ''source_data_restated'']"

definition classify_evidence_tier :: "string \<Rightarrow> int res" where
  "classify_evidence_tier status = (case map_of evidence_tier_by_status status of
     None \<Rightarrow> Inl (ValueError ''Unrecognised evidence status'') | Some t \<Rightarrow> Inr t)"

definition is_evidence_downgrade :: "string option \<Rightarrow> string \<Rightarrow> bool res" where
  "is_evidence_downgrade previous_status new_status = (case previous_status of
     None \<Rightarrow> Inr False
   | Some p \<Rightarrow> bindR (classify_evidence_tier new_status) (\<lambda>n.
       bindR (classify_evidence_tier p) (\<lambda>o'. Inr (n < o'))))"

definition calculate_variance_vs_prior :: "rat option \<Rightarrow> rat option \<Rightarrow> rat option" where
  "calculate_variance_vs_prior current prior = (case (current, prior) of
     (Some c, Some p) \<Rightarrow> Some (dsub c p) | _ \<Rightarrow> None)"

section \<open>Aging buckets\<close>

record aging_buckets =
  ab_current :: rat
  ab_days_30 :: rat
  ab_days_60 :: rat
  ab_days_90 :: rat
  ab_days_120_plus :: rat

definition aging_step :: "aging_buckets \<Rightarrow> rat \<times> int \<Rightarrow> aging_buckets" where
  "aging_step b invoice = (case invoice of (amt, days) \<Rightarrow>
     if days < 30 then b\<lparr> ab_current := dadd (ab_current b) amt \<rparr>
     else if days < 60 then b\<lparr> ab_days_30 := dadd (ab_days_30 b) amt \<rparr>
     else if days < 90 then b\<lparr> ab_days_60 := dadd (ab_days_60 b) amt \<rparr>
     else if days < 120 then b\<lparr> ab_days_90 := dadd (ab_days_90 b) amt \<rparr>
     else b\<lparr> ab_days_120_plus := dadd (ab_days_120_plus b) amt \<rparr>)"

definition classify_aging_buckets :: "(rat \<times> int) list \<Rightarrow> aging_buckets res" where
  "classify_aging_buckets invoices =
     (let b = foldl aging_step (aging_buckets.make 0 0 0 0 0) invoices
      in bindR (round_currency (ab_current b)) (\<lambda>c.
         bindR (round_currency (ab_days_30 b)) (\<lambda>d30.
         bindR (round_currency (ab_days_60 b)) (\<lambda>d60.
         bindR (round_currency (ab_days_90 b)) (\<lambda>d90.
         bindR (round_currency (ab_days_120_plus b)) (\<lambda>d120.
         Inr (aging_buckets.make c d30 d60 d90 d120)))))))"

section \<open>Lemmas\<close>

lemma days_metric_None: "days_metric x a = Inr None \<longleftrightarrow> a = 0"
  by (simp add: days_metric_def res_simps)

lemma days_metric_SomeD: "days_metric x a = Inr (Some d) \<Longrightarrow> on_grid 1 d \<and> a \<noteq> 0 \<and>
    round_days (dmul (ctx (x / a)) 365) = Inr d"
  by (auto simp: days_metric_def res_simps split: if_splits dest: days.on_grid)

lemma ccc_None: "ccc_of i s p = Inr None \<longleftrightarrow> i = None \<or> s = None \<or> p = None"
  by (auto simp: ccc_of_def res_simps split: option.splits)

lemma ccc_Some:
  assumes "ccc_of (Some i) (Some s) (Some p) = Inr (Some c)"
    and "on_grid 1 i" "on_grid 1 s" "on_grid 1 p" "\<bar>i\<bar> < 10 ^ 20" "\<bar>s\<bar> < 10 ^ 20" "\<bar>p\<bar> < 10 ^ 20"
  shows "c = i + s - p"
proof -
  have f: "fits 1 (i + s)" "fits 1 (i + s - p)"
    using assms abs_triangle_ineq [of i s] abs_triangle_ineq4 [of "i + s" p]
    by (auto simp: fits_def prec_def grid_intros)
  then have "dsub (dadd i s) p = i + s - p" by (simp add: dadd_exact dsub_exact)
  then show ?thesis using assms(1) f(2) by (auto simp: ccc_of_def res_simps days.fits_exact)
qed

lemma reconciliation_InrD:
  assumes "check_inventory_reconciliation c s t = Inr r" "amount c" "amount s"
  shows "rr_control_total r = c" "rr_sub_ledger_extract r = s" "rr_variance r = c - s"
    "rr_is_reconciled r \<longleftrightarrow> \<bar>c - s\<bar> \<le> t" "rr_status r = REC_RECONCILED \<longleftrightarrow> rr_is_reconciled r"
proof -
  have "dabs (c - s) = \<bar>c - s\<bar>" using fits_diff_amounts [OF assms(2,3)]
    by (intro dabs_exact [of 4]) (auto simp: fits_def abs_if grid_intros on_grid_minus [of 4 "c - s", simplified])
  then show "rr_control_total r = c" "rr_sub_ledger_extract r = s" "rr_variance r = c - s"
    "rr_is_reconciled r \<longleftrightarrow> \<bar>c - s\<bar> \<le> t" "rr_status r = REC_RECONCILED \<longleftrightarrow> rr_is_reconciled r"
    using assms by (auto simp: check_inventory_reconciliation_def res_simps Let_def round_diff_amounts split: if_splits)
qed

lemma bridge_explained:
  assumes "validate_reconciliation_bridge_completeness c raw br = Inr r"
    "amount c" "amount raw" "amount br" "amount (raw + br)"
  shows "br_reconciled_total r = raw + br \<and> br_final_variance r = raw + br - c \<and>
    (br_is_fully_explained r \<longleftrightarrow> c - raw = br)"
  using assms by (auto simp: validate_reconciliation_bridge_completeness_def res_simps
      round_sum_amounts round_diff_amounts)

lemma exposure_sign:
  assumes "calculate_future_replacement_exposure q c m = Inr r" "0 \<le> q"
  shows "er_is_adverse r \<Longrightarrow> m < c"
proof -
  obtain e t where e: "round_currency (dsub c m) = Inr e" "round_currency (dmul e q) = Inr t"
    and r: "er_is_adverse r = (0 < t)"
    using assms(1) by (auto simp: calculate_future_replacement_exposure_def res_simps)
  show "m < c" if "er_is_adverse r"
  proof -
    have "0 < dmul e q" using that r cur.sign(2) [OF e(2)] by simp
    then have "0 < e" using assms(2) by (simp add: dmul_def zero_less_mult_iff)
    then show ?thesis using cur.sign(2) [OF e(1)] by simp
  qed
qed

lemma aging_partition:
  fixes b :: aging_buckets and invoices :: "(rat \<times> int) list"
  defines "sel P \<equiv> map fst (filter (\<lambda>i. P (snd i)) invoices)"
  shows "foldl aging_step b invoices = aging_buckets.make
     (foldl dadd (ab_current b) (sel (\<lambda>d. d < 30)))
     (foldl dadd (ab_days_30 b) (sel (\<lambda>d. 30 \<le> d \<and> d < 60)))
     (foldl dadd (ab_days_60 b) (sel (\<lambda>d. 60 \<le> d \<and> d < 90)))
     (foldl dadd (ab_days_90 b) (sel (\<lambda>d. 90 \<le> d \<and> d < 120)))
     (foldl dadd (ab_days_120_plus b) (sel (\<lambda>d. 120 \<le> d)))"
  unfolding sel_def
  by (induction invoices arbitrary: b)
    (auto simp: aging_step_def aging_buckets.defs)

lemma aging_sums:
  "(\<Sum>i\<leftarrow>invoices. fst i) = sum_list (map fst (filter (\<lambda>i. snd i < (30::int)) invoices))
    + sum_list (map fst (filter (\<lambda>i. 30 \<le> snd i \<and> snd i < 60) invoices))
    + sum_list (map fst (filter (\<lambda>i. 60 \<le> snd i \<and> snd i < 90) invoices))
    + sum_list (map fst (filter (\<lambda>i. 90 \<le> snd i \<and> snd i < 120) invoices))
    + sum_list (map fst (filter (\<lambda>i. 120 \<le> snd i) invoices))"
  for invoices :: "(rat \<times> int) list"
proof (induction invoices)
  case (Cons i xs)
  consider "snd i < 30" | "30 \<le> snd i \<and> snd i < 60" | "60 \<le> snd i \<and> snd i < 90"
    | "90 \<le> snd i \<and> snd i < 120" | "120 \<le> snd i" by linarith
  then show ?case using Cons by cases auto
qed simp

lemma sum_bound_filter: "sum_bound (map f (filter P xs)) \<le> sum_bound (map f xs)"
  unfolding sum_bound_def by (induction xs) auto

lemma round_dsum_filter:
  assumes "\<And>x. x \<in> set xs \<Longrightarrow> on_grid 4 (f x)" "sum_bound (map f xs) < 10 ^ 22"
  shows "round_currency (foldl dadd 0 (map f (filter P xs))) = Inr (sum_list (map f (filter P xs)))"
proof -
  let ?ys = "map f (filter P xs)"
  have b: "sum_bound ?ys < 10 ^ 22" using sum_bound_filter [of f P xs] assms(2) by linarith
  have g: "on_grid 4 y" if "y \<in> set ?ys" for y using that assms(1) by auto
  have "foldl dadd 0 ?ys = 0 + sum_list ?ys"
    by (rule foldl_dadd_exact [OF g]) (use b in \<open>simp_all add: prec_def\<close>)
  moreover have "\<bar>sum_list ?ys\<bar> \<le> sum_bound ?ys" unfolding sum_bound_def by (rule sum_list_abs)
  moreover have "on_grid 4 (sum_list ?ys)" using g by (rule on_grid_sum_list)
  ultimately show ?thesis using b by (simp add: cur.fits_exact fits_def prec_def)
qed

lemma tier_values: "classify_evidence_tier s = Inr t \<Longrightarrow> 0 \<le> t \<and> t \<le> 4"
  by (auto simp: classify_evidence_tier_def evidence_tier_by_status_def split: option.splits if_splits)

section \<open>Properties\<close>

text \<open>The customer margin is the whole of the revenue less every deduction once: with figures of the
  stored precision, net margin is revenue minus trade spend, cost of goods and cost to serve; revenue
  already net of the waterfall is refused together with a trade spend, so no rebate is deducted
  twice.\<close>

lemma net_margin_identity:
  assumes r: "calculate_customer_net_margin revenue cogs logistics warehouse trade basis = Inr m"
    and a: "amount revenue" "amount cogs" "amount logistics" "amount warehouse" "amount trade"
  shows "nm_net_margin m = revenue - trade - cogs - (logistics + warehouse) \<and>
    nm_net_revenue m = revenue - trade \<and>
    (basis = ''net_of_waterfall'' \<longrightarrow> trade = 0) \<and>
    (nm_net_margin_pct m = None \<longleftrightarrow> revenue = 0) \<and>
    (nm_is_net_revenue_negative m \<longleftrightarrow> revenue < trade)"
proof -
  have b: "\<bar>revenue\<bar> < 10 ^ 14" "\<bar>cogs\<bar> < 10 ^ 14" "\<bar>logistics\<bar> < 10 ^ 14" "\<bar>warehouse\<bar> < 10 ^ 14"
    "\<bar>trade\<bar> < 10 ^ 14" and g: "on_grid 4 revenue" "on_grid 4 cogs" "on_grid 4 logistics"
    "on_grid 4 warehouse" "on_grid 4 trade" using a by (simp_all add: amount_def)
  have "\<bar>revenue - trade - cogs\<bar> < 10 ^ 24" "\<bar>revenue - trade - cogs - (logistics + warehouse)\<bar> < 10 ^ 24"
    using b unfolding abs_less_iff by simp_all
  then have f: "fits 4 (revenue - trade - cogs)" "fits 4 (revenue - trade - cogs - (logistics + warehouse))"
    using g by (simp_all add: fits_def prec_def grid_intros)
  have s1: "round_currency (dsub revenue trade) = Inr (revenue - trade)"
    and s3: "round_currency (dadd logistics warehouse) = Inr (logistics + warehouse)"
    using a by (simp_all only: round_diff_amounts round_sum_amounts)
  have s2: "round_currency (dsub (revenue - trade) cogs) = Inr (revenue - trade - cogs)"
    by (simp only: dsub_exact [OF f(1)] cur.fits_exact [OF f(1)])
  have s4: "round_currency (dsub (revenue - trade - cogs) (logistics + warehouse)) =
      Inr (revenue - trade - cogs - (logistics + warehouse))"
    by (simp only: dsub_exact [OF f(2)] cur.fits_exact [OF f(2)])
  have guard: "basis = ''net_of_waterfall'' \<Longrightarrow> trade = 0"
    using r by (simp add: calculate_customer_net_margin_def split: if_splits)
  obtain p where "m = \<lparr> nm_net_revenue = revenue - trade, nm_gross_margin = revenue - trade - cogs,
      nm_cost_to_serve = logistics + warehouse,
      nm_net_margin = revenue - trade - cogs - (logistics + warehouse), nm_net_margin_pct = p,
      nm_is_net_revenue_negative = (revenue - trade < 0) \<rparr>" "p = None \<longleftrightarrow> revenue = 0"
    using r unfolding calculate_customer_net_margin_def s1 bindR_Inr s2 s3 s4
    by (auto simp: bindR_eq_Inr split: if_splits)
  with guard show ?thesis by simp
qed

lemma net_margin_identity_witness:
  "\<exists>m. calculate_customer_net_margin 1000 600 100 50 40 ''gross'' = Inr m \<and> nm_net_margin m = 210"
proof -
  have "calculate_customer_net_margin 1000 600 100 50 40 ''gross'' =
    Inr \<lparr> nm_net_revenue = 960, nm_gross_margin = 360, nm_cost_to_serve = 150, nm_net_margin = 210,
      nm_net_margin_pct = Some 21, nm_is_net_revenue_negative = False \<rparr>"
    by (simp add: calculate_customer_net_margin_def dec_eval cong: bindR_weak_cong)
  from net_margin_identity [OF this] this show ?thesis by (simp add: amount_def)
qed

text \<open>A cash conversion cycle is reported exactly when all three of its components are, it is their
  sum and difference as reported, and each component is missing exactly when its denominator is
  zero: no assumed zero enters it.\<close>

lemma cash_conversion_cycle:
  assumes r: "calculate_working_capital_metrics ar ap stock turnover cogs cash = Inr m"
    and small: "\<And>d. wc_dso m = Some d \<or> wc_dio m = Some d \<or> wc_dpo m = Some d \<Longrightarrow> \<bar>d\<bar> < 10 ^ 20"
  shows "(wc_dso m = None \<longleftrightarrow> turnover = 0) \<and> (wc_dio m = None \<longleftrightarrow> cogs = 0) \<and> (wc_dpo m = None \<longleftrightarrow> cogs = 0) \<and>
    (wc_ccc m = None \<longleftrightarrow> turnover = 0 \<or> cogs = 0) \<and>
    (\<forall>i s p. wc_dio m = Some i \<longrightarrow> wc_dso m = Some s \<longrightarrow> wc_dpo m = Some p \<longrightarrow> wc_ccc m = Some (i + s - p)) \<and>
    (cash = None \<or> ap = 0 \<longleftrightarrow> wc_working_capital_ratio m = None)"
proof -
  obtain dso dio dpo ccc ratio where
    d: "days_metric ar turnover = Inr dso" "days_metric stock cogs = Inr dio" "days_metric ap cogs = Inr dpo"
    and c: "ccc_of dio dso dpo = Inr ccc"
    and ratio: "cash = None \<or> ap = 0 \<longleftrightarrow> ratio = None"
    and m: "m = \<lparr> wc_dso = dso, wc_dio = dio, wc_dpo = dpo, wc_ccc = ccc, wc_working_capital_ratio = ratio \<rparr>"
    using r by (auto simp: calculate_working_capital_metrics_def res_simps split: option.splits if_splits)
  have n: "dso = None \<longleftrightarrow> turnover = 0" "dio = None \<longleftrightarrow> cogs = 0" "dpo = None \<longleftrightarrow> cogs = 0"
    using d days_metric_None [of ar turnover] days_metric_None [of stock cogs] days_metric_None [of ap cogs]
    by (auto simp: days_metric_def)
  have nc: "ccc = None \<longleftrightarrow> turnover = 0 \<or> cogs = 0" using c ccc_None [of dio dso dpo] n by auto
  have "ccc = Some (i + s - p)" if h: "dio = Some i" "dso = Some s" "dpo = Some p" for i s p
  proof -
    obtain x where x: "ccc = Some x" using nc n h by (cases ccc) auto
    have "on_grid 1 i" "on_grid 1 s" "on_grid 1 p" using d h by (auto dest: days_metric_SomeD)
    then show ?thesis using ccc_Some [of i s p x] c h x small by (simp add: m)
  qed
  then show ?thesis using n nc ratio by (simp add: m)
qed

lemma cash_conversion_cycle_witness:
  "\<exists>m. calculate_working_capital_metrics (57 / 20) 0 (57 / 20) 1000 1000 None = Inr m \<and>
     wc_dio m = Some 1 \<and> wc_dso m = Some 1 \<and> wc_dpo m = Some 0 \<and> wc_ccc m = Some 2"
proof -
  have e: "calculate_working_capital_metrics (57 / 20) 0 (57 / 20) 1000 1000 None =
    Inr \<lparr> wc_dso = Some 1, wc_dio = Some 1, wc_dpo = Some 0, wc_ccc = Some 2, wc_working_capital_ratio = None \<rparr>"
    by (simp add: calculate_working_capital_metrics_def days_metric_def ccc_of_def dec_eval cong: bindR_weak_cong)
  have "\<bar>d\<bar> < 10 ^ 20" if "d = 1 \<or> d = 1 \<or> d = (0::rat)" for d using that by auto
  with cash_conversion_cycle [OF e] e show ?thesis by simp
qed

text \<open>The cash conversion cycle is rounded twice: it is built from days already rounded, so it can
  differ from the cycle rounded once.  Receivables and inventory of 2.85 on annual figures of 1000 are
  1.04025 days each; the reported cycle is 2.0 days and the cycle rounded once is 2.1.\<close>

lemma ccc_rounded_mid_calculation:
  "map_sum id wc_ccc (calculate_working_capital_metrics (57 / 20) 0 (57 / 20) 1000 1000 None) = Inr (Some 2) \<and>
   round_days (57 / 20 / 1000 * 365 + 57 / 20 / 1000 * 365 - 0) = Inr (21 / 10)"
proof
  show "map_sum id wc_ccc (calculate_working_capital_metrics (57 / 20) 0 (57 / 20) 1000 1000 None) = Inr (Some 2)"
    by (simp add: calculate_working_capital_metrics_def days_metric_def ccc_of_def dec_eval cong: bindR_weak_cong)
  show "round_days (57 / 20 / 1000 * 365 + 57 / 20 / 1000 * 365 - 0) = Inr (21 / 10)"
    by (simp add: dec_eval)
qed

text \<open>The reconciliation gate: the gated inventory value is always the control total, never the
  sub-ledger figure, and is withheld exactly when the two differ by more than the tolerance and no
  timing bridge has been documented.\<close>

lemma reconciliation_gate:
  assumes "check_inventory_reconciliation control ledger tol = Inr r" "amount control" "amount ledger"
  shows "resolve_gated_inventory_value r documented =
    (if tol < \<bar>control - ledger\<bar> \<and> \<not> documented then None else Some control)"
  using reconciliation_InrD [OF assms] by (auto simp: resolve_gated_inventory_value_def)

lemma reconciliation_gate_witness:
  "\<exists>r. check_inventory_reconciliation 1000 990 default_tolerance = Inr r \<and>
     resolve_gated_inventory_value r False = None \<and> resolve_gated_inventory_value r True = Some 1000"
proof -
  obtain r where r: "check_inventory_reconciliation 1000 990 default_tolerance = Inr r"
    by (simp add: check_inventory_reconciliation_def dec_eval cong: bindR_weak_cong)
  have a: "amount 1000" "amount 990" by (simp_all add: amount_def)
  from reconciliation_gate [OF r a] r show ?thesis by (auto simp: default_tolerance_def)
qed

text \<open>Aging conserves money: whatever the ages, the five buckets add up to the total of the
  invoices, and an invoice counts in the bucket whose bounds its age lies in.\<close>

lemma aging_conserves_total:
  assumes "\<And>i. i \<in> set invoices \<Longrightarrow> on_grid 4 (fst i)" "sum_bound (map fst invoices) < 10 ^ 22"
  shows "\<exists>b. classify_aging_buckets invoices = Inr b \<and>
    ab_current b + ab_days_30 b + ab_days_60 b + ab_days_90 b + ab_days_120_plus b = (\<Sum>i\<leftarrow>invoices. fst i) \<and>
    ab_days_120_plus b = (\<Sum>i\<leftarrow>filter (\<lambda>i. 120 \<le> snd i) invoices. fst i)"
proof -
  note r = round_dsum_filter [of invoices fst, OF assms]
  have "classify_aging_buckets invoices = Inr (aging_buckets.make
      (sum_list (map fst (filter (\<lambda>i. snd i < 30) invoices)))
      (sum_list (map fst (filter (\<lambda>i. 30 \<le> snd i \<and> snd i < 60) invoices)))
      (sum_list (map fst (filter (\<lambda>i. 60 \<le> snd i \<and> snd i < 90) invoices)))
      (sum_list (map fst (filter (\<lambda>i. 90 \<le> snd i \<and> snd i < 120) invoices)))
      (sum_list (map fst (filter (\<lambda>i. 120 \<le> snd i) invoices))))"
    unfolding classify_aging_buckets_def Let_def aging_partition
    by (simp only: aging_buckets.defs aging_buckets.simps r bindR_Inr)
  then show ?thesis using aging_sums [of invoices] by (simp only: aging_buckets.defs) simp
qed

lemma aging_conserves_total_witness:
  "\<exists>b. classify_aging_buckets [(100, 10), (40, 30), (7, 500)] = Inr b \<and>
     ab_current b + ab_days_30 b + ab_days_60 b + ab_days_90 b + ab_days_120_plus b = 147 \<and> ab_days_120_plus b = 7"
proof -
  have g: "on_grid 4 (fst i)" if "i \<in> set [(100, 10), (40, 30), (7, 500 :: int)]" for i using that by auto
  show ?thesis using aging_conserves_total [of "[(100, 10), (40, 30), (7, 500)]", OF g]
    by (simp add: sum_bound_def)
qed

end
