(* ===== verification/Logistics.thy ===== *)
theory Logistics
  imports ManagementAccounting
begin

text \<open>
  Route costing (\<open>app/analytics/logistics_engine.py\<close>, \<open>app/matching/route_log_validation.py\<close>), and the
  purchase ledger's variances (\<open>app/analytics/purchase_ledger_calculations.py\<close>).
\<close>

section \<open>Segregated route cost\<close>

record route_cost =
  rc_fixed_stem_cost :: rat
  rc_variable_drop_cost :: rat
  rc_total_distance_km :: rat

definition calculate_segregated_route_cost :: "rat \<Rightarrow> rat \<Rightarrow> rat \<Rightarrow> rat \<Rightarrow> route_cost res" where
  "calculate_segregated_route_cost stem_distance_km drop_distance_km return_distance_km total_trip_cost_pool =
     (if stem_distance_km \<le> 0 then Inl (ValueError ''stem_distance_km must be positive'')
      else if return_distance_km \<le> 0 then Inl (ValueError ''return_distance_km must be positive'')
      else if drop_distance_km < 0 then Inl (ValueError ''drop_distance_km cannot be negative'')
      else if total_trip_cost_pool \<le> 0 then Inl (ValueError ''total_trip_cost_pool must be positive'')
      else
        let total_distance = dadd (dadd stem_distance_km drop_distance_km) return_distance_km in
        bindR (ddiv total_trip_cost_pool total_distance) (\<lambda>cost_per_km.
        bindR (round_currency (dmul (dadd stem_distance_km return_distance_km) cost_per_km)) (\<lambda>f.
        bindR (round_currency (dmul drop_distance_km cost_per_km)) (\<lambda>v.
        Inr \<lparr> rc_fixed_stem_cost = f, rc_variable_drop_cost = v, rc_total_distance_km = total_distance \<rparr>))))"

section \<open>Cost pools and route profitability\<close>

definition calculate_trip_fixed_cost :: "rat \<Rightarrow> rat \<Rightarrow> rat \<Rightarrow> rat res" where
  "calculate_trip_fixed_cost driver_base_salary co_driver_base_salary fixed_vehicle_asset_cost =
     (if driver_base_salary \<le> 0 then Inl (ValueError ''driver_base_salary must be positive'')
      else if co_driver_base_salary < 0 then Inl (ValueError ''co_driver_base_salary cannot be negative'')
      else if fixed_vehicle_asset_cost \<le> 0 then Inl (ValueError ''fixed_vehicle_asset_cost must be positive'')
      else round_currency (dadd (dadd driver_base_salary co_driver_base_salary) fixed_vehicle_asset_cost))"

record distance_cost =
  dc_stem_leg_cost :: rat
  dc_drop_leg_cost :: rat
  dc_total :: rat

definition calculate_distance_variable_cost :: "rat \<Rightarrow> rat \<Rightarrow> rat \<Rightarrow> rat \<Rightarrow> distance_cost res" where
  "calculate_distance_variable_cost stem_distance_km drop_distance_km base_rate_per_km stop_start_multiplier =
     (if stem_distance_km < 0 \<or> drop_distance_km < 0
        then Inl (ValueError ''stem_distance_km and drop_distance_km cannot be negative'')
      else if base_rate_per_km \<le> 0 then Inl (ValueError ''base_rate_per_km must be positive'')
      else if stop_start_multiplier < 1 then Inl (ValueError ''stop_start_multiplier must be >= 1'')
      else
        bindR (round_currency (dmul stem_distance_km base_rate_per_km)) (\<lambda>s.
        bindR (round_currency (dmul (dmul drop_distance_km base_rate_per_km) stop_start_multiplier)) (\<lambda>d.
        bindR (round_currency (dadd s d)) (\<lambda>t.
        Inr \<lparr> dc_stem_leg_cost = s, dc_drop_leg_cost = d, dc_total = t \<rparr>))))"

definition calculate_warehouse_picking_labor_cost :: "int \<Rightarrow> rat \<Rightarrow> rat \<Rightarrow> rat \<Rightarrow> rat res" where
  "calculate_warehouse_picking_labor_cost sku_line_count total_cube_m3 rate_per_line rate_per_cube_m3 =
     (if sku_line_count \<le> 0 then Inl (ValueError ''sku_line_count must be positive'')
      else if total_cube_m3 \<le> 0 then Inl (ValueError ''total_cube_m3 must be positive'')
      else round_currency (dadd (dmul (of_int sku_line_count) rate_per_line) (dmul total_cube_m3 rate_per_cube_m3)))"

definition calculate_drop_latency_demurrage_cost :: "rat \<Rightarrow> rat \<Rightarrow> rat \<Rightarrow> rat res" where
  "calculate_drop_latency_demurrage_cost time_at_bay_minutes free_time_minutes demurrage_rate_per_minute =
     (if time_at_bay_minutes < 0 then Inl (ValueError ''time_at_bay_minutes cannot be negative'')
      else if free_time_minutes < 0 then Inl (ValueError ''free_time_minutes cannot be negative'')
      else let excess_minutes = max 0 (dsub time_at_bay_minutes free_time_minutes) in
        round_currency (dmul excess_minutes demurrage_rate_per_minute))"

record route_profit =
  rp_net_revenue :: rat
  rp_gross_margin :: rat
  rp_trip_fixed_costs :: rat
  rp_distance_variable_costs :: rat
  rp_activity_time_costs :: rat
  rp_net_net_profit :: rat
  rp_is_net_revenue_negative :: bool

definition calculate_true_route_profitability ::
    "rat \<Rightarrow> rat \<Rightarrow> rat \<Rightarrow> string \<Rightarrow> rat \<Rightarrow> rat \<Rightarrow> rat \<Rightarrow> route_profit res" where
  "calculate_true_route_profitability revenue cogs trade_spend revenue_basis trip_fixed_costs
      distance_variable_costs activity_time_costs =
     bindR (calculate_customer_net_margin revenue cogs (dadd trip_fixed_costs distance_variable_costs)
        activity_time_costs trade_spend revenue_basis) (\<lambda>m.
     bindR (round_currency trip_fixed_costs) (\<lambda>f.
     bindR (round_currency distance_variable_costs) (\<lambda>d.
     bindR (round_currency activity_time_costs) (\<lambda>a.
     Inr \<lparr> rp_net_revenue = nm_net_revenue m, rp_gross_margin = nm_gross_margin m,
       rp_trip_fixed_costs = f, rp_distance_variable_costs = d, rp_activity_time_costs = a,
       rp_net_net_profit = nm_net_margin m,
       rp_is_net_revenue_negative = nm_is_net_revenue_negative m \<rparr>))))"

section \<open>Route log validation\<close>

datatype route_violation = Zero_distance_with_stops | Negative_distance rat | Negative_stops int
  | Overweight rat rat

definition validate_route_log_plausibility :: "rat \<Rightarrow> int \<Rightarrow> rat \<Rightarrow> rat \<Rightarrow> route_violation list" where
  "validate_route_log_plausibility distance_km stop_count total_drop_weight_kg vehicle_max_payload_kg =
     (if distance_km = 0 \<and> 0 < stop_count then [Zero_distance_with_stops] else [])
     @ (if distance_km < 0 then [Negative_distance distance_km] else [])
     @ (if stop_count < 0 then [Negative_stops stop_count] else [])
     @ (if vehicle_max_payload_kg < total_drop_weight_kg
        then [Overweight total_drop_weight_kg vehicle_max_payload_kg] else [])"

definition calculate_cost_per_drop :: "rat \<Rightarrow> int \<Rightarrow> rat option res" where
  "calculate_cost_per_drop total_route_cost stop_count =
     (if stop_count \<le> 0 then Inr None
      else bindR (ddiv total_route_cost (of_int stop_count)) (\<lambda>q.
        bindR (round_currency q) (\<lambda>r. Inr (Some r))))"

section \<open>The purchase ledger\<close>

datatype reference_price_source = RP_CONTRACT | RP_BUDGET | RP_LOWEST_AVAILABLE_SUPPLIER | RP_APPROVED_QUOTE

record price_variance =
  pv_expected_cost :: rat
  pv_actual_cost :: rat
  pv_variance :: rat
  pv_variance_pct :: "rat option"

definition ledger_pct :: "rat \<Rightarrow> rat \<Rightarrow> rat option res" where
  "ledger_pct x base = (if base = 0 then Inr None
     else bindR (ddiv x base) (\<lambda>q. bindR (round_currency (dmul q 100)) (\<lambda>r.
       bindR (ddiv r 100) (\<lambda>p. Inr (Some p)))))"

definition calculate_purchase_price_variance :: "rat \<Rightarrow> rat \<Rightarrow> rat \<Rightarrow> price_variance res" where
  "calculate_purchase_price_variance reference_price actual_price quantity =
     bindR (round_currency (dmul reference_price quantity)) (\<lambda>e.
     bindR (round_currency (dmul actual_price quantity)) (\<lambda>a.
     bindR (round_currency (dsub a e)) (\<lambda>v.
     bindR (ledger_pct v e) (\<lambda>p.
     Inr \<lparr> pv_expected_cost = e, pv_actual_cost = a, pv_variance = v, pv_variance_pct = p \<rparr>))))"

definition calculate_invoice_line_net_amount :: "rat \<Rightarrow> rat \<Rightarrow> rat option \<Rightarrow> rat res" where
  "calculate_invoice_line_net_amount quantity unit_price discount_pct =
     (let gross = dmul quantity unit_price in
      case discount_pct of None \<Rightarrow> round_currency gross
      | Some d \<Rightarrow> if d = 0 then round_currency gross else round_currency (dmul gross (dsub 1 d)))"

definition calculate_invoice_line_total_incl_tax :: "rat \<Rightarrow> rat option \<Rightarrow> rat res" where
  "calculate_invoice_line_total_incl_tax net_amount tax_pct =
     (case tax_pct of None \<Rightarrow> round_currency net_amount
      | Some t \<Rightarrow> if t = 0 then round_currency net_amount else round_currency (dmul net_amount (dadd 1 t)))"

datatype receipt_status = COMPLETE | SHORT | OVER

record receipt_variance =
  rv_variance_quantity :: rat
  rv_variance_pct :: "rat option"
  rv_status :: receipt_status

definition calculate_receipt_variance :: "rat \<Rightarrow> rat \<Rightarrow> receipt_variance res" where
  "calculate_receipt_variance quantity_ordered quantity_received =
     (if quantity_ordered < 0 \<or> quantity_received < 0 then Inl (ValueError ''quantities cannot be negative'')
      else let v = dsub quantity_received quantity_ordered in
        bindR (ledger_pct v quantity_ordered) (\<lambda>p.
        Inr \<lparr> rv_variance_quantity = v, rv_variance_pct = p,
          rv_status = (if v = 0 then COMPLETE else if v < 0 then SHORT else OVER) \<rparr>))"

section \<open>Lemmas\<close>

lemma route_cost_guards:
  assumes "calculate_segregated_route_cost s d r p = Inr x"
  shows "0 < s" "0 < r" "0 \<le> d" "0 < p"
  using assms by (auto simp: calculate_segregated_route_cost_def not_le not_less split: if_splits)

lemma sum3_exact:
  assumes "amount s" "amount d" "amount r"
  shows "dadd (dadd s d) r = s + d + r" "\<bar>s + d + r\<bar> < 3 * 10 ^ 14" "on_grid 4 (s + d + r)"
proof -
  have b: "\<bar>s\<bar> < 10 ^ 14" "\<bar>d\<bar> < 10 ^ 14" "\<bar>r\<bar> < 10 ^ 14" using assms by (simp_all add: amount_def)
  then show b3: "\<bar>s + d + r\<bar> < 3 * 10 ^ 14" unfolding abs_less_iff by simp
  show g: "on_grid 4 (s + d + r)" using assms by (simp add: amount_def grid_intros)
  have "fits 4 (s + d + r)" using b3 g by (simp add: fits_def prec_def)
  then show "dadd (dadd s d) r = s + d + r" using assms by (simp add: dadd_amounts dadd_exact)
qed

text \<open>Two shares of a total at a common rate: the rounding of the rate and of the products loses a
  vanishing part of the total.\<close>

lemma ctx_near:
  assumes "\<bar>x\<bar> \<le> m" shows "\<bar>ctx x - x\<bar> \<le> m / (2 * 10 ^ 27)"
proof -
  have "\<bar>ctx x - x\<bar> \<le> \<bar>x\<bar> / (2 * 10 ^ 27)" by (rule ctx_rel_error)
  also have "\<dots> \<le> m / (2 * 10 ^ 27)" using assms by (intro divide_right_mono) simp_all
  finally show ?thesis .
qed

lemma shares_near_total:
  assumes "0 < u" "0 \<le> v" "0 < p"
  shows "\<bar>ctx (u * ctx (p / (u + v))) + ctx (v * ctx (p / (u + v))) - p\<bar> \<le> p / 10 ^ 26"
proof -
  define c where "c = ctx (p / (u + v))"
  have t: "0 < u + v" using assms by simp
  have "\<bar>c - p / (u + v)\<bar> \<le> \<bar>p / (u + v)\<bar> / (2 * 10 ^ 27)" unfolding c_def by (rule ctx_rel_error)
  then have "\<bar>c - p / (u + v)\<bar> * (u + v) \<le> \<bar>p / (u + v)\<bar> / (2 * 10 ^ 27) * (u + v)"
    using t by (intro mult_right_mono) simp_all
  moreover have "(c - p / (u + v)) * (u + v) = c * (u + v) - p" using t by (simp add: left_diff_distrib)
  then have "\<bar>c - p / (u + v)\<bar> * (u + v) = \<bar>c * (u + v) - p\<bar>" using t by (metis abs_mult abs_of_pos)
  moreover have "\<bar>p / (u + v)\<bar> * (u + v) = p" using t assms by simp
  then have "\<bar>p / (u + v)\<bar> / (2 * 10 ^ 27) * (u + v) = p / (2 * 10 ^ 27)"
    by (simp only: times_divide_eq_left)
  ultimately have e: "\<bar>c * (u + v) - p\<bar> \<le> p / (2 * 10 ^ 27)" by (simp only:)
  have c: "0 \<le> c" using assms t by (simp add: c_def)
  have "p / (2 * 10 ^ 27) \<le> p" using assms(3) by simp
  then have "c * (u + v) \<le> 2 * p" using e by linarith
  moreover have "0 \<le> u * c" "0 \<le> v * c" using c assms by simp_all
  moreover have "c * (u + v) = u * c + v * c" by (simp add: algebra_simps)
  ultimately have b: "u * c \<le> 2 * p" "v * c \<le> 2 * p" by linarith+
  have "\<bar>ctx (u * c) - u * c\<bar> \<le> 2 * p / (2 * 10 ^ 27)" "\<bar>ctx (v * c) - v * c\<bar> \<le> 2 * p / (2 * 10 ^ 27)"
    using b c assms by (intro ctx_near; simp)+
  moreover have "c * (u + v) = u * c + v * c" by (simp add: algebra_simps)
  ultimately have "\<bar>ctx (u * c) + ctx (v * c) - p\<bar> \<le> 2 * p / (2 * 10 ^ 27) + 2 * p / (2 * 10 ^ 27) + p / (2 * 10 ^ 27)"
    using e by linarith
  also have "\<dots> \<le> p / 10 ^ 26" using assms(3) by simp
  finally show ?thesis by (simp only: c_def)
qed

lemma grid_gap_unit:
  assumes "on_grid 4 x" "on_grid 4 y" "\<bar>x - y\<bar> < 2 / 10 ^ 4" shows "\<bar>x - y\<bar> \<le> 1 / 10 ^ 4"
proof -
  obtain n where n: "x - y = of_int n / 10 ^ 4" using on_grid_diff [OF assms(1,2)] by (auto elim: on_gridE)
  have "\<bar>of_int n / 10 ^ 4 :: rat\<bar> < 2 / 10 ^ 4" using assms(3) unfolding n .
  then have "\<bar>of_int n :: rat\<bar> < 2" by (simp add: abs_divide)
  then have "\<bar>n\<bar> \<le> 1" by linarith
  then have "\<bar>of_int n :: rat\<bar> \<le> 1" by linarith
  then show ?thesis by (simp add: n abs_divide)
qed

lemma ledger_pct_None: "ledger_pct x b = Inr None \<longleftrightarrow> b = 0"
  by (auto simp: ledger_pct_def bindR_eq_Inr ddiv_def split: if_splits)

lemma receipt_variance_InrD:
  assumes "calculate_receipt_variance q r = Inr v"
  shows "0 \<le> q" "0 \<le> r" "rv_status v = (if r = q then COMPLETE else if r < q then SHORT else OVER)"
    "rv_variance_pct v = None \<longleftrightarrow> q = 0"
  using assms by (auto simp: calculate_receipt_variance_def Let_def bindR_eq_Inr ledger_pct_def not_less
      split: if_splits)

lemma demurrage_zero_within_free_time:
  assumes "0 \<le> t" "t \<le> f" shows "calculate_drop_latency_demurrage_cost t f rate = Inr 0"
proof -
  have "dsub t f \<le> 0" "\<not> t < 0" "\<not> f < 0" using assms by auto
  then show ?thesis
    by (simp add: calculate_drop_latency_demurrage_cost_def max_absorb1 dmul_def)
qed

lemma plausible_route_log:
  "validate_route_log_plausibility d n w m = [] \<longleftrightarrow>
     0 \<le> d \<and> 0 \<le> n \<and> (d = 0 \<longrightarrow> n = 0) \<and> w \<le> m"
  by (auto simp: validate_route_log_plausibility_def)

section \<open>Properties\<close>

text \<open>Splitting a trip's cost into the stem legs and the drop legs loses almost nothing: fixed and
  variable cost together miss the cost pool by at most one ten-thousandth, one unit of the stored
  precision.\<close>

lemma route_cost_near_conservation:
  assumes r: "calculate_segregated_route_cost stem drop_km return pool = Inr c"
    and a: "amount stem" "amount drop_km" "amount return" "amount pool"
  shows "\<bar>rc_fixed_stem_cost c + rc_variable_drop_cost c - pool\<bar> \<le> 1 / 10 ^ 4"
proof (rule grid_gap_unit)
  note g = route_cost_guards [OF r]
  define q where "q = ctx (pool / (stem + return + drop_km))"
  have t: "dadd (stem + drop_km) return = stem + return + drop_km"
    using sum3_exact(1) [OF a(1-3)] by (simp add: dadd_amounts a)
  have nz: "stem + return + drop_km \<noteq> 0" using g by linarith
  have f: "round_currency (ctx ((stem + return) * q)) = Inr (rc_fixed_stem_cost c)"
    and v: "round_currency (ctx (drop_km * q)) = Inr (rc_variable_drop_cost c)"
    using r g by (auto simp: calculate_segregated_route_cost_def Let_def dadd_amounts a t ddiv_ok [OF nz]
        bindR_eq_Inr dmul_def q_def split: if_splits)
  show "on_grid 4 (rc_fixed_stem_cost c + rc_variable_drop_cost c)"
    by (intro on_grid_add cur.on_grid [OF f] cur.on_grid [OF v])
  show "on_grid 4 pool" using a by (simp add: amount_def)
  have "\<bar>ctx ((stem + return) * q) + ctx (drop_km * q) - pool\<bar> \<le> pool / 10 ^ 26"
    using shares_near_total [of "stem + return" drop_km pool] g by (simp add: q_def add.assoc)
  moreover have "pool / 10 ^ 26 < 1 / 10 ^ 4" using a(4) g by (simp add: amount_def)
  moreover note cur.split_error [OF f v]
  ultimately show "\<bar>rc_fixed_stem_cost c + rc_variable_drop_cost c - pool\<bar> < 2 / 10 ^ 4"
    by linarith
qed

lemma route_cost_near_conservation_witness:
  "\<exists>c. calculate_segregated_route_cost 30 40 30 (36686 + 8 / 100) = Inr c \<and>
     \<bar>rc_fixed_stem_cost c + rc_variable_drop_cost c - (36686 + 8 / 100)\<bar> \<le> 1 / 10 ^ 4"
proof -
  let ?p = "917152 / 25 :: rat"
  have p: "36686 + 8 / 100 = ?p" by simp
  have "on_grid 4 ?p" by (simp add: on_grid_def)
  then have a: "amount 30" "amount 40" "amount ?p" by (simp_all add: amount_def)
  obtain c where c: "calculate_segregated_route_cost 30 40 30 ?p = Inr c"
    by (simp add: calculate_segregated_route_cost_def dec_eval cong: bindR_weak_cong)
  from route_cost_near_conservation [OF c a(1,2,1,3)] c show ?thesis unfolding p by blast
qed

text \<open>The split is not exact on ties: with legs of 1, 2 and 1 km and a pool of 100.0001, both halves
  round to 50.0000 and one unit of the pool is lost, although the function's documentation says that
  the two always sum to exactly the pool.\<close>

lemma route_cost_loses_a_unit_on_ties:
  "\<exists>c. calculate_segregated_route_cost 1 2 1 (1000001 / 10000) = Inr c \<and>
     rc_fixed_stem_cost c + rc_variable_drop_cost c = 100 \<and>
     rc_fixed_stem_cost c + rc_variable_drop_cost c \<noteq> 1000001 / 10000"
  by (simp add: calculate_segregated_route_cost_def dec_eval cong: bindR_weak_cong)

text \<open>A delivery is classified by the exact comparison of what was ordered and received, whatever
  the number of digits; negative quantities are refused, and the percentage is missing exactly when
  nothing was ordered.\<close>

lemma receipt_classification:
  assumes "calculate_receipt_variance ordered received = Inr v"
  shows "0 \<le> ordered \<and> 0 \<le> received \<and>
    rv_status v = (if received = ordered then COMPLETE else if received < ordered then SHORT else OVER) \<and>
    (rv_variance_pct v = None \<longleftrightarrow> ordered = 0)"
  using receipt_variance_InrD [OF assms] by blast

lemma receipt_classification_witness:
  "\<exists>v. calculate_receipt_variance 100 95 = Inr v \<and> rv_status v = SHORT"
proof -
  have "ledger_pct (dsub 95 100) 100 = Inr (Some (- (1 / 20)))"
    by (simp add: ledger_pct_def dec_eval cong: bindR_weak_cong)
  then obtain v where v: "calculate_receipt_variance 100 95 = Inr v"
    by (simp add: calculate_receipt_variance_def Let_def)
  have "rv_status v = SHORT" using receipt_classification [OF v] by simp
  with v show ?thesis by blast
qed

end
