(* ===== verification/PriceReviewCalc.thy ===== *)
theory PriceReviewCalc
  imports Rounding
begin

text \<open>
  The price review's calculations: \<open>app/analytics/price_review_calculations.py\<close> and the supplier
  summary of \<open>app/analytics/price_review_summary.py\<close>.  The status and movement strings are
  datatypes with the source's values as constructors.  Functions that raise return a \<open>res\<close>;
  \<open>None\<close> results stay options.
\<close>

section \<open>Calculations on a line\<close>

datatype match_status = MATCHED | NEW_PRODUCT | DISCONTINUED | REVIEW_REQUIRED | IGNORED

datatype movement_type = New_product | Discontinued | Review_required | Pack_change
  | Price_increase | Price_decrease | No_change

datatype comparison_basis = Normalized | Raw | Unit_mismatch

datatype confidence = High | Medium | Low

datatype risk = Risk_unclassified | Risk_low | Risk_medium | Risk_high | Risk_critical

definition calculate_price_change :: "rat \<Rightarrow> rat \<Rightarrow> rat res" where
  "calculate_price_change old_price new_price = round_currency (dsub new_price old_price)"

definition calculate_percentage_change :: "rat \<Rightarrow> rat \<Rightarrow> rat option res" where
  "calculate_percentage_change old_price new_price =
     (if old_price = 0 then Inr None
      else bindR (ddiv (dsub new_price old_price) old_price) (\<lambda>q.
        bindR (round_percentage q) (\<lambda>p. Inr (Some p))))"

definition calculate_normalized_unit_price :: "rat \<Rightarrow> rat \<Rightarrow> rat res" where
  "calculate_normalized_unit_price total_price base_quantity =
     (if base_quantity = 0 then Inl (ValueError ''base_quantity is zero'')
      else bindR (ddiv total_price base_quantity) round_currency)"

definition calculate_annualized_quantity :: "rat \<Rightarrow> rat \<Rightarrow> (rat \<times> confidence) res" where
  "calculate_annualized_quantity observed_quantity months_observed =
     (if months_observed \<le> 0 then Inl (ValueError ''months_observed must be positive'')
      else bindR (ddiv 12 months_observed) (\<lambda>f.
        let annualized = dmul observed_quantity f;
            c = (if 12 \<le> months_observed then High else if 6 \<le> months_observed then Medium else Low)
        in bindR (quantize 4 annualized) (\<lambda>q. Inr (q, c))))"

definition calculate_annual_impact :: "rat \<Rightarrow> rat \<Rightarrow> rat res" where
  "calculate_annual_impact price_change annual_quantity = round_currency (dmul price_change annual_quantity)"

definition determine_comparison_basis ::
    "rat option \<Rightarrow> rat option \<Rightarrow> string option \<Rightarrow> string option \<Rightarrow> comparison_basis" where
  "determine_comparison_basis old_normalized_price new_normalized_price old_base_unit new_base_unit =
     (let old_normalized = (old_normalized_price \<noteq> None); new_normalized = (new_normalized_price \<noteq> None)
      in if old_normalized \<and> new_normalized
         then (if old_base_unit = new_base_unit then Normalized else Unit_mismatch)
         else if \<not> old_normalized \<and> \<not> new_normalized then Raw
         else Unit_mismatch)"

definition calculate_gross_margin :: "rat \<Rightarrow> rat \<Rightarrow> (rat \<times> rat) res" where
  "calculate_gross_margin selling_price cost =
     (if selling_price = 0 then Inl (ValueError ''selling_price is zero'')
      else let gross_profit = dsub selling_price cost in
        bindR (round_currency gross_profit) (\<lambda>gp.
        bindR (ddiv gross_profit selling_price) (\<lambda>q.
        bindR (round_percentage q) (\<lambda>m. Inr (gp, m)))))"

definition calculate_required_selling_price :: "rat \<Rightarrow> rat \<Rightarrow> rat res" where
  "calculate_required_selling_price cost target_margin_pct =
     (if 1 \<le> target_margin_pct then Inl (ValueError ''target_margin_pct must be less than 1'')
      else bindR (ddiv cost (dsub 1 target_margin_pct)) round_currency)"

definition calculate_potential_cost_avoidance :: "rat \<Rightarrow> rat \<Rightarrow> rat \<Rightarrow> rat res" where
  "calculate_potential_cost_avoidance requested_new_price target_price annual_quantity =
     round_currency (dmul (dsub requested_new_price target_price) annual_quantity)"

definition calculate_actual_cost_avoidance :: "rat \<Rightarrow> rat \<Rightarrow> rat \<Rightarrow> rat res" where
  "calculate_actual_cost_avoidance requested_new_price final_negotiated_price annual_quantity =
     round_currency (dmul (dsub requested_new_price final_negotiated_price) annual_quantity)"

definition classify_risk_with :: "rat \<Rightarrow> rat \<Rightarrow> rat \<Rightarrow> rat option \<Rightarrow> risk" where
  "classify_risk_with low_max medium_max high_max percentage_change =
     (case percentage_change of None \<Rightarrow> Risk_unclassified
      | Some p \<Rightarrow> let magnitude = dabs p in
          if magnitude \<le> low_max then Risk_low
          else if magnitude \<le> medium_max then Risk_medium
          else if magnitude \<le> high_max then Risk_high
          else Risk_critical)"

definition classify_risk :: "rat option \<Rightarrow> risk" where
  "classify_risk = classify_risk_with (2 / 100) (5 / 100) (10 / 100)"

definition classify_movement_type :: "bool \<Rightarrow> bool \<Rightarrow> bool \<Rightarrow> bool \<Rightarrow> rat option \<Rightarrow> movement_type" where
  "classify_movement_type is_matched is_new is_discontinued pack_changed percentage_change =
     (if is_new then New_product
      else if is_discontinued then Discontinued
      else if \<not> is_matched then Review_required
      else if pack_changed then Pack_change
      else case percentage_change of None \<Rightarrow> Review_required
        | Some p \<Rightarrow> if 0 < p then Price_increase else if p < 0 then Price_decrease else No_change)"

section \<open>The supplier summary\<close>

record summary_line =
  sl_movement_type :: movement_type
  sl_percentage_change :: "rat option"
  sl_annual_impact :: "rat option"
  sl_annual_quantity :: "rat option"
  sl_pack_changed :: bool
  sl_requires_review :: bool

record supplier_summary =
  total_previous_skus :: int
  total_new_skus :: int
  matched_skus :: int
  unmatched_skus :: int
  new_skus :: int
  discontinued_skus :: int
  increasing_skus :: int
  decreasing_skus :: int
  unchanged_skus :: int
  pack_changes :: int
  weighted_average_price_increase_pct :: "rat option"
  annual_cost_impact :: rat
  products_requiring_manual_review :: int

text \<open>The loop of \<open>weighted_average_increase\<close> skips a line without both figures.\<close>

definition wavg_pair :: "summary_line \<Rightarrow> (rat \<times> rat) option" where
  "wavg_pair l = (case (sl_percentage_change l, sl_annual_quantity l) of
     (Some p, Some q) \<Rightarrow>
       if sl_movement_type l \<in> {Price_increase, Price_decrease, No_change, Pack_change}
       then Some (p, q) else None
   | _ \<Rightarrow> None)"

fun wavg_loop :: "rat \<Rightarrow> rat \<Rightarrow> summary_line list \<Rightarrow> rat \<times> rat" where
  "wavg_loop numerator denominator [] = (numerator, denominator)"
| "wavg_loop numerator denominator (l # ls) = (case wavg_pair l of
     None \<Rightarrow> wavg_loop numerator denominator ls
   | Some (p, q) \<Rightarrow> wavg_loop (dadd numerator (dmul p q)) (dadd denominator q) ls)"

definition weighted_average_increase :: "summary_line list \<Rightarrow> rat option res" where
  "weighted_average_increase ls = (case wavg_loop 0 0 ls of (numerator, denominator) \<Rightarrow>
     if denominator = 0 then Inr None
     else bindR (ddiv numerator denominator) (\<lambda>q. bindR (round_percentage q) (\<lambda>p. Inr (Some p))))"

definition is_matched_line :: "summary_line \<Rightarrow> bool" where
  "is_matched_line l = (sl_movement_type l \<notin> {New_product, Discontinued, Review_required})"

definition count_lines :: "(summary_line \<Rightarrow> bool) \<Rightarrow> summary_line list \<Rightarrow> int" where
  "count_lines P ls = int (length (filter P ls))"

definition summarize :: "summary_line list \<Rightarrow> int \<Rightarrow> int \<Rightarrow> supplier_summary res" where
  "summarize ls previous new =
     (let matched = filter is_matched_line ls;
          new_products = count_lines (\<lambda>l. sl_movement_type l = New_product) ls;
          discontinued = count_lines (\<lambda>l. sl_movement_type l = Discontinued) ls
      in bindR (weighted_average_increase ls) (\<lambda>w. Inr
        \<lparr> total_previous_skus = previous,
          total_new_skus = new,
          matched_skus = int (length matched),
          unmatched_skus = int (length ls) - int (length matched) - new_products - discontinued,
          new_skus = new_products,
          discontinued_skus = discontinued,
          increasing_skus = count_lines (\<lambda>l. sl_movement_type l = Price_increase) matched,
          decreasing_skus = count_lines (\<lambda>l. sl_movement_type l = Price_decrease) matched,
          unchanged_skus = count_lines (\<lambda>l. sl_movement_type l = No_change) matched,
          pack_changes = count_lines sl_pack_changed ls,
          weighted_average_price_increase_pct = w,
          annual_cost_impact = dsum (List.map_filter sl_annual_impact ls),
          products_requiring_manual_review = count_lines sl_requires_review ls \<rparr>))"

section \<open>Signs and brackets of the line figures\<close>

lemma price_change_sign:
  assumes "calculate_price_change old new = Inr d"
  shows "old \<le> new \<Longrightarrow> 0 \<le> d" "new \<le> old \<Longrightarrow> d \<le> 0"
  using cur.nonneg cur.nonpos assms by (auto simp: calculate_price_change_def)

lemma percentage_change_zero: "calculate_percentage_change old new = Inr None \<longleftrightarrow> old = 0"
  by (simp add: calculate_percentage_change_def res_simps)

lemma percentage_change_SomeD:
  "calculate_percentage_change old new = Inr (Some p) \<Longrightarrow>
     old \<noteq> 0 \<and> round_percentage (ctx (dsub new old / old)) = Inr p"
  by (auto simp: calculate_percentage_change_def res_simps split: if_splits)

lemma percentage_change_sign:
  assumes "calculate_percentage_change old new = Inr (Some p)" "0 < old"
  shows "0 < p \<Longrightarrow> old < new" "p < 0 \<Longrightarrow> new < old"
  using percentage_change_SomeD [OF assms(1)] assms(2) pct.sign [of "ctx (dsub new old / old)" p]
  by (auto simp: zero_less_divide_iff divide_less_0_iff)

text \<open>A relative change of a millionth or more is never lost in the rounding.\<close>

lemma percentage_change_visible:
  assumes "calculate_percentage_change old new = Inr (Some p)" "0 < old" "fits 4 (new - old)"
  shows "old / 10 ^ 6 \<le> new - old \<Longrightarrow> 1 / 10 ^ 6 \<le> p"
    and "new - old \<le> - old / 10 ^ 6 \<Longrightarrow> p \<le> - (1 / 10 ^ 6)"
proof -
  have f: "fits 6 (1 / 10 ^ 6)" "fits 6 (- (1 / 10 ^ 6))"
    using on_grid_frac [of 6 1] on_grid_frac [of 6 "- 1"] by (simp_all add: fits_def prec_def)
  have r: "round_percentage (ctx ((new - old) / old)) = Inr p"
    using percentage_change_SomeD [OF assms(1)] by (simp add: dsub_exact [OF assms(3)])
  show "1 / 10 ^ 6 \<le> p" if "old / 10 ^ 6 \<le> new - old"
  proof -
    have "1 / 10 ^ 6 \<le> (new - old) / old" using assms(2) that by (simp add: pos_le_divide_eq)
    then have "1 / 10 ^ 6 \<le> ctx ((new - old) / old)" using ctx_mono ctx_exact [OF f(1)] by metis
    then show ?thesis using pct.mono [OF pct.fits_exact [OF f(1)] r] by blast
  qed
  show "p \<le> - (1 / 10 ^ 6)" if "new - old \<le> - old / 10 ^ 6"
  proof -
    have "(new - old) / old \<le> - (1 / 10 ^ 6)" using assms(2) that by (simp add: pos_divide_le_eq)
    then have "ctx ((new - old) / old) \<le> - (1 / 10 ^ 6)" using ctx_mono ctx_exact [OF f(2)] by metis
    then show ?thesis using pct.mono [OF r pct.fits_exact [OF f(2)]] by blast
  qed
qed

lemma annual_impact_sign:
  assumes "calculate_annual_impact d q = Inr i" "0 \<le> q"
  shows "0 \<le> d \<Longrightarrow> 0 \<le> i" "d \<le> 0 \<Longrightarrow> i \<le> 0"
proof -
  have i: "round_currency (ctx (d * q)) = Inr i" using assms(1) by (simp add: calculate_annual_impact_def dmul_def)
  show "0 \<le> d \<Longrightarrow> 0 \<le> i" using cur.nonneg [OF i] assms(2) by simp
  show "d \<le> 0 \<Longrightarrow> i \<le> 0" using cur.nonpos [OF i] assms(2) by (simp add: mult_nonpos_nonneg)
qed

lemma annual_impact_exact:
  "fits 4 (d * q) \<Longrightarrow> calculate_annual_impact d q = Inr (d * q)"
  by (simp add: calculate_annual_impact_def dmul_exact cur.fits_exact)

lemma gross_margin_InrD:
  assumes "calculate_gross_margin s c = Inr (gp, m)"
  shows "s \<noteq> 0" "round_currency (dsub s c) = Inr gp" "round_percentage (ctx (dsub s c / s)) = Inr m"
  using assms by (auto simp: calculate_gross_margin_def Let_def res_simps split: if_splits)

lemma required_price_error:
  assumes p: "calculate_required_selling_price c t = Inr p"
    and c: "amount c" "0 \<le> c" and t: "on_grid 6 t" "0 \<le> t" "t < 1"
  shows "\<bar>(p - c) - t * p\<bar> < 1 / 10 ^ 4"
proof -
  have g: "on_grid 6 (1 - t)" using t on_grid_of_int [of 6 1] by (simp add: on_grid_diff)
  then have f: "fits 6 (1 - t)" using t by (simp add: fits_def prec_def)
  then obtain k where k: "1 - t = of_int k / 10 ^ 6" using g by (auto elim: on_gridE)
  then have "1 \<le> k" using t by (simp add: zero_less_divide_iff)
  then have lo: "1 / 10 ^ 6 \<le> 1 - t" by (simp add: k divide_right_mono)
  have pos: "0 < 1 - t" "1 - t \<le> 1" using t by simp_all
  let ?x = "c / (1 - t)"
  have r: "round_currency (ctx ?x) = Inr p"
    using p t by (simp add: calculate_required_selling_price_def dsub_exact [OF f])
  have "?x \<le> c / (1 / 10 ^ 6)" using c(2) lo pos by (intro divide_left_mono) simp_all
  also have "\<dots> < 10 ^ 14 * 10 ^ 6" using c by (simp add: amount_def)
  finally have "\<bar>?x\<bar> < 10 powi 20" using c(2) pos by (simp add: power_int_def)
  then have e: "\<bar>ctx ?x - ?x\<bar> \<le> 10 powi (- 8) / 2" using ctx_error [of ?x 20] by simp
  have "\<bar>p - ?x\<bar> \<le> \<bar>p - ctx ?x\<bar> + \<bar>ctx ?x - ?x\<bar>" by linarith
  also have "\<dots> \<le> 1 / (2 * 10 ^ 4) + 10 powi (- 8) / 2" using cur.nearest [OF r] e by linarith
  also have "\<dots> < 1 / 10 ^ 4" by (simp add: power_int_minus)
  finally have "\<bar>p - ?x\<bar> < 1 / 10 ^ 4" .
  then have "\<bar>p - ?x\<bar> * (1 - t) < 1 / 10 ^ 4"
    using mult_left_le [of "1 - t" "\<bar>p - ?x\<bar>"] pos by simp
  moreover have "(p - c) - t * p = (p - ?x) * (1 - t)" using pos by (simp add: field_simps)
  ultimately show ?thesis using pos by (simp add: abs_mult)
qed

section \<open>The summary\<close>

lemma wavg_loop_pairs:
  "wavg_loop n d ls = (foldl dadd n (map (\<lambda>(p, q). dmul p q) (List.map_filter wavg_pair ls)),
     foldl dadd d (map snd (List.map_filter wavg_pair ls)))"
  by (induction n d ls rule: wavg_loop.induct) (auto simp: List.map_filter_simps split: option.splits)

lemma sum_products_bounds:
  assumes "\<And>p q. (p, q) \<in> set ps \<Longrightarrow> lo \<le> p \<and> p \<le> hi \<and> (0::rat) \<le> q"
  shows "lo * sum_list (map snd ps) \<le> (\<Sum>(p, q)\<leftarrow>ps. p * q)" "(\<Sum>(p, q)\<leftarrow>ps. p * q) \<le> hi * sum_list (map snd ps)"
  unfolding atomize_conj using assms
proof (induction ps)
  case (Cons x ps)
  obtain a b where x: "x = (a, b)" by (cases x)
  have "lo \<le> a" "a \<le> hi" "0 \<le> b" using Cons.prems [of a b] by (simp_all add: x)
  then have "lo * b \<le> a * b" "a * b \<le> hi * b" by (simp_all add: mult_right_mono)
  moreover have "lo * sum_list (map snd ps) \<le> (\<Sum>(p, q)\<leftarrow>ps. p * q) \<and>
      (\<Sum>(p, q)\<leftarrow>ps. p * q) \<le> hi * sum_list (map snd ps)"
    by (rule Cons.IH) (rule Cons.prems, simp)
  ultimately show ?case unfolding x by (simp add: distrib_left add_mono)
qed simp

lemma movement_partition:
  "int (length ls) = int (length (filter is_matched_line ls))
     + count_lines (\<lambda>l. sl_movement_type l = New_product) ls
     + count_lines (\<lambda>l. sl_movement_type l = Discontinued) ls
     + count_lines (\<lambda>l. sl_movement_type l = Review_required) ls"
  by (induction ls) (auto simp: count_lines_def is_matched_line_def)

lemma matched_partition:
  "int (length (filter is_matched_line ls)) =
     count_lines (\<lambda>l. sl_movement_type l = Price_increase) (filter is_matched_line ls)
     + count_lines (\<lambda>l. sl_movement_type l = Price_decrease) (filter is_matched_line ls)
     + count_lines (\<lambda>l. sl_movement_type l = No_change) (filter is_matched_line ls)
     + count_lines (\<lambda>l. sl_movement_type l = Pack_change) ls"
proof (induction ls)
  case (Cons l ls)
  then show ?case by (cases "sl_movement_type l") (auto simp: count_lines_def is_matched_line_def)
qed (simp add: count_lines_def)

section \<open>Properties\<close>

text \<open>The movement shown for a matched line follows the prices: with a positive old price, a
  line is only called an increase when the new price is higher and a decrease when it is lower, and
  a change of at least a millionth of the old price is never reported as no change.\<close>

lemma movement_direction:
  assumes "calculate_percentage_change old new = Inr pc" and "0 < old" and "fits 4 (new - old)"
    and "m = classify_movement_type True False False False pc"
  shows "(m = Price_increase \<longrightarrow> old < new) \<and> (m = Price_decrease \<longrightarrow> new < old) \<and> m \<noteq> Review_required \<and>
    (m = No_change \<longrightarrow> \<bar>new - old\<bar> < old / 10 ^ 6)"
proof -
  obtain p where pc: "pc = Some p" using assms(1,2) percentage_change_zero [of old new] by (cases pc) auto
  have s: "0 < p \<Longrightarrow> old < new" "p < 0 \<Longrightarrow> new < old"
    using percentage_change_sign assms(1,2) pc by blast+
  have v: "old / 10 ^ 6 \<le> new - old \<Longrightarrow> 0 < p" "new - old \<le> - old / 10 ^ 6 \<Longrightarrow> p < 0"
    using percentage_change_visible [of old new p] assms(1-3) pc by force+
  then have "p = 0 \<Longrightarrow> \<bar>new - old\<bar> < old / 10 ^ 6" by linarith
  then show ?thesis using s by (auto simp: assms(4) pc classify_movement_type_def)
qed

lemma movement_direction_witness:
  "\<exists>pc. calculate_percentage_change 40 42 = Inr pc \<and>
     classify_movement_type True False False False pc = Price_increase \<and> (40::rat) < 42"
proof -
  have f: "fits 4 (42 - 40)" by (simp add: fits_def on_grid_def prec_def)
  have c: "calculate_percentage_change 40 42 = Inr (Some (1 / 20))"
    by (simp add: calculate_percentage_change_def dec_eval)
  have m: "classify_movement_type True False False False (Some (1 / 20 :: rat)) = Price_increase"
    by (simp add: classify_movement_type_def)
  show ?thesis using movement_direction [OF c _ f refl] c m by simp
qed

text \<open>The headline price increase of a supplier is a true weighted average: when the lines that
  count (a percentage, a quantity and a price movement) carry a positive total quantity, the figure
  exists and lies between the smallest and the largest percentage among them.\<close>

lemma weighted_average_between:
  assumes pair: "\<And>p q. (p, q) \<in> set (List.map_filter wavg_pair ls) \<Longrightarrow>
      lo \<le> p \<and> p \<le> hi \<and> 0 \<le> q \<and> on_grid 6 p \<and> on_grid 4 q"
    and total: "0 < sum_list (map snd (List.map_filter wavg_pair ls))"
    and small: "sum_bound (map (\<lambda>(p, q). p * q) (List.map_filter wavg_pair ls)) < 10 ^ 18"
      "sum_bound (map snd (List.map_filter wavg_pair ls)) < 10 ^ 24"
    and fit: "on_grid 6 lo" "\<bar>lo\<bar> < 10 ^ 20" "on_grid 6 hi" "\<bar>hi\<bar> < 10 ^ 20"
  shows "\<exists>w. weighted_average_increase ls = Inr (Some w) \<and> lo \<le> w \<and> w \<le> hi"
proof -
  let ?ps = "List.map_filter wavg_pair ls"
  let ?n = "\<Sum>(p, q)\<leftarrow>?ps. p * q" and ?d = "sum_list (map snd ?ps)"
  have g: "on_grid 10 (p * q)" if "(p, q) \<in> set ?ps" for p q
    using on_grid_mult [of 6 p 4 q] pair [OF that] by simp
  have le: "\<bar>p * q\<bar> \<le> sum_bound (map (\<lambda>(p, q). p * q) ?ps)" if "(p, q) \<in> set ?ps" for p q
    using that by (intro member_le_sum_bound) force
  have m: "dmul p q = p * q" if "(p, q) \<in> set ?ps" for p q
    using g [OF that] le [OF that] small(1) by (intro dmul_exact [of 10]) (simp add: fits_def prec_def)
  then have mm: "map (\<lambda>(p, q). dmul p q) ?ps = map (\<lambda>(p, q). p * q) ?ps" by auto
  have "on_grid 10 x" if "x \<in> set (map (\<lambda>(p, q). p * q) ?ps)" for x using that g by auto
  then have num: "foldl dadd 0 (map (\<lambda>(p, q). p * q) ?ps) = 0 + ?n"
    by (rule foldl_dadd_exact) (use small(1) in \<open>simp_all add: prec_def\<close>)
  have "on_grid 4 x" if "x \<in> set (map snd ?ps)" for x using that pair by auto
  then have den: "foldl dadd 0 (map snd ?ps) = 0 + sum_list (map snd ?ps)"
    by (rule foldl_dadd_exact) (use small(2) in \<open>simp_all add: prec_def\<close>)
  have loop: "wavg_loop 0 0 ls = (?n, ?d)" by (simp only: wavg_loop_pairs mm num den add_0)
  have b: "lo * ?d \<le> ?n" "?n \<le> hi * ?d"
    using sum_products_bounds [of ?ps lo hi] pair by blast+
  have q: "lo \<le> ?n / ?d" "?n / ?d \<le> hi"
    using b total by (simp_all add: pos_le_divide_eq pos_divide_le_eq)
  have f: "fits 6 lo" "fits 6 hi" using fit by (simp_all add: fits_def prec_def)
  have "\<bar>lo\<bar> * 10 ^ 6 + 1 < 10 ^ prec" "\<bar>hi\<bar> * 10 ^ 6 + 1 < 10 ^ prec"
    using fit by (simp_all add: prec_def)
  then obtain w where "round_percentage (ctx (?n / ?d)) = Inr w" "lo \<le> w" "w \<le> hi"
    using pct.ctx_total [OF q f] by blast
  then show ?thesis using total by (simp add: weighted_average_increase_def loop)
qed

definition example_line :: summary_line where
  "example_line = \<lparr> sl_movement_type = Price_increase, sl_percentage_change = Some (1 / 20),
     sl_annual_impact = Some 200, sl_annual_quantity = Some 100,
     sl_pack_changed = False, sl_requires_review = False \<rparr>"

lemma weighted_average_between_witness:
  "\<exists>w. weighted_average_increase [example_line] = Inr (Some w) \<and> 1 / 20 \<le> w \<and> w \<le> 1 / 20"
proof -
  have w: "List.map_filter wavg_pair [example_line] = [(1 / 20, 100)]"
    by (simp add: List.map_filter_simps wavg_pair_def example_line_def)
  show ?thesis
  proof (rule weighted_average_between, goal_cases)
    case (1 p q)
    then have "(p, q) = (1 / 20, 100)" unfolding w by (simp only: set_simps insert_iff empty_iff simp_thms)
    then have "p = 1 / 20" "q = 100" by (rule Pair_inject, blast)+
    then show ?case by (simp only:) (simp add: on_grid_def)
  qed (simp_all only: w, simp_all add: on_grid_def sum_bound_def)
qed

text \<open>The counts of a supplier summary partition its lines: matched, unmatched, new and
  discontinued lines add up to all lines, the unmatched ones are exactly those awaiting review, and
  the matched ones split into increases, decreases, unchanged lines and pack changes; the cost
  impact is the sum of the impacts recorded.\<close>

lemma summary_partitions:
  assumes "summarize ls a b = Inr s"
  shows "matched_skus s + unmatched_skus s + new_skus s + discontinued_skus s = int (length ls) \<and>
    unmatched_skus s = count_lines (\<lambda>l. sl_movement_type l = Review_required) ls \<and>
    matched_skus s = increasing_skus s + decreasing_skus s + unchanged_skus s
      + count_lines (\<lambda>l. sl_movement_type l = Pack_change) ls \<and>
    annual_cost_impact s = dsum (List.map_filter sl_annual_impact ls)"
  using assms movement_partition [of ls] matched_partition [of ls]
  by (auto simp: summarize_def Let_def res_simps)

lemma summary_partitions_witness:
  "\<exists>s. summarize [example_line] 1 1 = Inr s \<and> matched_skus s = 1 \<and> unmatched_skus s = 0 \<and>
     matched_skus s + unmatched_skus s + new_skus s + discontinued_skus s = int (length [example_line])"
proof -
  have "weighted_average_increase [example_line] = Inr (Some (1 / 20))"
    by (simp add: weighted_average_increase_def wavg_pair_def example_line_def dec_eval)
  then obtain s where s: "summarize [example_line] 1 1 = Inr s"
    by (simp add: summarize_def Let_def)
  then have "matched_skus s = 1"
    by (auto simp: summarize_def Let_def res_simps is_matched_line_def example_line_def)
  moreover have "unmatched_skus s = 0"
    using summary_partitions [OF s] by (simp add: count_lines_def example_line_def)
  ultimately show ?thesis using s summary_partitions [OF s] by blast
qed

text \<open>The selling price computed for a target margin reaches it: at the rounded price the
  gross profit is the target share of the price to within a ten-thousandth of the currency.\<close>

lemma required_price_reaches_margin:
  assumes "calculate_required_selling_price cost target = Inr price"
    and "amount cost" "0 \<le> cost" "on_grid 6 target" "0 \<le> target" "target < 1"
  shows "\<bar>(price - cost) - target * price\<bar> < 1 / 10 ^ 4"
  by (rule required_price_error [OF assms])

lemma required_price_reaches_margin_witness:
  "\<exists>price. calculate_required_selling_price 7 (3 / 10) = Inr price \<and>
     \<bar>(price - 7) - 3 / 10 * price\<bar> < 1 / 10 ^ 4"
proof -
  have "calculate_required_selling_price 7 (3 / 10) = Inr 10"
    by (simp add: calculate_required_selling_price_def dec_eval)
  then show ?thesis
    using required_price_reaches_margin [of 7 "3 / 10" 10] by (simp add: amount_def on_grid_def)
qed

end
