(* ===== verification/PyText.thy ===== *)
theory PyText
  imports Prelude "HOL-Library.Sublist"
begin

text \<open>
  Python strings as lists of ASCII characters: the character classes of \<open>re\<close>, \<open>lower\<close>, \<open>upper\<close>,
  \<open>strip\<close>, \<open>split\<close> on one character and \<open>join\<close> with one.  Characters beyond ASCII are not modelled.
\<close>

section \<open>Characters\<close>

definition lower_letters :: string where "lower_letters = ''abcdefghijklmnopqrstuvwxyz''"
definition upper_letters :: string where "upper_letters = ''ABCDEFGHIJKLMNOPQRSTUVWXYZ''"
definition digit_chars :: string where "digit_chars = ''0123456789''"

definition is_digit :: "char \<Rightarrow> bool" where "is_digit c = (c \<in> set digit_chars)"
definition is_letter :: "char \<Rightarrow> bool" where "is_letter c = (c \<in> set lower_letters \<or> c \<in> set upper_letters)"
definition is_word :: "char \<Rightarrow> bool" where "is_word c = (is_letter c \<or> is_digit c \<or> c = CHR ''_'')"

definition space_chars :: string where
  "space_chars = [CHR '' '', CHR 0x09, CHR 0x0A, CHR 0x0B, CHR 0x0C, CHR 0x0D, CHR 0x1C, CHR 0x1D, CHR 0x1E, CHR 0x1F]"

definition is_space :: "char \<Rightarrow> bool" where "is_space c = (c \<in> set space_chars)"

definition lower_char :: "char \<Rightarrow> char" where
  "lower_char c = (case map_of (zip upper_letters lower_letters) c of Some d \<Rightarrow> d | None \<Rightarrow> c)"

definition upper_char :: "char \<Rightarrow> char" where
  "upper_char c = (case map_of (zip lower_letters upper_letters) c of Some d \<Rightarrow> d | None \<Rightarrow> c)"

lemmas char_sets = lower_letters_def upper_letters_def digit_chars_def space_chars_def
lemmas char_classes = is_digit_def is_letter_def is_word_def is_space_def char_sets

definition lower :: "string \<Rightarrow> string" where "lower s = map lower_char s"
definition upper :: "string \<Rightarrow> string" where "upper s = map upper_char s"

lemma lower_char_cases: "lower_char c = c \<or> c \<in> set upper_letters \<and> lower_char c \<in> set lower_letters"
proof (cases "map_of (zip upper_letters lower_letters) c")
  case (Some d)
  then have "(c, d) \<in> set (zip upper_letters lower_letters)" by (rule map_of_SomeD)
  then show ?thesis using Some by (auto simp: lower_char_def dest: set_zip_leftD set_zip_rightD)
qed (simp add: lower_char_def)

lemma lower_char_lower [simp]: "c \<in> set lower_letters \<Longrightarrow> lower_char c = c"
proof -
  have "list_all (\<lambda>c. lower_char c = c) lower_letters" by code_simp
  then show "c \<in> set lower_letters \<Longrightarrow> lower_char c = c" by (simp add: list_all_iff)
qed

lemma lower_char_idem [simp]: "lower_char (lower_char c) = lower_char c"
  using lower_char_cases [of c] by auto

lemma lower_idem [simp]: "lower (lower s) = lower s"
  by (simp add: lower_def)

lemma space_not_word: "is_space c \<Longrightarrow> \<not> is_word c"
proof -
  have "list_all (\<lambda>c. \<not> is_word c) space_chars" by code_simp
  then show "is_space c \<Longrightarrow> \<not> is_word c" by (simp add: list_all_iff is_space_def)
qed

lemma digit_not_letter: "is_digit c \<Longrightarrow> \<not> is_letter c"
proof -
  have "list_all (\<lambda>c. \<not> is_letter c) digit_chars" by code_simp
  then show "is_digit c \<Longrightarrow> \<not> is_letter c" by (simp add: list_all_iff is_digit_def)
qed

lemma lower_char_class [simp]:
  "is_word (lower_char c) = is_word c" "is_space (lower_char c) = is_space c" "is_digit (lower_char c) = is_digit c"
proof -
  have "list_all (\<lambda>c. is_word c \<and> \<not> is_space c \<and> \<not> is_digit c) (upper_letters @ lower_letters)" by code_simp
  then have "c \<in> set upper_letters \<or> c \<in> set lower_letters \<Longrightarrow> is_word c \<and> \<not> is_space c \<and> \<not> is_digit c" for c
    by (auto simp: list_all_iff)
  then show "is_word (lower_char c) = is_word c" "is_space (lower_char c) = is_space c" "is_digit (lower_char c) = is_digit c"
    using lower_char_cases [of c] by metis+
qed

section \<open>Splitting and joining\<close>

definition strip :: "string \<Rightarrow> string" where
  "strip s = rev (dropWhile is_space (rev (dropWhile is_space s)))"

fun split_on :: "char \<Rightarrow> string \<Rightarrow> string list" where
  "split_on d [] = [[]]"
| "split_on d (c # cs) = (if c = d then [] # split_on d cs
     else (case split_on d cs of [] \<Rightarrow> [[c]] | w # ws \<Rightarrow> (c # w) # ws))"

fun join_with :: "char \<Rightarrow> string list \<Rightarrow> string" where
  "join_with d [] = []"
| "join_with d [w] = w"
| "join_with d (w # v # ws) = w @ d # join_with d (v # ws)"

fun infix_of :: "string \<Rightarrow> string \<Rightarrow> bool" where
  "infix_of p [] = (p = [])"
| "infix_of p (c # cs) = (take (length p) (c # cs) = p \<or> infix_of p cs)"

lemma split_on_nonempty [simp]: "split_on d s \<noteq> []"
  by (induction s) (auto split: list.splits)

lemma split_on_word: "d \<notin> set w \<Longrightarrow> split_on d w = [w]"
  by (induction w) auto

lemma split_on_append: "d \<notin> set w \<Longrightarrow> split_on d (w @ d # s) = w # split_on d s"
  by (induction w) auto

lemma split_on_join: "ws \<noteq> [] \<Longrightarrow> (\<And>w. w \<in> set ws \<Longrightarrow> d \<notin> set w) \<Longrightarrow> split_on d (join_with d ws) = ws"
  by (induction d ws rule: join_with.induct) (auto simp: split_on_word split_on_append)

lemma split_on_pieces: "w \<in> set (split_on d s) \<Longrightarrow> set w \<subseteq> set s - {d}"
proof (induction s arbitrary: w)
  case (Cons c cs)
  then show ?case
    by (cases "split_on d cs") (fastforce split: if_splits)+
qed simp

lemma infix_of_iff: "infix_of p s \<longleftrightarrow> (\<exists>a b. s = a @ p @ b)"
proof (induction s)
  case (Cons c cs)
  have "take (length p) (c # cs) = p \<longleftrightarrow> (\<exists>b. c # cs = p @ b)"
    by (metis append_eq_conv_conj append_take_drop_id)
  then show ?case unfolding infix_of.simps Cons.IH
    by (metis append_Cons append_Nil neq_Nil_conv list.inject)
qed simp

text \<open>Words: what is left of a text after splitting at white space.\<close>

definition blank :: "char \<Rightarrow> char" where "blank c = (if is_space c then CHR '' '' else c)"

definition words :: "string \<Rightarrow> string list" where
  "words s = filter (\<lambda>w. w \<noteq> []) (split_on (CHR '' '') (map blank s))"

fun collapse_ws :: "string \<Rightarrow> string" where
  "collapse_ws [] = []"
| "collapse_ws (c # cs) = (if is_space c
     then (if cs \<noteq> [] \<and> is_space (hd cs) then collapse_ws cs else CHR '' '' # collapse_ws cs)
     else c # collapse_ws cs)"

abbreviation "nonempty \<equiv> filter (\<lambda>w. w \<noteq> ([] :: string))"

lemma split_drop_leading: "nonempty (split_on d (dropWhile (\<lambda>c. c = d) s)) = nonempty (split_on d s)"
  by (induction s) auto

lemma split_snoc_delim: "nonempty (split_on d (s @ [d])) = nonempty (split_on d s)"
proof (induction s)
  case (Cons c s)
  have "split_on d (s @ [d]) = split_on d s @ [[]]"
    by (induction s) (auto split: list.splits)
  then show ?case by (cases "split_on d s") auto
qed simp

lemma split_drop_trailing: "nonempty (split_on d (rev (dropWhile (\<lambda>c. c = d) (rev s)))) = nonempty (split_on d s)"
  by (induction s rule: rev_induct) (auto simp: split_snoc_delim)

lemma space_is_space [simp]: "is_space (CHR '' '')"
  by (simp add: char_classes)

lemma collapse_ws_spaces: "c \<in> set (collapse_ws s) \<Longrightarrow> is_space c \<longleftrightarrow> c = CHR '' ''"
  by (induction s rule: collapse_ws.induct) (auto split: if_splits)

lemma split_other: "c \<noteq> d \<Longrightarrow> split_on d (c # s) = (c # hd (split_on d s)) # tl (split_on d s)"
  by (cases "split_on d s") auto

lemma nonempty_hd_tl: "xs \<noteq> [] \<Longrightarrow> nonempty xs = (if hd xs = [] then nonempty (tl xs) else hd xs # nonempty (tl xs))"
  by (cases xs) auto

lemma split_collapse_parts:
  "hd (split_on (CHR '' '') (collapse_ws s)) = hd (split_on (CHR '' '') (map blank s)) \<and>
   nonempty (tl (split_on (CHR '' '') (collapse_ws s))) = nonempty (tl (split_on (CHR '' '') (map blank s)))"
proof (induction s rule: collapse_ws.induct)
  case (2 c cs)
  show ?case
  proof (cases "is_space c")
    case True
    show ?thesis
    proof (cases "cs \<noteq> [] \<and> is_space (hd cs)")
      case sp: True
      then have h: "hd (split_on (CHR '' '') (map blank cs)) = []" by (cases cs) (auto simp: blank_def)
      have "blank c = CHR '' ''" using True by (simp add: blank_def)
      then show ?thesis using 2(1) [OF True sp] True sp h
        by (simp add: nonempty_hd_tl [of "split_on (CHR '' '') (map blank cs)"])
    next
      case False
      have b: "blank c = CHR '' ''" using True by (simp add: blank_def)
      have "collapse_ws (c # cs) = CHR '' '' # collapse_ws cs" using True False by simp
      then show ?thesis using 2(2) [OF True False] b
        by (simp add: nonempty_hd_tl [of "split_on (CHR '' '') (collapse_ws cs)"]
            nonempty_hd_tl [of "split_on (CHR '' '') (map blank cs)"])
    qed
  next
    case False
    then have c: "c \<noteq> CHR '' ''" "blank c = c" by (auto simp: blank_def)
    then show ?thesis using 2(3) [OF False] False by (simp add: split_other del: split_on.simps)
  qed
qed simp

lemma split_collapse: "nonempty (split_on (CHR '' '') (collapse_ws s)) = words s"
  using split_collapse_parts [of s] by (simp add: words_def nonempty_hd_tl)

text \<open>Stripping white space does not change the words of a collapsed text.\<close>

lemma dropWhile_space:
  assumes "\<And>c. c \<in> set s \<Longrightarrow> is_space c \<longleftrightarrow> c = CHR '' ''"
  shows "dropWhile is_space s = dropWhile (\<lambda>c. c = CHR '' '') s"
  using assms by (induction s) auto

lemma words_collapse_strip: "nonempty (split_on (CHR '' '') (strip (collapse_ws s))) = words s"
proof -
  note c = collapse_ws_spaces [of _ s]
  have 1: "dropWhile is_space (collapse_ws s) = dropWhile (\<lambda>c. c = CHR '' '') (collapse_ws s)"
    by (rule dropWhile_space [OF c])
  have 2: "dropWhile is_space (rev (dropWhile is_space (collapse_ws s))) =
      dropWhile (\<lambda>c. c = CHR '' '') (rev (dropWhile is_space (collapse_ws s)))"
    by (rule dropWhile_space) (use c set_dropWhileD in force)
  show ?thesis
    unfolding strip_def 2 split_drop_trailing unfolding 1 split_drop_leading by (rule split_collapse)
qed

end
