(* ===== verification/SequenceMatch.thy ===== *)
theory SequenceMatch
  imports PyText
begin

text \<open>
  The similarity ratio of Python's \<open>difflib.SequenceMatcher\<close> (no junk function, automatic junk on),
  which \<open>app/matching/fuzzy_matcher.py\<close> calls: twice the total length of the matching blocks over the
  total length of the texts.  A block is the first longest common substring free of popular
  characters, extended by equal characters on both sides; the blocks left and right of it follow
  recursively, with the length of the first text as fuel.
\<close>

definition popular :: "string \<Rightarrow> char \<Rightarrow> bool" where
  "popular b c = (200 \<le> length b \<and> length b div 100 + 1 < count_list b c)"

fun common_prefix :: "(char \<Rightarrow> bool) \<Rightarrow> string \<Rightarrow> string \<Rightarrow> nat" where
  "common_prefix P (x # xs) (y # ys) = (if x = y \<and> P y then common_prefix P xs ys + 1 else 0)"
| "common_prefix P _ _ = 0"

definition starts :: "string \<Rightarrow> string \<Rightarrow> (nat \<times> nat) list" where
  "starts a b = List.product [0..<length a] [0..<length b]"

definition longest_free :: "(char \<Rightarrow> bool) \<Rightarrow> string \<Rightarrow> string \<Rightarrow> nat \<times> nat \<times> nat" where
  "longest_free junk a b = foldl (\<lambda>(i, j, k) (x, y).
     let n = common_prefix (\<lambda>c. \<not> junk c) (drop x a) (drop y b) in if k < n then (x, y, n) else (i, j, k))
   (0, 0, 0) (starts a b)"

definition find_longest_match :: "(char \<Rightarrow> bool) \<Rightarrow> string \<Rightarrow> string \<Rightarrow> nat \<times> nat \<times> nat" where
  "find_longest_match junk a b = (let (i, j, k) = longest_free junk a b;
      l = common_prefix (\<lambda>_. True) (rev (take i a)) (rev (take j b));
      r = common_prefix (\<lambda>_. True) (drop (i + k) a) (drop (j + k) b)
    in (i - l, j - l, l + k + r))"

primrec matching_total :: "(char \<Rightarrow> bool) \<Rightarrow> nat \<Rightarrow> string \<Rightarrow> string \<Rightarrow> nat" where
  "matching_total junk 0 a b = 0"
| "matching_total junk (Suc fuel) a b = (case find_longest_match junk a b of (i, j, k) \<Rightarrow>
     if k = 0 then 0 else k + matching_total junk fuel (take i a) (take j b)
       + matching_total junk fuel (drop (i + k) a) (drop (j + k) b))"

definition sequence_ratio :: "string \<Rightarrow> string \<Rightarrow> rat" where
  "sequence_ratio a b = (if a = [] \<and> b = [] then 1
     else of_nat (2 * matching_total (popular b) (length a) a b) / of_nat (length a + length b))"

section \<open>Bounds\<close>

lemma common_prefix_le: "common_prefix P a b \<le> length a" "common_prefix P a b \<le> length b"
  by (induction P a b rule: common_prefix.induct) auto

lemma longest_free_fits:
  assumes "longest_free junk a b = (i, j, k)"
  shows "i + k \<le> length a \<and> j + k \<le> length b"
proof -
  let ?f = "\<lambda>(i, j, k) (x, y). let n = common_prefix (\<lambda>c. \<not> junk c) (drop x a) (drop y b) in if k < n then (x, y, n) else (i, j, k)"
  have "case foldl ?f s xs of (i, j, k) \<Rightarrow> i + k \<le> length a \<and> j + k \<le> length b"
    if "set xs \<subseteq> set (starts a b)" "case s of (i, j, k) \<Rightarrow> i + k \<le> length a \<and> j + k \<le> length b" for xs s
    using that
  proof (induction xs arbitrary: s)
    case (Cons p xs)
    obtain x y where p: "p = (x, y)" by (cases p)
    then have xy: "x < length a" "y < length b" using Cons.prems(1) by (auto simp: starts_def)
    have n: "x + common_prefix P (drop x a) (drop y b) \<le> length a" "y + common_prefix P (drop x a) (drop y b) \<le> length b" for P
      using common_prefix_le [of P "drop x a" "drop y b"] xy by simp_all
    have "case ?f s p of (i, j, k) \<Rightarrow> i + k \<le> length a \<and> j + k \<le> length b"
      using Cons.prems(2) n by (auto simp: p Let_def split: prod.splits)
    then show ?case using Cons.IH [of "?f s p"] Cons.prems(1) by simp
  qed simp
  from this [of "starts a b" "(0, 0, 0)"] show ?thesis using assms unfolding longest_free_def by simp
qed

lemma find_longest_match_fits:
  assumes "find_longest_match junk a b = (i, j, k)"
  shows "i + k \<le> length a \<and> j + k \<le> length b"
proof -
  obtain x y n where l: "longest_free junk a b = (x, y, n)" by (cases "longest_free junk a b")
  define lft where "lft = common_prefix (\<lambda>_. True) (rev (take x a)) (rev (take y b))"
  define rgt where "rgt = common_prefix (\<lambda>_. True) (drop (x + n) a) (drop (y + n) b)"
  have "i = x - lft" "j = y - lft" "k = lft + n + rgt"
    using assms by (auto simp: find_longest_match_def l Let_def lft_def rgt_def)
  moreover have "lft \<le> x" "lft \<le> y"
    using common_prefix_le [of "\<lambda>_. True" "rev (take x a)" "rev (take y b)"] by (auto simp: lft_def)
  moreover have "rgt \<le> length a - (x + n)" "rgt \<le> length b - (y + n)"
    using common_prefix_le [of "\<lambda>_. True" "drop (x + n) a" "drop (y + n) b"] by (auto simp: rgt_def)
  ultimately show ?thesis using longest_free_fits [OF l] by simp arith
qed

lemma matching_total_le: "matching_total junk fuel a b \<le> length a \<and> matching_total junk fuel a b \<le> length b"
proof (induction fuel arbitrary: a b)
  case (Suc fuel)
  obtain i j k where f: "find_longest_match junk a b = (i, j, k)" by (cases "find_longest_match junk a b")
  then show ?case
    using Suc [of "take i a" "take j b"] Suc [of "drop (i + k) a" "drop (j + k) b"] find_longest_match_fits [OF f]
    by (simp add: min_def split: if_splits) arith
qed simp

lemma sequence_ratio_bounds: "0 \<le> sequence_ratio a b \<and> sequence_ratio a b \<le> 1"
proof (cases "a = [] \<and> b = []")
  case False
  let ?m = "matching_total (popular b) (length a) a b"
  have "2 * ?m \<le> length a + length b" using matching_total_le [of "popular b" "length a" a b] by linarith
  then have "(of_nat (2 * ?m) :: rat) \<le> of_nat (length a + length b)" by (simp only: of_nat_le_iff)
  moreover have "0 < length a + length b" using False by auto
  then have "(0::rat) < of_nat (length a + length b)" by (simp only: of_nat_0_less_iff)
  ultimately show ?thesis using False unfolding sequence_ratio_def by (simp add: divide_le_eq)
qed (simp add: sequence_ratio_def)

end
