(* ===== verification/Matching.thy ===== *)
theory Matching
  imports SequenceMatch Rounding
begin

text \<open>
  Matching of supplier items: \<open>app/matching/normalize.py\<close>, \<open>exact_matcher.py\<close>, \<open>fuzzy_matcher.py\<close>,
  \<open>scorer.py\<close> and \<open>review.py\<close>.  Scores are exact rationals where the code has floats, so a score is
  the code's up to float rounding before the final rounding to four places.
\<close>

section \<open>Normalization\<close>

definition stopwords :: "string list" where
  "stopwords = [''the'', ''a'', ''an'', ''of'', ''and'', ''with'', ''in'']"

definition pack_noise_words :: "string list" where
  "pack_noise_words = [''x'', ''ml'', ''l'', ''kg'', ''g'', ''ea'', ''each'', ''unit'', ''units'', ''case'', ''of'']"

definition variant_conflict_groups :: "string list list" where
  "variant_conflict_groups = [[''mature'', ''matured''], [''mild''], [''medium''], [''extra mature''], [''smooth''],
     [''original''], [''lite'', ''light''], [''zero'', ''sugar free'', ''no sugar''], [''diet''],
     [''full cream'', ''full-cream''], [''low fat'', ''fat free'', ''fatfree''], [''spicy'', ''hot''], [''unsalted''],
     [''salted''], [''smoked''], [''unsmoked'']]"

definition punctuation_sub :: "string \<Rightarrow> string" where
  "punctuation_sub s = map (\<lambda>c. if is_word c \<or> is_space c then c else CHR '' '') s"

definition digit_letter :: "char \<Rightarrow> char \<Rightarrow> bool" where
  "digit_letter a b = (is_digit a \<and> is_letter b \<or> is_letter a \<and> is_digit b)"

fun boundary_sub :: "string \<Rightarrow> string" where
  "boundary_sub (a # b # s) = (if digit_letter a b then a # CHR '' '' # boundary_sub (b # s) else a # boundary_sub (b # s))"
| "boundary_sub s = s"

definition normalize_description :: "string \<Rightarrow> string" where
  "normalize_description raw =
     (if raw = [] then []
      else let text = strip (collapse_ws (boundary_sub (punctuation_sub (lower raw))))
           in join_with (CHR '' '') (filter (\<lambda>t. t \<noteq> [] \<and> t \<notin> set stopwords) (split_on (CHR '' '') text)))"

definition tokenize :: "string \<Rightarrow> string set" where
  "tokenize normalized = (if normalized = [] then {} else set (split_on (CHR '' '') normalized))"

definition unit_like :: "string \<Rightarrow> bool" where
  "unit_like t = (let r = dropWhile is_digit t; ds = takeWhile is_digit t in ds \<noteq> [] \<and>
     (r = [] \<or> (hd r = CHR ''.'' \<and> tl r \<noteq> [] \<and> list_all is_digit (tl r))))"

definition identity_tokens :: "string \<Rightarrow> string set" where
  "identity_tokens normalized = {t \<in> tokenize normalized. t \<notin> set pack_noise_words \<and> \<not> unit_like t}"

definition variant_present :: "string \<Rightarrow> string \<Rightarrow> bool" where
  "variant_present normalized v = (if CHR '' '' \<in> set v then infix_of v normalized
     else v \<in> set (split_on (CHR '' '') normalized))"

definition find_variant_group :: "string \<Rightarrow> string list option" where
  "find_variant_group normalized = find (\<lambda>g. list_ex (variant_present normalized) g) variant_conflict_groups"

section \<open>Exact and fuzzy stages\<close>

definition falsy :: "string option \<Rightarrow> bool" where
  "falsy s = (s = None \<or> s = Some [])"

definition match_by_sku :: "string option \<Rightarrow> string option \<Rightarrow> bool" where
  "match_by_sku old_sku new_sku = (\<not> falsy old_sku \<and> \<not> falsy new_sku \<and>
     lower (strip (the old_sku)) = lower (strip (the new_sku)))"

definition match_by_barcode :: "string option \<Rightarrow> string option \<Rightarrow> bool" where
  "match_by_barcode old_barcode new_barcode = (\<not> falsy old_barcode \<and> \<not> falsy new_barcode \<and>
     strip (the old_barcode) = strip (the new_barcode))"

definition match_by_exact_normalized_description :: "string \<Rightarrow> string \<Rightarrow> bool" where
  "match_by_exact_normalized_description old_desc new_desc = (old_desc \<noteq> [] \<and> new_desc \<noteq> [] \<and>
     normalize_description old_desc = normalize_description new_desc)"

definition verify_exact_match_for_route_log :: "string \<Rightarrow> string \<Rightarrow> string \<Rightarrow> string \<Rightarrow> bool" where
  "verify_exact_match_for_route_log logged_registration source_registration logged_reference source_reference =
     (upper (strip logged_registration) = upper (strip source_registration) \<and>
      upper (strip logged_reference) = upper (strip source_reference))"

definition fuzzy_ratio :: "string \<Rightarrow> string \<Rightarrow> rat" where
  "fuzzy_ratio a b = (if a = [] \<or> b = [] then 0 else sequence_ratio a b)"

definition token_overlap_ratio :: "string \<Rightarrow> string \<Rightarrow> rat" where
  "token_overlap_ratio a b = (let s = identity_tokens a; t = identity_tokens b in
     if s = {} \<or> t = {} then 0 else of_nat (card (s \<inter> t)) / of_nat (card (s \<union> t)))"

definition round_4 :: "rat \<Rightarrow> rat" where
  "round_4 x = of_int (round_he (x * 10 ^ 4)) / 10 ^ 4"

definition combined_description_score :: "string \<Rightarrow> string \<Rightarrow> rat" where
  "combined_description_score old_desc new_desc =
     (let a = normalize_description old_desc; b = normalize_description new_desc
      in round_4 (4 / 10 * fuzzy_ratio a b + 6 / 10 * token_overlap_ratio a b))"

section \<open>Scoring\<close>

datatype match_method = M_SKU | M_BARCODE | M_EXACT_DESCRIPTION | M_FUZZY | M_UNMATCHED

datatype match_status' = AUTO_MATCHED | REVIEW_RECOMMENDED | MANUAL_REVIEW_REQUIRED | NO_CANDIDATE

record candidate_item =
  ci_key :: string
  ci_sku :: "string option"
  ci_barcode :: "string option"
  ci_description :: string

record match_result =
  mr_old_key :: string
  mr_new_key :: "string option"
  mr_confidence :: rat
  mr_method :: match_method
  mr_status :: match_status'

definition auto_match_threshold :: rat where "auto_match_threshold = 95 / 100"
definition review_recommended_threshold :: rat where "review_recommended_threshold = 80 / 100"
definition no_plausible_match_floor :: rat where "no_plausible_match_floor = 45 / 100"
definition variant_conflict_score_cap :: rat where "variant_conflict_score_cap = 55 / 100"

definition has_conflicting_variant :: "string \<Rightarrow> string \<Rightarrow> bool" where
  "has_conflicting_variant desc_a desc_b =
     (case (find_variant_group (normalize_description desc_a), find_variant_group (normalize_description desc_b)) of
        (Some a, Some b) \<Rightarrow> a \<noteq> b | _ \<Rightarrow> False)"

definition score_pair :: "candidate_item \<Rightarrow> candidate_item \<Rightarrow> rat \<times> match_method" where
  "score_pair old_item new_item =
     (if match_by_sku (ci_sku old_item) (ci_sku new_item) then (1, M_SKU)
      else if match_by_barcode (ci_barcode old_item) (ci_barcode new_item) then (1, M_BARCODE)
      else if match_by_exact_normalized_description (ci_description old_item) (ci_description new_item)
      then (98 / 100, M_EXACT_DESCRIPTION)
      else let score = combined_description_score (ci_description old_item) (ci_description new_item)
           in (if has_conflicting_variant (ci_description old_item) (ci_description new_item)
               then min score variant_conflict_score_cap else score, M_FUZZY))"

definition classify_match :: "rat \<Rightarrow> match_status'" where
  "classify_match confidence = (if auto_match_threshold \<le> confidence then AUTO_MATCHED
     else if review_recommended_threshold \<le> confidence then REVIEW_RECOMMENDED else MANUAL_REVIEW_REQUIRED)"

fun best_loop :: "candidate_item \<Rightarrow> rat \<times> match_method \<times> string option \<Rightarrow>
    candidate_item list \<Rightarrow> rat \<times> match_method \<times> string option" where
  "best_loop old_item best [] = best"
| "best_loop old_item best (n # ns) = (let (score, method) = score_pair old_item n in
     best_loop old_item (if fst best < score then (score, method, Some (ci_key n)) else best) ns)"

definition find_best_match :: "candidate_item \<Rightarrow> candidate_item list \<Rightarrow> match_result" where
  "find_best_match old_item new_items =
     (case best_loop old_item (- 1, M_UNMATCHED, None) new_items of
        (score, method, None) \<Rightarrow> \<lparr> mr_old_key = ci_key old_item, mr_new_key = None, mr_confidence = 0,
          mr_method = M_UNMATCHED, mr_status = NO_CANDIDATE \<rparr>
      | (score, method, Some key) \<Rightarrow>
          if score < no_plausible_match_floor
          then \<lparr> mr_old_key = ci_key old_item, mr_new_key = None, mr_confidence = 0,
                 mr_method = M_UNMATCHED, mr_status = NO_CANDIDATE \<rparr>
          else \<lparr> mr_old_key = ci_key old_item, mr_new_key = Some key, mr_confidence = score,
                 mr_method = method, mr_status = classify_match score \<rparr>)"

definition requires_human_review :: "match_status' \<Rightarrow> bool" where
  "requires_human_review st = (st \<in> {REVIEW_RECOMMENDED, MANUAL_REVIEW_REQUIRED, NO_CANDIDATE})"

definition is_authoritative :: "match_status' \<Rightarrow> bool" where
  "is_authoritative st = (st = AUTO_MATCHED)"

section \<open>Lemmas: a normalized description is stable\<close>

fun no_boundary :: "string \<Rightarrow> bool" where
  "no_boundary (a # b # s) = (\<not> digit_letter a b \<and> no_boundary (b # s))"
| "no_boundary s = True"

lemma space_no_boundary [simp]: "\<not> digit_letter a (CHR '' '')" "\<not> digit_letter (CHR '' '') b"
  by (auto simp: digit_letter_def char_classes)

lemma boundary_sub_stable: "no_boundary s \<Longrightarrow> boundary_sub s = s"
  by (induction s rule: boundary_sub.induct) auto

lemma no_boundary_append:
  "no_boundary (s @ t) \<longleftrightarrow> no_boundary s \<and> no_boundary t \<and> (s \<noteq> [] \<longrightarrow> t \<noteq> [] \<longrightarrow> \<not> digit_letter (last s) (hd t))"
  by (induction s rule: no_boundary.induct) (cases t; auto)+

lemma boundary_sub_hd: "s \<noteq> [] \<Longrightarrow> \<exists>r. boundary_sub s = hd s # r"
  by (induction s rule: boundary_sub.induct) auto

lemma no_boundary_sub: "no_boundary (boundary_sub s)"
proof (induction s rule: boundary_sub.induct)
  case (1 a b s)
  obtain r where "boundary_sub (b # s) = b # r" using boundary_sub_hd [of "b # s"] by auto
  then show ?case using 1 by (auto split: if_splits)
qed simp_all

lemma no_boundary_blank: "no_boundary s \<Longrightarrow> no_boundary (map blank s)"
  by (induction s rule: no_boundary.induct) (auto simp: blank_def)

lemma split_piece_infix: "w \<in> set (split_on d s) \<Longrightarrow> \<exists>a b. s = a @ w @ b"
proof (induction s arbitrary: w)
  case (Cons c cs)
  have hd_prefix: "\<exists>b. s = hd (split_on d s) @ b" for s
    by (induction s) (auto split: list.splits)
  show ?case
  proof (cases "c = d")
    case True
    then show ?thesis using Cons by (auto intro: exI [of _ "[]"]) (metis append_Cons)
  next
    case False
    obtain b where b: "cs = hd (split_on d cs) @ b" using hd_prefix by blast
    from Cons.prems False have "w = c # hd (split_on d cs) \<or> w \<in> set (tl (split_on d cs))"
      by (simp add: split_other del: split_on.simps(2))
    then show ?thesis
    proof
      assume "w = c # hd (split_on d cs)"
      then show ?thesis using b by (metis append_Cons append_Nil)
    next
      assume "w \<in> set (tl (split_on d cs))"
      then have "w \<in> set (split_on d cs)" by (meson list.set_sel(2) split_on_nonempty)
      then show ?thesis using Cons.IH by (metis append_Cons)
    qed
  qed
qed auto

definition normal_word :: "string \<Rightarrow> bool" where
  "normal_word w = (w \<noteq> [] \<and> no_boundary w \<and> (\<forall>c\<in>set w. is_word c \<and> lower_char c = c))"

lemma boundary_sub_set: "set (boundary_sub s) \<subseteq> insert (CHR '' '') (set s)"
  by (induction s rule: boundary_sub.induct) auto

lemma words_normal:
  assumes "w \<in> set (words (boundary_sub (punctuation_sub (lower raw))))"
  shows "normal_word w"
proof -
  let ?t = "boundary_sub (punctuation_sub (lower raw))"
  have w: "w \<noteq> []" "w \<in> set (split_on (CHR '' '') (map blank ?t))" using assms by (auto simp: words_def)
  obtain a b where "map blank ?t = a @ w @ b" using split_piece_infix [OF w(2)] by blast
  then have "no_boundary w"
    using no_boundary_blank [OF no_boundary_sub, of "punctuation_sub (lower raw)"] by (simp add: no_boundary_append)
  moreover have "is_word c \<and> lower_char c = c" if c: "c \<in> set w" for c
  proof -
    have "c \<in> set (map blank ?t)" "c \<noteq> CHR '' ''" using split_on_pieces [OF w(2)] c by auto
    then obtain d where "d \<in> set ?t" "c = d" "\<not> is_space d" by (auto simp: blank_def split: if_splits)
    then have "c \<in> set (punctuation_sub (lower raw))" "\<not> is_space c"
      using boundary_sub_set [of "punctuation_sub (lower raw)"] by (auto simp: char_classes)
    then show ?thesis by (auto simp: punctuation_sub_def lower_def split: if_splits)
  qed
  ultimately show ?thesis using w(1) by (simp add: normal_word_def)
qed

lemma normalize_words:
  "normalize_description raw = join_with (CHR '' '')
     (filter (\<lambda>t. t \<notin> set stopwords) (words (boundary_sub (punctuation_sub (lower raw)))))"
proof -
  have "filter (\<lambda>t. t \<noteq> [] \<and> t \<notin> set stopwords) xs = filter (\<lambda>t. t \<notin> set stopwords) (nonempty xs)" for xs
    by (induction xs) auto
  note split = this [of "split_on (CHR '' '') (strip (collapse_ws (boundary_sub (punctuation_sub (lower raw)))))"]
  show ?thesis
  proof (cases "raw = []")
    case False
    then show ?thesis unfolding normalize_description_def Let_def split words_collapse_strip by simp
  qed (simp add: normalize_description_def lower_def punctuation_sub_def words_def)
qed

lemma join_with_no_boundary:
  "(\<And>w. w \<in> set ws \<Longrightarrow> no_boundary w) \<Longrightarrow> no_boundary (join_with (CHR '' '') ws)"
proof (induction "CHR '' ''" ws rule: join_with.induct)
  case (3 w v ws)
  have "no_boundary (CHR '' '' # s)" if "no_boundary s" for s using that by (cases s) auto
  then show ?case using 3 by (simp add: no_boundary_append)
qed auto

lemma join_with_set: "set (join_with d ws) \<subseteq> insert d (\<Union>w\<in>set ws. set w)"
  by (induction d ws rule: join_with.induct) auto

lemma lower_space [simp]: "lower_char (CHR '' '') = CHR '' ''"
  by code_simp

lemma normal_words_stable:
  assumes "\<And>w. w \<in> set ws \<Longrightarrow> normal_word w"
  shows "words (boundary_sub (punctuation_sub (lower (join_with (CHR '' '') ws)))) = ws"
proof -
  let ?s = "join_with (CHR '' '') ws"
  have c: "(is_word c \<or> c = CHR '' '') \<and> lower_char c = c" if "c \<in> set ?s" for c
    using that join_with_set [of "CHR '' ''" ws] assms by (auto simp: normal_word_def)
  have l: "lower ?s = ?s" "punctuation_sub ?s = ?s" "map blank ?s = ?s"
    unfolding lower_def punctuation_sub_def
    by (rule map_idI; use c space_not_word in \<open>auto simp: blank_def\<close>)+
  have b: "boundary_sub ?s = ?s"
    using assms by (intro boundary_sub_stable join_with_no_boundary) (auto simp: normal_word_def)
  have "CHR '' '' \<notin> set w" if "w \<in> set ws" for w
    using assms [OF that] space_not_word [OF space_is_space] by (auto simp: normal_word_def)
  then have "split_on (CHR '' '') ?s = (if ws = [] then [[]] else ws)"
    by (simp add: split_on_join)
  moreover have "filter (\<lambda>w. w \<noteq> []) ws = ws" using assms by (auto simp: normal_word_def intro: filter_True)
  ultimately show ?thesis by (simp add: l b words_def)
qed

section \<open>Properties\<close>

text \<open>Normalizing a description is idempotent, as its documentation claims: a normalized description is
  left unchanged by every later normalization.\<close>

lemma normalize_idempotent: "normalize_description (normalize_description raw) = normalize_description raw"
proof -
  let ?ws = "filter (\<lambda>t. t \<notin> set stopwords) (words (boundary_sub (punctuation_sub (lower raw))))"
  have "normal_word w" if "w \<in> set ?ws" for w using that words_normal by auto
  then have "words (boundary_sub (punctuation_sub (lower (join_with (CHR '' '') ?ws)))) = ?ws"
    by (rule normal_words_stable)
  then show ?thesis unfolding normalize_words by (simp only: normalize_words filter_filter) simp
qed

lemma round_4_bounds: "0 \<le> x \<Longrightarrow> x \<le> 1 \<Longrightarrow> 0 \<le> round_4 x \<and> round_4 x \<le> 1"
proof -
  assume x: "0 \<le> x" "x \<le> 1"
  have "round_he (x * 10 ^ 4) \<le> round_he (of_int (10 ^ 4))" by (rule round_he_mono) (use x in simp)
  then have "round_he (x * 10 ^ 4) \<le> 10 ^ 4" by (simp only: round_he_of_int)
  moreover have "0 \<le> round_he (x * 10 ^ 4)" using x by (intro round_he_nonneg) simp
  ultimately show ?thesis by (simp add: round_4_def)
qed

lemma token_overlap_bounds: "0 \<le> token_overlap_ratio a b \<and> token_overlap_ratio a b \<le> 1"
proof -
  let ?s = "identity_tokens a" and ?t = "identity_tokens b"
  have f: "finite (?s \<union> ?t)" by (simp add: identity_tokens_def tokenize_def)
  then have "card (?s \<inter> ?t) \<le> card (?s \<union> ?t)" by (intro card_mono) auto
  moreover have "?s \<noteq> {} \<Longrightarrow> 0 < card (?s \<union> ?t)" using f by (simp add: card_gt_0_iff)
  ultimately show ?thesis by (auto simp: token_overlap_ratio_def Let_def divide_le_eq)
qed

lemma combined_score_bounds: "0 \<le> combined_description_score a b \<and> combined_description_score a b \<le> 1"
proof -
  have "0 \<le> fuzzy_ratio x y \<and> fuzzy_ratio x y \<le> 1" for x y using sequence_ratio_bounds by (simp add: fuzzy_ratio_def)
  then have f: "0 \<le> fuzzy_ratio x y" "fuzzy_ratio x y \<le> 1" for x y by auto
  note t = token_overlap_bounds [of "normalize_description a" "normalize_description b"]
  show ?thesis unfolding combined_description_score_def Let_def
    using t f [of "normalize_description a" "normalize_description b"] by (intro round_4_bounds) linarith+
qed

lemma score_pair_bounds: "score_pair o' n = (s, m) \<Longrightarrow> 0 \<le> s \<and> s \<le> 1"
  using combined_score_bounds by (auto simp: score_pair_def Let_def variant_conflict_score_cap_def min_def split: if_splits)

lemma best_loop_spec:
  assumes "best_loop old_item b ns = (s, m, k)"
  shows "(s, m, k) = b \<and> (\<forall>n\<in>set ns. fst (score_pair old_item n) \<le> fst b) \<or>
    (\<exists>i<length ns. score_pair old_item (ns ! i) = (s, m) \<and> k = Some (ci_key (ns ! i)) \<and> fst b < s \<and>
      (\<forall>j<i. fst (score_pair old_item (ns ! j)) < s) \<and> (\<forall>n\<in>set ns. fst (score_pair old_item n) \<le> s))"
  using assms
proof (induction old_item b ns rule: best_loop.induct)
  case (2 old_item b n ns)
  obtain x y where xy: "score_pair old_item n = (x, y)" by fastforce
  define b' where "b' = (if fst b < x then (x, y, Some (ci_key n)) else b)"
  have "best_loop old_item b' ns = (s, m, k)" using 2(2) by (simp add: xy b'_def Let_def)
  then have IH: "(s, m, k) = b' \<and> (\<forall>n\<in>set ns. fst (score_pair old_item n) \<le> fst b') \<or>
    (\<exists>i<length ns. score_pair old_item (ns ! i) = (s, m) \<and> k = Some (ci_key (ns ! i)) \<and> fst b' < s \<and>
      (\<forall>j<i. fst (score_pair old_item (ns ! j)) < s) \<and> (\<forall>n\<in>set ns. fst (score_pair old_item n) \<le> s))"
    using 2(1) [of "(x, y)" x y] xy by (simp add: b'_def)
  then show ?case
  proof
    assume h: "(s, m, k) = b' \<and> (\<forall>n\<in>set ns. fst (score_pair old_item n) \<le> fst b')"
    show ?thesis
    proof (cases "fst b < x")
      case True
      then have "s = x" "m = y" "k = Some (ci_key n)" using h by (auto simp: b'_def)
      then show ?thesis using h True xy by (intro disjI2 exI [of _ 0]) (auto simp: b'_def)
    qed (use h xy in \<open>auto simp: b'_def\<close>)
  next
    assume "\<exists>i<length ns. score_pair old_item (ns ! i) = (s, m) \<and> k = Some (ci_key (ns ! i)) \<and> fst b' < s \<and>
      (\<forall>j<i. fst (score_pair old_item (ns ! j)) < s) \<and> (\<forall>n\<in>set ns. fst (score_pair old_item n) \<le> s)"
    then obtain i where i: "i < length ns" "score_pair old_item (ns ! i) = (s, m)" "k = Some (ci_key (ns ! i))" "fst b' < s"
      "\<forall>j<i. fst (score_pair old_item (ns ! j)) < s" "\<forall>n\<in>set ns. fst (score_pair old_item n) \<le> s" by blast
    have b: "fst b < s" "x < s" using i(4) by (auto simp: b'_def split: if_splits)
    then show ?thesis using i xy
      by (intro disjI2 exI [of _ "Suc i"]) (auto simp: nth_Cons split: nat.splits)
  qed
qed auto

text \<open>Matching returns the earliest candidate with the highest score, provided that score reaches the
  plausibility floor, with that score as confidence; otherwise no candidate at all.\<close>

lemma find_best_match_is_best:
  shows "(mr_status (find_best_match o' ns) = NO_CANDIDATE \<and> mr_new_key (find_best_match o' ns) = None \<and>
      (\<forall>n\<in>set ns. fst (score_pair o' n) < no_plausible_match_floor)) \<or>
    (\<exists>i<length ns. mr_new_key (find_best_match o' ns) = Some (ci_key (ns ! i)) \<and>
      score_pair o' (ns ! i) = (mr_confidence (find_best_match o' ns), mr_method (find_best_match o' ns)) \<and>
      no_plausible_match_floor \<le> mr_confidence (find_best_match o' ns) \<and> mr_confidence (find_best_match o' ns) \<le> 1 \<and>
      mr_status (find_best_match o' ns) = classify_match (mr_confidence (find_best_match o' ns)) \<and>
      (\<forall>j<i. fst (score_pair o' (ns ! j)) < mr_confidence (find_best_match o' ns)) \<and>
      (\<forall>n\<in>set ns. fst (score_pair o' n) \<le> mr_confidence (find_best_match o' ns)))"
proof -
  obtain s m k where l: "best_loop o' (- 1, M_UNMATCHED, None) ns = (s, m, k)" by (cases "best_loop o' (- 1, M_UNMATCHED, None) ns")
  have p: "0 \<le> fst (score_pair o' n)" for n using score_pair_bounds [of o' n] by (metis prod.collapse)
  from best_loop_spec [OF l] show ?thesis
  proof
    assume h: "(s, m, k) = (- 1, M_UNMATCHED, None) \<and> (\<forall>n\<in>set ns. fst (score_pair o' n) \<le> fst (- 1, M_UNMATCHED, None))"
    have "ns = []"
    proof (cases ns)
      case (Cons n ns')
      then have "fst (score_pair o' n) \<le> - 1" using h by simp
      then show ?thesis using p [of n] by linarith
    qed
    then show ?thesis using h l by (simp add: find_best_match_def)
  next
    assume "\<exists>i<length ns. score_pair o' (ns ! i) = (s, m) \<and> k = Some (ci_key (ns ! i)) \<and> fst (- 1, M_UNMATCHED, None) < s \<and>
      (\<forall>j<i. fst (score_pair o' (ns ! j)) < s) \<and> (\<forall>n\<in>set ns. fst (score_pair o' n) \<le> s)"
    then obtain i where i: "i < length ns" "score_pair o' (ns ! i) = (s, m)" "k = Some (ci_key (ns ! i))"
      "\<forall>j<i. fst (score_pair o' (ns ! j)) < s" "\<forall>n\<in>set ns. fst (score_pair o' n) \<le> s" by blast
    show ?thesis
    proof (cases "s < no_plausible_match_floor")
      case True
      then have "\<forall>n\<in>set ns. fst (score_pair o' n) < no_plausible_match_floor" using i(5) by (meson le_less_trans)
      then show ?thesis using True i(3) l by (simp add: find_best_match_def)
    next
      case False
      then have "find_best_match o' ns = \<lparr> mr_old_key = ci_key o', mr_new_key = k, mr_confidence = s,
          mr_method = m, mr_status = classify_match s \<rparr>" using i(3) l by (simp add: find_best_match_def)
      then show ?thesis using i False score_pair_bounds [OF i(2)] by (intro disjI2 exI [of _ i]) simp
    qed
  qed
qed

lemma find_best_match_is_best_witness:
  "mr_new_key (find_best_match \<lparr> ci_key = ''1'', ci_sku = Some ''A1'', ci_barcode = None, ci_description = ''Rice'' \<rparr>
     [\<lparr> ci_key = ''2'', ci_sku = Some ''a1 '', ci_barcode = None, ci_description = ''Rice 2kg'' \<rparr>]) = Some ''2''"
proof -
  let ?a = "\<lparr> ci_key = ''1'', ci_sku = Some ''A1'', ci_barcode = None, ci_description = ''Rice'' \<rparr>"
  let ?b = "\<lparr> ci_key = ''2'', ci_sku = Some ''a1 '', ci_barcode = None, ci_description = ''Rice 2kg'' \<rparr>"
  have "match_by_sku (ci_sku ?a) (ci_sku ?b)" by code_simp
  then have "fst (score_pair ?a ?b) = 1" by (simp add: score_pair_def)
  then show ?thesis using find_best_match_is_best [of ?a "[?b]"] by (simp add: no_plausible_match_floor_def)
qed

text \<open>Two descriptions of conflicting variants are never matched automatically, however similar the
  rest of their texts: unless the codes agree, the pair stays below both review thresholds.\<close>

lemma conflicting_variants_never_automatic:
  assumes "has_conflicting_variant (ci_description o') (ci_description n)"
    and "\<not> match_by_sku (ci_sku o') (ci_sku n)" "\<not> match_by_barcode (ci_barcode o') (ci_barcode n)"
  shows "classify_match (fst (score_pair o' n)) = MANUAL_REVIEW_REQUIRED \<and> requires_human_review (classify_match (fst (score_pair o' n)))"
proof -
  have "\<not> match_by_exact_normalized_description (ci_description o') (ci_description n)"
    using assms(1) by (auto simp: match_by_exact_normalized_description_def has_conflicting_variant_def split: option.splits)
  then have "fst (score_pair o' n) \<le> variant_conflict_score_cap"
    using assms by (simp add: score_pair_def Let_def)
  then show ?thesis
    by (auto simp: classify_match_def requires_human_review_def auto_match_threshold_def review_recommended_threshold_def
        variant_conflict_score_cap_def)
qed

lemma conflicting_variants_never_automatic_witness:
  "classify_match (fst (score_pair \<lparr> ci_key = ''1'', ci_sku = None, ci_barcode = None, ci_description = ''Cheddar Mature'' \<rparr>
     \<lparr> ci_key = ''2'', ci_sku = None, ci_barcode = None, ci_description = ''Cheddar Mild'' \<rparr>)) = MANUAL_REVIEW_REQUIRED"
proof -
  have "has_conflicting_variant ''Cheddar Mature'' ''Cheddar Mild''" by code_simp
  then show ?thesis
    using conflicting_variants_never_automatic [of "\<lparr> ci_key = ''1'', ci_sku = None, ci_barcode = None, ci_description = ''Cheddar Mature'' \<rparr>"
        "\<lparr> ci_key = ''2'', ci_sku = None, ci_barcode = None, ci_description = ''Cheddar Mild'' \<rparr>"]
    by (simp add: match_by_sku_def match_by_barcode_def falsy_def)
qed

text \<open>The variant group of extra mature is never reached: it comes after the group of mature, which
  every description with the word mature falls into, so the two are not told apart.\<close>

lemma extra_mature_not_distinguished:
  assumes "''mature'' \<in> set (split_on (CHR '' '') d)"
  shows "find_variant_group d = Some [''mature'', ''matured'']"
  using assms by (simp add: find_variant_group_def variant_conflict_groups_def variant_present_def)

lemma extra_mature_not_distinguished_witness:
  "find_variant_group (normalize_description ''Cheddar Extra Mature'') = Some [''mature'', ''matured'']"
  by (rule extra_mature_not_distinguished) code_simp

text \<open>A blank supplier code is not a missing one: two blank codes are an exact match with full confidence.\<close>

lemma blank_sku_matches_blank_sku: "match_by_sku (Some '' '') (Some ''  '')"
  by code_simp

end
