(* ===== verification/PyNumber.thy ===== *)
theory PyNumber
  imports PyText PyDate
begin

text \<open>
  Text to values, as the standard library reads it: \<open>decimal.Decimal(str)\<close> with its infinities and NaNs,
  \<open>int(str)\<close> and \<open>date.fromisoformat(str)\<close> (calendar and ISO week formats) on ASCII text, and the decimal
  digits of a number.  Limits on the exponent of a literal are not modelled.
\<close>

section \<open>Digits\<close>

definition digit_value :: "char \<Rightarrow> nat" where "digit_value c = of_char c - 48"

definition digits_value :: "string \<Rightarrow> nat" where "digits_value ds = foldl (\<lambda>n c. 10 * n + digit_value c) 0 ds"

fun show_nat :: "nat \<Rightarrow> string" where
  "show_nat n = (if n < 10 then [char_of (48 + n)] else show_nat (n div 10) @ [char_of (48 + n mod 10)])"

declare show_nat.simps [simp del]

lemma digit_char:
  assumes "n < 10"
  shows "is_digit (char_of (48 + n :: nat))" "digit_value (char_of (48 + n)) = n"
proof -
  have "list_all (\<lambda>n. is_digit (char_of (48 + n :: nat)) \<and> digit_value (char_of (48 + n)) = n) [0..<10]" by code_simp
  then show "is_digit (char_of (48 + n :: nat))" "digit_value (char_of (48 + n)) = n"
    using assms by (simp_all add: list_all_iff)
qed

lemma show_nat_digits: "c \<in> set (show_nat n) \<Longrightarrow> is_digit c"
  by (induction n rule: show_nat.induct) (subst (asm) (2) show_nat.simps, auto simp: digit_char split: if_splits)

lemma show_nat_nonempty [simp]: "show_nat n \<noteq> []"
  by (subst show_nat.simps) simp

lemma digits_value_snoc: "digits_value (ds @ [c]) = 10 * digits_value ds + digit_value c"
  by (simp add: digits_value_def)

lemma digits_value_show [simp]: "digits_value (show_nat n) = n"
proof (induction n rule: show_nat.induct)
  case (1 n)
  show ?case
  proof (cases "n < 10")
    case True
    then show ?thesis by (subst show_nat.simps) (simp add: digits_value_def digit_char)
  next
    case False
    then show ?thesis using 1 by (subst show_nat.simps) (simp add: digits_value_snoc digit_char)
  qed
qed

lemma digit_not_space: "is_digit c \<Longrightarrow> \<not> is_space c"
  using space_not_word by (auto simp: is_word_def)

lemma letter_not_space: "is_letter c \<Longrightarrow> \<not> is_space c"
  using space_not_word by (auto simp: is_word_def)

lemma dropWhile_stop: "t \<noteq> [] \<Longrightarrow> \<not> P (hd t) \<Longrightarrow> dropWhile P t = t"
  by (cases t) auto

lemma strip_id: "s \<noteq> [] \<Longrightarrow> \<not> is_space (hd s) \<Longrightarrow> \<not> is_space (last s) \<Longrightarrow> strip s = s"
  by (simp add: strip_def dropWhile_stop hd_rev)

section \<open>Decimal literals\<close>

text \<open>A finite value, an infinity (negative?) or a NaN (signalling?).\<close>

datatype pydec = Fin rat | Infinity bool | NaN bool

definition sign_of :: "string \<Rightarrow> bool \<times> string" where
  "sign_of s = (if s \<noteq> [] \<and> hd s = CHR ''-'' then (True, tl s) else if s \<noteq> [] \<and> hd s = CHR ''+'' then (False, tl s) else (False, s))"

definition signed :: "bool \<Rightarrow> 'a :: uminus \<Rightarrow> 'a" where
  "signed neg x = (if neg then - x else x)"

definition int_literal :: "string \<Rightarrow> int option" where
  "int_literal s = (let (neg, ds) = sign_of s in
     if ds \<noteq> [] \<and> list_all is_digit ds then Some (signed neg (int (digits_value ds))) else None)"

text \<open>The part after the leading digits: the fraction digits and the rest.\<close>

definition fraction_of :: "string \<Rightarrow> string \<times> string" where
  "fraction_of r = (if r \<noteq> [] \<and> hd r = CHR ''.'' then (takeWhile is_digit (tl r), dropWhile is_digit (tl r)) else ([], r))"

definition exponent_of :: "string \<Rightarrow> int option" where
  "exponent_of r = (if r = [] then Some 0 else if lower_char (hd r) = CHR ''e'' then int_literal (tl r) else None)"

definition finite_literal :: "string \<Rightarrow> rat option" where
  "finite_literal r = (let ds = takeWhile is_digit r; (fs, rest) = fraction_of (dropWhile is_digit r) in
     if ds = [] \<and> fs = [] then None
     else map_option (\<lambda>e. of_nat (digits_value (ds @ fs)) * 10 powi (e - int (length fs))) (exponent_of rest))"

definition special_literal :: "bool \<Rightarrow> string \<Rightarrow> pydec option" where
  "special_literal neg r = (if r \<in> {''inf'', ''infinity''} then Some (Infinity neg)
     else if take 3 r = ''nan'' \<and> list_all is_digit (drop 3 r) then Some (NaN False)
     else if take 4 r = ''snan'' \<and> list_all is_digit (drop 4 r) then Some (NaN True) else None)"

definition parse_decimal :: "string \<Rightarrow> pydec res" where
  "parse_decimal s = (let (neg, r) = sign_of (filter (\<lambda>c. c \<noteq> CHR ''_'') (strip s)) in
     case finite_literal r of Some x \<Rightarrow> Inr (Fin (signed neg x))
     | None \<Rightarrow> (case special_literal neg (lower r) of Some x \<Rightarrow> Inr x | None \<Rightarrow> Inl InvalidOperation))"

text \<open>Comparisons with a number: ordering a NaN raises, equality only for a signalling one.\<close>

fun dec_less :: "pydec \<Rightarrow> rat \<Rightarrow> bool res" where
  "dec_less (Fin x) y = Inr (x < y)"
| "dec_less (Infinity neg) y = Inr neg"
| "dec_less (NaN _) y = Inl InvalidOperation"

fun dec_equal :: "pydec \<Rightarrow> rat \<Rightarrow> bool res" where
  "dec_equal (Fin x) y = Inr (x = y)"
| "dec_equal (Infinity neg) y = Inr False"
| "dec_equal (NaN signalling) y = (if signalling then Inl InvalidOperation else Inr False)"

text \<open>\<open>int(str)\<close>: underscores only between digits.\<close>

definition parse_int :: "string \<Rightarrow> int res" where
  "parse_int s = (let (neg, r) = sign_of (strip s); ps = split_on (CHR ''_'') r in
     if list_all (\<lambda>p. p \<noteq> [] \<and> list_all is_digit p) ps
     then Inr (signed neg (int (digits_value (concat ps)))) else Inl (ValueError ''invalid literal for int()''))"

section \<open>Dates\<close>

definition digits_at :: "string \<Rightarrow> nat \<Rightarrow> nat \<Rightarrow> int option" where
  "digits_at s i n = (let ds = take n (drop i s) in
     if length ds = n \<and> list_all is_digit ds then Some (int (digits_value ds)) else None)"

definition char_at :: "string \<Rightarrow> nat \<Rightarrow> char \<Rightarrow> bool" where
  "char_at s i c = (i < length s \<and> s ! i = c)"

definition three :: "'a option \<Rightarrow> 'a option \<Rightarrow> 'a option \<Rightarrow> ('a \<times> 'a \<times> 'a) option" where
  "three a b c = (case (a, b, c) of (Some x, Some y, Some z) \<Rightarrow> Some (x, y, z) | _ \<Rightarrow> None)"

definition calendar_parts :: "string \<Rightarrow> (int \<times> int \<times> int) option" where
  "calendar_parts s =
     (if length s = 10 \<and> char_at s 4 (CHR ''-'') \<and> char_at s 7 (CHR ''-'')
      then three (digits_at s 0 4) (digits_at s 5 2) (digits_at s 8 2)
      else if length s = 8 then three (digits_at s 0 4) (digits_at s 4 2) (digits_at s 6 2)
      else None)"

definition week_parts :: "string \<Rightarrow> (int \<times> int \<times> int) option" where
  "week_parts s =
     (if char_at s 4 (CHR ''-'') \<and> char_at s 5 (CHR ''W'')
      then (if length s = 8 then three (digits_at s 0 4) (digits_at s 6 2) (Some 1)
            else if length s = 10 \<and> char_at s 8 (CHR ''-'') then three (digits_at s 0 4) (digits_at s 6 2) (digits_at s 9 1)
            else None)
      else if char_at s 4 (CHR ''W'')
      then (if length s = 7 then three (digits_at s 0 4) (digits_at s 5 2) (Some 1)
            else if length s = 8 then three (digits_at s 0 4) (digits_at s 5 2) (digits_at s 7 1) else None)
      else None)"

definition week1_monday :: "int \<Rightarrow> int" where
  "week1_monday y = (let first = toordinal (PyDate y 1 1); weekday = (first + 6) mod 7
     in first - weekday + (if 3 < weekday then 7 else 0))"

definition long_year :: "int \<Rightarrow> bool" where
  "long_year y = (let weekday = (toordinal (PyDate y 1 1) + 6) mod 7 in weekday = 3 \<or> weekday = 2 \<and> is_leap y)"

definition iso_week_date :: "int \<Rightarrow> int \<Rightarrow> int \<Rightarrow> pydate res" where
  "iso_week_date y w d =
     (if y < 1 \<or> w < 1 \<or> 53 < w \<or> w = 53 \<and> \<not> long_year y \<or> d < 1 \<or> 7 < d
      then Inl (ValueError ''Invalid isoformat string'')
      else let k = week1_monday y + (w - 1) * 7 + (d - 1)
           in if 1 \<le> k \<and> k \<le> max_ordinal then Inr (ord2ymd k) else Inl (ValueError ''year is out of range''))"

definition fromisoformat :: "string \<Rightarrow> pydate res" where
  "fromisoformat s = (case calendar_parts s of Some (y, m, d) \<Rightarrow> mk_date y m d
     | None \<Rightarrow> (case week_parts s of Some (y, w, d) \<Rightarrow> iso_week_date y w d
       | None \<Rightarrow> Inl (ValueError ''Invalid isoformat string'')))"

lemma isoformat_length: "fromisoformat s = Inr d \<Longrightarrow> length s \<in> {7, 8, 10}"
  by (auto simp: fromisoformat_def calendar_parts_def week_parts_def split: option.splits if_splits)

section \<open>Lemmas: printed numbers\<close>

lemma digit_other: "is_digit c \<Longrightarrow> c \<noteq> CHR ''_'' \<and> c \<noteq> CHR ''-'' \<and> c \<noteq> CHR ''+'' \<and> c \<noteq> CHR '','' \<and> c \<noteq> CHR ''R'' \<and> c \<noteq> CHR ''.''"
  by (auto simp: char_classes)

lemma hd_show_digit: "is_digit (hd (show_nat n))"
  by (rule show_nat_digits [of _ n]) simp

lemma last_show_digit: "is_digit (last (show_nat n))"
  by (rule show_nat_digits [of _ n]) simp

lemma strip_show [simp]: "strip (show_nat n) = show_nat n"
  by (intro strip_id) (simp_all add: digit_not_space hd_show_digit last_show_digit)

lemma filter_show [simp]: "(\<And>c. is_digit c \<Longrightarrow> P c) \<Longrightarrow> filter P (show_nat n) = show_nat n"
  by (auto simp: filter_id_conv dest: show_nat_digits)

lemma sign_of_show [simp]: "sign_of (show_nat n) = (False, show_nat n)"
  using digit_other [OF hd_show_digit [of n]] by (simp add: sign_of_def)

lemma finite_literal_show [simp]: "finite_literal (show_nat n) = Some (of_nat n)"
proof -
  have d: "\<forall>c\<in>set (show_nat n). is_digit c" using show_nat_digits by blast
  have tw: "takeWhile is_digit (show_nat n) = show_nat n" using d by (simp add: takeWhile_eq_all_conv)
  have dw: "dropWhile is_digit (show_nat n) = []" using d by (simp add: dropWhile_eq_Nil_conv)
  show ?thesis unfolding finite_literal_def Let_def tw dw by (simp add: fraction_of_def exponent_of_def)
qed

lemma parse_decimal_show [simp]: "parse_decimal (show_nat n) = Inr (Fin (of_nat n))"
  by (simp add: parse_decimal_def digit_other signed_def)

text \<open>A currency sign in front makes the text unreadable.\<close>

lemma strip_rand [simp]: "strip (CHR ''R'' # show_nat n) = CHR ''R'' # show_nat n"
proof (rule strip_id)
  show "\<not> is_space (hd (CHR ''R'' # show_nat n))" by (simp add: char_classes)
  show "\<not> is_space (last (CHR ''R'' # show_nat n))" by (simp add: digit_not_space last_show_digit)
qed simp

lemma parse_decimal_rand: "parse_decimal (CHR ''R'' # show_nat n) = Inl InvalidOperation"
proof -
  have f: "finite_literal (CHR ''R'' # r) = None" for r
    by (simp add: finite_literal_def fraction_of_def char_classes)
  have l: "lower (CHR ''R'' # r) = CHR ''r'' # lower r" for r
    by (simp add: lower_def) code_simp
  show ?thesis
    by (simp add: parse_decimal_def digit_other sign_of_def f l special_literal_def)
qed

end
