(* ===== verification/PackParser.thy ===== *)
theory PackParser
  imports PyNumber Rounding
begin

text \<open>
  Pack sizes: \<open>app/matching/pack_parser.py\<close>.  The four regular expressions are deterministic on stripped
  text, so each is a left-to-right matcher that returns the numbers and the unit it captures.
\<close>

section \<open>Units and packs\<close>

definition milli :: rat where "milli = 1 / 1000"

definition unit_conversions :: "(string \<times> string \<times> rat) list" where
  "unit_conversions = [(''g'', ''kg'', milli), (''gram'', ''kg'', milli), (''grams'', ''kg'', milli), (''kg'', ''kg'', 1),
     (''kilogram'', ''kg'', 1), (''kilograms'', ''kg'', 1), (''ml'', ''L'', milli), (''millilitre'', ''L'', milli),
     (''millilitres'', ''L'', milli), (''l'', ''L'', 1), (''litre'', ''L'', 1), (''litres'', ''L'', 1), (''liter'', ''L'', 1),
     (''liters'', ''L'', 1), (''each'', ''each'', 1), (''unit'', ''each'', 1), (''units'', ''each'', 1), (''ea'', ''each'', 1)]"

record parsed_pack =
  pack_quantity :: rat
  unit_size :: rat
  pack_unit :: string
  base_quantity :: rat
  base_unit :: string

definition unrecognized :: pyerr where
  "unrecognized = ValueError ''UnrecognizedPackFormatError''"

definition build_pack :: "rat \<Rightarrow> rat \<Rightarrow> string \<Rightarrow> parsed_pack res" where
  "build_pack quantity each_size u = (case map_of unit_conversions u of None \<Rightarrow> Inl unrecognized
     | Some (b, factor) \<Rightarrow> Inr \<lparr> pack_quantity = quantity, unit_size = each_size, pack_unit = u,
         base_quantity = dmul (dmul quantity each_size) factor, base_unit = b \<rparr>)"

section \<open>Matchers\<close>

text \<open>\<open>\d+(?:\.\d+)?\<close> with its value.\<close>

definition match_number :: "string \<Rightarrow> (rat \<times> string) option" where
  "match_number s = (let ds = takeWhile is_digit s; r = dropWhile is_digit s in
     if ds = [] then None
     else if r \<noteq> [] \<and> hd r = CHR ''.'' \<and> takeWhile is_digit (tl r) \<noteq> []
     then let fs = takeWhile is_digit (tl r)
          in Some (of_nat (digits_value ds) + of_nat (digits_value fs) / 10 ^ length fs, dropWhile is_digit (tl r))
     else Some (of_nat (digits_value ds), r))"

definition match_char :: "char \<Rightarrow> string \<Rightarrow> string option" where
  "match_char c s = (if s \<noteq> [] \<and> lower_char (hd s) = c then Some (tl s) else None)"

definition match_word :: "string \<Rightarrow> string \<Rightarrow> string option" where
  "match_word w s = (if lower (take (length w) s) = w then Some (drop (length w) s) else None)"

definition skip_ws :: "string \<Rightarrow> string" where "skip_ws s = dropWhile is_space s"

definition match_unit :: "string \<Rightarrow> string option" where
  "match_unit s = (let u = takeWhile is_letter s in
     if u \<noteq> [] \<and> skip_ws (dropWhile is_letter s) = [] then Some u else None)"

definition multi_pack_match :: "string \<Rightarrow> (rat \<times> rat \<times> string) option" where
  "multi_pack_match s = (case match_number (skip_ws s) of None \<Rightarrow> None
     | Some (q, r) \<Rightarrow> (case match_char (CHR ''x'') (skip_ws r) of None \<Rightarrow> None
       | Some r \<Rightarrow> (case match_number (skip_ws r) of None \<Rightarrow> None
         | Some (z, r) \<Rightarrow> (case match_unit (skip_ws r) of None \<Rightarrow> None | Some u \<Rightarrow> Some (q, z, u)))))"

definition number_end :: "string \<Rightarrow> rat option" where
  "number_end s = (case match_number s of None \<Rightarrow> None | Some (q, r) \<Rightarrow> if skip_ws r = [] then Some q else None)"

definition case_match :: "string \<Rightarrow> rat option" where
  "case_match s = (case match_word ''case'' (skip_ws s) of None \<Rightarrow> None
     | Some r \<Rightarrow> (case match_word ''of'' (skip_ws r) of
         Some r' \<Rightarrow> number_end (skip_ws r') | None \<Rightarrow> number_end (skip_ws r)))"

definition count_match :: "string \<Rightarrow> rat option" where
  "count_match s = (case match_number (skip_ws s) of None \<Rightarrow> None
     | Some (q, r) \<Rightarrow> (case match_unit (skip_ws r) of None \<Rightarrow> None
       | Some u \<Rightarrow> if lower u \<in> {''unit'', ''units'', ''each'', ''ea''} then Some q else None))"

definition single_match :: "string \<Rightarrow> (rat \<times> string) option" where
  "single_match s = (case match_number (skip_ws s) of None \<Rightarrow> None
     | Some (z, r) \<Rightarrow> (case match_unit (skip_ws r) of None \<Rightarrow> None | Some u \<Rightarrow> Some (z, u)))"

definition parse_pack_string :: "string option \<Rightarrow> parsed_pack res" where
  "parse_pack_string raw = (case raw of None \<Rightarrow> Inl unrecognized
   | Some raw \<Rightarrow> let t = strip raw in
      if t = [] then Inl unrecognized
      else (case multi_pack_match t of Some (q, z, u) \<Rightarrow> build_pack q z (lower u)
        | None \<Rightarrow> (case case_match t of Some q \<Rightarrow> build_pack q 1 ''each''
          | None \<Rightarrow> (case count_match t of Some q \<Rightarrow> build_pack q 1 ''each''
            | None \<Rightarrow> (case single_match t of Some (z, u) \<Rightarrow> build_pack 1 z (lower u)
              | None \<Rightarrow> Inl unrecognized)))))"

definition price_per_base_unit :: "rat \<Rightarrow> parsed_pack \<Rightarrow> rat res" where
  "price_per_base_unit total_price pack = (if base_quantity pack = 0 then Inl (ValueError ''base_quantity is zero'')
     else ddiv total_price (base_quantity pack))"

section \<open>Printing a pack\<close>

definition show_multi_pack :: "nat \<Rightarrow> nat \<Rightarrow> string \<Rightarrow> string" where
  "show_multi_pack q z u = show_nat q @ '' x '' @ show_nat z @ u"

section \<open>Lemmas\<close>

lemma match_number_show:
  assumes "s = [] \<or> \<not> is_digit (hd s) \<and> hd s \<noteq> CHR ''.''"
  shows "match_number (show_nat n @ s) = Some (of_nat n, s)"
proof -
  have d: "takeWhile is_digit (show_nat n @ s) = show_nat n" "dropWhile is_digit (show_nat n @ s) = s"
    using assms show_nat_digits by (cases s; auto simp: takeWhile_append2 dropWhile_append2)+
  show ?thesis using assms by (auto simp: match_number_def d Let_def)
qed

lemma letter_not_dot: "is_letter c \<Longrightarrow> c \<noteq> CHR ''.''"
  by (auto simp: char_classes)

lemma skip_ws_stop: "s \<noteq> [] \<Longrightarrow> \<not> is_space (hd s) \<Longrightarrow> skip_ws (s @ t) = s @ t"
  by (cases s) (auto simp: skip_ws_def)

lemma skip_ws_show [simp]: "skip_ws (show_nat n @ t) = show_nat n @ t"
proof -
  have "is_digit (hd (show_nat n))" by (rule show_nat_digits [of _ n]) simp
  then show ?thesis by (intro skip_ws_stop) (auto dest: digit_not_space)
qed

lemma match_unit_letters: "u \<noteq> [] \<Longrightarrow> list_all is_letter u \<Longrightarrow> match_unit u = Some u"
  by (simp add: match_unit_def Let_def list_all_iff skip_ws_def takeWhile_eq_all_conv [THEN iffD2] dropWhile_eq_Nil_conv [THEN iffD2])

lemma unit_letters:
  assumes "map_of unit_conversions u = Some v"
  shows "u \<noteq> []" "list_all is_letter u" "lower u = u"
proof -
  have "list_all (\<lambda>(u, v). u \<noteq> [] \<and> list_all is_letter u \<and> lower u = u) unit_conversions" by code_simp
  moreover have "(u, v) \<in> set unit_conversions" using assms by (rule map_of_SomeD)
  ultimately show "u \<noteq> []" "list_all is_letter u" "lower u = u" by (auto simp: list_all_iff)
qed

lemma multi_pack_match_show:
  assumes "u \<noteq> []" "list_all is_letter u"
  shows "multi_pack_match (show_multi_pack q z u) = Some (of_nat q, of_nat z, u)"
proof -
  have l: "is_letter (hd u)" using assms by (cases u) auto
  have n1: "match_number (show_nat q @ '' x '' @ show_nat z @ u) = Some (of_nat q, '' x '' @ show_nat z @ u)"
    by (rule match_number_show) (simp add: char_classes)
  have n2: "match_number (show_nat z @ u) = Some (of_nat z, u)"
    by (rule match_number_show) (use l digit_not_letter letter_not_dot in auto)
  have sp: "skip_ws ('' x '' @ s) = ''x '' @ s" "skip_ws ('' '' @ show_nat z @ u) = show_nat z @ u" for s
    by (simp_all add: skip_ws_def char_classes) (use skip_ws_show [of z u] in \<open>simp add: skip_ws_def char_classes\<close>)
  have x: "match_char (CHR ''x'') (''x '' @ s) = Some ('' '' @ s)" for s by (simp add: match_char_def lower_char_def char_sets)
  have u: "skip_ws u = u" using skip_ws_stop [of u "[]"] assms(1) letter_not_space [OF l] by simp
  show ?thesis
    unfolding multi_pack_match_def show_multi_pack_def skip_ws_show n1 option.case prod.case sp(1) x sp(2) n2 u
      match_unit_letters [OF assms] ..
qed

section \<open>Properties\<close>

text \<open>C37: Reading back a printed pack gives the pack: the text of a quantity, a size and a known unit
  parses to exactly that quantity, size and unit, in the unit's base.\<close>

lemma parse_printed_pack:
  assumes u: "map_of unit_conversions u = Some (b, factor)"
  shows "parse_pack_string (Some (show_multi_pack q z u)) = build_pack (of_nat q) (of_nat z) u \<and>
    (\<exists>p. build_pack (of_nat q) (of_nat z) u = Inr p \<and> pack_quantity p = of_nat q \<and> unit_size p = of_nat z \<and>
       pack_unit p = u \<and> base_unit p = b)"
proof -
  note l = unit_letters [OF u]
  have "is_digit (hd (show_nat q))" by (rule show_nat_digits [of _ q]) simp
  then have h: "\<not> is_space (hd (show_multi_pack q z u))" by (simp add: show_multi_pack_def digit_not_space)
  have "is_letter (last u)" using l by (simp add: list_all_iff)
  then have t: "\<not> is_space (last (show_multi_pack q z u))" using l(1) by (simp add: show_multi_pack_def letter_not_space)
  have ne: "show_multi_pack q z u \<noteq> []" by (simp add: show_multi_pack_def)
  have "parse_pack_string (Some (show_multi_pack q z u)) = build_pack (of_nat q) (of_nat z) u"
    by (simp add: parse_pack_string_def Let_def strip_id [OF ne h t] ne multi_pack_match_show [OF l(1,2)] l(3))
  then show ?thesis by (simp add: build_pack_def u)
qed

lemma parse_printed_pack_witness:
  "parse_pack_string (Some (show_multi_pack 24 330 ''ml'')) = build_pack 24 330 ''ml''"
  using parse_printed_pack [of "''ml''" "''L''" milli 24 330] by (simp add: unit_conversions_def)

text \<open>Prices per base unit compare packs of different make-up: at the same total content the price per
  base unit follows the price of the pack, and an empty pack gives an error, never a price.\<close>

lemma unit_price_order:
  assumes "price_per_base_unit p a = Inr x" "price_per_base_unit q b = Inr y"
    and "base_quantity a = base_quantity b" "0 < base_quantity a"
  shows "(p \<le> q \<longrightarrow> x \<le> y) \<and> (x < y \<longrightarrow> p < q) \<and>
    (\<forall>c r. base_quantity c = 0 \<longrightarrow> price_per_base_unit r c = Inl (ValueError ''base_quantity is zero''))"
proof -
  have xy: "x = ctx (p / base_quantity a)" "y = ctx (q / base_quantity a)"
    using assms by (auto simp: price_per_base_unit_def ddiv_def split: if_splits)
  have le: "p \<le> q \<Longrightarrow> x \<le> y" unfolding xy using assms(4) by (intro ctx_mono divide_right_mono) auto
  have "q \<le> p \<Longrightarrow> y \<le> x" unfolding xy using assms(3,4) by (intro ctx_mono) (simp add: divide_right_mono)
  then have lt: "x < y \<Longrightarrow> p < q" by (meson not_le)
  show ?thesis using le lt by (simp add: price_per_base_unit_def)
qed

lemma unit_price_order_witness:
  "\<exists>a x y. parse_pack_string (Some ''12 x 1kg'') = Inr a \<and> price_per_base_unit 480 a = Inr x \<and>
     price_per_base_unit 540 a = Inr y \<and> x \<le> y"
proof -
  let ?a = "\<lparr> pack_quantity = 12, unit_size = 1, pack_unit = ''kg'', base_quantity = 12, base_unit = ''kg'' \<rparr>"
  have "show_multi_pack 12 1 ''kg'' = ''12 x 1kg''" by code_simp
  moreover have "multi_pack_match (show_multi_pack 12 1 ''kg'') = Some (of_nat 12, of_nat 1, ''kg'')"
    by (rule multi_pack_match_show) code_simp+
  moreover have "strip ''12 x 1kg'' = ''12 x 1kg''" by code_simp
  moreover have "lower ''kg'' = ''kg''" by code_simp
  ultimately have a: "parse_pack_string (Some ''12 x 1kg'') = Inr ?a"
    by (simp add: parse_pack_string_def build_pack_def unit_conversions_def dec_eval)
  have p: "price_per_base_unit 480 ?a = Inr 40" "price_per_base_unit 540 ?a = Inr 45"
    by (simp_all add: price_per_base_unit_def ddiv_def dec_eval)
  then show ?thesis using a unit_price_order [OF p] by fastforce
qed

end
