(* ===== verification/Grouping.thy ===== *)
theory Grouping
  imports PyDecimal
begin

text \<open>
  The two ways the code groups rows into an insertion-ordered dictionary: adding an amount to the
  running total of a key, \<open>totals[k] = totals.get(k, Decimal(0)) + x\<close>, and appending a row to the list
  of a key, \<open>d.setdefault(k, []).append(x)\<close>.  The components that aggregate spend, categories,
  months, snapshots and locations share the lemmas below: which keys the dictionary has, in
  which order, and what it holds for each.
\<close>

definition accumulate :: "('k \<times> rat) list \<Rightarrow> ('k, rat) pydict" where
  "accumulate rows = foldl (\<lambda>d (k, x). AList.update k (dadd (dict_get d k 0) x) d) [] rows"

definition group_rows :: "('k \<times> 'v) list \<Rightarrow> ('k, 'v list) pydict" where
  "group_rows rows = foldl (\<lambda>d (k, x). AList.update k (dict_get d k [] @ [x]) d) [] rows"

text \<open>A dictionary built from pairs: the last pair of a key wins, at the place of the first.\<close>

definition build_dict :: "('k \<times> 'v) list \<Rightarrow> ('k, 'v) pydict" where
  "build_dict kvs = foldl (\<lambda>d (k, v). AList.update k v d) [] kvs"

lemma update_new: "k \<notin> fst ` set d \<Longrightarrow> AList.update k v d = d @ [(k, v)]"
  by (induction d) auto

lemma build_dict_append: "distinct (map fst (d @ kvs)) \<Longrightarrow> foldl (\<lambda>d (k, v). AList.update k v d) d kvs = d @ kvs"
proof (induction kvs arbitrary: d)
  case (Cons kv kvs)
  have "foldl (\<lambda>d (k, v). AList.update k v d) (d @ [kv]) kvs = (d @ [kv]) @ kvs"
    by (rule Cons.IH) (use Cons.prems in simp)
  then show ?case using Cons.prems by (cases kv) (simp add: update_new)
qed simp

lemma build_dict_id: "distinct (map fst kvs) \<Longrightarrow> build_dict kvs = kvs"
  using build_dict_append [of "[]" kvs] by (simp add: build_dict_def)

lemma build_dict_in: "map_of (build_dict kvs) k = Some v \<Longrightarrow> (k, v) \<in> set kvs"
proof -
  have "map_of (foldl (\<lambda>d (k, v). AList.update k v d) d kvs) k = Some v \<Longrightarrow> (k, v) \<in> set kvs \<or> map_of d k = Some v" for d
    by (induction kvs arbitrary: d) (fastforce simp: update_conv' split: if_splits)+
  from this [of "[]"] show "map_of (build_dict kvs) k = Some v \<Longrightarrow> (k, v) \<in> set kvs" by (simp add: build_dict_def)
qed

lemma build_dict_keys: "fst ` set (build_dict kvs) = fst ` set kvs"
proof -
  have "fst ` set (foldl (\<lambda>d (k, v). AList.update k v d) d kvs) = fst ` set d \<union> fst ` set kvs" for d
  proof (induction kvs arbitrary: d)
    case (Cons kv kvs)
    have "fst ` set (AList.update k v d) = insert k (fst ` set d)" for k and v :: 'b by (induction d) auto
    then show ?case using Cons by (cases kv) simp
  qed simp
  from this [of "[]"] show ?thesis by (simp add: build_dict_def)
qed

lemma build_dict_distinct [simp]: "distinct (map fst (build_dict kvs))"
proof -
  have "distinct (map fst d) \<Longrightarrow> distinct (map fst (foldl (\<lambda>d (k, v). AList.update k v d) d kvs))" for d :: "('a, 'b) pydict"
    by (induction kvs arbitrary: d) (auto simp: distinct_update_keys)
  from this [of "[]"] show ?thesis by (simp add: build_dict_def)
qed

lemma map_of_build_dict: "map_of (build_dict kvs) k = map_of (rev kvs) k"
  by (induction kvs rule: rev_induct) (auto simp: build_dict_def split: prod.split)

definition of_key :: "'k \<Rightarrow> ('k \<times> 'v) list \<Rightarrow> 'v list" where
  "of_key k rows = map snd (filter (\<lambda>r. fst r = k) rows)"

lemma of_key_simps [simp]: "of_key k [] = []"
  "of_key k (rows @ [(j, x)]) = (if j = k then of_key k rows @ [x] else of_key k rows)"
  by (simp_all add: of_key_def)

lemma of_key_empty_iff: "of_key k rows = [] \<longleftrightarrow> k \<notin> fst ` set rows"
  by (force simp: of_key_def filter_empty_conv)

lemma of_key_append: "of_key k (xs @ ys) = of_key k xs @ of_key k ys"
  by (simp add: of_key_def)

lemma of_key_map_key: "inj f \<Longrightarrow> of_key (f k) (map (\<lambda>(j, x). (f j, x)) rows) = of_key k rows"
  by (induction rows) (auto simp: of_key_def inj_eq)

lemma accumulate_snoc: "accumulate (rows @ [(k, x)]) = AList.update k (dadd (dict_get (accumulate rows) k 0) x) (accumulate rows)"
  by (simp add: accumulate_def)

lemma group_rows_snoc: "group_rows (rows @ [(k, x)]) = AList.update k (dict_get (group_rows rows) k [] @ [x]) (group_rows rows)"
  by (simp add: group_rows_def)

lemma accumulate_keys [simp]: "fst ` set (accumulate rows) = fst ` set rows"
proof (induction rows rule: rev_induct)
  case (snoc r rows)
  then show ?case by (cases r) (simp add: accumulate_snoc)
qed (simp add: accumulate_def)

lemma accumulate_distinct [simp]: "distinct (map fst (accumulate rows))"
proof (induction rows rule: rev_induct)
  case (snoc r rows)
  then show ?case by (cases r) (simp add: accumulate_snoc)
qed (simp add: accumulate_def)

lemma map_of_accumulate: "map_of (accumulate rows) k = (if k \<in> fst ` set rows then Some (dsum (of_key k rows)) else None)"
proof (induction rows rule: rev_induct)
  case (snoc r rows)
  show ?case
  proof (cases r)
    case (Pair j x)
    have "k \<notin> fst ` set rows \<Longrightarrow> of_key k rows = []" by (simp add: of_key_empty_iff)
    then show ?thesis using snoc by (auto simp: Pair accumulate_snoc dict_get_def)
  qed
qed (simp add: accumulate_def)

lemma accumulate_get: "dict_get (accumulate rows) k 0 = dsum (of_key k rows)"
  by (auto simp: dict_get_def map_of_accumulate of_key_empty_iff [symmetric] split: option.split)

lemma group_rows_keys [simp]: "fst ` set (group_rows rows) = fst ` set rows"
proof (induction rows rule: rev_induct)
  case (snoc r rows)
  then show ?case by (cases r) (simp add: group_rows_snoc)
qed (simp add: group_rows_def)

lemma group_rows_distinct [simp]: "distinct (map fst (group_rows rows))"
proof (induction rows rule: rev_induct)
  case (snoc r rows)
  then show ?case by (cases r) (simp add: group_rows_snoc)
qed (simp add: group_rows_def)

lemma map_of_group_rows: "map_of (group_rows rows) k = (if k \<in> fst ` set rows then Some (of_key k rows) else None)"
proof (induction rows rule: rev_induct)
  case (snoc r rows)
  show ?case
  proof (cases r)
    case (Pair j x)
    have "k \<notin> fst ` set rows \<Longrightarrow> of_key k rows = []" by (simp add: of_key_empty_iff)
    then show ?thesis using snoc by (auto simp: Pair group_rows_snoc dict_get_def)
  qed
qed (simp add: group_rows_def)

lemma group_rows_get [simp]: "dict_get (group_rows rows) k [] = of_key k rows"
  by (auto simp: dict_get_def map_of_group_rows of_key_empty_iff [symmetric] split: option.split)

lemma group_rows_entries: "(k, xs) \<in> set (group_rows rows) \<longleftrightarrow> k \<in> fst ` set rows \<and> xs = of_key k rows"
  by (auto simp: map_of_eq_Some_iff [OF group_rows_distinct, symmetric] map_of_group_rows)

lemma accumulate_entries: "(k, x) \<in> set (accumulate rows) \<longleftrightarrow> k \<in> fst ` set rows \<and> x = dsum (of_key k rows)"
  by (auto simp: map_of_eq_Some_iff [OF accumulate_distinct, symmetric] map_of_accumulate)

text \<open>The totals of the keys add up to the total of the rows.\<close>

lemma sum_of_keys:
  assumes "distinct ks" "fst ` set rows \<subseteq> set ks"
  shows "(\<Sum>k\<leftarrow>ks. sum_list (of_key k rows)) = (\<Sum>r\<leftarrow>rows. (snd r :: rat))"
  using assms(2)
proof (induction rows rule: rev_induct)
  case (snoc r rows)
  obtain j x where r: "r = (j, x)" by (cases r)
  have j: "j \<in> set ks" using snoc.prems by (simp add: r)
  have "(\<Sum>k\<leftarrow>ks. sum_list (of_key k (rows @ [(j, x)]))) = (\<Sum>k\<leftarrow>ks. sum_list (of_key k rows) + (if k = j then x else 0))"
    by (intro arg_cong [of _ _ sum_list] map_cong) auto
  also have "\<dots> = (\<Sum>k\<leftarrow>ks. sum_list (of_key k rows)) + (\<Sum>k\<leftarrow>ks. if k = j then x else 0)" by (rule sum_list_split)
  also have "(\<Sum>k\<leftarrow>ks. if k = j then x else 0) = x"
    using sum_list_distinct_conv_sum_set [OF assms(1), of "\<lambda>k. if k = j then x else 0"] j by simp
  finally show ?case using snoc by (simp add: r)
qed (simp add: sum_list_0)

end
