(* ===== verification/Ingestion.thy ===== *)
theory Ingestion
  imports PyNumber SequenceMatch Grouping
begin

text \<open>
  Uploads: \<open>app/ingestion\<close>.  A sheet as \<open>openpyxl\<close> hands it out is a list of rows of cells; a mapped row
  is a dictionary from canonical fields to optional texts; the validators return issues.  The text of
  a message is reduced to its kind.
\<close>

section \<open>Reading a sheet\<close>

text \<open>A cell is empty, a text (for numbers: what \<open>str\<close> gives) or a date, which \<open>openpyxl\<close> reads as a
  \<open>datetime\<close> at midnight.\<close>

datatype sheet_cell = Cell_empty | Cell_text string | Cell_date pydate

fun pad :: "nat \<Rightarrow> string \<Rightarrow> string" where
  "pad k s = replicate (k - length s) (CHR ''0'') @ s"

definition iso_date_text :: "pydate \<Rightarrow> string" where
  "iso_date_text d = pad 4 (show_nat (nat (year d))) @ ''-'' @ pad 2 (show_nat (nat (month d))) @ ''-'' @ pad 2 (show_nat (nat (day d)))"

fun cell_str :: "sheet_cell \<Rightarrow> string" where
  "cell_str Cell_empty = []"
| "cell_str (Cell_text s) = s"
| "cell_str (Cell_date d) = iso_date_text d @ '' 00:00:00''"

definition read_xlsx_rows :: "sheet_cell list \<Rightarrow> sheet_cell list list \<Rightarrow> (string, string) pydict list" where
  "read_xlsx_rows header rows =
     map (\<lambda>r. build_dict (zip (map (\<lambda>h. strip (cell_str h)) header) (map cell_str r)))
       (filter (\<lambda>r. \<not> list_all (\<lambda>c. c = Cell_empty) r) rows)"

text \<open>The sheet \<open>openpyxl\<close> calls active, if the workbook has one; without a first row there is no header.\<close>

definition read_workbook :: "sheet_cell list list option \<Rightarrow> (string, string) pydict list res" where
  "read_workbook sheet = (case sheet of
     None \<Rightarrow> Inl (ValueError ''No active worksheet found'')
   | Some [] \<Rightarrow> Inl StopIteration
   | Some (header # rows) \<Rightarrow> Inr (read_xlsx_rows header rows))"

section \<open>Column mapping\<close>

type_synonym mapped_row = "(string, string option) pydict"

definition canonical_fields :: "string list" where
  "canonical_fields = [''supplier_sku'', ''description'', ''brand'', ''category'', ''uom'', ''pack_quantity'',
     ''pack_size'', ''weight'', ''weight_uom'', ''barcode'', ''price'', ''effective_date'']"

definition aliases :: "(string, string list) pydict" where
  "aliases =
    [(''supplier_sku'', [''item code'', ''stock code'', ''supplier sku'', ''product code'', ''sku'', ''item no'',
        ''stock no'', ''code'']),
     (''description'', [''description'', ''product description'', ''item description'', ''product name'', ''stock description'']),
     (''brand'', [''brand'', ''brand name'', ''manufacturer'']),
     (''category'', [''category'', ''product category'', ''department'']),
     (''uom'', [''uom'', ''unit of measure'', ''unit'']),
     (''pack_quantity'', [''pack qty'', ''pack quantity'', ''case qty'', ''units per case'', ''pack size qty'']),
     (''pack_size'', [''pack size'', ''pack'', ''pack description'', ''size'']),
     (''weight'', [''weight'', ''net weight'', ''mass'']),
     (''weight_uom'', [''weight uom'', ''weight unit'']),
     (''barcode'', [''barcode'', ''ean'', ''upc'', ''ean13'', ''ean code'']),
     (''price'', [''price'', ''unit price'', ''cost price'', ''list price'', ''nett price'', ''net price'']),
     (''effective_date'', [''effective date'', ''price date'', ''valid from'', ''date''])]"

definition purchase_transaction_canonical_fields :: "string list" where
  "purchase_transaction_canonical_fields =
     [''supplier_sku'', ''description'', ''transaction_date'', ''amount'', ''quantity'', ''reference'']"

definition purchase_transaction_aliases :: "(string, string list) pydict" where
  "purchase_transaction_aliases =
    [(''supplier_sku'', [''item code'', ''stock code'', ''supplier sku'', ''product code'', ''sku'']),
     (''description'', [''description'', ''product description'', ''item description'', ''line description'']),
     (''transaction_date'', [''date'', ''transaction date'', ''invoice date'', ''posting date'', ''txn date'']),
     (''amount'', [''amount'', ''value'', ''line amount'', ''total'', ''net amount'', ''invoice amount'']),
     (''quantity'', [''quantity'', ''qty'', ''units'', ''volume'']),
     (''reference'', [''reference'', ''invoice number'', ''invoice no'', ''document number'', ''ref''])]"

text \<open>\<open>get_close_matches(word, candidates, n=1, cutoff=0.75)\<close> is non-empty.\<close>

definition close_match :: "string \<Rightarrow> string list \<Rightarrow> bool" where
  "close_match normalized candidates = list_ex (\<lambda>x. 3/4 \<le> sequence_ratio x normalized) candidates"

definition alias_step :: "(string, string) pydict \<Rightarrow> mapped_row \<Rightarrow> string \<times> string \<Rightarrow> mapped_row" where
  "alias_step lookup result c = (case c of (source_col, normalized) \<Rightarrow>
     (case map_of lookup normalized of
        Some canonical \<Rightarrow> if canonical \<noteq> [] \<and> dict_get result canonical None = None
          then AList.update canonical (Some source_col) result else result
      | None \<Rightarrow> result))"

definition fuzzy_step ::
    "(string, string) pydict \<Rightarrow> (string, string list) pydict \<Rightarrow> mapped_row \<times> string list \<Rightarrow> string \<Rightarrow> mapped_row \<times> string list" where
  "fuzzy_step normalized als s canonical = (case s of (result, unmapped) \<Rightarrow>
     if dict_get result canonical None \<noteq> None then s
     else let candidates = map (\<lambda>c. if c = CHR ''_'' then CHR '' '' else c) canonical # dict_get als canonical [] in
       (case find (\<lambda>c. close_match (dict_get normalized c []) candidates) unmapped of
          Some c \<Rightarrow> (AList.update canonical (Some c) result, remove1 c unmapped)
        | None \<Rightarrow> s))"

definition suggest_mapping :: "string list \<Rightarrow> string list \<Rightarrow> (string, string list) pydict \<Rightarrow> mapped_row" where
  "suggest_mapping source_columns fields als =
     (let lookup = build_dict (concat (map (\<lambda>(canonical, as). map (\<lambda>a. (a, canonical)) as) als));
          normalized = build_dict (map (\<lambda>c. (c, lower (strip c))) source_columns);
          result = foldl (alias_step lookup) (build_dict (map (\<lambda>f. (f, None)) fields)) normalized;
          unmapped = filter (\<lambda>c. Some c \<notin> set (map snd result)) source_columns
      in fst (foldl (fuzzy_step normalized als) (result, unmapped) fields))"

definition apply_mapping :: "(string, string) pydict \<Rightarrow> mapped_row \<Rightarrow> mapped_row" where
  "apply_mapping row mapping = map (\<lambda>(canonical, source_col).
     (canonical, case source_col of None \<Rightarrow> None | Some c \<Rightarrow> if c = [] then None else map_of row c)) mapping"

definition suggest_purchase_transaction_mapping :: "string list \<Rightarrow> mapped_row" where
  "suggest_purchase_transaction_mapping source_columns =
     suggest_mapping source_columns purchase_transaction_canonical_fields purchase_transaction_aliases"

section \<open>Issues\<close>

datatype issue_severity = ERROR | WARNING

datatype issue_kind = Missing | Malformed | Negative | Zero | Duplicate nat | Unidentified | Disagrees

record validation_issue =
  vi_row_number :: nat
  vi_field :: string
  vi_severity :: issue_severity
  vi_kind :: issue_kind

definition issue :: "nat \<Rightarrow> string \<Rightarrow> issue_severity \<Rightarrow> issue_kind \<Rightarrow> validation_issue" where
  "issue idx field sev kind = \<lparr> vi_row_number = idx, vi_field = field, vi_severity = sev, vi_kind = kind \<rparr>"

definition no_errors :: "validation_issue list \<Rightarrow> bool" where
  "no_errors issues = (\<not> list_ex (\<lambda>i. vi_severity i = ERROR) issues)"

definition cell :: "mapped_row \<Rightarrow> string \<Rightarrow> string option" where
  "cell row field = dict_get row field None"

definition missing :: "string option \<Rightarrow> bool" where
  "missing raw = (case raw of None \<Rightarrow> True | Some s \<Rightarrow> strip s = [])"

definition cleaned :: "string \<Rightarrow> string" where
  "cleaned s = strip (filter (\<lambda>c. c \<noteq> CHR '','' \<and> c \<noteq> CHR ''R'') s)"

definition text_or_none :: "string option \<Rightarrow> string option" where
  "text_or_none raw = (case raw of None \<Rightarrow> None | Some s \<Rightarrow> if strip s = [] then None else Some (strip s))"

text \<open>A required number: its value if it parses, and the issue otherwise.\<close>

definition required_number :: "(string \<Rightarrow> 'a res) \<Rightarrow> nat \<Rightarrow> string \<Rightarrow> string option \<Rightarrow> 'a option \<times> validation_issue list" where
  "required_number parse idx field raw =
     (if missing raw then (None, [issue idx field ERROR Missing])
      else (case parse (the raw) of Inr x \<Rightarrow> (Some x, []) | Inl e \<Rightarrow> (None, [issue idx field ERROR Malformed])))"

definition sign_issue :: "nat \<Rightarrow> string \<Rightarrow> issue_severity \<Rightarrow> pydec option \<Rightarrow> validation_issue list res" where
  "sign_issue idx field sev x = (case x of None \<Rightarrow> Inr []
     | Some v \<Rightarrow> bindR (dec_less v 0) (\<lambda>neg. Inr (if neg then [issue idx field sev Negative] else [])))"

definition date_issues :: "nat \<Rightarrow> string \<Rightarrow> string option \<Rightarrow> validation_issue list" where
  "date_issues idx field raw =
     (if missing raw then [issue idx field ERROR Missing]
      else (case fromisoformat (take 10 (strip (the raw))) of Inr d \<Rightarrow> [] | Inl e \<Rightarrow> [issue idx field ERROR Malformed]))"

definition either_present :: "string option \<Rightarrow> string option \<Rightarrow> bool" where
  "either_present a b = (a \<notin> {None, Some []} \<or> b \<notin> {None, Some []})"

section \<open>Price lists\<close>

record validated_row =
  vr_row_number :: nat
  vr_supplier_sku :: "string option"
  vr_row_description :: "string option"
  vr_price :: "pydec option"
  vr_pack_size :: "string option"
  vr_issues :: "validation_issue list"

definition is_valid :: "validated_row \<Rightarrow> bool" where
  "is_valid r = no_errors (vr_issues r)"

text \<open>The value of a present price, \<open>None\<close> when it is malformed.\<close>

definition parse_price :: "string option \<Rightarrow> pydec option" where
  "parse_price raw = (if missing raw then None else case parse_decimal (cleaned (the raw)) of Inr p \<Rightarrow> Some p | Inl e \<Rightarrow> None)"

definition price_issues :: "nat \<Rightarrow> string option \<Rightarrow> validation_issue list res" where
  "price_issues idx raw =
     (if missing raw then Inr [issue idx ''price'' ERROR Missing]
      else (case parse_price raw of None \<Rightarrow> Inr [issue idx ''price'' ERROR Malformed]
       | Some p \<Rightarrow> bindR (dec_less p 0) (\<lambda>neg.
           if neg then Inr [issue idx ''price'' ERROR Negative]
           else bindR (dec_equal p 0) (\<lambda>z. Inr (if z then [issue idx ''price'' WARNING Zero] else [])))))"

definition validate_price_row :: "nat \<Rightarrow> (string, nat) pydict \<Rightarrow> mapped_row \<Rightarrow> validated_row res" where
  "validate_price_row idx seen row =
     (let sku = text_or_none (cell row ''supplier_sku''); description = text_or_none (cell row ''description'');
          pack_size = text_or_none (cell row ''pack_size'')
      in bindR (price_issues idx (cell row ''price'')) (\<lambda>price. Inr
        \<lparr> vr_row_number = idx, vr_supplier_sku = sku, vr_row_description = description,
          vr_price = parse_price (cell row ''price''), vr_pack_size = pack_size,
          vr_issues = (if sku = None then [issue idx ''supplier_sku'' ERROR Missing] else []) @
            (if description = None then [issue idx ''description'' ERROR Missing] else []) @ price @
            (case sku of None \<Rightarrow> [] | Some s \<Rightarrow>
               (case map_of seen s of None \<Rightarrow> [] | Some k \<Rightarrow> [issue idx ''supplier_sku'' ERROR (Duplicate k)])) @
            (if pack_size = None then [issue idx ''pack_size'' WARNING Missing] else []) \<rparr>))"

definition see :: "(string, nat) pydict \<Rightarrow> string option \<Rightarrow> nat \<Rightarrow> (string, nat) pydict" where
  "see seen sku idx = (case sku of None \<Rightarrow> seen | Some s \<Rightarrow> if map_of seen s = None then AList.update s idx seen else seen)"

fun validate_from :: "nat \<Rightarrow> (string, nat) pydict \<Rightarrow> mapped_row list \<Rightarrow> validated_row list res" where
  "validate_from idx seen [] = Inr []"
| "validate_from idx seen (row # rows) = bindR (validate_price_row idx seen row) (\<lambda>r.
     bindR (validate_from (idx + 1) (see seen (vr_supplier_sku r) idx) rows) (\<lambda>rs. Inr (r # rs)))"

definition validate_rows :: "mapped_row list \<Rightarrow> validated_row list res" where
  "validate_rows rows = validate_from 1 [] rows"

record issue_summary =
  is_total_rows :: nat
  is_valid_rows :: nat
  is_errors :: nat
  is_warnings :: nat

definition count_severity :: "issue_severity \<Rightarrow> validated_row list \<Rightarrow> nat" where
  "count_severity sev rs = length (filter (\<lambda>i. vi_severity i = sev) (concat (map vr_issues rs)))"

definition summarize_issues :: "validated_row list \<Rightarrow> issue_summary" where
  "summarize_issues rs = \<lparr> is_total_rows = length rs, is_valid_rows = length (filter is_valid rs),
     is_errors = count_severity ERROR rs, is_warnings = count_severity WARNING rs \<rparr>"

text \<open>The rows kept for matching: the mapped rows, as read, of the valid positions.\<close>

definition staged_rows :: "mapped_row list \<Rightarrow> mapped_row list res" where
  "staged_rows mapped_rows = bindR (validate_rows mapped_rows) (\<lambda>vs.
     Inr (map fst (filter (\<lambda>(r, v). is_valid v) (zip mapped_rows vs))))"

section \<open>Purchase transactions\<close>

type_synonym dupe_key = "string option \<times> string option \<times> string option"

definition tx_issues :: "nat \<Rightarrow> (dupe_key, nat) pydict \<Rightarrow> mapped_row \<Rightarrow> validation_issue list res" where
  "tx_issues idx seen row =
     (let raw_amount = cell row ''amount''; raw_date = cell row ''transaction_date''; reference = cell row ''reference'';
          (amount, amount_issues) = required_number (\<lambda>s. parse_decimal (cleaned s)) idx ''amount'' raw_amount
      in bindR (case amount of None \<Rightarrow> Inr False | Some a \<Rightarrow> dec_equal a 0) (\<lambda>zero.
         bindR (sign_issue idx ''amount'' WARNING amount) (\<lambda>negative. Inr
           (date_issues idx ''transaction_date'' raw_date @ amount_issues @
            (if zero then [issue idx ''amount'' WARNING Zero] else []) @ negative @
            (if either_present (cell row ''supplier_sku'') (cell row ''description'') then []
             else [issue idx ''supplier_sku'' WARNING Unidentified]) @
            (if reference \<notin> {None, Some []} then
               (case map_of seen (reference, raw_amount, raw_date) of None \<Rightarrow> []
                | Some k \<Rightarrow> [issue idx ''reference'' WARNING (Duplicate k)]) else [])))))"

definition see_tx :: "(dupe_key, nat) pydict \<Rightarrow> mapped_row \<Rightarrow> nat \<Rightarrow> (dupe_key, nat) pydict" where
  "see_tx seen row idx = (let key = (cell row ''reference'', cell row ''amount'', cell row ''transaction_date'') in
     if cell row ''reference'' \<in> {None, Some []} \<or> map_of seen key \<noteq> None then seen else AList.update key idx seen)"

fun validate_tx_from :: "nat \<Rightarrow> (dupe_key, nat) pydict \<Rightarrow> mapped_row list \<Rightarrow> (nat \<times> bool \<times> validation_issue list) list res" where
  "validate_tx_from idx seen [] = Inr []"
| "validate_tx_from idx seen (row # rows) = bindR (tx_issues idx seen row) (\<lambda>issues.
     bindR (validate_tx_from (idx + 1) (see_tx seen row idx) rows) (\<lambda>rs. Inr ((idx, no_errors issues, issues) # rs)))"

definition validate_purchase_transaction_rows :: "mapped_row list \<Rightarrow> (nat \<times> bool \<times> validation_issue list) list res" where
  "validate_purchase_transaction_rows rows = validate_tx_from 1 [] rows"

section \<open>Working capital and aging\<close>

definition required_amount :: "mapped_row \<Rightarrow> nat \<Rightarrow> string \<Rightarrow> pydec option \<times> validation_issue list" where
  "required_amount row idx field = required_number (\<lambda>s. parse_decimal (cleaned s)) idx field (cell row field)"

definition validate_working_capital_row :: "mapped_row \<Rightarrow> (bool \<times> validation_issue list) res" where
  "validate_working_capital_row row =
     (let (ar, ar_issues) = required_amount row 1 ''accounts_receivable'';
          (ap, ap_issues) = required_amount row 1 ''accounts_payable'';
          (inventory, inventory_issues) = required_amount row 1 ''inventory_value'';
          cash = cell row ''cash_balance''
      in bindR (sign_issue 1 ''accounts_receivable'' WARNING ar) (\<lambda>ar_sign.
         bindR (sign_issue 1 ''accounts_payable'' WARNING ap) (\<lambda>ap_sign.
         bindR (sign_issue 1 ''inventory_value'' ERROR inventory) (\<lambda>inventory_sign.
           let issues = date_issues 1 ''as_of_date'' (cell row ''as_of_date'') @ ar_issues @ ar_sign @ ap_issues @ ap_sign @
                 inventory_issues @ inventory_sign @
                 (if \<not> missing cash \<and> \<not> is_ok (parse_decimal (cleaned (the cash)))
                  then [issue 1 ''cash_balance'' WARNING Malformed] else []) @
                 snd (required_amount row 1 ''annualized_revenue'') @ snd (required_amount row 1 ''annualized_cogs'')
           in Inr (no_errors issues, issues)))))"

definition validate_aging_rows :: "mapped_row list \<Rightarrow> (nat \<times> bool \<times> validation_issue list) list" where
  "validate_aging_rows rows = map (\<lambda>(i, row).
     let issues = snd (required_amount row (i + 1) ''amount'') @
           snd (required_number (\<lambda>s. parse_int (strip s)) (i + 1) ''days_overdue'' (cell row ''days_overdue''))
     in (i + 1, no_errors issues, issues)) (zip [0..<length rows] rows)"

section \<open>Stock\<close>

text \<open>\<open>validate_inventory_snapshot_rows\<close>: here the comparison stands inside the \<open>try\<close>.\<close>

definition negative_number :: "string \<Rightarrow> bool res" where
  "negative_number s = bindR (parse_decimal s) (\<lambda>x. dec_less x 0)"

definition optional_amount_issues :: "nat \<Rightarrow> string \<Rightarrow> string option \<Rightarrow> validation_issue list" where
  "optional_amount_issues idx field raw =
     (if missing raw then []
      else (case negative_number (cleaned (the raw)) of
          Inr neg \<Rightarrow> if neg then [issue idx field WARNING Negative] else []
        | Inl e \<Rightarrow> [issue idx field WARNING Malformed]))"

definition inventory_row_issues :: "nat \<Rightarrow> mapped_row \<Rightarrow> validation_issue list" where
  "inventory_row_issues idx row =
     (if either_present (cell row ''supplier_sku'') (cell row ''description'') then []
      else [issue idx ''description'' ERROR Unidentified]) @
     date_issues idx ''snapshot_date'' (cell row ''snapshot_date'') @
     (let raw = cell row ''quantity_on_hand'' in
        if missing raw then [issue idx ''quantity_on_hand'' ERROR Missing]
        else (case negative_number (strip (filter (\<lambda>c. c \<noteq> CHR '','') (the raw))) of
            Inr neg \<Rightarrow> if neg then [issue idx ''quantity_on_hand'' ERROR Negative] else []
          | Inl e \<Rightarrow> [issue idx ''quantity_on_hand'' ERROR Malformed])) @
     optional_amount_issues idx ''unit_cost'' (cell row ''unit_cost'') @
     optional_amount_issues idx ''reorder_level'' (cell row ''reorder_level'') @
     (let raw = cell row ''expiry_date'' in
        if \<not> missing raw \<and> \<not> is_ok (fromisoformat (take 10 (strip (the raw))))
        then [issue idx ''expiry_date'' WARNING Malformed] else []) @
     (if cell row ''location'' \<in> {None, Some []} then [issue idx ''location'' ERROR Missing] else [])"

definition validate_inventory_snapshot_rows :: "mapped_row list \<Rightarrow> (nat \<times> bool \<times> validation_issue list) list" where
  "validate_inventory_snapshot_rows rows = map (\<lambda>(i, row).
     let issues = inventory_row_issues (i + 1) row in (i + 1, no_errors issues, issues)) (zip [0..<length rows] rows)"

text \<open>Arithmetic with infinities and NaNs, as far as the cross-check of the valuation report needs it.\<close>

fun dec_times :: "pydec \<Rightarrow> pydec \<Rightarrow> pydec res" where
  "dec_times (Fin x) (Fin y) = Inr (Fin (dmul x y))"
| "dec_times (Infinity a) (Fin y) = (if y = 0 then Inl InvalidOperation else Inr (Infinity (a \<noteq> (y < 0))))"
| "dec_times (Fin x) (Infinity b) = (if x = 0 then Inl InvalidOperation else Inr (Infinity (b \<noteq> (x < 0))))"
| "dec_times (Infinity a) (Infinity b) = Inr (Infinity (a \<noteq> b))"
| "dec_times (NaN s) y = (if s \<or> y = NaN True then Inl InvalidOperation else Inr (NaN False))"
| "dec_times x (NaN s) = (if s then Inl InvalidOperation else Inr (NaN False))"

fun dec_minus :: "pydec \<Rightarrow> pydec \<Rightarrow> pydec res" where
  "dec_minus (Fin x) (Fin y) = Inr (Fin (dsub x y))"
| "dec_minus (Infinity a) (Infinity b) = (if a = b then Inl InvalidOperation else Inr (Infinity a))"
| "dec_minus (Infinity a) (Fin y) = Inr (Infinity a)"
| "dec_minus (Fin x) (Infinity b) = Inr (Infinity (\<not> b))"
| "dec_minus (NaN s) y = (if s \<or> y = NaN True then Inl InvalidOperation else Inr (NaN False))"
| "dec_minus x (NaN s) = (if s then Inl InvalidOperation else Inr (NaN False))"

fun dec_abs_exceeds :: "pydec \<Rightarrow> rat \<Rightarrow> bool res" where
  "dec_abs_exceeds (Fin x) y = Inr (y < dabs x)"
| "dec_abs_exceeds (Infinity _) y = Inr True"
| "dec_abs_exceeds (NaN _) y = Inl InvalidOperation"

definition valuation_tolerance :: rat where "valuation_tolerance = 1 / 100"

definition strip_currency :: "string \<Rightarrow> string" where
  "strip_currency raw = strip (filter (\<lambda>c. c \<notin> {CHR ''R'', CHR ''$'', CHR '',''}) raw)"

record valuation_row =
  vl_supplier_sku :: "string option"
  vl_description :: "string option"
  vl_quantity :: "pydec option"
  vl_unit_cost :: "pydec option"
  vl_total :: "pydec option"

definition cross_check :: "nat \<Rightarrow> pydec option \<Rightarrow> pydec option \<Rightarrow> pydec \<Rightarrow> validation_issue list" where
  "cross_check idx quantity unit_cost stated = (case (quantity, unit_cost) of
     (Some q, Some c) \<Rightarrow>
       (case bindR (dec_times q c) (\<lambda>expected. bindR (dec_minus stated expected) (\<lambda>d. dec_abs_exceeds d valuation_tolerance)) of
          Inr True \<Rightarrow> [issue idx ''total_valuation'' WARNING Disagrees]
        | Inr False \<Rightarrow> []
        | Inl e \<Rightarrow> [issue idx ''total_valuation'' WARNING Malformed])
   | _ \<Rightarrow> [])"

definition valuation_row_result :: "nat \<Rightarrow> mapped_row \<Rightarrow> (valuation_row \<times> validation_issue list) res" where
  "valuation_row_result idx row =
     (let sku = text_or_none (cell row ''supplier_sku'');
          (quantity, quantity_issues) = required_number (\<lambda>s. parse_decimal (strip_currency s)) idx ''quantity_on_hand'' (cell row ''quantity_on_hand'');
          (unit_cost, cost_issues) = required_number (\<lambda>s. parse_decimal (strip_currency s)) idx ''unit_cost'' (cell row ''unit_cost'');
          raw_total = cell row ''total_valuation'';
          valuation = (if missing raw_total then Inr None
                   else bindR (parse_decimal (strip_currency (the raw_total))) (\<lambda>v. Inr (Some v)))
      in bindR (sign_issue idx ''quantity_on_hand'' WARNING quantity) (\<lambda>negative. Inr
        (\<lparr> vl_supplier_sku = sku, vl_description = text_or_none (cell row ''description''), vl_quantity = quantity,
           vl_unit_cost = unit_cost, vl_total = (case valuation of Inr v \<Rightarrow> v | Inl e \<Rightarrow> None) \<rparr>,
         (if sku = None then [issue idx ''supplier_sku'' ERROR Missing] else []) @ quantity_issues @ negative @ cost_issues @
         (case valuation of Inr None \<Rightarrow> [] | Inr (Some v) \<Rightarrow> cross_check idx quantity unit_cost v
          | Inl e \<Rightarrow> [issue idx ''total_valuation'' WARNING Malformed]))))"

definition validate_inventory_valuation_rows :: "mapped_row list \<Rightarrow> (valuation_row \<times> validation_issue list) list res" where
  "validate_inventory_valuation_rows rows = mapR (\<lambda>(i, row). valuation_row_result (i + 1) row) (zip [0..<length rows] rows)"

section \<open>Lemmas: validators\<close>

lemma no_errors_simps [simp]:
  "no_errors []" "no_errors (xs @ ys) \<longleftrightarrow> no_errors xs \<and> no_errors ys"
  "no_errors (i # xs) \<longleftrightarrow> vi_severity i \<noteq> ERROR \<and> no_errors xs" "vi_severity (issue idx field sev k) = sev"
  "no_errors (if b then xs else ys) \<longleftrightarrow> (if b then no_errors xs else no_errors ys)"
  "issue idx field sev k = issue idx' field' sev' k' \<longleftrightarrow> idx = idx' \<and> field = field' \<and> sev = sev' \<and> k = k'"
  by (auto simp: no_errors_def issue_def)

lemma price_issues_ok:
  "price_issues idx raw = Inr is \<Longrightarrow> no_errors is \<longleftrightarrow> (\<exists>p. parse_price raw = Some p \<and> dec_less p 0 = Inr False)"
  by (auto simp: price_issues_def parse_price_def res_simps split: if_splits option.splits sum.splits)

definition price_row_ok :: "mapped_row \<Rightarrow> bool" where
  "price_row_ok row = (text_or_none (cell row ''description'') \<noteq> None \<and>
     (case parse_price (cell row ''price'') of Some p \<Rightarrow> dec_less p 0 = Inr False | None \<Rightarrow> False))"

lemma price_row_ok_iff:
  "price_row_ok row \<longleftrightarrow> text_or_none (cell row ''description'') \<noteq> None \<and>
     (\<exists>p. parse_price (cell row ''price'') = Some p \<and> dec_less p 0 = Inr False)"
  by (auto simp: price_row_ok_def split: option.splits)

lemma validate_price_row_valid:
  assumes "validate_price_row idx seen row = Inr r"
  shows "vr_supplier_sku r = text_or_none (cell row ''supplier_sku'')"
    and "is_valid r \<longleftrightarrow> price_row_ok row \<and> (\<exists>s. text_or_none (cell row ''supplier_sku'') = Some s \<and> map_of seen s = None)"
proof -
  obtain price where p: "price_issues idx (cell row ''price'') = Inr price"
    using assms by (auto simp: validate_price_row_def res_simps Let_def)
  show "vr_supplier_sku r = text_or_none (cell row ''supplier_sku'')"
    using assms by (auto simp: validate_price_row_def p Let_def)
  show "is_valid r \<longleftrightarrow> price_row_ok row \<and> (\<exists>s. text_or_none (cell row ''supplier_sku'') = Some s \<and> map_of seen s = None)"
    using assms price_issues_ok [OF p]
    by (cases "text_or_none (cell row ''supplier_sku'')") (auto simp: validate_price_row_def p is_valid_def Let_def price_row_ok_iff
        split: option.splits if_splits)
qed

lemma see_None: "map_of (see seen sku idx) s = None \<longleftrightarrow> map_of seen s = None \<and> sku \<noteq> Some s"
  by (auto simp: see_def split: option.splits)

lemma validate_from_valid:
  assumes "validate_from idx seen rows = Inr vs"
  shows "length vs = length rows \<and> (\<forall>i<length rows. is_valid (vs ! i) \<longleftrightarrow> price_row_ok (rows ! i) \<and>
    (\<exists>s. text_or_none (cell (rows ! i) ''supplier_sku'') = Some s \<and> map_of seen s = None \<and>
      (\<forall>j<i. text_or_none (cell (rows ! j) ''supplier_sku'') \<noteq> Some s)))"
  using assms
proof (induction idx seen rows arbitrary: vs rule: validate_from.induct)
  case (2 idx seen row rows)
  obtain r rs where r: "validate_price_row idx seen row = Inr r" "vs = r # rs"
    "validate_from (idx + 1) (see seen (vr_supplier_sku r) idx) rows = Inr rs"
    using 2(2) by (auto simp: res_simps)
  note v = validate_price_row_valid [OF r(1)]
  note ih = 2(1) [OF r(1) r(3)]
  have "is_valid (vs ! i) \<longleftrightarrow> price_row_ok ((row # rows) ! i) \<and>
      (\<exists>s. text_or_none (cell ((row # rows) ! i) ''supplier_sku'') = Some s \<and> map_of seen s = None \<and>
        (\<forall>j<i. text_or_none (cell ((row # rows) ! j) ''supplier_sku'') \<noteq> Some s))"
    if i: "i < length (row # rows)" for i
  proof (cases i)
    case (Suc k)
    then show ?thesis using i ih
      by (simp add: r(2) see_None v(1) All_less_Suc2)
  qed (use v(2) r(2) in auto)
  then show ?case using ih r(2) by simp
qed simp

section \<open>Properties\<close>

text \<open>C36: A price row is accepted exactly when it has a product code that no earlier row has, a description,
  and a price that reads as a number which is not negative; the first bearer of a code blocks the
  later ones even when it is rejected itself.\<close>

lemma accepted_price_rows:
  assumes "validate_rows rows = Inr vs" "i < length rows"
  shows "length vs = length rows \<and> (is_valid (vs ! i) \<longleftrightarrow>
    text_or_none (cell (rows ! i) ''description'') \<noteq> None \<and>
    (\<exists>p. parse_price (cell (rows ! i) ''price'') = Some p \<and> dec_less p 0 = Inr False) \<and>
    (\<exists>s. text_or_none (cell (rows ! i) ''supplier_sku'') = Some s \<and>
      (\<forall>j<i. text_or_none (cell (rows ! j) ''supplier_sku'') \<noteq> Some s)))"
  using validate_from_valid [OF assms(1) [unfolded validate_rows_def]] assms(2) by (simp add: price_row_ok_iff)

definition price_row :: "string \<Rightarrow> string \<Rightarrow> string \<Rightarrow> mapped_row" where
  "price_row sku description price = [(''supplier_sku'', Some sku), (''description'', Some description), (''price'', Some price)]"

lemma price_row_cells [simp]:
  "cell (price_row s d p) ''supplier_sku'' = Some s" "cell (price_row s d p) ''description'' = Some d"
  "cell (price_row s d p) ''price'' = Some p" "cell (price_row s d p) ''pack_size'' = None"
  by (simp_all add: price_row_def cell_def dict_get_def)

lemma cleaned_rand [simp]: "cleaned (CHR ''R'' # show_nat n) = show_nat n" "\<not> missing (Some (CHR ''R'' # show_nat n))"
by (simp_all add: missing_def cleaned_def digit_other)

text \<open>A row with a currency sign in front of its price is valid.\<close>

lemma validate_rand_price:
  assumes "strip s \<noteq> []" "strip d \<noteq> []"
  shows "\<exists>r. validate_price_row idx seen (price_row s d (CHR ''R'' # show_nat n)) = Inr r \<and> vr_supplier_sku r = Some (strip s)"
  using assms by (simp add: validate_price_row_def Let_def price_issues_def parse_price_def text_or_none_def)

lemma accepted_price_rows_witness:
  "\<exists>vs. validate_rows [price_row ''A1'' ''Rice'' (CHR ''R'' # show_nat 12), price_row ''A1'' ''Rice'' (CHR ''R'' # show_nat 15)] = Inr vs \<and>
     is_valid (vs ! 0) \<and> \<not> is_valid (vs ! 1)"
proof -
  let ?rows = "[price_row ''A1'' ''Rice'' (CHR ''R'' # show_nat 12), price_row ''A1'' ''Rice'' (CHR ''R'' # show_nat 15)]"
  have s: "strip ''A1'' = ''A1''" "strip ''Rice'' = ''Rice''" by code_simp+
  have "is_ok (validate_rows ?rows)"
    using validate_rand_price [of "''A1''" "''Rice''"] s by (auto simp: validate_rows_def res_simps is_ok_iff) metis
  then obtain vs where vs: "validate_rows ?rows = Inr vs" by (auto simp: is_ok_iff)
  show ?thesis using accepted_price_rows [OF vs, of 0] accepted_price_rows [OF vs, of 1] vs
    by (simp add: s parse_price_def text_or_none_def)
qed

text \<open>A balance-sheet row is accepted exactly when its date reads, the five required numbers read, and the
  inventory is not negative; an overdraft, or a cash figure that does not read, never rejects it.\<close>

lemma accepted_working_capital_row:
  assumes "validate_working_capital_row row = Inr (valid, issues)"
  shows "valid \<longleftrightarrow> date_issues 1 ''as_of_date'' (cell row ''as_of_date'') = [] \<and>
    (\<forall>f\<in>{''accounts_receivable'', ''accounts_payable'', ''inventory_value'', ''annualized_revenue'', ''annualized_cogs''}.
       fst (required_amount row 1 f) \<noteq> None) \<and>
    (\<exists>x. fst (required_amount row 1 ''inventory_value'') = Some x \<and> dec_less x 0 = Inr False)"
proof -
  have r: "no_errors (snd (required_amount row 1 f)) \<longleftrightarrow> fst (required_amount row 1 f) \<noteq> None" for f
    by (auto simp: required_amount_def required_number_def split: sum.splits)
  have s: "no_errors s \<longleftrightarrow> (sev = ERROR \<longrightarrow> x \<noteq> None \<longrightarrow> dec_less (the x) 0 = Inr False)" if "sign_issue 1 f sev x = Inr s" for f sev x s
    using that by (auto simp: sign_issue_def res_simps split: option.splits if_splits)
  have d: "no_errors (date_issues 1 ''as_of_date'' raw) \<longleftrightarrow> date_issues 1 ''as_of_date'' raw = []" for raw
    by (auto simp: date_issues_def split: sum.splits)
  let ?ar = "required_amount row 1 ''accounts_receivable''" and ?ap = "required_amount row 1 ''accounts_payable''"
    and ?inv = "required_amount row 1 ''inventory_value''" and ?cash = "cell row ''cash_balance''"
  obtain a where sg1: "sign_issue 1 ''accounts_receivable'' WARNING (fst ?ar) = Inr a"
    using assms by (cases "sign_issue 1 ''accounts_receivable'' WARNING (fst ?ar)")
      (simp_all add: validate_working_capital_row_def case_prod_unfold Let_def del: One_nat_def)
  obtain p where sg2: "sign_issue 1 ''accounts_payable'' WARNING (fst ?ap) = Inr p"
    using assms by (cases "sign_issue 1 ''accounts_payable'' WARNING (fst ?ap)")
      (simp_all add: validate_working_capital_row_def case_prod_unfold Let_def sg1 del: One_nat_def)
  obtain i where sg3: "sign_issue 1 ''inventory_value'' ERROR (fst ?inv) = Inr i"
    using assms by (cases "sign_issue 1 ''inventory_value'' ERROR (fst ?inv)")
      (simp_all add: validate_working_capital_row_def case_prod_unfold Let_def sg1 sg2 del: One_nat_def)
  have v: "valid \<longleftrightarrow> no_errors (date_issues 1 ''as_of_date'' (cell row ''as_of_date'') @ snd ?ar @ a @ snd ?ap @ p @
      snd ?inv @ i @ (if \<not> missing ?cash \<and> \<not> is_ok (parse_decimal (cleaned (the ?cash))) then [issue 1 ''cash_balance'' WARNING Malformed] else []) @
      snd (required_amount row 1 ''annualized_revenue'') @ snd (required_amount row 1 ''annualized_cogs''))"
    using assms unfolding validate_working_capital_row_def case_prod_unfold Let_def sg1 sg2 sg3 bindR_Inr sum.inject prod.inject
    by (elim conjE) (rule sym)
  have "no_errors a" "no_errors p" using s [OF sg1] s [OF sg2] by simp_all
  moreover have "no_errors i \<longleftrightarrow> (fst ?inv \<noteq> None \<longrightarrow> dec_less (the (fst ?inv)) 0 = Inr False)" using s [OF sg3] by simp
  moreover have "no_errors (if b then [issue 1 ''cash_balance'' WARNING Malformed] else [])" for b by simp
  ultimately show ?thesis unfolding v no_errors_simps(2) r d
    by (cases "fst ?inv") (simp_all add: conj_ac del: One_nat_def)
qed

definition example_balance_row :: mapped_row where
  "example_balance_row = [(''as_of_date'', Some ''2026-08-31''), (''accounts_receivable'', Some (show_nat 1000)),
     (''accounts_payable'', Some (show_nat 5)), (''inventory_value'', Some (show_nat 7)), (''cash_balance'', Some ''overdrawn''),
     (''annualized_revenue'', Some (show_nat 9)), (''annualized_cogs'', Some (show_nat 8))]"

lemma required_amount_show:
  "cell row f = Some (show_nat n) \<Longrightarrow> required_amount row i f = (Some (Fin (of_nat n)), [])"
  by (simp add: required_amount_def required_number_def missing_def cleaned_def digit_other)

lemma accepted_working_capital_row_witness:
  "\<exists>issues. validate_working_capital_row example_balance_row = Inr (True, issues)"
proof -
  have c: "cell example_balance_row ''accounts_receivable'' = Some (show_nat 1000)" "cell example_balance_row ''accounts_payable'' = Some (show_nat 5)"
    "cell example_balance_row ''inventory_value'' = Some (show_nat 7)" "cell example_balance_row ''annualized_revenue'' = Some (show_nat 9)"
    "cell example_balance_row ''annualized_cogs'' = Some (show_nat 8)" "cell example_balance_row ''as_of_date'' = Some ''2026-08-31''"
    by (simp_all add: example_balance_row_def cell_def dict_get_def)
  note r = required_amount_show [OF c(1)] required_amount_show [OF c(2)] required_amount_show [OF c(3)]
    required_amount_show [OF c(4)] required_amount_show [OF c(5)]
  have d: "date_issues 1 ''as_of_date'' (Some ''2026-08-31'') = []" by code_simp
  obtain valid issues where v: "validate_working_capital_row example_balance_row = Inr (valid, issues)"
    by (simp add: validate_working_capital_row_def r sign_issue_def Let_def)
  have valid unfolding accepted_working_capital_row [OF v] using d by (simp add: c r del: One_nat_def)
  then show ?thesis using v by auto
qed

section \<open>Lemmas: column mapping\<close>

definition assigned :: "mapped_row \<Rightarrow> string \<Rightarrow> string \<Rightarrow> bool" where
  "assigned m f c = (map_of m f = Some (Some c))"

definition injective :: "mapped_row \<Rightarrow> bool" where
  "injective m = (\<forall>f g c. assigned m f c \<longrightarrow> assigned m g c \<longrightarrow> f = g)"

lemma assigned_update: "assigned (AList.update k (Some c) m) f d \<longleftrightarrow> (if f = k then d = c else assigned m f d)"
  by (auto simp: assigned_def update_conv')

lemma unassigned: "dict_get m k None = None \<longleftrightarrow> (\<forall>c. \<not> assigned m k c)"
  by (auto simp: dict_get_def assigned_def split: option.splits)

lemma injective_update: "injective m \<Longrightarrow> \<forall>f. \<not> assigned m f c \<Longrightarrow> injective (AList.update k (Some c) m)"
  by (auto simp: injective_def assigned_update)

lemma alias_steps:
  assumes "distinct (map fst ns)" "injective m" "\<And>f c. assigned m f c \<Longrightarrow> c \<notin> fst ` set ns"
    and "\<And>n f. map_of lookup n = Some f \<Longrightarrow> f \<in> set (map fst m)"
  shows "let m' = foldl (alias_step lookup) m ns in injective m' \<and> map fst m' = map fst m \<and>
    (\<forall>f c. assigned m f c \<longrightarrow> assigned m' f c) \<and>
    (\<forall>f c. assigned m' f c \<longrightarrow> assigned m f c \<or> (\<exists>n. (c, n) \<in> set ns \<and> map_of lookup n = Some f)) \<and>
    (\<forall>c n f. (c, n) \<in> set ns \<longrightarrow> map_of lookup n = Some f \<longrightarrow> f \<noteq> [] \<longrightarrow> (\<exists>d. assigned m' f d))"
  using assms
proof (induction ns arbitrary: m)
  case (Cons x ns)
  obtain c n where x: "x = (c, n)" by (cases x)
  define m1 where "m1 = alias_step lookup m x"
  have fresh: "\<forall>f. \<not> assigned m f c" using Cons.prems(3) x by fastforce
  have m1: "m1 = m \<or> (\<exists>f. map_of lookup n = Some f \<and> f \<noteq> [] \<and> (\<forall>d. \<not> assigned m f d) \<and> m1 = AList.update f (Some c) m)"
    by (auto simp: m1_def alias_step_def x unassigned split: option.splits)
  have dn: "\<exists>d. assigned m1 f d" if "map_of lookup n = Some f" "f \<noteq> []" for f
    using that by (auto simp: m1_def alias_step_def x unassigned assigned_update)
  have k: "map fst m1 = map fst m" using m1 Cons.prems(4) by (auto simp: keys_update)
  have i: "injective m1" using m1 Cons.prems(2) injective_update [OF _ fresh] by auto
  have new: "assigned m1 f d \<Longrightarrow> assigned m f d \<or> d = c \<and> map_of lookup n = Some f" for f d
    using m1 by (auto simp: assigned_update split: if_splits)
  have old: "assigned m f d \<Longrightarrow> assigned m1 f d" for f d using m1 by (auto simp: assigned_update)
  have ih: "let m' = foldl (alias_step lookup) m1 ns in injective m' \<and> map fst m' = map fst m1 \<and>
      (\<forall>f c. assigned m1 f c \<longrightarrow> assigned m' f c) \<and>
      (\<forall>f c. assigned m' f c \<longrightarrow> assigned m1 f c \<or> (\<exists>n. (c, n) \<in> set ns \<and> map_of lookup n = Some f)) \<and>
      (\<forall>c n f. (c, n) \<in> set ns \<longrightarrow> map_of lookup n = Some f \<longrightarrow> f \<noteq> [] \<longrightarrow> (\<exists>d. assigned m' f d))"
  proof (rule Cons.IH [OF _ i])
    show "distinct (map fst ns)" using Cons.prems(1) by simp
    show "d \<notin> fst ` set ns" if "assigned m1 f d" for f d
    proof -
      have "d \<noteq> c \<Longrightarrow> d \<notin> fst ` set (x # ns)" using new [OF that] Cons.prems(3) by blast
      then show ?thesis using Cons.prems(1) x by (cases "d = c") auto
    qed
    show "f \<in> set (map fst m1)" if "map_of lookup n = Some f" for n f unfolding k using Cons.prems(4) [OF that] .
  qed
  then show ?case using k new old dn by (simp add: m1_def [symmetric] x [symmetric] Let_def) (use x in blast)
qed simp

lemma fuzzy_steps:
  assumes "injective m" "distinct us" "\<And>f c. assigned m f c \<Longrightarrow> c \<notin> set us" "set fs \<subseteq> set (map fst m)"
  shows "let m' = fst (foldl (fuzzy_step normalized als) (m, us) fs) in injective m' \<and> map fst m' = map fst m \<and>
    (\<forall>f c. assigned m f c \<longrightarrow> assigned m' f c) \<and> (\<forall>f c. assigned m' f c \<longrightarrow> assigned m f c \<or> c \<in> set us)"
  using assms
proof (induction fs arbitrary: m us)
  case (Cons f fs)
  obtain m1 us1 where s: "fuzzy_step normalized als (m, us) f = (m1, us1)" by fastforce
  have m1: "m1 = m \<and> us1 = us \<or> (\<exists>c\<in>set us. (\<forall>d. \<not> assigned m f d) \<and> m1 = AList.update f (Some c) m \<and> us1 = remove1 c us)"
    using s by (auto simp: fuzzy_step_def unassigned Let_def find_Some_iff split: if_splits option.splits)
  have f: "f \<in> fst ` set m" using Cons.prems(4) by simp
  have k: "map fst m1 = map fst m" using m1 by (elim disjE) (auto simp only: keys_update f if_True)
  have ih: "let m' = fst (foldl (fuzzy_step normalized als) (m1, us1) fs) in injective m' \<and> map fst m' = map fst m1 \<and>
      (\<forall>f c. assigned m1 f c \<longrightarrow> assigned m' f c) \<and> (\<forall>f c. assigned m' f c \<longrightarrow> assigned m1 f c \<or> c \<in> set us1)"
  proof (rule Cons.IH)
    show "injective m1" using m1 Cons.prems(1,3) by (auto intro: injective_update)
    show "distinct us1" using m1 Cons.prems(2) by auto
    show "d \<notin> set us1" if "assigned m1 g d" for g d
      using that m1 Cons.prems(2,3) by (auto simp: assigned_update split: if_splits)
    show "set fs \<subseteq> set (map fst m1)" unfolding k using Cons.prems(4) by simp
  qed
  have "assigned m g d \<Longrightarrow> assigned m1 g d" "assigned m1 g d \<Longrightarrow> assigned m g d \<or> d \<in> set us" "d \<in> set us1 \<Longrightarrow> d \<in> set us" for g d
    using m1 by (auto simp: assigned_update dest: in_set_remove1 split: if_splits) (meson notin_set_remove1)
  then show ?case using ih k by (simp add: s Let_def) blast
qed simp

text \<open>The suggested mapping never gives one column to two fields, uses only columns of the file, has exactly
  the requested fields, and a field for which some header is a known alias is always mapped, to a column
  with such a header, before any fuzzy match is tried.\<close>

lemma suggested_mapping:
  assumes "distinct cols" "distinct fnames" "fst ` set als \<subseteq> set fnames" "[] \<notin> set fnames"
    and unique: "\<And>a f g as bs. (f, as) \<in> set als \<Longrightarrow> (g, bs) \<in> set als \<Longrightarrow> a \<in> set as \<Longrightarrow> a \<in> set bs \<Longrightarrow> f = g"
  shows "map fst (suggest_mapping cols fnames als) = fnames \<and> injective (suggest_mapping cols fnames als) \<and>
    (\<forall>f c. assigned (suggest_mapping cols fnames als) f c \<longrightarrow> c \<in> set cols) \<and>
    (\<forall>f as c. (f, as) \<in> set als \<longrightarrow> c \<in> set cols \<longrightarrow> lower (strip c) \<in> set as \<longrightarrow>
      (\<exists>d bs. assigned (suggest_mapping cols fnames als) f d \<and> (f, bs) \<in> set als \<and> lower (strip d) \<in> set bs))"
proof -
  let ?pairs = "concat (map (\<lambda>(canonical, as). map (\<lambda>a. (a, canonical)) as) als)"
  let ?ns = "map (\<lambda>c. (c, lower (strip c))) cols"
  define lookup where "lookup = build_dict ?pairs"
  define m0 where "m0 = map (\<lambda>f. (f, None :: string option)) fnames"
  define m1 where "m1 = foldl (alias_step lookup) m0 ?ns"
  have ns: "build_dict ?ns = ?ns" by (rule build_dict_id) (simp add: comp_def assms(1))
  have m0: "build_dict (map (\<lambda>f. (f, None)) fnames) = m0" unfolding m0_def by (rule build_dict_id) (simp add: comp_def assms(2))
  have a0: "\<not> assigned m0 f c" for f c by (auto simp: assigned_def m0_def dest: map_of_SomeD)
  have k0: "map fst m0 = fnames" by (simp add: m0_def comp_def)
  have lk: "\<exists>as. (f, as) \<in> set als \<and> n \<in> set as" if "map_of lookup n = Some f" for n f
    using build_dict_in [OF that [unfolded lookup_def]] by auto
  have lk': "map_of lookup n = Some f" if "(f, as) \<in> set als" "n \<in> set as" for n f as
  proof -
    have "n \<in> fst ` set lookup" unfolding lookup_def build_dict_keys using that by force
    then obtain g where g: "map_of lookup n = Some g" by (metis map_of_eq_None_iff option.exhaust)
    then show ?thesis using lk [OF g] unique that by blast
  qed
  have t1: "injective m1 \<and> map fst m1 = fnames \<and> (\<forall>f c. assigned m1 f c \<longrightarrow> (\<exists>n. (c, n) \<in> set ?ns \<and> map_of lookup n = Some f)) \<and>
      (\<forall>c n f. (c, n) \<in> set ?ns \<longrightarrow> map_of lookup n = Some f \<longrightarrow> f \<noteq> [] \<longrightarrow> (\<exists>d. assigned m1 f d))"
  proof -
    have "injective m0" using a0 by (simp add: injective_def)
    moreover have "f \<in> set (map fst m0)" if "map_of lookup n = Some f" for n f
      unfolding k0 using lk [OF that] assms(3) by force
    ultimately show ?thesis
      using alias_steps [of ?ns m0 lookup] assms(1) a0 by (simp add: m1_def Let_def comp_def k0)
  qed
  define us where "us = filter (\<lambda>c. Some c \<notin> set (map snd m1)) cols"
  have free: "c \<notin> set us" if "assigned m1 f c" for f c
  proof -
    have "(f, Some c) \<in> set m1" using that unfolding assigned_def by (rule map_of_SomeD)
    then show ?thesis by (force simp: us_def)
  qed
  have t2: "let m' = fst (foldl (fuzzy_step ?ns als) (m1, us) fnames) in injective m' \<and> map fst m' = map fst m1 \<and>
      (\<forall>f c. assigned m1 f c \<longrightarrow> assigned m' f c) \<and> (\<forall>f c. assigned m' f c \<longrightarrow> assigned m1 f c \<or> c \<in> set us)"
    by (rule fuzzy_steps) (use t1 free assms(1) in \<open>auto simp: us_def\<close>)
  have m: "suggest_mapping cols fnames als = fst (foldl (fuzzy_step ?ns als) (m1, us) fnames)"
    unfolding suggest_mapping_def Let_def lookup_def [symmetric] ns m0 m1_def [symmetric] us_def [symmetric] ..
  show ?thesis unfolding m
  proof (intro conjI allI impI)
    let ?m = "fst (foldl (fuzzy_step ?ns als) (m1, us) fnames)"
    show "map fst ?m = fnames" "injective ?m" using t1 t2 by (simp_all add: Let_def)
    show "c \<in> set cols" if "assigned ?m f c" for f c
    proof -
      have "assigned m1 f c \<or> c \<in> set us" using t2 that by (simp add: Let_def)
      then show ?thesis using t1 by (auto simp: us_def)
    qed
    fix f as c
    assume f: "(f, as) \<in> set als" "c \<in> set cols" "lower (strip c) \<in> set as"
    then have "map_of lookup (lower (strip c)) = Some f" "(c, lower (strip c)) \<in> set ?ns" "f \<noteq> []"
      using lk' assms(3,4) by force+
    then obtain d where d: "assigned m1 f d" using t1 by blast
    then obtain n where "(d, n) \<in> set ?ns" "map_of lookup n = Some f" using t1 by blast
    then obtain bs where "(f, bs) \<in> set als" "lower (strip d) \<in> set bs" using lk by auto
    moreover have "assigned ?m f d" using t2 d by (simp add: Let_def)
    ultimately show "\<exists>d bs. assigned ?m f d \<and> (f, bs) \<in> set als \<and> lower (strip d) \<in> set bs" by blast
  qed
qed

lemma suggested_mapping_witness:
  "\<exists>d bs. assigned (suggest_mapping [''Invoice Date'', ''Amount''] purchase_transaction_canonical_fields purchase_transaction_aliases)
     ''transaction_date'' d \<and> (''transaction_date'', bs) \<in> set purchase_transaction_aliases \<and> lower (strip d) \<in> set bs"
proof -
  let ?als = purchase_transaction_aliases
  have c: "list_all (\<lambda>(f, as). list_all (\<lambda>(g, bs). list_all (\<lambda>a. a \<in> set bs \<longrightarrow> f = g) as) ?als) ?als" by code_simp
  have u: "f = g" if "(f, as) \<in> set ?als" "(g, bs) \<in> set ?als" "a \<in> set as" "a \<in> set bs" for a f g as bs
    using c [unfolded list_all_iff] that by blast
  have "distinct purchase_transaction_canonical_fields" "fst ` set ?als \<subseteq> set purchase_transaction_canonical_fields"
    "[] \<notin> set purchase_transaction_canonical_fields" "distinct [''Invoice Date'', ''Amount'']"
    by (simp_all add: purchase_transaction_aliases_def purchase_transaction_canonical_fields_def)
  moreover have "(''transaction_date'', [''date'', ''transaction date'', ''invoice date'', ''posting date'', ''txn date'']) \<in> set ?als"
    by (simp add: purchase_transaction_aliases_def)
  moreover have "lower (strip ''Invoice Date'') = ''invoice date''" by code_simp
  ultimately show ?thesis
    using suggested_mapping [of "[''Invoice Date'', ''Amount'']" purchase_transaction_canonical_fields ?als] u by force
qed

end
