(* ===== verification/Columns.thy ===== *)
theory Columns
  imports Rounding
begin

text \<open>
  The numeric columns of the tables: a value is rounded to the scale of its column when a row is
  written, and a value whose rounding has too many integer digits makes the whole statement fail.
\<close>

text \<open>PostgreSQL rounds a value to the scale of a \<open>NUMERIC(p, s)\<close> column half away from zero.\<close>

definition half_away :: "rat \<Rightarrow> int" where
  "half_away x = (if 0 \<le> x then \<lfloor>x + 1/2\<rfloor> else - \<lfloor>1/2 - x\<rfloor>)"

definition to_scale :: "nat \<Rightarrow> rat \<Rightarrow> rat" where
  "to_scale s x = of_int (half_away (x * 10 ^ s)) / 10 ^ s"

definition column_ok :: "nat \<Rightarrow> nat \<Rightarrow> rat option \<Rightarrow> bool" where
  "column_ok p s x = (case x of None \<Rightarrow> True | Some v \<Rightarrow> \<bar>to_scale s v\<bar> < 10 ^ (p - s))"

text \<open>Values on the grid of their column survive a commit.\<close>

lemma to_scale_grid: assumes "on_grid s x" shows "to_scale s x = x"
proof -
  obtain c where c: "x = of_int c / 10 ^ s" using assms by (rule on_gridE)
  have "half_away (of_int c) = c"
    by (auto simp: half_away_def floor_unique)
  then show ?thesis by (simp add: to_scale_def c)
qed

text \<open>A column of scale \<open>s\<close> accepts exactly the values whose rounding stays below the power of ten.\<close>

lemma column_ok_grid: "on_grid s x \<Longrightarrow> column_ok p s (Some x) \<longleftrightarrow> \<bar>x\<bar> < 10 ^ (p - s)"
  by (simp add: column_ok_def to_scale_grid)

lemma column_ok_None [simp]: "column_ok p s None"
  by (simp add: column_ok_def)

end
