(* ===== verification/PriceReviewService.thy ===== *)
theory PriceReviewService
  imports PriceReviewCalc Matching PackParser Ingestion Columns
begin

text \<open>
  Price reviews: \<open>app/services/price_review_service.py\<close> on one review.  A line is the row of
  \<open>price_review_lines\<close> with the columns the service reads or writes; a commit rounds every decimal to the
  scale of its column, as PostgreSQL does, and refuses one that does not fit.  Reviews and files are found by
  id, audit records and user names are left out, except who confirmed a match.  A price that is an infinity
  or a NaN fails when its row is written; the model lets it fail when it is read.
\<close>

section \<open>State\<close>

record review_file =
  rf_type :: string
  rf_checksum :: string
  rf_status :: string

record review_line =
  pl_old_sku :: "string option"
  pl_old_description :: "string option"
  pl_old_pack :: "string option"
  pl_old_price :: "rat option"
  pl_old_norm :: "rat option"
  pl_old_unit :: "string option"
  pl_new_sku :: "string option"
  pl_new_description :: "string option"
  pl_new_pack :: "string option"
  pl_new_price :: "rat option"
  pl_new_norm :: "rat option"
  pl_new_unit :: "string option"
  pl_match_status :: match_status
  pl_match_method :: string
  pl_match_confidence :: "rat option"
  pl_confirmed_by :: "int option"
  pl_movement_type :: "movement_type option"
  pl_absolute_change :: "rat option"
  pl_percentage_change :: "rat option"
  pl_pack_changed :: bool
  pl_risk :: "risk option"
  pl_basis :: "comparison_basis option"
  pl_annual_quantity :: "rat option"
  pl_quantity_source :: "string option"
  pl_quantity_confidence :: "string option"
  pl_annual_impact :: "rat option"
  pl_selling_price :: "rat option"
  pl_old_margin_pct :: "rat option"
  pl_new_margin_pct :: "rat option"
  pl_margin_movement_pct :: "rat option"
  pl_annual_margin_impact :: "rat option"
  pl_buyer_decision :: "string option"
  pl_target_price :: "rat option"
  pl_potential_cost_avoidance :: "rat option"
  pl_final_price :: "rat option"
  pl_actual_cost_avoidance :: "rat option"

definition blank_line :: "match_status \<Rightarrow> string \<Rightarrow> review_line" where
  "blank_line st method = \<lparr> pl_old_sku = None, pl_old_description = None, pl_old_pack = None, pl_old_price = None,
     pl_old_norm = None, pl_old_unit = None, pl_new_sku = None, pl_new_description = None, pl_new_pack = None,
     pl_new_price = None, pl_new_norm = None, pl_new_unit = None, pl_match_status = st, pl_match_method = method,
     pl_match_confidence = None, pl_confirmed_by = None, pl_movement_type = None, pl_absolute_change = None,
     pl_percentage_change = None, pl_pack_changed = False, pl_risk = None, pl_basis = None, pl_annual_quantity = None,
     pl_quantity_source = None, pl_quantity_confidence = None, pl_annual_impact = None, pl_selling_price = None,
     pl_old_margin_pct = None, pl_new_margin_pct = None, pl_margin_movement_pct = None, pl_annual_margin_impact = None,
     pl_buyer_decision = None, pl_target_price = None, pl_potential_cost_avoidance = None, pl_final_price = None,
     pl_actual_cost_avoidance = None \<rparr>"

section \<open>The columns\<close>

definition line_fits :: "review_line \<Rightarrow> bool" where
  "line_fits l = (list_all (column_ok 18 4) [pl_old_price l, pl_old_norm l, pl_new_price l, pl_new_norm l, pl_absolute_change l,
       pl_annual_quantity l, pl_annual_impact l, pl_selling_price l, pl_annual_margin_impact l, pl_target_price l,
       pl_potential_cost_avoidance l, pl_final_price l, pl_actual_cost_avoidance l] \<and>
     list_all (column_ok 9 6) [pl_percentage_change l, pl_old_margin_pct l, pl_new_margin_pct l, pl_margin_movement_pct l] \<and>
     column_ok 5 4 (pl_match_confidence l))"

definition line_to_scale :: "review_line \<Rightarrow> review_line" where
  "line_to_scale l = (let r4 = map_option (to_scale 4); r6 = map_option (to_scale 6) in
     l\<lparr> pl_old_price := r4 (pl_old_price l), pl_old_norm := r4 (pl_old_norm l), pl_new_price := r4 (pl_new_price l),
        pl_new_norm := r4 (pl_new_norm l), pl_absolute_change := r4 (pl_absolute_change l),
        pl_annual_quantity := r4 (pl_annual_quantity l), pl_annual_impact := r4 (pl_annual_impact l),
        pl_selling_price := r4 (pl_selling_price l), pl_annual_margin_impact := r4 (pl_annual_margin_impact l),
        pl_target_price := r4 (pl_target_price l), pl_potential_cost_avoidance := r4 (pl_potential_cost_avoidance l),
        pl_final_price := r4 (pl_final_price l), pl_actual_cost_avoidance := r4 (pl_actual_cost_avoidance l),
        pl_percentage_change := r6 (pl_percentage_change l), pl_old_margin_pct := r6 (pl_old_margin_pct l),
        pl_new_margin_pct := r6 (pl_new_margin_pct l), pl_margin_movement_pct := r6 (pl_margin_movement_pct l),
        pl_match_confidence := r4 (pl_match_confidence l) \<rparr>)"

definition save_line :: "review_line \<Rightarrow> review_line res" where
  "save_line l = (if line_fits l then Inr (line_to_scale l) else Inl (DataError ''numeric field overflow''))"

section \<open>Files\<close>

definition register_uploaded_file :: "review_file list \<Rightarrow> string \<Rightarrow> string \<Rightarrow> review_file list res" where
  "register_uploaded_file files file_type checksum =
     (if list_ex (\<lambda>f. rf_checksum f = checksum) files
      then Inl (ConflictError ''This exact file has already been uploaded to this review'')
      else Inr (files @ [\<lparr> rf_type = file_type, rf_checksum = checksum, rf_status = ''uploaded'' \<rparr>]))"

section \<open>Matching\<close>

definition normalize_price :: "string option \<Rightarrow> rat option \<Rightarrow> (rat option \<times> string option) res" where
  "normalize_price pack_raw price = (case price of None \<Rightarrow> Inr (None, None)
     | Some x \<Rightarrow> if pack_raw \<in> {None, Some []} then Inr (None, None)
         else (case bindR (parse_pack_string pack_raw) (\<lambda>p. bindR (price_per_base_unit x p) (\<lambda>n. Inr (n, base_unit p))) of
             Inr (n, u) \<Rightarrow> Inr (Some n, Some u)
           | Inl (ValueError _) \<Rightarrow> Inr (None, None)
           | Inl e \<Rightarrow> Inl e))"

definition row_price :: "mapped_row \<Rightarrow> rat option res" where
  "row_price row = (case cell row ''price'' of None \<Rightarrow> Inr None
     | Some s \<Rightarrow> if s = [] then Inr None
         else bindR (parse_decimal s) (\<lambda>x. case x of Fin v \<Rightarrow> Inr (Some v) | _ \<Rightarrow> Inl (DataError ''numeric field overflow'')))"

definition row_key :: "mapped_row \<Rightarrow> string" where
  "row_key row = (case cell row ''supplier_sku'' of Some s \<Rightarrow> s | None \<Rightarrow> ''None'')"

definition row_candidate :: "mapped_row \<Rightarrow> candidate_item" where
  "row_candidate row = \<lparr> ci_key = row_key row, ci_sku = cell row ''supplier_sku'', ci_barcode = cell row ''barcode'',
     ci_description = (case cell row ''description'' of Some s \<Rightarrow> s | None \<Rightarrow> []) \<rparr>"

fun method_value :: "match_method \<Rightarrow> string" where
  "method_value M_SKU = ''exact_sku''"
| "method_value M_BARCODE = ''exact_barcode''"
| "method_value M_EXACT_DESCRIPTION = ''exact_normalized_description''"
| "method_value M_FUZZY = ''fuzzy_description''"
| "method_value M_UNMATCHED = ''unmatched''"

definition or_empty :: "string option \<Rightarrow> string" where
  "or_empty x = (case x of Some s \<Rightarrow> s | None \<Rightarrow> [])"

text \<open>The two halves of a line: the columns filled from the old row and from the new row.\<close>

definition old_side :: "mapped_row \<Rightarrow> review_line \<Rightarrow> review_line res" where
  "old_side row l = bindR (row_price row) (\<lambda>price. bindR (normalize_price (cell row ''pack_size'') price) (\<lambda>(n, u).
     Inr (l\<lparr> pl_old_sku := cell row ''supplier_sku'', pl_old_description := cell row ''description'',
       pl_old_pack := cell row ''pack_size'', pl_old_price := price, pl_old_norm := n, pl_old_unit := u \<rparr>)))"

definition new_side :: "mapped_row \<Rightarrow> review_line \<Rightarrow> review_line res" where
  "new_side row l = bindR (row_price row) (\<lambda>price. bindR (normalize_price (cell row ''pack_size'') price) (\<lambda>(n, u).
     Inr (l\<lparr> pl_new_sku := cell row ''supplier_sku'', pl_new_description := cell row ''description'',
       pl_new_pack := cell row ''pack_size'', pl_new_price := price, pl_new_norm := n, pl_new_unit := u \<rparr>)))"

definition match_old_row ::
    "candidate_item list \<Rightarrow> (string option, mapped_row) pydict \<Rightarrow> mapped_row \<Rightarrow> (review_line \<times> string option) res" where
  "match_old_row new_candidates new_by_sku old_row =
     (let result = find_best_match (row_candidate old_row) new_candidates in
      case mr_new_key result of
        None \<Rightarrow> bindR (old_side old_row ((blank_line DISCONTINUED ''unmatched'')\<lparr> pl_movement_type := Some Discontinued \<rparr>))
          (\<lambda>l. Inr (l, None))
      | Some key \<Rightarrow> bindR (old_side old_row (blank_line
            (if requires_human_review (mr_status result) then REVIEW_REQUIRED else MATCHED) (method_value (mr_method result)))) (\<lambda>l1.
          (case map_of new_by_sku (Some key) of None \<Rightarrow> Inl KeyError
           | Some new_row \<Rightarrow> bindR (new_side new_row l1) (\<lambda>l2.
               Inr (l2\<lparr> pl_match_confidence := Some (round_4 (mr_confidence result)),
                 pl_pack_changed := (or_empty (cell old_row ''pack_size'') \<noteq> or_empty (cell new_row ''pack_size'')) \<rparr>, Some key)))))"

definition new_product_line :: "mapped_row \<Rightarrow> review_line res" where
  "new_product_line row = new_side row ((blank_line NEW_PRODUCT ''unmatched'')\<lparr> pl_movement_type := Some New_product \<rparr>)"

definition run_matching :: "mapped_row list \<Rightarrow> mapped_row list \<Rightarrow> review_line list res" where
  "run_matching old_rows new_rows =
     (let new_by_sku = build_dict (map (\<lambda>r. (cell r ''supplier_sku'', r)) new_rows) in
      bindR (mapR (match_old_row (map row_candidate new_rows) new_by_sku) old_rows) (\<lambda>pairs.
      let matched_new_skus = map snd pairs in
      bindR (mapR (\<lambda>(sku, r). new_product_line r) (filter (\<lambda>(sku, r). sku = None \<or> sku \<notin> set matched_new_skus) new_by_sku)) (\<lambda>news.
      mapR save_line (map fst pairs @ news))))"

section \<open>Movement\<close>

definition margin_step :: "rat \<Rightarrow> rat \<Rightarrow> review_line \<Rightarrow> review_line res" where
  "margin_step cmp_old cmp_new l = (case pl_selling_price l of None \<Rightarrow> Inr l
     | Some s \<Rightarrow> bindR (calculate_gross_margin s cmp_old) (\<lambda>(_, old_margin_pct).
         bindR (calculate_gross_margin s cmp_new) (\<lambda>(_, new_margin_pct).
         let movement = dsub new_margin_pct old_margin_pct;
             l' = l\<lparr> pl_old_margin_pct := Some old_margin_pct, pl_new_margin_pct := Some new_margin_pct,
               pl_margin_movement_pct := Some movement \<rparr>
         in case pl_annual_quantity l of None \<Rightarrow> Inr l'
          | Some q \<Rightarrow> bindR (calculate_annual_impact movement q) (\<lambda>i. Inr (l'\<lparr> pl_annual_margin_impact := Some i \<rparr>)))))"

definition calculate_line_movement :: "review_line \<Rightarrow> review_line res" where
  "calculate_line_movement l =
     (if pl_match_status l \<notin> {MATCHED, REVIEW_REQUIRED} then Inr l
      else let basis = determine_comparison_basis (pl_old_norm l) (pl_new_norm l) (pl_old_unit l) (pl_new_unit l);
               l = l\<lparr> pl_basis := Some basis \<rparr>
      in if basis = Unit_mismatch
         then Inr (l\<lparr> pl_movement_type := Some Review_required, pl_absolute_change := None, pl_percentage_change := None,
           pl_risk := Some Risk_unclassified \<rparr>)
         else (case (if basis = Normalized then pl_old_norm l else pl_old_price l, if basis = Normalized then pl_new_norm l else pl_new_price l) of
           (Some cmp_old, Some cmp_new) \<Rightarrow>
             bindR (calculate_price_change cmp_old cmp_new) (\<lambda>change.
             bindR (calculate_percentage_change cmp_old cmp_new) (\<lambda>pct.
             let l1 = l\<lparr> pl_absolute_change := Some change, pl_percentage_change := pct,
                   pl_movement_type := Some (classify_movement_type True False False (pl_pack_changed l) pct),
                   pl_risk := Some (classify_risk pct) \<rparr>
             in bindR (case pl_annual_quantity l1 of None \<Rightarrow> Inr l1
                  | Some q \<Rightarrow> bindR (calculate_annual_impact change q) (\<lambda>i. Inr (l1\<lparr> pl_annual_impact := Some i \<rparr>)))
                (margin_step cmp_old cmp_new)))
         | _ \<Rightarrow> Inr l))"

section \<open>Decisions on a line\<close>

datatype match_action = Confirm | Choose_different | Mark_new | Mark_discontinued | Ignore

definition take_candidate :: "review_line \<Rightarrow> review_line \<Rightarrow> review_line" where
  "take_candidate c l = l\<lparr> pl_new_sku := pl_new_sku c, pl_new_description := pl_new_description c, pl_new_pack := pl_new_pack c,
     pl_new_price := pl_new_price c, pl_new_norm := pl_new_norm c, pl_match_status := MATCHED,
     pl_match_method := ''manual_override'' \<rparr>"

definition apply_decision :: "match_action \<Rightarrow> review_line option \<Rightarrow> review_line \<Rightarrow> review_line res" where
  "apply_decision act candidate_line l = (case act of
     Confirm \<Rightarrow> Inr (l\<lparr> pl_match_status := MATCHED \<rparr>)
   | Choose_different \<Rightarrow> (case candidate_line of
       None \<Rightarrow> Inl (ValidationFailedError ''chosen_new_line_public_id did not resolve to a line in this review'')
     | Some c \<Rightarrow> Inr (take_candidate c l))
   | Mark_new \<Rightarrow> Inr (l\<lparr> pl_match_status := NEW_PRODUCT, pl_movement_type := Some New_product \<rparr>)
   | Mark_discontinued \<Rightarrow> Inr (l\<lparr> pl_match_status := DISCONTINUED, pl_movement_type := Some Discontinued \<rparr>)
   | Ignore \<Rightarrow> Inr (l\<lparr> pl_match_status := IGNORED \<rparr>))"

definition resolve_match :: "int \<Rightarrow> match_action \<Rightarrow> review_line option \<Rightarrow> review_line \<Rightarrow> review_line res" where
  "resolve_match user act candidate_line l = bindR (apply_decision act candidate_line l) (\<lambda>l1.
     bindR (calculate_line_movement (l1\<lparr> pl_confirmed_by := Some user \<rparr>)) save_line)"

definition set_manual_quantity :: "rat \<Rightarrow> rat option \<Rightarrow> review_line \<Rightarrow> review_line res" where
  "set_manual_quantity annual_quantity selling_price l =
     (if annual_quantity \<le> 0 then Inl (ValueError ''annual_quantity must be greater than 0'')
      else let l1 = l\<lparr> pl_annual_quantity := Some annual_quantity, pl_quantity_source := Some ''manual'',
             pl_quantity_confidence := Some ''low'',
             pl_selling_price := (case selling_price of None \<Rightarrow> pl_selling_price l | Some s \<Rightarrow> Some s) \<rparr>
      in bindR (calculate_line_movement l1) save_line)"

definition set_buyer_decision :: "string \<Rightarrow> review_line \<Rightarrow> review_line res" where
  "set_buyer_decision decision l = save_line (l\<lparr> pl_buyer_decision := Some decision \<rparr>)"

definition set_negotiation_target :: "rat \<Rightarrow> review_line \<Rightarrow> review_line res" where
  "set_negotiation_target target_price l =
     bindR (case (pl_new_price l, pl_annual_quantity l) of
         (Some p, Some q) \<Rightarrow> bindR (calculate_potential_cost_avoidance p target_price q) (\<lambda>x. Inr (Some x))
       | _ \<Rightarrow> Inr (pl_potential_cost_avoidance l)) (\<lambda>x.
     save_line (l\<lparr> pl_target_price := Some target_price, pl_potential_cost_avoidance := x \<rparr>))"

definition record_negotiation_outcome :: "rat \<Rightarrow> review_line \<Rightarrow> review_line res" where
  "record_negotiation_outcome final_negotiated_price l =
     bindR (case (pl_new_price l, pl_annual_quantity l) of
         (Some p, Some q) \<Rightarrow> bindR (calculate_actual_cost_avoidance p final_negotiated_price q) (\<lambda>x. Inr (Some x))
       | _ \<Rightarrow> Inr (pl_actual_cost_avoidance l)) (\<lambda>x.
     save_line (l\<lparr> pl_final_price := Some final_negotiated_price, pl_actual_cost_avoidance := x \<rparr>))"

definition line_for_summary :: "review_line \<Rightarrow> summary_line" where
  "line_for_summary l = \<lparr> sl_movement_type = (case pl_movement_type l of Some m \<Rightarrow> m | None \<Rightarrow> Review_required),
     sl_percentage_change = pl_percentage_change l, sl_annual_impact = pl_annual_impact l,
     sl_annual_quantity = pl_annual_quantity l, sl_pack_changed = pl_pack_changed l,
     sl_requires_review = (pl_match_status l = REVIEW_REQUIRED) \<rparr>"

definition get_summary :: "review_line list \<Rightarrow> supplier_summary res" where
  "get_summary ls = summarize (map line_for_summary ls)
     (int (length (filter (\<lambda>l. pl_old_sku l \<noteq> None) ls))) (int (length (filter (\<lambda>l. pl_new_sku l \<noteq> None) ls)))"

section \<open>Lemmas\<close>

lemma line_to_scale_simps [simp]:
  "pl_old_sku (line_to_scale l) = pl_old_sku l" "pl_new_sku (line_to_scale l) = pl_new_sku l"
  "pl_old_unit (line_to_scale l) = pl_old_unit l" "pl_new_unit (line_to_scale l) = pl_new_unit l"
  "pl_match_status (line_to_scale l) = pl_match_status l" "pl_basis (line_to_scale l) = pl_basis l"
  "pl_movement_type (line_to_scale l) = pl_movement_type l" "pl_pack_changed (line_to_scale l) = pl_pack_changed l"
  "pl_quantity_confidence (line_to_scale l) = pl_quantity_confidence l" "pl_risk (line_to_scale l) = pl_risk l"
  "pl_annual_impact (line_to_scale l) = map_option (to_scale 4) (pl_annual_impact l)"
  "pl_absolute_change (line_to_scale l) = map_option (to_scale 4) (pl_absolute_change l)"
  "pl_percentage_change (line_to_scale l) = map_option (to_scale 6) (pl_percentage_change l)"
  "pl_annual_quantity (line_to_scale l) = map_option (to_scale 4) (pl_annual_quantity l)"
  "pl_annual_margin_impact (line_to_scale l) = map_option (to_scale 4) (pl_annual_margin_impact l)"
  by (simp_all add: line_to_scale_def Let_def)

lemma save_line_InrD: "save_line l = Inr l' \<Longrightarrow> l' = line_to_scale l"
  by (simp add: save_line_def split: if_splits)

lemma side_InrD:
  "old_side row l = Inr l' \<Longrightarrow> pl_old_sku l' = cell row ''supplier_sku'' \<and> pl_new_sku l' = pl_new_sku l \<and> pl_match_status l' = pl_match_status l"
  "new_side row l = Inr l' \<Longrightarrow> pl_new_sku l' = cell row ''supplier_sku'' \<and> pl_old_sku l' = pl_old_sku l \<and> pl_match_status l' = pl_match_status l"
  by (auto simp: old_side_def new_side_def res_simps)

lemma blank_line_simps [simp]: "pl_old_sku (blank_line s m) = None" "pl_new_sku (blank_line s m) = None"
  "pl_match_status (blank_line s m) = s"
  by (simp_all add: blank_line_def)

lemma match_old_row_InrD:
  assumes "match_old_row cs d row = Inr (l, k)"
  shows "pl_old_sku l = cell row ''supplier_sku''"
    and "k = None \<and> pl_new_sku l = None \<and> pl_match_status l = DISCONTINUED \<or>
      (\<exists>key r. k = Some key \<and> map_of d (Some key) = Some r \<and> pl_new_sku l = cell r ''supplier_sku'' \<and>
        pl_match_status l \<in> {MATCHED, REVIEW_REQUIRED})"
proof -
  obtain res where res: "find_best_match (row_candidate row) cs = res" by simp
  show "pl_old_sku l = cell row ''supplier_sku''"
    using assms by (auto simp: match_old_row_def res res_simps dest!: side_InrD split: option.splits)
  show "k = None \<and> pl_new_sku l = None \<and> pl_match_status l = DISCONTINUED \<or>
      (\<exists>key r. k = Some key \<and> map_of d (Some key) = Some r \<and> pl_new_sku l = cell r ''supplier_sku'' \<and>
        pl_match_status l \<in> {MATCHED, REVIEW_REQUIRED})"
    using assms by (auto simp: match_old_row_def res res_simps dest!: side_InrD split: option.splits if_splits)
qed

lemma saved_lines: "mapR save_line xs = Inr ys \<Longrightarrow> ys = map line_to_scale xs"
  unfolding mapR_eq_Inr by (induction rule: list_all2_induct) (auto dest: save_line_InrD)

section \<open>Properties\<close>

lemma minus_None: "None \<notin> D \<Longrightarrow> S \<subseteq> insert None D \<Longrightarrow> D \<subseteq> S \<Longrightarrow> S - {None} = D"
  by blast

text \<open>C35: Matching accounts for every row of both lists: the lines are the old rows in order followed by lines
  without an old side; every code of the new list appears on a line, and every code on the new side of a
  line comes from the new list; an old row without a partner is discontinued.\<close>

lemma matching_accounts_for_all:
  assumes m: "run_matching olds news = Inr lines" and sku: "\<And>r. r \<in> set news \<Longrightarrow> cell r ''supplier_sku'' \<noteq> None"
  shows "map pl_old_sku (take (length olds) lines) = map (\<lambda>r. cell r ''supplier_sku'') olds \<and>
    (\<forall>l\<in>set (drop (length olds) lines). pl_old_sku l = None \<and> pl_match_status l = NEW_PRODUCT) \<and>
    set (map pl_new_sku lines) - {None} = (\<lambda>r. cell r ''supplier_sku'') ` set news \<and>
    (\<forall>l\<in>set lines. pl_new_sku l = None \<longrightarrow> pl_match_status l = DISCONTINUED)"
proof -
  define d where "d = build_dict (map (\<lambda>r. (cell r ''supplier_sku'', r)) news)"
  obtain pairs fresh where p: "mapR (match_old_row (map row_candidate news) d) olds = Inr pairs"
    and f: "mapR (\<lambda>(sku, r). new_product_line r) (filter (\<lambda>(sku, r). sku = None \<or> sku \<notin> set (map snd pairs)) d) = Inr fresh"
    and l: "mapR save_line (map fst pairs @ fresh) = Inr lines"
    using m by (auto simp: run_matching_def Let_def d_def res_simps)
  note p2 = p [unfolded mapR_eq_Inr] and f2 = f [unfolded mapR_eq_Inr]
  have lines: "lines = map line_to_scale (map fst pairs) @ map line_to_scale fresh" using saved_lines [OF l] by simp
  have len: "length pairs = length olds" using p2 by (simp add: list_all2_lengthD)
  have keys: "fst ` set d = (\<lambda>r. cell r ''supplier_sku'') ` set news"
    unfolding d_def build_dict_keys by force
  have row: "cell r ''supplier_sku'' = s" if "map_of d s = Some r" for s r
    using build_dict_in [OF that [unfolded d_def]] by auto
  have dist: "distinct (map fst d)" by (simp add: d_def)
  have old: "k = None \<and> pl_new_sku x = None \<and> pl_match_status x = DISCONTINUED \<or>
      k \<noteq> None \<and> pl_new_sku x = k \<and> k \<in> fst ` set d" if xk: "(x, k) \<in> set pairs" for x k
  proof -
    obtain r where "match_old_row (map row_candidate news) d r = Inr (x, k)" using list_all2_left [OF p2 xk] by blast
    from match_old_row_InrD(2) [OF this] row show ?thesis by (force dest: map_of_SomeD)
  qed
  have new: "\<exists>s. s \<in> fst ` set d \<and> s \<noteq> None \<and> pl_new_sku x = s \<and> pl_old_sku x = None \<and> pl_match_status x = NEW_PRODUCT"
    if x: "x \<in> set fresh" for x
  proof -
    obtain s r where sr: "(s, r) \<in> set d" "new_product_line r = Inr x" using list_all2_left [OF f2 x] by auto
    have "map_of d s = Some r" using sr(1) dist by (simp add: map_of_is_SomeI)
    then have "cell r ''supplier_sku'' = s" by (rule row)
    moreover have "s \<in> fst ` set d" using sr(1) by force
    moreover have "s \<noteq> None" using \<open>s \<in> fst ` set d\<close> sku unfolding keys by auto
    moreover have "pl_new_sku x = cell r ''supplier_sku'' \<and> pl_old_sku x = None \<and> pl_match_status x = NEW_PRODUCT"
      using sr(2) by (auto simp: new_product_line_def dest!: side_InrD(2))
    ultimately show ?thesis by (intro exI [of _ s]) simp
  qed
  have found: "\<exists>x\<in>fst ` set pairs \<union> set fresh. pl_new_sku x = s" if s: "s \<in> fst ` set d" for s
  proof (cases "s \<in> set (map snd pairs)")
    case True
    then obtain x where x: "(x, s) \<in> set pairs" by auto
    have "s \<noteq> None" using s sku unfolding keys by auto
    then have "pl_new_sku x = s" using old [OF x] by auto
    then show ?thesis using x by force
  next
    case False
    obtain r where r: "(s, r) \<in> set d" using s by force
    then obtain x where x: "x \<in> set fresh" "new_product_line r = Inr x" using list_all2_right [OF f2, of "(s, r)"] False by auto
    have "map_of d s = Some r" using r dist by (simp add: map_of_is_SomeI)
    then show ?thesis using x row by (auto simp: new_product_line_def dest!: side_InrD(2))
  qed
  show ?thesis
  proof (intro conjI)
    have "map (\<lambda>p. pl_old_sku (fst p)) pairs = map (\<lambda>r. cell r ''supplier_sku'') olds"
    proof -
      have h: "pl_old_sku (fst p) = cell r ''supplier_sku''" if "match_old_row cs m r = Inr p" for cs m r p
        using match_old_row_InrD(1) [of cs m r "fst p" "snd p"] that by simp
      show ?thesis using p2 by (induction rule: list_all2_induct) (auto simp: h)
    qed
    then show "map pl_old_sku (take (length olds) lines) = map (\<lambda>r. cell r ''supplier_sku'') olds"
      by (simp add: lines len [symmetric] comp_def)
    show "\<forall>l\<in>set (drop (length olds) lines). pl_old_sku l = None \<and> pl_match_status l = NEW_PRODUCT"
      using new by (auto simp: lines len [symmetric])
    show "\<forall>l\<in>set lines. pl_new_sku l = None \<longrightarrow> pl_match_status l = DISCONTINUED"
      using new old by (fastforce simp: lines)
    have img: "set (map pl_new_sku lines) = pl_new_sku ` (fst ` set pairs \<union> set fresh)" by (auto simp: lines)
    have inside: "pl_new_sku x \<in> insert None (fst ` set d)" if x: "x \<in> fst ` set pairs \<union> set fresh" for x
    proof (cases "x \<in> set fresh")
      case False
      then obtain k where k: "(x, k) \<in> set pairs" using x by force
      then have "k = None \<and> pl_new_sku x = None \<or> pl_new_sku x = k \<and> k \<in> fst ` set d" using old [OF k] by blast
      then show ?thesis by (elim disjE conjE) simp_all
    qed (use new in blast)
    have none: "None \<notin> fst ` set d" unfolding keys
    proof
      assume "None \<in> (\<lambda>r. cell r ''supplier_sku'') ` set news"
      then show False by (rule imageE) (use sku in force)
    qed
    have upper: "pl_new_sku ` (fst ` set pairs \<union> set fresh) \<subseteq> insert None (fst ` set d)" using inside by (rule image_subsetI)
    have lower: "fst ` set d \<subseteq> pl_new_sku ` (fst ` set pairs \<union> set fresh)"
    proof
      fix s assume "s \<in> fst ` set d"
      from found [OF this] obtain x where "x \<in> fst ` set pairs \<union> set fresh" "pl_new_sku x = s" by (elim bexE)
      then show "s \<in> pl_new_sku ` (fst ` set pairs \<union> set fresh)" by (intro image_eqI) simp_all
    qed
    show "set (map pl_new_sku lines) - {None} = (\<lambda>r. cell r ''supplier_sku'') ` set news"
      unfolding keys [symmetric] img by (rule minus_None [OF none upper lower])
  qed
qed

text \<open>A price list that validation accepts can make matching fail: a price with a currency sign passes the
  validator, which strips the sign, but the row is staged as read and matching cannot read it; with it
  every line of the review is lost.\<close>

lemma accepted_file_breaks_matching:
  assumes "strip s \<noteq> []" "strip d \<noteq> []"
  shows "staged_rows [price_row s d (CHR ''R'' # show_nat n)] = Inr [price_row s d (CHR ''R'' # show_nat n)] \<and>
    run_matching [price_row s d (CHR ''R'' # show_nat n)] news = Inl InvalidOperation"
proof
  let ?row = "price_row s d (CHR ''R'' # show_nat n)"
  obtain r where r: "validate_price_row 1 [] ?row = Inr r"
    using validate_rand_price [OF assms, of 1 "[]" n] by blast
  have "is_valid r" using validate_price_row_valid(2) [OF r] assms
    by (simp add: price_row_ok_def parse_price_def text_or_none_def)
  then show "staged_rows [?row] = Inr [?row]"
    using r by (simp add: staged_rows_def validate_rows_def)
  have "row_price ?row = Inl InvalidOperation" by (simp add: row_price_def parse_decimal_rand)
  then have "match_old_row cs m ?row = Inl InvalidOperation" for cs m
    by (simp add: match_old_row_def old_side_def Let_def split: option.split)
  then show "run_matching [?row] news = Inl InvalidOperation" by (simp add: run_matching_def Let_def)
qed

lemma accepted_file_breaks_matching_witness:
  "run_matching [price_row ''A1'' ''Rice'' (CHR ''R'' # show_nat 12)] [price_row ''A1'' ''Rice'' ''13''] = Inl InvalidOperation"
  using accepted_file_breaks_matching [of "''A1''" "''Rice''" 12 "[price_row ''A1'' ''Rice'' ''13'']"] by (simp add: strip_def char_classes)

text \<open>Choosing another candidate keeps the unit of the discarded one: the new price per unit is compared as
  if it were per the old unit, although the units differ and the comparison should be refused.\<close>

lemma chosen_candidate_keeps_stale_unit:
  assumes r: "resolve_match user Choose_different (Some c) l = Inr l'"
    and old: "pl_old_norm l = Some x" "pl_old_unit l = Some u" and new: "pl_new_unit l = Some u"
    and cand: "pl_new_norm c = Some y" "pl_new_unit c = Some v" "u \<noteq> v"
  shows "determine_comparison_basis (pl_old_norm l) (pl_new_norm c) (pl_old_unit l) (pl_new_unit c) = Unit_mismatch \<and>
    pl_basis l' = Some Normalized \<and> pl_new_unit l' = Some u \<and>
    (\<exists>d. calculate_price_change x y = Inr d \<and> pl_absolute_change l' = Some (to_scale 4 d))"
proof -
  let ?l = "(take_candidate c l)\<lparr> pl_confirmed_by := Some user \<rparr>"
  obtain m where m: "calculate_line_movement ?l = Inr m" and l': "l' = line_to_scale m"
    using r by (auto simp: resolve_match_def apply_decision_def res_simps dest: save_line_InrD)
  have b: "determine_comparison_basis (pl_old_norm ?l) (pl_new_norm ?l) (pl_old_unit ?l) (pl_new_unit ?l) = Normalized"
    by (simp add: take_candidate_def determine_comparison_basis_def old new cand)
  have margin: "pl_basis k' = pl_basis k \<and> pl_new_unit k' = pl_new_unit k \<and> pl_absolute_change k' = pl_absolute_change k"
    if "margin_step a b k = Inr k'" for a b k k'
    using that by (auto simp: margin_step_def res_simps Let_def split: option.splits)
  have "pl_basis m = Some Normalized \<and> pl_new_unit m = Some u \<and> (\<exists>d. calculate_price_change x y = Inr d \<and> pl_absolute_change m = Some d)"
    using m b by (auto simp: calculate_line_movement_def take_candidate_def old new cand Let_def res_simps
        dest!: margin split: option.splits)
  then show ?thesis using b by (auto simp: l' determine_comparison_basis_def old new cand)
qed


definition example_review_line :: "string \<Rightarrow> rat \<Rightarrow> review_line" where
  "example_review_line u x = (blank_line MATCHED ''exact_sku'')\<lparr> pl_old_price := Some 40, pl_old_norm := Some 40,
     pl_old_unit := Some ''kg'', pl_new_price := Some x, pl_new_norm := Some x, pl_new_unit := Some u \<rparr>"

lemma chosen_candidate_keeps_stale_unit_witness:
  "\<exists>l'. resolve_match 1 Choose_different (Some ((example_review_line ''L'' 45))) (example_review_line ''kg'' 42) = Inr l' \<and>
     pl_basis l' = Some Normalized \<and> pl_absolute_change l' = Some 5"
proof -
  let ?l = "example_review_line ''kg'' 42" and ?c = "example_review_line ''L'' 45"
  have c: "calculate_price_change 40 45 = Inr 5" by (simp add: calculate_price_change_def dec_eval)
  have p: "calculate_percentage_change 40 45 = Inr (Some (1/8))" by (simp add: calculate_percentage_change_def dec_eval)
  have "on_grid 6 (1/8)" by (simp add: on_grid_def)
  note g = to_scale_grid [OF this]
  obtain m where m: "calculate_line_movement ((take_candidate ?c ?l)\<lparr> pl_confirmed_by := Some 1 \<rparr>) = Inr m"
    and "line_fits m"
    by (simp add: take_candidate_def example_review_line_def blank_line_def calculate_line_movement_def
        determine_comparison_basis_def Let_def c p margin_step_def line_fits_def column_ok_def to_scale_grid g)
  then obtain l' where l': "resolve_match 1 Choose_different (Some ?c) ?l = Inr l'"
    by (simp add: resolve_match_def apply_decision_def save_line_def)
  then show ?thesis
    using chosen_candidate_keeps_stale_unit [OF l', of 40 "''kg''" 45 "''L''"] l'
    by (simp add: example_review_line_def to_scale_grid c)
qed

text \<open>Taking a line out of the review does not take its money out: marking it new, discontinued or ignored
  leaves the annual impact of the earlier match on the line, and the summary keeps adding it up.\<close>

lemma closed_lines_keep_counting:
  assumes "resolve_match user act c l = Inr l'" "act \<in> {Mark_new, Mark_discontinued, Ignore}"
  shows "pl_match_status l' \<notin> {MATCHED, REVIEW_REQUIRED} \<and>
    sl_annual_impact (line_for_summary l') = map_option (to_scale 4) (sl_annual_impact (line_for_summary l))"
  using assms by (cases act) (auto simp: resolve_match_def apply_decision_def calculate_line_movement_def line_for_summary_def
      dest!: save_line_InrD)

lemma closed_lines_keep_counting_witness:
  "\<exists>l'. resolve_match 1 Mark_discontinued None ((example_review_line ''kg'' 42)\<lparr> pl_annual_impact := Some 2000 \<rparr>) = Inr l' \<and>
     sl_annual_impact (line_for_summary l') = Some 2000"
proof -
  let ?l = "(example_review_line ''kg'' 42)\<lparr> pl_annual_impact := Some 2000 \<rparr>"
  have "is_ok (resolve_match 1 Mark_discontinued None ?l)"
    by (simp add: resolve_match_def apply_decision_def calculate_line_movement_def example_review_line_def blank_line_def
        save_line_def line_fits_def column_ok_def to_scale_grid is_ok_def)
  then obtain l' where l': "resolve_match 1 Mark_discontinued None ?l = Inr l'" by (auto simp: is_ok_iff)
  show ?thesis using closed_lines_keep_counting [OF l'] l' by (simp add: line_for_summary_def to_scale_grid)
qed

text \<open>The margin impact is not an amount of money: it is the change of the margin percentage times the
  quantity, so when the cost rises it is negative while the cost impact of the same line is positive, and
  its size does not depend on the prices beyond their percentage.\<close>

lemma margin_impact_is_percentage:
  assumes s: "set_manual_quantity q (Some sell) l = Inr l'" and st: "pl_match_status l = MATCHED"
    and b: "determine_comparison_basis (pl_old_norm l) (pl_new_norm l) (pl_old_unit l) (pl_new_unit l) = Normalized"
    and p: "pl_old_norm l = Some x" "pl_new_norm l = Some y"
  shows "\<exists>m0 m1 g0 g1 i d c. calculate_gross_margin sell x = Inr (g0, m0) \<and> calculate_gross_margin sell y = Inr (g1, m1) \<and>
    calculate_annual_impact (dsub m1 m0) q = Inr i \<and> pl_annual_margin_impact l' = Some (to_scale 4 i) \<and>
    calculate_price_change x y = Inr d \<and> calculate_annual_impact d q = Inr c \<and> pl_annual_impact l' = Some (to_scale 4 c) \<and>
    (x \<le> y \<and> 0 < sell \<longrightarrow> i \<le> 0 \<and> 0 \<le> c)"
proof -
  note b' = b [unfolded p]
  have q: "0 < q" using s by (auto simp: set_manual_quantity_def split: if_splits)
  define l1 where "l1 = l\<lparr> pl_annual_quantity := Some q, pl_quantity_source := Some ''manual'',
    pl_quantity_confidence := Some ''low'', pl_selling_price := Some sell \<rparr>"
  obtain m where m: "calculate_line_movement l1 = Inr m" and l': "l' = line_to_scale m"
    using s q by (auto simp: set_manual_quantity_def l1_def Let_def res_simps dest: save_line_InrD)
  obtain d pc where d: "calculate_price_change x y = Inr d" and pc: "calculate_percentage_change x y = Inr pc"
    using m by (auto simp: calculate_line_movement_def l1_def st b' p Let_def res_simps)
  obtain c where c: "calculate_annual_impact d q = Inr c"
    using m by (auto simp: calculate_line_movement_def l1_def st b' p Let_def res_simps d pc)
  obtain g0 m0 where g0: "calculate_gross_margin sell x = Inr (g0, m0)"
    using m by (auto simp: calculate_line_movement_def l1_def st b' p Let_def res_simps d pc c margin_step_def)
  obtain g1 m1 where g1: "calculate_gross_margin sell y = Inr (g1, m1)"
    using m by (auto simp: calculate_line_movement_def l1_def st b' p Let_def res_simps d pc c margin_step_def g0)
  obtain i where i: "calculate_annual_impact (dsub m1 m0) q = Inr i"
    using m by (auto simp: calculate_line_movement_def l1_def st b' p Let_def res_simps d pc c margin_step_def g0 g1)
  have f: "pl_annual_margin_impact m = Some i" "pl_annual_impact m = Some c"
    using m by (auto simp: calculate_line_movement_def l1_def st b' p Let_def res_simps d pc c margin_step_def g0 g1 i)
  have sg: "i \<le> 0" "0 \<le> c" if "x \<le> y" "0 < sell"
  proof -
    have "ctx (dsub sell y / sell) \<le> ctx (dsub sell x / sell)"
      using that by (intro ctx_mono divide_right_mono) (simp_all add: dsub_def ctx_mono)
    then have "m1 \<le> m0" using pct.mono [OF gross_margin_InrD(3) [OF g1] gross_margin_InrD(3) [OF g0]] by blast
    then have "dsub m1 m0 \<le> 0" by (simp add: dsub_def)
    then show "i \<le> 0" using annual_impact_sign(2) [OF i] q by simp
    show "0 \<le> c" using annual_impact_sign(1) [OF c] price_change_sign(1) [OF d that(1)] q by simp
  qed
  show ?thesis using d c g0 g1 i f sg by (auto simp: l')
qed

lemma margin_impact_is_percentage_witness:
  "\<exists>l' i c. set_manual_quantity 1000 (Some 100) (example_review_line ''kg'' 45) = Inr l' \<and>
     pl_annual_margin_impact l' = Some i \<and> i \<le> 0 \<and> pl_annual_impact l' = Some c \<and> 0 \<le> c"
proof -
  let ?l = "example_review_line ''kg'' 45"
  have c: "calculate_price_change 40 45 = Inr 5" by (simp add: calculate_price_change_def dec_eval)
  have p: "calculate_percentage_change 40 45 = Inr (Some (1/8))" by (simp add: calculate_percentage_change_def dec_eval)
  have m: "calculate_gross_margin 100 40 = Inr (60, 3/5)" "calculate_gross_margin 100 45 = Inr (55, 11/20)"
    by (simp_all add: calculate_gross_margin_def dec_eval)
  have i: "calculate_annual_impact 5 1000 = Inr 5000" "calculate_annual_impact (dsub (11/20) (3/5)) 1000 = Inr (- 50)"
    by (simp_all add: calculate_annual_impact_def dec_eval)
  have d: "dsub (11/20) (3/5) = - (1/20)" by (simp add: dec_eval)
  have "on_grid 6 (1/8)" "on_grid 6 (3/5)" "on_grid 6 (11/20)" "on_grid 6 (- (1/20))" by (simp_all add: on_grid_def)
  note g = this [THEN to_scale_grid]
  define L where "L = ?l\<lparr> pl_annual_quantity := Some 1000, pl_quantity_source := Some ''manual'',
    pl_quantity_confidence := Some ''low'', pl_selling_price := Some 100 \<rparr>"
  have b: "determine_comparison_basis (Some 40) (Some 45) (Some ''kg'') (Some ''kg'') = Normalized"
    by (simp add: determine_comparison_basis_def)
  obtain M where M: "calculate_line_movement L = Inr M" "line_fits M"
    by (simp add: L_def example_review_line_def blank_line_def calculate_line_movement_def b Let_def c p margin_step_def m
        i [unfolded d] d line_fits_def column_ok_def to_scale_grid g)
  then obtain l' where l': "set_manual_quantity 1000 (Some 100) ?l = Inr l'"
    by (simp add: set_manual_quantity_def L_def save_line_def)
  have ?thesis if h: "pl_annual_margin_impact l' = Some (to_scale 4 (- 50))" "pl_annual_impact l' = Some (to_scale 4 5000)"
    using l' h to_scale_grid [of 4 "- 50"] to_scale_grid [of 4 5000] by (intro exI [of _ l'] exI [of _ "- 50"] exI [of _ 5000]) simp
  moreover have "pl_annual_margin_impact l' = Some (to_scale 4 (- 50)) \<and> pl_annual_impact l' = Some (to_scale 4 5000)"
  proof -
    obtain m0 m1 g0 g1 i' d' c' where h: "calculate_gross_margin 100 40 = Inr (g0, m0)" "calculate_gross_margin 100 45 = Inr (g1, m1)"
      "calculate_annual_impact (dsub m1 m0) 1000 = Inr i'" "pl_annual_margin_impact l' = Some (to_scale 4 i')"
      "calculate_price_change 40 45 = Inr d'" "calculate_annual_impact d' 1000 = Inr c'" "pl_annual_impact l' = Some (to_scale 4 c')"
      using margin_impact_is_percentage [OF l', of 40 45] by (auto simp: example_review_line_def blank_line_def b)
    have e: "m0 = 3/5" "m1 = 11/20" "d' = 5" using h(1,2,5) m c by (metis Inr_inject prod.inject)+
    then have "i' = - 50" "c' = 5000" using h(3,6) i by (metis Inr_inject)+
    then show ?thesis using h by simp
  qed
  ultimately show ?thesis by blast
qed

text \<open>A file is registered at most once per review: the checksums of a review stay distinct, and uploading a
  registered file again is refused.\<close>

lemma files_registered_once:
  assumes "register_uploaded_file files ty checksum = Inr files'" "distinct (map rf_checksum files)"
  shows "distinct (map rf_checksum files') \<and> (\<forall>ty'. register_uploaded_file files' ty' checksum =
    Inl (ConflictError ''This exact file has already been uploaded to this review''))"
  using assms by (auto simp: register_uploaded_file_def list_ex_iff split: if_splits)

lemma files_registered_once_witness:
  "register_uploaded_file [\<lparr> rf_type = ''new'', rf_checksum = ''c1'', rf_status = ''uploaded'' \<rparr>] ''previous'' ''c1'' =
     Inl (ConflictError ''This exact file has already been uploaded to this review'')"
  using files_registered_once [of "[]" "''new''" "''c1''"] by (simp add: register_uploaded_file_def)

text \<open>An example of a whole run: one product with the same code on both lists.\<close>

lemma matching_accounts_for_all_witness:
  "\<exists>lines. run_matching [price_row ''A1'' ''Rice'' (show_nat 12)] [price_row ''A1'' ''Rice'' (show_nat 15)] = Inr lines \<and>
     set (map pl_new_sku lines) - {None} = {Some ''A1''}"
proof -
  let ?old = "price_row ''A1'' ''Rice'' (show_nat 12)" and ?new = "price_row ''A1'' ''Rice'' (show_nat 15)"
  have barcode: "cell (price_row s d p) ''barcode'' = None" for s d p by (simp add: price_row_def cell_def dict_get_def)
  have k: "match_by_sku (Some ''A1'') (Some ''A1'')" by code_simp
  have s: "score_pair (row_candidate ?old) (row_candidate ?new) = (1, M_SKU)" by (simp add: score_pair_def row_candidate_def k)
  have b: "find_best_match (row_candidate ?old) [row_candidate ?new] = \<lparr> mr_old_key = ''A1'', mr_new_key = Some ''A1'',
      mr_confidence = 1, mr_method = M_SKU, mr_status = AUTO_MATCHED \<rparr>"
    by (simp add: find_best_match_def s row_key_def no_plausible_match_floor_def classify_match_def auto_match_threshold_def)
      (simp add: row_candidate_def row_key_def)
  have r1: "round_4 1 = 1" by (simp add: round_4_def round_he_def Let_def)
  obtain lines where l: "run_matching [?old] [?new] = Inr lines"
    by (simp add: run_matching_def build_dict_def match_old_row_def b requires_human_review_def old_side_def new_side_def
        row_price_def normalize_price_def r1 save_line_def line_fits_def column_ok_def to_scale_grid blank_line_def Let_def)
  show ?thesis using matching_accounts_for_all [OF l] l by simp
qed

end
