(* ===== verification/RebateCalc.thy ===== *)
theory RebateCalc
  imports Rounding PyDate Tiers
begin

text \<open>
  Rebates: \<open>app/analytics/rebate_calculations.py\<close>.  The expected rebate by type, progress to the
  next tier and the alert driven by it, leakage of a period and of the organisation, the status of
  a period, and the aggregation of transactions into a period.
\<close>

section \<open>Types\<close>

datatype entry_source = MANUAL | TRANSACTION_AGGREGATION | INVOICE_AGGREGATION

datatype rebate_type = FIXED_PERCENTAGE | TIERED | VOLUME | GROWTH | FIXED_AMOUNT | RETROSPECTIVE

datatype rebate_status = ON_TRACK | THRESHOLD_APPROACHING | PERIOD_CLOSED_AWAITING_PAYMENT
  | LEAKAGE_DETECTED | RECONCILED

record rebate_band =
  threshold_spend :: rat
  rate_pct :: rat

record transaction_aggregate =
  ta_total_spend :: rat
  ta_total_volume :: rat
  ta_transaction_count :: int

section \<open>Operations\<close>

definition rebate_tier :: "rat \<Rightarrow> rebate_band list \<Rightarrow> rebate_band option" where
  "rebate_tier actual_spend bands = best_reached threshold_spend actual_spend bands"

definition calculate_expected_rebate ::
    "rat \<Rightarrow> rebate_type \<Rightarrow> rat option \<Rightarrow> rebate_band list option \<Rightarrow> rat option \<Rightarrow> rat res" where
  "calculate_expected_rebate actual_spend ty flat_rate_pct bands fixed_amount =
     (if ty \<in> {FIXED_PERCENTAGE, VOLUME, GROWTH} then
        (case flat_rate_pct of None \<Rightarrow> Inl (ValueError ''requires flat_rate_pct'')
         | Some r \<Rightarrow> round_currency (dmul actual_spend r))
      else if ty \<in> {TIERED, RETROSPECTIVE} then
        (case bands of None \<Rightarrow> Inl (ValueError ''require at least one band'')
         | Some bs \<Rightarrow> if bs = [] then Inl (ValueError ''require at least one band'')
             else (case rebate_tier actual_spend bs of None \<Rightarrow> Inr 0
               | Some best \<Rightarrow> round_currency (dmul actual_spend (rate_pct best))))
      else (case fixed_amount of None \<Rightarrow> Inl (ValueError ''require fixed_amount'')
         | Some a \<Rightarrow> round_currency a))"

definition calculate_progress_to_next_tier ::
    "rat \<Rightarrow> rebate_band list \<Rightarrow> (rat option \<times> rat option) res" where
  "calculate_progress_to_next_tier actual_spend bands =
     (if bands = [] then Inl (ValueError ''bands must not be empty'')
      else case next_above threshold_spend actual_spend bands of
        None \<Rightarrow> Inr (None, None)
      | Some b \<Rightarrow> bindR (round_currency (dsub (threshold_spend b) actual_spend)) (\<lambda>r.
          Inr (Some (threshold_spend b), Some r)))"

definition calculate_rebate_leakage :: "rat \<Rightarrow> rat option \<Rightarrow> rat res" where
  "calculate_rebate_leakage expected_amount received_amount =
     (let received = (case received_amount of Some r \<Rightarrow> r | None \<Rightarrow> 0)
      in round_currency (dsub expected_amount received))"

definition calculate_aggregate_rebate_leakage :: "(rat \<times> rat option) list \<Rightarrow> rat res" where
  "calculate_aggregate_rebate_leakage period_pairs =
     bindR (mapR (\<lambda>(e, r). calculate_rebate_leakage e r) period_pairs) (\<lambda>ls. round_currency (dsum ls))"

definition is_threshold_alert_due_with ::
    "rat \<Rightarrow> int \<Rightarrow> rat \<Rightarrow> rebate_band list \<Rightarrow> pydate \<Rightarrow> pydate \<Rightarrow> bool res" where
  "is_threshold_alert_due_with buffer_pct buffer_days actual_spend bands today period_end =
     bindR (calculate_progress_to_next_tier actual_spend bands) (\<lambda>(next_threshold, _).
       case next_threshold of None \<Rightarrow> Inr False
       | Some t \<Rightarrow> let days_to_close = days_between period_end today in
           if days_to_close < 0 \<or> buffer_days < days_to_close then Inr False
           else Inr (dmul t buffer_pct \<le> actual_spend))"

definition is_threshold_alert_due ::
    "rat \<Rightarrow> rebate_band list \<Rightarrow> pydate \<Rightarrow> pydate \<Rightarrow> bool res" where
  "is_threshold_alert_due = is_threshold_alert_due_with (85 / 100) 30"

definition classify_rebate_status :: "rat \<Rightarrow> rat option \<Rightarrow> bool \<Rightarrow> bool \<Rightarrow> rebate_status res" where
  "classify_rebate_status expected_amount received_amount period_closed threshold_alert_due =
     (case received_amount of
        Some r \<Rightarrow> bindR (calculate_rebate_leakage expected_amount (Some r)) (\<lambda>leakage.
          Inr (if leakage \<le> 1 / 10000 then RECONCILED else LEAKAGE_DETECTED))
      | None \<Rightarrow> Inr (if period_closed then PERIOD_CLOSED_AWAITING_PAYMENT
          else if threshold_alert_due then THRESHOLD_APPROACHING else ON_TRACK))"

definition is_period_due_for_close :: "pydate \<Rightarrow> pydate \<Rightarrow> bool" where
  "is_period_due_for_close period_end today = (period_end \<le> today)"

definition aggregate_transactions_for_period ::
    "(rat \<times> rat \<times> pydate) list \<Rightarrow> pydate \<Rightarrow> pydate \<Rightarrow> transaction_aggregate res" where
  "aggregate_transactions_for_period transactions period_start period_end =
     (let in_period = filter (\<lambda>(a, q, d). period_start \<le> d \<and> d \<le> period_end) transactions;
          total_spend = dsum (map fst in_period);
          total_volume = dsum (map (fst \<circ> snd) in_period)
      in bindR (round_currency total_spend) (\<lambda>s. Inr
        \<lparr> ta_total_spend = s, ta_total_volume = total_volume,
          ta_transaction_count = int (length in_period) \<rparr>))"

section \<open>Tiers\<close>

interpretation rt: tier_selection threshold_spend rebate_tier
  unfolding rebate_tier_def [abs_def] by (rule best_reached_tier_selection)

lemma tiered_rebate:
  assumes "bs \<noteq> []" "ty = TIERED \<or> ty = RETROSPECTIVE"
  shows "calculate_expected_rebate s ty fr (Some bs) fa = (case rebate_tier s bs of None \<Rightarrow> Inr 0
    | Some best \<Rightarrow> round_currency (dmul s (rate_pct best)))"
  using assms by (auto simp: calculate_expected_rebate_def)

lemma progress_cases:
  assumes "calculate_progress_to_next_tier s bs = Inr (t, r)"
  obtains "t = None" "r = None" "\<forall>b\<in>set bs. threshold_spend b \<le> s"
  | b x where "t = Some (threshold_spend b)" "r = Some x" "b \<in> set bs" "s < threshold_spend b"
      "\<forall>c\<in>set bs. s < threshold_spend c \<longrightarrow> threshold_spend b \<le> threshold_spend c"
      "round_currency (dsub (threshold_spend b) s) = Inr x"
proof (cases "next_above threshold_spend s bs")
  case None
  then have "\<forall>b\<in>set bs. threshold_spend b \<le> s" by (simp only: next_above_None)
  then show ?thesis using assms that(1) None
    by (auto simp: calculate_progress_to_next_tier_def split: if_splits)
next
  case (Some b)
  then show ?thesis using assms that(2) [of b] next_above_SomeD [OF Some]
    by (auto simp: calculate_progress_to_next_tier_def res_simps split: if_splits)
qed

lemma leakage_amounts:
  "amount e \<Longrightarrow> amount (case r of Some x \<Rightarrow> x | None \<Rightarrow> 0) \<Longrightarrow>
     calculate_rebate_leakage e r = Inr (e - (case r of Some x \<Rightarrow> x | None \<Rightarrow> 0))"
  by (simp add: calculate_rebate_leakage_def round_diff_amounts)

lemma in_period_split:
  fixes a b c :: "'d::linorder"
  assumes "a \<le> b" "b < c"
  shows "(\<Sum>t\<leftarrow>filter (\<lambda>(x, q, d). a \<le> d \<and> d \<le> c) ts. f t) =
      (\<Sum>t\<leftarrow>filter (\<lambda>(x, q, d). a \<le> d \<and> d \<le> b) ts. f t)
      + (\<Sum>t\<leftarrow>filter (\<lambda>(x, q, d). b < d \<and> d \<le> c) ts. (f t :: 'n::comm_monoid_add))"
proof (induction ts)
  case (Cons t ts)
  obtain x q d where t: "t = (x, q, d)" by (cases t)
  have "b < d \<longleftrightarrow> \<not> d \<le> b" by (simp add: not_le)
  moreover have "d \<le> b \<Longrightarrow> d \<le> c" using assms(2) by order
  moreover have "\<not> d \<le> b \<Longrightarrow> a \<le> d" using assms(1) by order
  ultimately show ?case using Cons by (auto simp: t algebra_simps)
qed simp

section \<open>Properties\<close>

text \<open>Buying more never lowers a tiered rebate: when the rates of the bands are non-negative and do
  not fall as the thresholds rise, the expected rebate is monotone in the spend.\<close>

lemma expected_rebate_mono:
  assumes "calculate_expected_rebate s ty fr (Some bs) fa = Inr x"
    and "calculate_expected_rebate s' ty fr (Some bs) fa = Inr y"
    and "ty = TIERED \<or> ty = RETROSPECTIVE" and "0 \<le> s" "s \<le> s'"
    and rates: "\<And>b c. b \<in> set bs \<Longrightarrow> c \<in> set bs \<Longrightarrow> threshold_spend b \<le> threshold_spend c \<Longrightarrow>
      0 \<le> rate_pct b \<and> rate_pct b \<le> rate_pct c"
  shows "x \<le> y"
proof -
  have ne: "bs \<noteq> []" using assms(1,3) by (auto simp: calculate_expected_rebate_def)
  show ?thesis
  proof (cases "rebate_tier s bs")
    case None
    then have x: "x = 0" using assms(1) by (simp add: tiered_rebate [OF ne assms(3)])
    show ?thesis
    proof (cases "rebate_tier s' bs")
      case (Some c)
      then have "round_currency (dmul s' (rate_pct c)) = Inr y" using assms(2)
        by (simp add: tiered_rebate [OF ne assms(3)])
      moreover have "c \<in> set bs" using rt.select_reached [OF Some] by blast
      ultimately show ?thesis using rates [of c c] assms(4,5)
        cur.nonneg dmul_nonneg [of s' "rate_pct c"] by (simp add: x)
    qed (use assms(2) x in \<open>simp add: tiered_rebate [OF ne assms(3)]\<close>)
  next
    case (Some b)
    obtain c where c: "rebate_tier s' bs = Some c" "threshold_spend b \<le> threshold_spend c"
      using rt.mono [OF Some assms(5)] by blast
    have "b \<in> set bs" "c \<in> set bs" using rt.select_reached [OF Some] rt.select_reached [OF c(1)] by auto
    then have r: "0 \<le> rate_pct b" "rate_pct b \<le> rate_pct c" using rates c(2) by auto
    have xy: "round_currency (dmul s (rate_pct b)) = Inr x" "round_currency (dmul s' (rate_pct c)) = Inr y"
      using assms(1,2) Some c(1) by (simp_all add: tiered_rebate [OF ne assms(3)])
    have "dmul s (rate_pct b) \<le> dmul s' (rate_pct c)"
      unfolding dmul_def using r assms(4,5) by (intro ctx_mono mult_mono) auto
    with cur.mono [OF xy] show ?thesis .
  qed
qed

definition example_bands :: "rebate_band list" where
  "example_bands = [\<lparr> threshold_spend = 1000, rate_pct = 1 / 100 \<rparr>, \<lparr> threshold_spend = 5000, rate_pct = 2 / 100 \<rparr>]"

lemma expected_rebate_mono_witness:
  "\<exists>x y. calculate_expected_rebate 2000 TIERED None (Some example_bands) None = Inr x \<and>
     calculate_expected_rebate 6000 TIERED None (Some example_bands) None = Inr y \<and> x \<le> y \<and> x = 20 \<and> y = 120"
proof -
  have x: "calculate_expected_rebate 2000 TIERED None (Some example_bands) None = Inr 20"
    "calculate_expected_rebate 6000 TIERED None (Some example_bands) None = Inr 120"
    by (simp_all add: tiered_rebate rebate_tier_def best_reached_def example_bands_def dec_eval)
  have "(20::rat) \<le> 120"
    by (rule expected_rebate_mono [OF x]) (auto simp: example_bands_def)
  with x show ?thesis by blast
qed

text \<open>Progress to the next tier is exact: the amount reported is what is missing to the lowest
  threshold above the spend; spending exactly that much reaches that tier, and no spend below it
  changes the tier.\<close>

lemma progress_reaches_next_tier:
  assumes "calculate_progress_to_next_tier s bs = Inr (Some t, Some r)"
    and "amount s" "\<And>b. b \<in> set bs \<Longrightarrow> amount (threshold_spend b)"
  shows "0 < r \<and> s + r = t \<and> (\<exists>b. rebate_tier (s + r) bs = Some b \<and> threshold_spend b = t) \<and>
    (\<forall>s' b c. s \<le> s' \<longrightarrow> s' < t \<longrightarrow> rebate_tier s bs = Some b \<longrightarrow> rebate_tier s' bs = Some c \<longrightarrow>
       threshold_spend b = threshold_spend c)"
  using assms(1)
proof (cases rule: progress_cases)
  case (2 b x)
  have r: "r = threshold_spend b - s" "t = threshold_spend b"
    using 2 round_diff_amounts [of "threshold_spend b" s] assms(2,3) by simp_all
  obtain c where c: "rebate_tier t bs = Some c" using rt.reached_some [OF 2(3), of t] r by auto
  have t: "threshold_spend c = t"
    using rt.select_highest [OF c 2(3)] rt.select_reached [OF c] r by auto
  have sum: "s + r = t" and pos: "0 < r" using r 2(4) by simp_all
  have ex: "\<exists>b. rebate_tier (s + r) bs = Some b \<and> threshold_spend b = t"
    unfolding sum using c t by blast
  have "threshold_spend d = threshold_spend e"
    if h: "s \<le> s'" "s' < t" "rebate_tier s bs = Some d" "rebate_tier s' bs = Some e" for s' d e
  proof (rule rt.same_threshold_within_tier [OF h(3,4,1)])
    show "\<forall>c\<in>set bs. s < threshold_spend c \<longrightarrow> s' < threshold_spend c"
      using 2(5) h(2) unfolding r(2) by (meson less_le_trans)
  qed
  then have "\<forall>s' d e. s \<le> s' \<longrightarrow> s' < t \<longrightarrow> rebate_tier s bs = Some d \<longrightarrow>
      rebate_tier s' bs = Some e \<longrightarrow> threshold_spend d = threshold_spend e" by blast
  then show ?thesis by (intro conjI pos sum ex)
qed simp

lemma progress_reaches_next_tier_witness:
  "calculate_progress_to_next_tier 2000 example_bands = Inr (Some 5000, Some 3000) \<and> (2000::rat) + 3000 = 5000"
proof -
  have p: "calculate_progress_to_next_tier 2000 example_bands = Inr (Some 5000, Some 3000)"
    by (simp add: calculate_progress_to_next_tier_def next_above_def example_bands_def dec_eval)
  have "amount 2000" "\<And>b. b \<in> set example_bands \<Longrightarrow> amount (threshold_spend b)"
    by (auto simp: amount_def example_bands_def)
  from progress_reaches_next_tier [OF p this] p show ?thesis by blast
qed

text \<open>The leakage of the organisation is the expected total less the received total: no period is
  lost, an over-payment offsets, and nothing is rounded away.\<close>

lemma aggregate_leakage_total:
  assumes amounts: "\<And>e r. (e, r) \<in> set ps \<Longrightarrow> amount e \<and> (\<forall>x. r = Some x \<longrightarrow> amount x)"
    and small: "sum_bound (map fst ps) + sum_bound (List.map_filter snd ps) < 10 ^ 22"
  shows "calculate_aggregate_rebate_leakage ps =
    Inr (sum_list (map fst ps) - sum_list (List.map_filter snd ps))"
proof -
  define rec :: "rat option \<Rightarrow> rat" where "rec r = (case r of Some x \<Rightarrow> x | None \<Rightarrow> 0)" for r
  define ls where "ls = map (\<lambda>(e, r). e - rec r) ps"
  have a: "amount e" "amount (rec r)" if "(e, r) \<in> set ps" for e r
    using amounts [OF that] by (auto simp: rec_def split: option.split)
  have "mapR (\<lambda>(e, r). calculate_rebate_leakage e r) ps = Inr ls"
    unfolding ls_def using a by (intro mapR_Inr) (auto simp: leakage_amounts rec_def)
  moreover have grid: "on_grid 4 x" if "x \<in> set ls" for x
    using that a by (auto simp: ls_def amount_def grid_intros)
  have sums: "sum_list ls = sum_list (map fst ps) - sum_list (List.map_filter snd ps) \<and>
      sum_bound ls \<le> sum_bound (map fst ps) + sum_bound (List.map_filter snd ps)"
    unfolding ls_def rec_def sum_bound_def
    by (induction ps) (auto simp: List.map_filter_simps split: option.split)
  then have small': "sum_bound ls < 10 ^ 22" using small by linarith
  have "dsum ls = sum_list ls"
    by (rule dsum_exact [OF grid]) (use small' in \<open>simp_all add: prec_def\<close>)
  moreover have "fits 4 (sum_list ls)"
  proof -
    have "\<bar>sum_list ls\<bar> \<le> sum_bound ls" unfolding sum_bound_def by (rule sum_list_abs)
    then show ?thesis using small' grid by (simp add: fits_def prec_def grid_intros)
  qed
  ultimately show ?thesis
    by (simp add: calculate_aggregate_rebate_leakage_def cur.fits_exact sums)
qed

lemma aggregate_leakage_total_witness:
  "calculate_aggregate_rebate_leakage [(100, Some 120), (50, None)] = Inr 30"
proof -
  let ?ps = "[(100, Some 120), (50, None)] :: (rat \<times> rat option) list"
  have "calculate_aggregate_rebate_leakage ?ps =
    Inr (sum_list (map fst ?ps) - sum_list (List.map_filter snd ?ps))"
    by (rule aggregate_leakage_total) (auto simp: amount_def sum_bound_def List.map_filter_simps)
  then show ?thesis by (simp add: List.map_filter_simps)
qed

text \<open>The threshold alert fires exactly when a tier is still unreached, the spend has come to 85\%
  of the lowest such threshold, and the period ends within the next 30 days, today included.\<close>

lemma threshold_alert_iff:
  assumes "bs \<noteq> []" and am: "amount s" "\<And>b. b \<in> set bs \<Longrightarrow> amount (threshold_spend b)"
    and dates: "valid_date today" "valid_date period_end"
  shows "is_threshold_alert_due s bs today period_end = Inr
    ((\<exists>b\<in>set bs. s < threshold_spend b \<and>
        (\<forall>c\<in>set bs. s < threshold_spend c \<longrightarrow> threshold_spend b \<le> threshold_spend c) \<and>
        85 / 100 * threshold_spend b \<le> s) \<and>
     today \<le> period_end \<and> days_between period_end today \<le> 30)"
proof (cases "next_above threshold_spend s bs")
  case None
  then have "calculate_progress_to_next_tier s bs = Inr (None, None)"
    using assms(1) by (simp add: calculate_progress_to_next_tier_def)
  moreover have "\<not> (\<exists>b\<in>set bs. s < threshold_spend b)"
    using None by (auto simp: next_above_None not_less)
  ultimately show ?thesis by (auto simp: is_threshold_alert_due_def is_threshold_alert_due_with_def)
next
  case (Some b)
  note b = next_above_SomeD [OF Some]
  have p: "calculate_progress_to_next_tier s bs = Inr (Some (threshold_spend b), Some (threshold_spend b - s))"
    using assms(1) am b(1) Some by (simp add: calculate_progress_to_next_tier_def round_diff_amounts)
  have "on_grid 6 (threshold_spend b * (17 / 20))" "\<bar>threshold_spend b\<bar> < 10 ^ 14"
    using on_grid_mult [of 4 "threshold_spend b" 2 "17 / 20"] am(2) [OF b(1)]
    by (simp_all add: amount_def on_grid_def [of 2])
  then have m: "dmul (threshold_spend b) (17 / 20) = 17 / 20 * threshold_spend b"
    by (subst dmul_exact [of 6]) (simp_all add: fits_def prec_def abs_mult)
  have e: "(\<exists>c\<in>set bs. s < threshold_spend c \<and>
        (\<forall>d\<in>set bs. s < threshold_spend d \<longrightarrow> threshold_spend c \<le> threshold_spend d) \<and>
        85 / 100 * threshold_spend c \<le> s) \<longleftrightarrow> 85 / 100 * threshold_spend b \<le> s"
    using b by (metis order_antisym)
  show ?thesis unfolding e using days_between_nonneg [OF dates(2,1)]
    by (auto simp: is_threshold_alert_due_def is_threshold_alert_due_with_def p m Let_def)
qed

lemma threshold_alert_iff_witness:
  "is_threshold_alert_due 4500 example_bands (PyDate 2026 6 10) (PyDate 2026 6 30) = Inr True"
proof -
  have d: "valid_date (PyDate 2026 6 10)" "valid_date (PyDate 2026 6 30)"
    "days_between (PyDate 2026 6 30) (PyDate 2026 6 10) = 20" by code_simp+
  have a: "example_bands \<noteq> []" "amount 4500" "\<And>b. b \<in> set example_bands \<Longrightarrow> amount (threshold_spend b)"
    by (auto simp: amount_def example_bands_def)
  show ?thesis
    using threshold_alert_iff [OF a d(1,2)] by (simp add: d(3) example_bands_def less_eq_pydate_def)
qed

text \<open>A received payment settles a period exactly when it falls short by at most one unit of the
  last stored place; in particular every over-payment, however large, is classified as reconciled,
  and without a payment the classification follows closing before alerting.\<close>

lemma rebate_status_cases:
  assumes "amount e" "\<And>r. received = Some r \<Longrightarrow> amount r"
  shows "classify_rebate_status e received is_closed alert = Inr (case received of
      Some r \<Rightarrow> if e \<le> r + 1 / 10000 then RECONCILED else LEAKAGE_DETECTED
    | None \<Rightarrow> if is_closed then PERIOD_CLOSED_AWAITING_PAYMENT
        else if alert then THRESHOLD_APPROACHING else ON_TRACK)"
  using assms by (auto simp: classify_rebate_status_def leakage_amounts algebra_simps split: option.split)

lemma rebate_status_cases_witness:
  "classify_rebate_status 100 (Some 1000000) False False = Inr RECONCILED"
  using rebate_status_cases [of 100 "Some 1000000" False False] by (simp add: amount_def)

text \<open>Aggregating transactions over adjoining periods loses and double-counts nothing: the
  totals and the count of a period are the sums of those of its two parts.\<close>

lemma period_aggregation_additive:
  assumes "aggregate_transactions_for_period ts a c = Inr whole" "a \<le> b" "b < c"
    and ts: "\<And>x q d. (x, q, d) \<in> set ts \<Longrightarrow> on_grid 4 x \<and> on_grid 4 q"
    and small: "sum_bound (map fst ts) < 10 ^ 22" "sum_bound (map (fst \<circ> snd) ts) < 10 ^ 22"
  shows "ta_total_spend whole = (\<Sum>(x, q, d)\<leftarrow>filter (\<lambda>(x, q, d). a \<le> d \<and> d \<le> b) ts. x)
      + (\<Sum>(x, q, d)\<leftarrow>filter (\<lambda>(x, q, d). b < d \<and> d \<le> c) ts. x) \<and>
    ta_total_volume whole = (\<Sum>(x, q, d)\<leftarrow>filter (\<lambda>(x, q, d). a \<le> d \<and> d \<le> b) ts. q)
      + (\<Sum>(x, q, d)\<leftarrow>filter (\<lambda>(x, q, d). b < d \<and> d \<le> c) ts. q) \<and>
    ta_transaction_count whole = int (length (filter (\<lambda>(x, q, d). a \<le> d \<and> d \<le> b) ts))
      + int (length (filter (\<lambda>(x, q, d). b < d \<and> d \<le> c) ts))"
proof -
  define ys where "ys = filter (\<lambda>(x, q, d). a \<le> d \<and> d \<le> c) ts"
  have grid: "on_grid 4 x" if "x \<in> set (map fst ys) \<or> x \<in> set (map (fst \<circ> snd) ys)" for x
    using that ts by (auto simp: ys_def)
  have le: "sum_bound (map f ys) \<le> sum_bound (map f ts)" for f
    unfolding ys_def sum_bound_def by (induction ts) auto
  have d: "dsum (map fst ys) = sum_list (map fst ys)" "dsum (map (fst \<circ> snd) ys) = sum_list (map (fst \<circ> snd) ys)"
    using le_less_trans [OF le small(1)] le_less_trans [OF le small(2)] grid
    by (auto intro!: dsum_exact [of _ 4] simp: prec_def simp del: map_map)
  have "\<bar>sum_list (map fst ys)\<bar> \<le> sum_bound (map fst ys)" unfolding sum_bound_def by (rule sum_list_abs)
  moreover have "on_grid 4 (sum_list (map fst ys))" using grid by (blast intro: on_grid_sum_list)
  ultimately have "fits 4 (sum_list (map fst ys))"
    using le_less_trans [OF le small(1)] by (simp add: fits_def prec_def)
  then have w: "ta_total_spend whole = sum_list (map fst ys)" "ta_total_volume whole = sum_list (map (fst \<circ> snd) ys)"
    "ta_transaction_count whole = int (length ys)"
    using assms(1) by (auto simp: aggregate_transactions_for_period_def Let_def ys_def [symmetric]
        res_simps d cur.fits_exact)
  show ?thesis
    using in_period_split [OF assms(2,3), of fst ts] in_period_split [OF assms(2,3), of "fst \<circ> snd" ts]
      in_period_split [OF assms(2,3), of "\<lambda>_. 1 :: nat" ts]
    by (simp add: w ys_def sum_list_triv case_prod_unfold comp_def)
qed

lemma period_aggregation_additive_witness:
  "\<exists>w. aggregate_transactions_for_period [(10, 1, PyDate 2026 1 5), (20, 2, PyDate 2026 2 5)]
      (PyDate 2026 1 1) (PyDate 2026 2 28) = Inr w \<and> ta_total_spend w = 10 + 20"
proof -
  let ?ts = "[(10, 1, PyDate 2026 1 5), (20, 2, PyDate 2026 2 5)] :: (rat \<times> rat \<times> pydate) list"
  obtain w where w: "aggregate_transactions_for_period ?ts (PyDate 2026 1 1) (PyDate 2026 2 28) = Inr w"
    by (simp add: aggregate_transactions_for_period_def less_eq_pydate_def dsum_def dec_eval)
  have g: "on_grid 4 x \<and> on_grid 4 q" if "(x, q, d) \<in> set ?ts" for x q d using that by auto
  have "ta_total_spend w = 10 + 20"
    using period_aggregation_additive [OF w, of "PyDate 2026 1 31", OF _ _ g]
    by (simp add: less_eq_pydate_def less_pydate_def sum_bound_def)
  with w show ?thesis by blast
qed

end
