(* ===== verification/EvidenceState.thy ===== *)
theory EvidenceState
  imports RebateCalc ManagementAccounting
begin

text \<open>
  The evidence state of the three governed amounts.  The append-only event log and the constraints
  the database enforces when a transaction commits are those of migrations
  \<open>alembic/versions/0021_financial_amount_status_events.py\<close> and
  \<open>0024_p03_parent_final_state_triggers.py\<close>; the two writers are
  \<open>rebate_service._write_expected_amount_event\<close> and
  \<open>opportunity_service._write_opportunity_measure_event\<close>.

  One measure of one parent row is a \<open>cell\<close>: the snapshot columns and the pointer to the current
  event.  A snapshot has every column any measure has; columns a measure's table lacks are
  \<open>None\<close> (\<open>row_view\<close>).  Closed vocabularies the database checks are datatypes.  Timestamps are
  integers.  Columns no constraint reads (actor, change reference, public ids) are left out.
\<close>

section \<open>Vocabulary and rows\<close>

datatype measure = Expected_amount | Annual_financial_impact | Realised_savings

datatype ev_status = Unknown | Not_applicable | Legacy_unverified | Estimated | Calculated | Confirmed

datatype source_basis = Manual_estimate | Contract_terms_calculation | Supplier_statement | Credit_note
  | Price_review_calculation | Actual_cost_data_calculation | Reconciled_actuals

datatype reason_code = Initial_backfill | By_manual_estimate | Recalculation | Evidence_received
  | Correction | Evidence_withdrawn | Source_data_restated

datatype evidence_type = Ev_invoice | Ev_credit_note | Ev_supplier_statement | Ev_gl_posting
  | Ev_documented_baseline | Ev_actual_cost_source | Ev_variance_calculation_reference | Ev_supporting_document

datatype parent = Rpa int | Opp int

record snap =
  s_amount :: "rat option"
  s_status :: ev_status
  s_basis :: "source_basis option"
  s_calculated_at :: "int option"
  s_approved_at :: "int option"
  s_approved_by :: "int option"
  s_start :: "pydate option"
  s_end :: "pydate option"

definition plain_snap :: "rat option \<Rightarrow> ev_status \<Rightarrow> snap" where
  "plain_snap a st = \<lparr> s_amount = a, s_status = st, s_basis = None, s_calculated_at = None,
     s_approved_at = None, s_approved_by = None, s_start = None, s_end = None \<rparr>"

record cell =
  c_snap :: snap
  c_event :: "int option"

record event =
  ev_id :: int
  ev_org :: int
  ev_parent :: parent
  ev_measure :: measure
  ev_version :: int
  ev_old :: "snap option"
  ev_new :: snap
  ev_reason :: reason_code

record rpa =
  rp_org :: int
  rp_agreement :: int
  rp_period_start :: pydate
  rp_period_end :: pydate
  rp_actual_spend :: "rat option"
  rp_actual_volume :: "rat option"
  rp_entry_source :: entry_source
  rp_earned :: "rat option"
  rp_received :: "rat option"
  rp_status :: rebate_status
  rp_expected :: cell

record opp =
  op_org :: int
  op_savings_type :: "string option"
  op_status :: string
  op_approved_by :: "int option"
  op_afi :: cell
  op_rs :: cell

record ledger =
  events :: "event list"
  evidence :: "(int \<times> evidence_type) list"
  rpas :: "(int, rpa) pydict"
  opps :: "(int, opp) pydict"

section \<open>Constraints checked by the database\<close>

fun ev_tier :: "ev_status \<Rightarrow> int" where
  "ev_tier Unknown = 0"
| "ev_tier Not_applicable = 0"
| "ev_tier Legacy_unverified = 1"
| "ev_tier Estimated = 2"
| "ev_tier Calculated = 3"
| "ev_tier Confirmed = 4"

definition no_provenance :: "snap \<Rightarrow> bool" where
  "no_provenance s = (s_basis s = None \<and> s_calculated_at s = None \<and> s_approved_at s = None \<and> s_approved_by s = None)"

definition no_period :: "snap \<Rightarrow> bool" where
  "no_period s = (s_start s = None \<and> s_end s = None)"

definition full_period :: "snap \<Rightarrow> bool" where
  "full_period s = (case (s_start s, s_end s) of (Some a, Some b) \<Rightarrow> a \<le> b | _ \<Rightarrow> False)"

text \<open>\<open>ck_famev_state_combination\<close> of the event table; on the columns a parent row has, the same as
  \<open>ck_rpa_expected_amount_state_combination\<close>, \<open>ck_opp_afi_state_combination\<close> and
  \<open>ck_opp_rs_state_combination\<close>.\<close>

fun state_combination :: "measure \<Rightarrow> snap \<Rightarrow> bool" where
  "state_combination Expected_amount s = (case s_status s of
     Unknown \<Rightarrow> s_amount s = None \<and> no_provenance s
   | Not_applicable \<Rightarrow> s_amount s = None \<and> no_provenance s
   | Legacy_unverified \<Rightarrow> s_amount s \<noteq> None \<and> no_provenance s
   | Estimated \<Rightarrow> s_amount s \<noteq> None \<and> s_basis s = Some Manual_estimate \<and> s_calculated_at s = None \<and>
       s_approved_at s = None \<and> s_approved_by s = None
   | Calculated \<Rightarrow> s_amount s \<noteq> None \<and> s_basis s = Some Contract_terms_calculation \<and>
       s_calculated_at s \<noteq> None \<and> s_approved_at s = None \<and> s_approved_by s = None
   | Confirmed \<Rightarrow> s_amount s \<noteq> None \<and>
       (s_basis s = Some Supplier_statement \<or> s_basis s = Some Credit_note) \<and> s_calculated_at s = None \<and>
       s_approved_at s \<noteq> None \<and> s_approved_by s \<noteq> None)"
| "state_combination Annual_financial_impact s = (s_approved_at s = None \<and> s_approved_by s = None \<and>
     s_end s = None \<and> (case s_status s of
     Unknown \<Rightarrow> s_amount s = None \<and> no_provenance s \<and> s_start s = None
   | Not_applicable \<Rightarrow> s_amount s = None \<and> no_provenance s \<and> s_start s = None
   | Legacy_unverified \<Rightarrow> s_amount s \<noteq> None \<and> no_provenance s \<and> s_start s = None
   | Estimated \<Rightarrow> s_amount s \<noteq> None \<and> s_basis s = Some Manual_estimate \<and> s_calculated_at s = None \<and>
       s_start s \<noteq> None
   | Calculated \<Rightarrow> s_amount s \<noteq> None \<and> s_basis s = Some Price_review_calculation \<and>
       s_calculated_at s \<noteq> None \<and> s_start s \<noteq> None
   | Confirmed \<Rightarrow> False))"
| "state_combination Realised_savings s = (case s_status s of
     Unknown \<Rightarrow> s_amount s = None \<and> no_provenance s \<and> no_period s
   | Not_applicable \<Rightarrow> s_amount s = None \<and> no_provenance s \<and> no_period s
   | Legacy_unverified \<Rightarrow> s_amount s \<noteq> None \<and> no_provenance s \<and> no_period s
   | Estimated \<Rightarrow> False
   | Calculated \<Rightarrow> s_amount s \<noteq> None \<and> s_basis s = Some Actual_cost_data_calculation \<and>
       s_calculated_at s \<noteq> None \<and> s_approved_at s = None \<and> s_approved_by s = None \<and> full_period s
   | Confirmed \<Rightarrow> s_amount s \<noteq> None \<and> s_basis s = Some Reconciled_actuals \<and> s_calculated_at s = None \<and>
       s_approved_at s \<noteq> None \<and> s_approved_by s \<noteq> None \<and> full_period s)"

fun row_view :: "measure \<Rightarrow> snap \<Rightarrow> snap" where
  "row_view Expected_amount s = s\<lparr> s_start := None, s_end := None \<rparr>"
| "row_view Annual_financial_impact s = s\<lparr> s_approved_at := None, s_approved_by := None, s_end := None \<rparr>"
| "row_view Realised_savings s = s"

fun parent_measure :: "parent \<Rightarrow> measure \<Rightarrow> bool" where
  "parent_measure (Rpa i) m = (m = Expected_amount)"
| "parent_measure (Opp i) m = (m = Annual_financial_impact \<or> m = Realised_savings)"

fun parent_exists :: "ledger \<Rightarrow> parent \<Rightarrow> bool" where
  "parent_exists db (Rpa i) = (map_of (rpas db) i \<noteq> None)"
| "parent_exists db (Opp i) = (map_of (opps db) i \<noteq> None)"

definition has_evidence :: "ledger \<Rightarrow> int \<Rightarrow> evidence_type \<Rightarrow> bool" where
  "has_evidence db i t = ((i, t) \<in> set (evidence db))"

definition check_confirmed_event_has_sufficient_evidence :: "ledger \<Rightarrow> event \<Rightarrow> bool" where
  "check_confirmed_event_has_sufficient_evidence db e =
     (if s_status (ev_new e) \<noteq> Confirmed then True
      else if ev_measure e = Realised_savings \<and> s_basis (ev_new e) = Some Reconciled_actuals
      then has_evidence db (ev_id e) Ev_documented_baseline \<and> has_evidence db (ev_id e) Ev_actual_cost_source \<and>
        has_evidence db (ev_id e) Ev_variance_calculation_reference
      else if ev_measure e = Expected_amount
      then has_evidence db (ev_id e) Ev_supplier_statement \<or> has_evidence db (ev_id e) Ev_credit_note
      else True)"

definition correction_reason :: "reason_code \<Rightarrow> bool" where
  "correction_reason r = (r = Correction \<or> r = Evidence_withdrawn \<or> r = Source_data_restated)"

definition same_chain :: "parent \<Rightarrow> measure \<Rightarrow> event \<Rightarrow> bool" where
  "same_chain p m e = (ev_parent e = p \<and> ev_measure e = m)"

definition check_event_chain_integrity :: "ledger \<Rightarrow> event \<Rightarrow> bool" where
  "check_event_chain_integrity db e = (ev_version e = 1 \<or>
     (case find (\<lambda>p. same_chain (ev_parent e) (ev_measure e) p \<and> ev_version p = ev_version e - 1) (events db) of
        None \<Rightarrow> False
      | Some prev \<Rightarrow> ev_old e = Some (ev_new prev) \<and>
          (ev_tier (s_status (ev_new e)) < ev_tier (s_status (ev_new prev)) \<longrightarrow> correction_reason (ev_reason e))))"

definition event_ok :: "ledger \<Rightarrow> event \<Rightarrow> bool" where
  "event_ok db e = (parent_measure (ev_parent e) (ev_measure e) \<and> parent_exists db (ev_parent e) \<and>
     0 < ev_version e \<and> (ev_version e = 1 \<longrightarrow> ev_old e = None) \<and>
     state_combination (ev_measure e) (ev_new e) \<and>
     check_confirmed_event_has_sufficient_evidence db e \<and> check_event_chain_integrity db e)"

text \<open>The parent-row triggers: \<open>check_rpa_expected_amount_matches_event\<close> and its two siblings.\<close>

definition check_matches_event :: "ledger \<Rightarrow> int \<Rightarrow> parent \<Rightarrow> measure \<Rightarrow> cell \<Rightarrow> bool" where
  "check_matches_event db org p m c = (case c_event c of None \<Rightarrow> False
     | Some i \<Rightarrow> (case find (\<lambda>e. ev_id e = i) (events db) of None \<Rightarrow> False
        | Some e \<Rightarrow> ev_org e = org \<and> ev_parent e = p \<and> ev_measure e = m \<and>
            row_view m (ev_new e) = c_snap c \<and>
            list_all (\<lambda>e'. same_chain p m e' \<longrightarrow> ev_version e' \<le> ev_version e) (events db)))"

definition cell_ok :: "ledger \<Rightarrow> int \<Rightarrow> parent \<Rightarrow> measure \<Rightarrow> cell \<Rightarrow> bool" where
  "cell_ok db org p m c = (check_matches_event db org p m c \<and> state_combination m (c_snap c))"

definition events_ok :: "ledger \<Rightarrow> bool" where
  "events_ok db = (list_all (event_ok db) (events db) \<and> distinct (map ev_id (events db)) \<and>
     distinct (map (\<lambda>e. (ev_parent e, ev_measure e, ev_version e)) (events db)))"

definition rpa_ok :: "ledger \<Rightarrow> int \<times> rpa \<Rightarrow> bool" where
  "rpa_ok db r = cell_ok db (rp_org (snd r)) (Rpa (fst r)) Expected_amount (rp_expected (snd r))"

definition opp_ok :: "ledger \<Rightarrow> int \<times> opp \<Rightarrow> bool" where
  "opp_ok db o' = (cell_ok db (op_org (snd o')) (Opp (fst o')) Annual_financial_impact (op_afi (snd o')) \<and>
     cell_ok db (op_org (snd o')) (Opp (fst o')) Realised_savings (op_rs (snd o')))"

definition db_ok :: "ledger \<Rightarrow> bool" where
  "db_ok db = (events_ok db \<and> distinct (map fst (rpas db)) \<and> distinct (map fst (opps db)) \<and>
     list_all (rpa_ok db) (rpas db) \<and> list_all (opp_ok db) (opps db))"

definition commit :: "ledger \<Rightarrow> ledger res" where
  "commit db = (if db_ok db then Inr db else Inl (IntegrityError ''constraint violated at commit''))"

section \<open>The writers\<close>

definition max_version :: "ledger \<Rightarrow> parent \<Rightarrow> measure \<Rightarrow> int" where
  "max_version db p m = foldr max (map ev_version (filter (same_chain p m) (events db))) 0"

definition next_event_id :: "ledger \<Rightarrow> int" where
  "next_event_id db = foldr max (map ev_id (events db)) 0 + 1"

definition append_event :: "ledger \<Rightarrow> int \<Rightarrow> parent \<Rightarrow> measure \<Rightarrow> snap \<Rightarrow> snap \<Rightarrow> reason_code \<Rightarrow> ledger \<times> int" where
  "append_event db org p m row new reason =
     (let next_version = max_version db p m + 1; is_genesis = (next_version = 1); i = next_event_id db
      in (db\<lparr> events := events db @ [\<lparr> ev_id = i, ev_org = org, ev_parent = p, ev_measure = m,
            ev_version = next_version, ev_old = (if is_genesis then None else Some row),
            ev_new = new, ev_reason = reason \<rparr>] \<rparr>, i))"

definition write_expected_amount_event :: "ledger \<Rightarrow> int \<Rightarrow> snap \<Rightarrow> reason_code \<Rightarrow> ledger res" where
  "write_expected_amount_event db rid new reason = (case map_of (rpas db) rid of
     None \<Rightarrow> Inl (NotFoundError ''rebate_period_actual'')
   | Some r \<Rightarrow>
       let n = row_view Expected_amount new;
           (db', i) = append_event db (rp_org r) (Rpa rid) Expected_amount
             (row_view Expected_amount (c_snap (rp_expected r))) n reason
       in Inr (db'\<lparr> rpas := AList.update rid (r\<lparr> rp_expected := \<lparr> c_snap = n, c_event = Some i \<rparr> \<rparr>) (rpas db') \<rparr>))"

definition measure_cell :: "measure \<Rightarrow> opp \<Rightarrow> cell" where
  "measure_cell m o' = (if m = Annual_financial_impact then op_afi o' else op_rs o')"

definition set_measure_cell :: "measure \<Rightarrow> cell \<Rightarrow> opp \<Rightarrow> opp" where
  "set_measure_cell m c o' = (if m = Annual_financial_impact then o'\<lparr> op_afi := c \<rparr> else o'\<lparr> op_rs := c \<rparr>)"

definition write_opportunity_measure_event ::
    "ledger \<Rightarrow> int \<Rightarrow> measure \<Rightarrow> snap \<Rightarrow> reason_code \<Rightarrow> (ledger \<times> int) res" where
  "write_opportunity_measure_event db oid m new reason = (case map_of (opps db) oid of
     None \<Rightarrow> Inl (NotFoundError ''opportunity'')
   | Some o' \<Rightarrow>
       if m = Expected_amount then Inl (ValueError ''does not support measure_code'')
       else let (db', i) = append_event db (op_org o') (Opp oid) m
                (row_view m (c_snap (measure_cell m o'))) new reason
            in Inr (db'\<lparr> opps := AList.update oid
                (set_measure_cell m \<lparr> c_snap = row_view m new, c_event = Some i \<rparr> o') (opps db') \<rparr>, i))"

section \<open>Lemmas: appending to the log\<close>

lemma find_append: "find P (xs @ ys) = (case find P xs of None \<Rightarrow> find P ys | Some x \<Rightarrow> Some x)"
  by (induction xs) auto

lemma find_SomeD: "find P xs = Some x \<Longrightarrow> x \<in> set xs \<and> P x"
  by (induction xs) (auto split: if_splits)

lemma find_NoneD: "find P xs = None \<Longrightarrow> x \<in> set xs \<Longrightarrow> \<not> P x"
  by (induction xs) (auto split: if_splits)

lemma foldr_max_ge: "x \<in> set xs \<Longrightarrow> x \<le> foldr max xs (0::int)"
  by (induction xs) auto

lemma foldr_max_0: "0 \<le> foldr max xs (0::int)"
  by (induction xs) auto

lemma foldr_max_in: "foldr max xs (0::int) \<in> insert 0 (set xs)"
  by (induction xs) (auto simp: max_def)

lemma row_view_idem [simp]: "row_view m (row_view m s) = row_view m s"
  by (cases m) auto

lemma row_view_status [simp]: "s_status (row_view m s) = s_status s" "s_amount (row_view m s) = s_amount s"
  by (cases m; simp)+

lemma state_combination_row: "state_combination m s \<Longrightarrow> state_combination m (row_view m s)"
  by (cases m) (simp_all add: no_provenance_def split: ev_status.splits)

lemma max_version_ge: "e \<in> set (events db) \<Longrightarrow> same_chain p m e \<Longrightarrow> ev_version e \<le> max_version db p m"
  unfolding max_version_def by (rule foldr_max_ge) auto

lemma next_event_id_fresh: "next_event_id db \<notin> ev_id ` set (events db)"
  using foldr_max_ge [of _ "map ev_id (events db)"] by (force simp: next_event_id_def)

definition normal_events :: "ledger \<Rightarrow> bool" where
  "normal_events db = list_all (\<lambda>e. row_view (ev_measure e) (ev_new e) = ev_new e) (events db)"

definition base_ok :: "ledger \<Rightarrow> bool" where
  "base_ok db = (events_ok db \<and> normal_events db)"

lemma event_okD:
  assumes "events_ok db" "e \<in> set (events db)"
  shows "event_ok db e" using assms by (simp add: events_ok_def list_all_iff)

lemma chain_unique:
  assumes "events_ok db" "e \<in> set (events db)" "e' \<in> set (events db)" "ev_parent e = ev_parent e'"
    "ev_measure e = ev_measure e'" "ev_version e = ev_version e'"
  shows "e = e'"
  using assms by (auto simp: events_ok_def distinct_map inj_on_def)

text \<open>An event stays acceptable when the log, the evidence and the parents grow.\<close>

lemma event_ok_grow:
  assumes "event_ok db e" and "events db' = events db @ es" and "set (evidence db) \<subseteq> set (evidence db')"
    and "\<And>p. parent_exists db p \<Longrightarrow> parent_exists db' p"
  shows "event_ok db' e"
proof -
  have "check_event_chain_integrity db e \<Longrightarrow> check_event_chain_integrity db' e"
    by (auto simp: check_event_chain_integrity_def assms(2) find_append split: option.splits)
  moreover have "check_confirmed_event_has_sufficient_evidence db e \<Longrightarrow>
      check_confirmed_event_has_sufficient_evidence db' e"
    using assms(3) by (auto simp: check_confirmed_event_has_sufficient_evidence_def has_evidence_def split: if_splits)
  ultimately show ?thesis using assms(1,4) by (simp add: event_ok_def)
qed

lemma cell_ok_events:
  assumes "events db = events db'"
  shows "cell_ok db org p m c = cell_ok db' org p m c"
  unfolding cell_ok_def check_matches_event_def assms ..

lemma cell_okD:
  assumes "cell_ok db org p m c"
  obtains e where "e \<in> set (events db)" "c_event c = Some (ev_id e)" "ev_org e = org" "same_chain p m e"
    "row_view m (ev_new e) = c_snap c" "state_combination m (c_snap c)"
    "\<And>e'. e' \<in> set (events db) \<Longrightarrow> same_chain p m e' \<Longrightarrow> ev_version e' \<le> ev_version e"
  using assms by (auto simp: cell_ok_def check_matches_event_def same_chain_def list_all_iff
      dest!: find_SomeD split: option.splits)

lemma cell_ok_other:
  assumes "cell_ok db org p m c" "events db' = events db @ [e]" "\<not> same_chain p m e"
  shows "cell_ok db' org p m c"
  using assms by (auto simp: cell_ok_def check_matches_event_def find_append split: option.splits)

lemma cell_ok_max:
  assumes "cell_ok db org p m c" "events_ok db"
  obtains e where "e \<in> set (events db)" "same_chain p m e" "ev_version e = max_version db p m"
    "row_view m (ev_new e) = c_snap c" "0 < max_version db p m"
proof -
  obtain e where e: "e \<in> set (events db)" "same_chain p m e" "row_view m (ev_new e) = c_snap c"
    "\<And>e'. e' \<in> set (events db) \<Longrightarrow> same_chain p m e' \<Longrightarrow> ev_version e' \<le> ev_version e"
    using cell_okD [OF assms(1)] by metis
  have pos: "0 < ev_version e" using event_okD [OF assms(2) e(1)] by (simp add: event_ok_def)
  have "max_version db p m \<in> insert 0 (ev_version ` {e \<in> set (events db). same_chain p m e})"
    using foldr_max_in [of "map ev_version (filter (same_chain p m) (events db))"] by (simp add: max_version_def)
  then have "max_version db p m \<le> ev_version e" using e(4) pos by auto
  then have "ev_version e = max_version db p m" using max_version_ge [OF e(1,2)] by simp
  then show ?thesis using that e pos by simp
qed

text \<open>
  The central lemma: appending a well-formed event with its evidence keeps the log acceptable and
  makes the written cell match it, provided the row it replaces was current (or the chain is new)
  and a downgrade carries a correction reason.
\<close>

definition chain_free :: "ledger \<Rightarrow> parent \<Rightarrow> measure \<Rightarrow> bool" where
  "chain_free db p m = list_all (\<lambda>e. \<not> same_chain p m e) (events db)"

definition may_append :: "ledger \<Rightarrow> int \<Rightarrow> parent \<Rightarrow> measure \<Rightarrow> snap \<Rightarrow> snap \<Rightarrow> reason_code \<Rightarrow> bool" where
  "may_append db org p m row new reason = (chain_free db p m \<or>
     ((\<exists>c. cell_ok db org p m c \<and> c_snap c = row) \<and>
      (ev_tier (s_status new) < ev_tier (s_status row) \<longrightarrow> correction_reason reason)))"

lemma chain_free_version: "chain_free db p m \<Longrightarrow> max_version db p m = 0"
  by (simp add: chain_free_def max_version_def list_all_iff filter_empty_conv [THEN iffD2])

lemma append_event_ok:
  assumes b: "base_ok db" and a: "append_event db org p m row new reason = (db', i)"
    and p: "parent_measure p m" "parent_exists db p"
    and n: "state_combination m new" "row_view m new = new" and row: "row_view m row = row"
    and may: "may_append db org p m row new reason"
    and evs: "\<And>e. ev_id e = i \<Longrightarrow> ev_measure e = m \<Longrightarrow> ev_new e = new \<Longrightarrow>
        check_confirmed_event_has_sufficient_evidence (db'\<lparr> evidence := evidence db @ es \<rparr>) e"
  shows "base_ok (db'\<lparr> evidence := evidence db @ es \<rparr>)"
    and "cell_ok db' org p m \<lparr> c_snap = new, c_event = Some i \<rparr>"
    and "\<exists>e. events db' = events db @ [e] \<and> same_chain p m e \<and> rpas db' = rpas db \<and> opps db' = opps db \<and> evidence db' = evidence db"
proof -
  define v where "v = max_version db p m + 1"
  define e where "e = \<lparr> ev_id = i, ev_org = org, ev_parent = p, ev_measure = m, ev_version = v,
    ev_old = (if v = 1 then None else Some row), ev_new = new, ev_reason = reason \<rparr>"
  have i: "i = next_event_id db" and d: "db' = db\<lparr> events := events db @ [e] \<rparr>"
    using a by (auto simp: append_event_def Let_def e_def v_def)
  have e_simps: "ev_id e = i" "ev_org e = org" "ev_parent e = p" "ev_measure e = m" "ev_version e = v"
    "ev_new e = new" "ev_reason e = reason" by (simp_all add: e_def)
  let ?d = "db'\<lparr> evidence := evidence db @ es \<rparr>"
  have evd: "events ?d = events db @ [e]" by (simp add: d)
  have eo: "events_ok db" and no: "normal_events db" using b by (simp_all add: base_ok_def)
  have v0: "0 < v" using foldr_max_0 by (simp add: v_def max_version_def)
  have chain: "check_event_chain_integrity ?d e"
  proof (cases "v = 1")
    case False
    then have "\<not> chain_free db p m" using chain_free_version by (auto simp: v_def)
    then obtain c where c: "cell_ok db org p m c" "c_snap c = row"
      and dg: "ev_tier (s_status new) < ev_tier (s_status row) \<Longrightarrow> correction_reason reason"
      using may by (auto simp: may_append_def)
    obtain e0 where e0: "e0 \<in> set (events db)" "same_chain p m e0" "ev_version e0 = max_version db p m"
      "row_view m (ev_new e0) = c_snap c" using cell_ok_max [OF c(1) eo] by blast
    have "row_view m (ev_new e0) = ev_new e0"
      using no e0(1,2) by (auto simp: normal_events_def list_all_iff same_chain_def)
    then have ne: "ev_new e0 = row" using e0(4) c(2) by simp
    let ?P = "\<lambda>q. same_chain p m q \<and> ev_version q = v - 1"
    obtain q where q: "find ?P (events db) = Some q"
      using find_NoneD [of ?P "events db" e0] e0 by (cases "find ?P (events db)") (auto simp: v_def)
    have "q = e0" using find_SomeD [OF q] e0 by (intro chain_unique [OF eo]) (auto simp: same_chain_def v_def)
    with q have "find ?P (events ?d) = Some e0" by (simp add: evd find_append)
    then show ?thesis using False dg
      by (simp add: check_event_chain_integrity_def e_simps ne) (simp add: e_def)
  qed (simp add: check_event_chain_integrity_def e_def)
  have "parent_exists ?d x = parent_exists db x" for x by (cases x) (simp_all add: d)
  then have "event_ok ?d e"
    using p n(1) evs [OF e_simps(1,4,6)] chain v0 by (simp add: event_ok_def e_simps) (simp add: e_def)
  moreover have "event_ok ?d x" if "x \<in> set (events db)" for x
  proof (rule event_ok_grow [OF event_okD [OF eo that] evd])
    show "parent_exists ?d y" if "parent_exists db y" for y using that by (cases y) (simp_all add: d)
  qed simp
  moreover have "i \<notin> ev_id ` set (events db)" unfolding i by (rule next_event_id_fresh)
  moreover have new: "ev_version x < v" if "x \<in> set (events db)" "same_chain p m x" for x
    using max_version_ge [OF that] by (simp add: v_def)
  ultimately have "events_ok ?d" using eo unfolding events_ok_def evd
    by (auto simp: list_all_iff e_simps same_chain_def)
  moreover have "normal_events ?d" using no n(2) by (simp add: normal_events_def evd e_simps)
  ultimately show "base_ok ?d" by (simp add: base_ok_def)
  have "find (\<lambda>x. ev_id x = i) (events db) = None"
    unfolding i find_None_iff using next_event_id_fresh [of db] by (metis image_eqI)
  then have "find (\<lambda>x. ev_id x = i) (events db') = Some e" by (simp add: d find_append e_simps)
  moreover have "ev_version x \<le> v" if "x \<in> set (events db')" "same_chain p m x" for x
    using that new by (auto simp: d e_simps dest: less_imp_le)
  ultimately show "cell_ok db' org p m \<lparr> c_snap = new, c_event = Some i \<rparr>"
    using n by (auto simp: cell_ok_def check_matches_event_def e_simps list_all_iff)
  show "\<exists>e. events db' = events db @ [e] \<and> same_chain p m e \<and> rpas db' = rpas db \<and> opps db' = opps db \<and> evidence db' = evidence db"
    by (rule exI [of _ e]) (simp add: d e_simps same_chain_def)
qed

end
