(* ===== verification/EvidenceWriters.thy ===== *)
theory EvidenceWriters
  imports EvidenceState
begin

text \<open>
  The interface between the event log and the services that write it.  Locale \<open>measure_writer\<close> states
  what a writer of one governed measure does (append one event, point the parent row at it, touch
  nothing else); the consequences for the constraints checked at commit are proved once inside it and
  hold for the three writers by interpretation: \<open>xw\<close> (expected rebate), \<open>aw\<close> (annual financial
  impact) and \<open>sw\<close> (realised savings).
\<close>

section \<open>Databases that would commit, up to some pending cells\<close>

definition cells :: "ledger \<Rightarrow> (int \<times> parent \<times> measure \<times> cell) list" where
  "cells db = map (\<lambda>(i, r). (rp_org r, Rpa i, Expected_amount, rp_expected r)) (rpas db)
    @ map (\<lambda>(i, r). (op_org r, Opp i, Annual_financial_impact, op_afi r)) (opps db)
    @ map (\<lambda>(i, r). (op_org r, Opp i, Realised_savings, op_rs r)) (opps db)"

definition keys_ok :: "ledger \<Rightarrow> bool" where
  "keys_ok db = (distinct (map fst (rpas db)) \<and> distinct (map fst (opps db)))"

definition consistent_but :: "ledger \<Rightarrow> (parent \<times> measure) set \<Rightarrow> bool" where
  "consistent_but db Q = (base_ok db \<and> keys_ok db \<and>
     (\<forall>(org, p, m, c)\<in>set (cells db). (p, m) \<notin> Q \<longrightarrow> cell_ok db org p m c))"

definition ready :: "ledger \<Rightarrow> bool" where
  "ready db = (db_ok db \<and> normal_events db)"

lemma all_cells_db_ok:
  "db_ok db = (events_ok db \<and> keys_ok db \<and> (\<forall>(org, p, m, c)\<in>set (cells db). cell_ok db org p m c))"
  unfolding db_ok_def cells_def keys_ok_def rpa_ok_def opp_ok_def list_all_iff by fastforce

lemma ready_consistent: "ready db = consistent_but db {}"
  unfolding ready_def consistent_but_def base_ok_def all_cells_db_ok by auto

lemma ready_commit: "ready db \<Longrightarrow> commit db = Inr db"
  by (simp add: ready_def commit_def)

lemma commit_eq_Inr: "commit db = Inr db' \<longleftrightarrow> db' = db \<and> db_ok db"
  by (auto simp: commit_def)

lemma commit_eq_Inl: "commit db = Inl x \<longleftrightarrow> x = IntegrityError ''constraint violated at commit'' \<and> \<not> db_ok db"
  by (auto simp: commit_def)

lemma consistent_butI:
  assumes "base_ok db" "keys_ok db"
    and "\<And>org p m c. (org, p, m, c) \<in> set (cells db) \<Longrightarrow> (p, m) \<notin> Q \<Longrightarrow> cell_ok db org p m c"
  shows "consistent_but db Q"
  using assms by (auto simp: consistent_but_def)

lemma consistent_butD:
  "consistent_but db Q \<Longrightarrow> base_ok db"
  "consistent_but db Q \<Longrightarrow> keys_ok db"
  "consistent_but db Q \<Longrightarrow> (org, p, m, c) \<in> set (cells db) \<Longrightarrow> (p, m) \<notin> Q \<Longrightarrow> cell_ok db org p m c"
  by (auto simp: consistent_but_def)

text \<open>The constraints read only the log, the evidence and which parents exist.\<close>

lemma event_ok_same:
  assumes "events d' = events d" "evidence d' = evidence d" "\<And>p. parent_exists d' p = parent_exists d p"
  shows "event_ok d' e = event_ok d e"
  unfolding event_ok_def check_event_chain_integrity_def check_confirmed_event_has_sufficient_evidence_def
    has_evidence_def assms ..

lemma base_ok_same:
  assumes "events d' = events d" "evidence d' = evidence d" "\<And>p. parent_exists d' p = parent_exists d p"
  shows "base_ok d' = base_ok d"
  unfolding base_ok_def events_ok_def normal_events_def event_ok_same [OF assms, abs_def] assms(1) ..

lemma cell_rows:
  "(org, p, m, c) \<in> set (cells db) \<Longrightarrow> parent_measure p m"
  by (auto simp: cells_def)

lemma cell_parent:
  "(org, p, m, c) \<in> set (cells db) \<Longrightarrow> parent_exists db p"
  by (auto simp: cells_def map_of_eq_None_iff) (metis fst_conv image_eqI)+

definition fresh_id :: "(int, 'v) pydict \<Rightarrow> int" where
  "fresh_id d = foldr max (map fst d) 0 + 1"

lemma fresh_id_notin: "fresh_id d \<notin> fst ` set d"
  using foldr_max_ge [of _ "map fst d"] by (force simp: fresh_id_def)

text \<open>New rows, and changes that keep every cell, leave a database consistent up to the new cells.\<close>

lemma consistent_grow:
  assumes q: "consistent_but d Q" and e: "events d' = events d" "evidence d' = evidence d"
    and p: "\<And>p. parent_exists d p \<Longrightarrow> parent_exists d' p" and k: "keys_ok d'"
    and c: "\<And>org p m x. (org, p, m, x) \<in> set (cells d') \<Longrightarrow> (org, p, m, x) \<in> set (cells d) \<or> (p, m) \<in> Q'"
    and sub: "Q \<subseteq> Q'"
  shows "consistent_but d' Q'"
proof (rule consistent_butI [OF _ k])
  note b = consistent_butD(1) [OF q]
  have "event_ok d' x" if "x \<in> set (events d)" for x
    by (rule event_ok_grow [OF event_okD [OF _ that], of _ "[]"]) (use b p in \<open>simp_all add: base_ok_def e\<close>)
  then show "base_ok d'" using b by (auto simp: base_ok_def events_ok_def normal_events_def list_all_iff e)
  show "cell_ok d' org p m x" if "(org, p, m, x) \<in> set (cells d')" "(p, m) \<notin> Q'" for org p m x
    unfolding cell_ok_events [OF e(1)] using consistent_butD(3) [OF q] that c sub by blast
qed

lemma consistent_same:
  assumes "consistent_but d Q" "events d' = events d" "evidence d' = evidence d"
    and "\<And>p. parent_exists d' p = parent_exists d p" "keys_ok d'" "set (cells d') \<subseteq> set (cells d)"
  shows "consistent_but d' Q"
  using assms(4,6) by (intro consistent_grow [OF assms(1,2,3) _ assms(5)]) auto

lemma new_parent_chain_free:
  assumes "consistent_but d Q" "\<not> parent_exists d p"
  shows "chain_free d p m"
proof -
  have "ev_parent e \<noteq> p" if "e \<in> set (events d)" for e
    using event_okD [OF _ that] consistent_butD(1) [OF assms(1)] assms(2)
    by (auto simp: event_ok_def base_ok_def)
  then show ?thesis by (simp add: chain_free_def list_all_iff same_chain_def)
qed

section \<open>The contract of a writer\<close>

locale measure_writer =
  fixes par :: "int \<Rightarrow> parent" and msr :: measure
    and get :: "ledger \<Rightarrow> int \<Rightarrow> (int \<times> cell) option"
    and put :: "ledger \<Rightarrow> int \<Rightarrow> cell \<Rightarrow> ledger"
    and wr :: "ledger \<Rightarrow> int \<Rightarrow> snap \<Rightarrow> reason_code \<Rightarrow> ledger res"
  assumes wr_missing: "get db k = None \<Longrightarrow> \<exists>e. wr db k n r = Inl (NotFoundError e)"
    and wr_found: "get db k = Some (org, c) \<Longrightarrow> row_view msr n = n \<Longrightarrow>
      append_event db org (par k) msr (row_view msr (c_snap c)) n r = (d, i) \<Longrightarrow>
      wr db k n r = Inr (put d k \<lparr> c_snap = n, c_event = Some i \<rparr>)"
    and get_events: "get (db\<lparr> events := es \<rparr>) k = get db k"
    and get_cell: "keys_ok db \<Longrightarrow> get db k = Some (org, c) \<longleftrightarrow> (org, par k, msr, c) \<in> set (cells db)"
    and put_get: "get db k = Some (org, c) \<Longrightarrow> get (put db k c') k \<noteq> None"
    and put_events: "events (put db k c) = events db" "evidence (put db k c) = evidence db"
    and put_parents: "get db k \<noteq> None \<Longrightarrow> parent_exists (put db k c) p = parent_exists db p"
    and put_keys: "keys_ok db \<Longrightarrow> keys_ok (put db k c)"
    and put_cells: "keys_ok db \<Longrightarrow> get db k = Some (org, c0) \<Longrightarrow>
      set (cells (put db k c)) \<subseteq>
        insert (org, par k, msr, c) {x \<in> set (cells db). (fst (snd x), fst (snd (snd x))) \<noteq> (par k, msr)}"
begin

lemma put_cellsD:
  assumes "keys_ok db" "get db k = Some (org, c0)" "(o', p, m, c') \<in> set (cells (put db k c))"
  shows "o' = org \<and> p = par k \<and> m = msr \<and> c' = c \<or> (o', p, m, c') \<in> set (cells db) \<and> (p, m) \<noteq> (par k, msr)"
  using subsetD [OF put_cells [OF assms(1,2)] assms(3)] by simp

lemma get_put:
  assumes "keys_ok db" "get db k = Some (org, c0)" "get (put db k c) k = Some (org', c')"
  shows "org' = org \<and> c' = c"
  using put_cellsD [OF assms(1,2), of org' "par k" msr c' c] assms(3)
    get_cell [OF put_keys [OF assms(1)], of k c k org' c'] by blast

text \<open>A legitimate write, with its evidence, discharges the written cell and breaks no other.\<close>

lemma write_consistent:
  assumes q: "consistent_but db Q" and g: "get db k = Some (org, c)" and n: "row_view msr n = n" "state_combination msr n"
    and row: "row_view msr (c_snap c) = c_snap c"
    and may: "may_append db org (par k) msr (c_snap c) n r"
    and evs: "\<And>e db'. ev_id e = next_event_id db \<Longrightarrow> ev_measure e = msr \<Longrightarrow> ev_new e = n \<Longrightarrow>
        check_confirmed_event_has_sufficient_evidence (db'\<lparr> evidence := evidence db @ es \<rparr>) e"
  shows "\<exists>db'. wr db k n r = Inr db' \<and> consistent_but (db'\<lparr> evidence := evidence db @ es \<rparr>) (Q - {(par k, msr)})"
proof -
  obtain d i where a: "append_event db org (par k) msr (c_snap c) n r = (d, i)" by fastforce
  have i: "i = next_event_id db" using a by (auto simp: append_event_def Let_def)
  note k = consistent_butD(2) [OF q]
  have cell: "(org, par k, msr, c) \<in> set (cells db)" using g k get_cell by blast
  let ?c = "\<lparr> c_snap = n, c_event = Some i \<rparr>"
  note ap = append_event_ok [OF consistent_butD(1) [OF q] a cell_rows [OF cell] cell_parent [OF cell] n(2,1) row may,
      of es, OF evs [folded i]]
  obtain e where d: "events d = events db @ [e]" "same_chain (par k) msr e" "rpas d = rpas db" "opps d = opps db"
    "evidence d = evidence db" using ap(3) by blast
  have de: "d = db\<lparr> events := events db @ [e] \<rparr>" using d by simp
  have gd: "get d k = Some (org, c)" unfolding de get_events by (rule g)
  have kd: "keys_ok d" and cd: "cells d = cells db" using k d(3,4) by (simp_all add: keys_ok_def cells_def)
  let ?d = "put d k ?c" and ?e = "(put d k ?c)\<lparr> evidence := evidence db @ es \<rparr>"
  have ev: "events ?e = events d" "keys_ok ?e" "cells ?e = cells ?d"
    using put_keys [OF kd] put_events(1) by (simp_all add: keys_ok_def cells_def)
  have "parent_exists ?e p = parent_exists ?d p" for p by (cases p) simp_all
  then have pe: "parent_exists ?e p = parent_exists d p" for p
    by (simp add: put_parents gd)
  have b: "base_ok ?e"
  proof (subst base_ok_same)
    show "parent_exists ?e p = parent_exists (d\<lparr> evidence := evidence db @ es \<rparr>) p" for p
      unfolding pe by (cases p) simp_all
    show "base_ok (d\<lparr> evidence := evidence db @ es \<rparr>)" by (rule ap(1))
  qed (simp_all add: put_events)
  have cok: "cell_ok ?e org' p m c'"
    if x: "(org', p, m, c') \<in> set (cells ?e)" "(p, m) \<notin> Q - {(par k, msr)}" for org' p m c'
  proof (cases "(p, m) = (par k, msr)")
    case True
    then have pm: "p = par k" "m = msr" by simp_all
    then have oc: "org' = org" "c' = ?c" using put_cellsD [OF kd gd x(1) [unfolded ev(3)]] by blast+
    show ?thesis unfolding cell_ok_events [OF ev(1)] pm oc by (rule ap(2))
  next
    case False
    then have "(org', p, m, c') \<in> set (cells db)"
      using put_cellsD [OF kd gd x(1) [unfolded ev(3)]] unfolding cd by blast
    then have "cell_ok db org' p m c'" using consistent_butD(3) [OF q] x(2) False by auto
    then have "cell_ok d org' p m c'" using False d(2) by (intro cell_ok_other [OF _ d(1)]) (auto simp: same_chain_def)
    then show ?thesis unfolding cell_ok_events [OF ev(1)] .
  qed
  have "wr db k n r = Inr ?d" by (rule wr_found [OF g n(1)]) (simp add: row a)
  then show ?thesis by (intro exI [of _ ?d] conjI consistent_butI [OF b ev(2) cok])
qed

lemma written_event:
  assumes q: "consistent_but db Q" and g: "get db k = Some (org, c)" and n: "row_view msr n = n"
    and row: "row_view msr (c_snap c) = c_snap c" and w: "wr db k n r = Inr db'"
  obtains e where "events db' = events db @ [e]" "evidence db' = evidence db" "ev_id e = next_event_id db"
    "same_chain (par k) msr e" "ev_version e = max_version db (par k) msr + 1" "ev_new e = n" "ev_reason e = r"
    "ev_old e = (if ev_version e = 1 then None else Some (c_snap c))"
    "get db' k = Some (org, \<lparr> c_snap = n, c_event = Some (ev_id e) \<rparr>)"
proof -
  obtain d i where a: "append_event db org (par k) msr (c_snap c) n r = (d, i)" by fastforce
  let ?c = "\<lparr> c_snap = n, c_event = Some i \<rparr>"
  have db': "db' = put d k ?c" using wr_found [OF g n, of r d i] a w by (simp add: row)
  have gd: "get d k = Some (org, c)" and kd: "keys_ok d"
    using a g get_events consistent_butD(2) [OF q] by (auto simp: append_event_def Let_def keys_ok_def)
  obtain o' c' where gp: "get (put d k ?c) k = Some (o', c')" using put_get [OF gd, of ?c] by fastforce
  have "get db' k = Some (org, ?c)" using gp get_put [OF kd gd gp] db' by simp
  with a show ?thesis
    by (intro that [of "last (events d)"]) (auto simp: db' put_events append_event_def Let_def same_chain_def)
qed

text \<open>A committed write never lowers the tier unless it gives a correction reason.\<close>

lemma committed_no_silent_downgrade:
  assumes q: "ready db" and g: "get db k = Some (org, c)" and n: "row_view msr n = n"
    and w: "wr db k n r = Inr db'" and ok: "db_ok db'"
  shows "ev_tier (s_status (c_snap c)) \<le> ev_tier (s_status n) \<or> correction_reason r"
proof -
  have q': "consistent_but db {}" using q by (simp add: ready_consistent)
  have b: "base_ok db" and k: "keys_ok db" using consistent_butD(1,2) [OF q'] by simp_all
  have cell: "cell_ok db org (par k) msr c"
    using consistent_butD(3) [OF q'] g get_cell [OF k] by blast
  obtain e0 where e0: "e0 \<in> set (events db)" "same_chain (par k) msr e0" "ev_version e0 = max_version db (par k) msr"
    "row_view msr (ev_new e0) = c_snap c" "0 < max_version db (par k) msr"
    using cell_ok_max [OF cell] b by (auto simp: base_ok_def)
  have row: "row_view msr (c_snap c) = c_snap c" by (simp flip: e0(4))
  have ne: "ev_new e0 = c_snap c" using b e0(1,2,4) by (auto simp: base_ok_def normal_events_def list_all_iff same_chain_def)
  obtain e where e: "events db' = events db @ [e]" "same_chain (par k) msr e"
    "ev_version e = max_version db (par k) msr + 1" "ev_new e = n" "ev_reason e = r"
    using written_event [OF q' g n row w] by metis
  have ev: "events_ok db'" using ok by (simp add: db_ok_def)
  then have "check_event_chain_integrity db' e" using event_okD [OF ev, of e] e(1) by (simp add: event_ok_def)
  then obtain p where p: "find (\<lambda>p. same_chain (ev_parent e) (ev_measure e) p \<and> ev_version p = ev_version e - 1) (events db') = Some p"
    and t: "ev_tier (s_status (ev_new e)) < ev_tier (s_status (ev_new p)) \<longrightarrow> correction_reason (ev_reason e)"
    using e(3) e0(5) by (auto simp: check_event_chain_integrity_def split: option.splits)
  have "p = e0" using find_SomeD [OF p] e0(1,2,3) e(1,2,3)
    by (intro chain_unique [OF ev]) (auto simp: same_chain_def)
  then show ?thesis using t e(4,5) ne by auto
qed

text \<open>The snapshot cannot be changed behind the log's back.\<close>

lemma bypass_rejected:
  assumes q: "ready db" and g: "get db k = Some (org, c)" and s: "c_snap c' \<noteq> c_snap c" "c_event c' = c_event c"
  shows "\<not> db_ok (put db k c')"
proof
  assume ok: "db_ok (put db k c')"
  have q': "consistent_but db {}" using q by (simp add: ready_consistent)
  have k: "keys_ok db" using consistent_butD(2) [OF q'] .
  obtain o' c2 where gp: "get (put db k c') k = Some (o', c2)" using put_get [OF g, of c'] by fastforce
  have "(org, par k, msr, c') \<in> set (cells (put db k c'))"
    using gp get_put [OF k g gp] get_cell [OF put_keys [OF k]] by simp
  then have "cell_ok (put db k c') org (par k) msr c'" using ok by (auto simp: all_cells_db_ok)
  then have a: "check_matches_event db org (par k) msr c'"
    unfolding cell_ok_events [OF put_events(1)] by (simp add: cell_ok_def)
  have "check_matches_event db org (par k) msr c"
    using consistent_butD(3) [OF q'] g get_cell [OF k] by (auto simp: cell_ok_def)
  then show False using a s by (auto simp: check_matches_event_def split: option.splits)
qed

text \<open>A confirmation whose event carries no evidence is not accepted where evidence is demanded.\<close>

lemma unsupported_confirmation_rejected:
  assumes q: "ready db" and g: "get db k = Some (org, c)" and n: "row_view msr n = n"
    and w: "wr db k n r = Inr db'" and s: "s_status n = Confirmed"
    and none: "\<And>t. (next_event_id db, t) \<notin> set (evidence db)"
    and m: "msr = Expected_amount \<or> msr = Realised_savings \<and> s_basis n = Some Reconciled_actuals"
  shows "\<not> db_ok db'"
proof
  assume ok: "db_ok db'"
  have q': "consistent_but db {}" using q by (simp add: ready_consistent)
  have "cell_ok db org (par k) msr c" using consistent_butD(2,3) [OF q'] g get_cell by blast
  then have row: "row_view msr (c_snap c) = c_snap c" by (elim cell_okD) (metis row_view_idem)
  obtain e where e: "events db' = events db @ [e]" "evidence db' = evidence db" "ev_id e = next_event_id db"
    "same_chain (par k) msr e" "ev_new e = n" using written_event [OF q' g n row w] by metis
  have "event_ok db' e" using ok e(1) by (auto simp: db_ok_def events_ok_def)
  then show False using m s none
    by (auto simp: event_ok_def check_confirmed_event_has_sufficient_evidence_def has_evidence_def e(2,3,5)
        e(4) [unfolded same_chain_def] split: if_splits)
qed

end

section \<open>The three writers\<close>

definition expected_get :: "ledger \<Rightarrow> int \<Rightarrow> (int \<times> cell) option" where
  "expected_get db k = map_option (\<lambda>r. (rp_org r, rp_expected r)) (map_of (rpas db) k)"

definition expected_put :: "ledger \<Rightarrow> int \<Rightarrow> cell \<Rightarrow> ledger" where
  "expected_put db k c = (case map_of (rpas db) k of None \<Rightarrow> db
     | Some r \<Rightarrow> db\<lparr> rpas := AList.update k (r\<lparr> rp_expected := c \<rparr>) (rpas db) \<rparr>)"

definition measure_get :: "measure \<Rightarrow> ledger \<Rightarrow> int \<Rightarrow> (int \<times> cell) option" where
  "measure_get m db k = map_option (\<lambda>r. (op_org r, measure_cell m r)) (map_of (opps db) k)"

definition measure_put :: "measure \<Rightarrow> ledger \<Rightarrow> int \<Rightarrow> cell \<Rightarrow> ledger" where
  "measure_put m db k c = (case map_of (opps db) k of None \<Rightarrow> db
     | Some r \<Rightarrow> db\<lparr> opps := AList.update k (set_measure_cell m c r) (opps db) \<rparr>)"

definition measure_write :: "measure \<Rightarrow> ledger \<Rightarrow> int \<Rightarrow> snap \<Rightarrow> reason_code \<Rightarrow> ledger res" where
  "measure_write m db k n r = bindR (write_opportunity_measure_event db k m n r) (\<lambda>(d, i). Inr d)"

lemma set_update:
  "distinct (map fst xs) \<Longrightarrow> set (AList.update k v xs) = insert (k, v) {x \<in> set xs. fst x \<noteq> k}"
  by (induction xs) (auto simp: image_iff)

lemma measure_cell_set [simp]:
  "measure_cell m (set_measure_cell m c r) = c" "op_org (set_measure_cell m c r) = op_org r"
  "m = Annual_financial_impact \<Longrightarrow> op_afi (set_measure_cell m c r) = c \<and> op_rs (set_measure_cell m c r) = op_rs r"
  "m = Realised_savings \<Longrightarrow> op_rs (set_measure_cell m c r) = c \<and> op_afi (set_measure_cell m c r) = op_afi r"
  by (simp_all add: measure_cell_def set_measure_cell_def)

lemma row_in:
  "distinct (map fst xs) \<Longrightarrow> map_of xs k = Some r \<longleftrightarrow> (k, r) \<in> set xs"
  by (metis map_of_SomeD map_of_is_SomeI)

lemma expected_put_cells:
  assumes "keys_ok db" "map_of (rpas db) k = Some r"
  shows "set (cells (expected_put db k c)) \<subseteq> insert (rp_org r, Rpa k, Expected_amount, c)
    {x \<in> set (cells db). (fst (snd x), fst (snd (snd x))) \<noteq> (Rpa k, Expected_amount)}"
  using assms by (auto simp: cells_def expected_put_def keys_ok_def set_update)

lemma measure_put_cells:
  assumes "keys_ok db" "map_of (opps db) k = Some r" "m = Annual_financial_impact \<or> m = Realised_savings"
  shows "set (cells (measure_put m db k c)) \<subseteq> insert (op_org r, Opp k, m, c)
    {x \<in> set (cells db). (fst (snd x), fst (snd (snd x))) \<noteq> (Opp k, m)}"
proof -
  have r: "(k, r) \<in> set (opps db)" using assms(2) by (rule map_of_SomeD)
  show ?thesis using assms(1,3) r
    by (auto simp: cells_def measure_put_def keys_ok_def set_update assms(2))
qed

interpretation xw: measure_writer Rpa Expected_amount expected_get expected_put write_expected_amount_event
proof (unfold_locales, goal_cases)
  case 2
  then show ?case by (auto simp: expected_get_def expected_put_def write_expected_amount_event_def
      append_event_def Let_def split: option.splits)
next
  case (4 db k org c)
  then show ?case by (auto simp: expected_get_def cells_def keys_ok_def row_in)
next
  case (10 db k org c0 c)
  then show ?case using expected_put_cells [of db k _ c] by (auto simp: expected_get_def)
next
  case (8 db k c p)
  then show ?case by (cases p) (auto simp: expected_get_def expected_put_def split: if_splits)
qed (auto simp: expected_get_def expected_put_def write_expected_amount_event_def keys_ok_def split: option.splits)

lemma measure_writer_opp:
  assumes m: "m = Annual_financial_impact \<or> m = Realised_savings"
  shows "measure_writer Opp m (measure_get m) (measure_put m) (measure_write m)"
proof (unfold_locales, goal_cases)
  case 2
  then show ?case using m by (auto simp: measure_get_def measure_put_def measure_write_def
      write_opportunity_measure_event_def append_event_def Let_def split: option.splits)
next
  case (4 db k org c)
  then show ?case using m by (auto simp: measure_get_def cells_def keys_ok_def row_in measure_cell_def image_iff Bex_def)
next
  case (10 db k org c0 c)
  then show ?case using measure_put_cells [of db k _ m c] m by (auto simp: measure_get_def)
next
  case (8 db k c p)
  then show ?case by (cases p) (auto simp: measure_get_def measure_put_def split: if_splits)
qed (auto simp: measure_get_def measure_put_def measure_write_def write_opportunity_measure_event_def keys_ok_def
    split: option.splits)

interpretation aw: measure_writer Opp Annual_financial_impact "measure_get Annual_financial_impact"
    "measure_put Annual_financial_impact" "measure_write Annual_financial_impact"
  by (rule measure_writer_opp) simp

interpretation sw: measure_writer Opp Realised_savings "measure_get Realised_savings"
    "measure_put Realised_savings" "measure_write Realised_savings"
  by (rule measure_writer_opp) simp

end
