(* ===== verification/RebateService.thy ===== *)
theory RebateService
  imports EvidenceWriters Logistics
begin

text \<open>
  The rebate life cycle: \<open>app/services/rebate_service.py\<close>, the source waterfall of
  \<open>app/services/rebate_aggregation_service.py\<close> and the two ingestion paths that drive it
  (\<open>purchase_transaction_service.py\<close>, \<open>purchase_ledger_service.ingest_purchase_invoice\<close>).  The state
  is the ledger of governed amounts with the agreements, the fired alerts and the purchase rows.
  Rows are found by id (the code's callers pass the loaded row); audit records, references and
  \<open>earned_at\<close>/\<open>status_calculated_at\<close> are left out, \<open>now\<close> is an argument.  A value read back from a
  decimal column is the value written: \<open>Decimal(str(x))\<close> is the identity.
\<close>

section \<open>State\<close>

record agreement =
  ag_org :: int
  ag_supplier :: int
  ag_type :: rebate_type
  ag_flat :: "rat option"
  ag_bands :: "rebate_band list option"
  ag_fixed :: "rat option"

record purchase_row =
  pu_supplier :: int
  pu_amount :: rat
  pu_quantity :: "rat option"
  pu_date :: pydate
  pu_corrects :: "int option"

record rebate_db =
  led :: ledger
  agreements :: "(int, agreement) pydict"
  alerts :: "(int \<times> pydate) list"
  invoice_lines :: "purchase_row list"
  transactions :: "purchase_row list"

section \<open>rebate_service\<close>

record rebate_agreement_create =
  rc_supplier :: "int option"
  rc_type :: rebate_type
  rc_flat :: "rat option"
  rc_bands :: "rebate_band list option"
  rc_fixed :: "rat option"

definition validate_type_specific_fields :: "rebate_agreement_create \<Rightarrow> rebate_agreement_create res" where
  "validate_type_specific_fields p =
     (if rc_type p \<in> {FIXED_PERCENTAGE, VOLUME, GROWTH} \<and> rc_flat p = None then Inl (ValueError ''requires flat_rate_pct'')
      else if rc_type p \<in> {TIERED, RETROSPECTIVE} \<and> (rc_bands p = None \<or> rc_bands p = Some [])
      then Inl (ValueError ''requires at least one band'')
      else if rc_type p = FIXED_AMOUNT \<and> rc_fixed p = None then Inl (ValueError ''fixed_amount requires fixed_amount'')
      else Inr p)"

text \<open>The field constraints of the payload and of its bands, checked before the validator.\<close>

definition rebate_band_input_ok :: "rebate_band \<Rightarrow> bool" where
  "rebate_band_input_ok b = (0 \<le> rate_pct b \<and> rate_pct b \<le> 1)"

definition parse_rebate_agreement_create :: "rebate_agreement_create \<Rightarrow> rebate_agreement_create res" where
  "parse_rebate_agreement_create p =
     (if (case rc_flat p of None \<Rightarrow> True | Some r \<Rightarrow> 0 \<le> r \<and> r \<le> 1) \<and>
         (case rc_bands p of None \<Rightarrow> True | Some bs \<Rightarrow> list_all rebate_band_input_ok bs)
      then validate_type_specific_fields p else Inl (ValueError ''field constraint''))"

text \<open>The supplier of the payload is the result of the query by public id.\<close>

definition create_rebate_agreement :: "rebate_db \<Rightarrow> int \<Rightarrow> rebate_agreement_create \<Rightarrow> (rebate_db \<times> int) res" where
  "create_rebate_agreement db org p = (case rc_supplier p of
     None \<Rightarrow> Inl (NotFoundError ''Supplier not found'')
   | Some sid \<Rightarrow>
       let i = fresh_id (agreements db);
           a = \<lparr> ag_org = org, ag_supplier = sid, ag_type = rc_type p, ag_flat = rc_flat p,
                 ag_bands = (case rc_bands p of Some [] \<Rightarrow> None | b \<Rightarrow> b), ag_fixed = rc_fixed p \<rparr>
       in bindR (commit (led db)) (\<lambda>l. Inr (db\<lparr> led := l, agreements := AList.update i a (agreements db) \<rparr>, i)))"

definition bands_from_agreement :: "agreement \<Rightarrow> rebate_band list option" where
  "bands_from_agreement a = (case ag_bands a of None \<Rightarrow> None | Some [] \<Rightarrow> None | Some bs \<Rightarrow> Some bs)"

definition compute_expected_amount :: "agreement \<Rightarrow> rpa \<Rightarrow> rat option res" where
  "compute_expected_amount a r = (case rp_actual_spend r of None \<Rightarrow> Inr None
     | Some s \<Rightarrow> bindR (calculate_expected_rebate s (ag_type a) (ag_flat a) (bands_from_agreement a) (ag_fixed a))
         (\<lambda>x. Inr (Some x)))"

definition expected_snap :: "int \<Rightarrow> rat option \<Rightarrow> snap" where
  "expected_snap now x = (case x of None \<Rightarrow> plain_snap None Unknown
     | Some v \<Rightarrow> (plain_snap (Some v) Calculated)\<lparr> s_basis := Some Contract_terms_calculation, s_calculated_at := Some now \<rparr>)"

definition recalculate_expected :: "ledger \<Rightarrow> agreement \<Rightarrow> int \<Rightarrow> int \<Rightarrow> reason_code \<Rightarrow> ledger res" where
  "recalculate_expected l a rid now reason = (case map_of (rpas l) rid of
     None \<Rightarrow> Inl (NotFoundError ''rebate_period_actual'')
   | Some r \<Rightarrow> bindR (compute_expected_amount a r) (\<lambda>x.
       write_expected_amount_event l rid (expected_snap now x) reason))"

definition new_period :: "int \<Rightarrow> int \<Rightarrow> pydate \<Rightarrow> pydate \<Rightarrow> rat option \<Rightarrow> rat option \<Rightarrow> rpa" where
  "new_period org aid ps pe spend volume = \<lparr> rp_org = org, rp_agreement = aid, rp_period_start = ps,
     rp_period_end = pe, rp_actual_spend = spend, rp_actual_volume = volume, rp_entry_source = MANUAL,
     rp_earned = None, rp_received = None, rp_status = ON_TRACK,
     rp_expected = \<lparr> c_snap = plain_snap None Unknown, c_event = None \<rparr> \<rparr>"

definition record_period_actual ::
    "rebate_db \<Rightarrow> int \<Rightarrow> int \<Rightarrow> pydate \<Rightarrow> pydate \<Rightarrow> rat option \<Rightarrow> rat option \<Rightarrow> int \<Rightarrow> (rebate_db \<times> int) res" where
  "record_period_actual db org aid ps pe spend volume now = (case map_of (agreements db) aid of
     None \<Rightarrow> Inl (NotFoundError ''Rebate agreement not found'')
   | Some a \<Rightarrow>
       let rid = fresh_id (rpas (led db));
           l = (led db)\<lparr> rpas := AList.update rid (new_period org aid ps pe spend volume) (rpas (led db)) \<rparr>
       in bindR (recalculate_expected l a rid now By_manual_estimate) (\<lambda>l'.
          bindR (commit l') (\<lambda>l''. Inr (db\<lparr> led := l'' \<rparr>, rid))))"

definition check_threshold_alert :: "rebate_db \<Rightarrow> agreement \<Rightarrow> int \<Rightarrow> pydate \<Rightarrow> (rebate_db \<times> bool) res" where
  "check_threshold_alert db a rid as_of_date = (case map_of (rpas (led db)) rid of
     None \<Rightarrow> Inl (NotFoundError ''rebate_period_actual'')
   | Some r \<Rightarrow> (case (bands_from_agreement a, rp_actual_spend r) of
       (Some bands, Some s) \<Rightarrow> bindR (is_threshold_alert_due s bands as_of_date (rp_period_end r)) (\<lambda>due.
         if \<not> due then Inr (db, False)
         else if rid \<in> fst ` set (alerts db) then Inr (db, False)
         else bindR (commit (led db)) (\<lambda>l. Inr (db\<lparr> led := l, alerts := alerts db @ [(rid, as_of_date)] \<rparr>, True)))
     | _ \<Rightarrow> Inr (db, False)))"

text \<open>\<open>Decimal(str(None))\<close> raises \<open>InvalidOperation\<close>.\<close>

definition as_decimal :: "rat option \<Rightarrow> rat res" where
  "as_decimal x = (case x of None \<Rightarrow> Inl InvalidOperation | Some v \<Rightarrow> Inr v)"

definition refresh_rebate_status :: "rpa \<Rightarrow> bool \<Rightarrow> rpa res" where
  "refresh_rebate_status r period_closed =
     (if s_status (c_snap (rp_expected r)) \<in> {Unknown, Legacy_unverified} then Inr r
      else bindR (as_decimal (s_amount (c_snap (rp_expected r)))) (\<lambda>e.
        bindR (classify_rebate_status e (rp_received r) period_closed False) (\<lambda>st. Inr (r\<lparr> rp_status := st \<rparr>))))"

definition put_period :: "ledger \<Rightarrow> int \<Rightarrow> rpa \<Rightarrow> ledger" where
  "put_period l rid r = l\<lparr> rpas := AList.update rid r (rpas l) \<rparr>"

definition close_period :: "ledger \<Rightarrow> int \<Rightarrow> pydate \<Rightarrow> ledger res" where
  "close_period l rid as_of_date = (case map_of (rpas l) rid of
     None \<Rightarrow> Inl (NotFoundError ''rebate_period_actual'')
   | Some r \<Rightarrow>
       if \<not> is_period_due_for_close (rp_period_end r) as_of_date then Inl (ConflictError ''not yet due for close'')
       else if rp_earned r \<noteq> None then Inl (ConflictError ''Period has already been closed'')
       else bindR (refresh_rebate_status (r\<lparr> rp_earned := s_amount (c_snap (rp_expected r)) \<rparr>) True) (\<lambda>r'.
         commit (put_period l rid r')))"

datatype leakage_result = Diagnostic | Leakage rat

definition record_receipt :: "ledger \<Rightarrow> int \<Rightarrow> rat \<Rightarrow> (ledger \<times> leakage_result) res" where
  "record_receipt l rid received = (case map_of (rpas l) rid of
     None \<Rightarrow> Inl (NotFoundError ''rebate_period_actual'')
   | Some r \<Rightarrow> bindR (refresh_rebate_status (r\<lparr> rp_received := Some received \<rparr>) (rp_earned r \<noteq> None)) (\<lambda>r'.
       bindR (if s_status (c_snap (rp_expected r')) \<in> {Unknown, Legacy_unverified} then Inr Diagnostic
              else bindR (as_decimal (s_amount (c_snap (rp_expected r')))) (\<lambda>e.
                bindR (calculate_rebate_leakage e (Some received)) (\<lambda>x. Inr (Leakage x)))) (\<lambda>res.
         bindR (commit (put_period l rid r')) (\<lambda>l'. Inr (l', res)))))"

definition get_derived_progress :: "agreement \<Rightarrow> rpa \<Rightarrow> (rat option \<times> rat option) res" where
  "get_derived_progress a r = (case (bands_from_agreement a, rp_actual_spend r) of
     (Some bands, Some s) \<Rightarrow> calculate_progress_to_next_tier s bands
   | _ \<Rightarrow> Inr (None, None))"

section \<open>rebate_aggregation_service\<close>

definition row_tuples :: "purchase_row list \<Rightarrow> int \<Rightarrow> (rat \<times> rat \<times> pydate) list" where
  "row_tuples rows sid = map (\<lambda>r. (pu_amount r, case pu_quantity r of Some q \<Rightarrow> q | None \<Rightarrow> 0, pu_date r))
     (filter (\<lambda>r. pu_supplier r = sid \<and> pu_corrects r = None) rows)"

definition invoice_tuples :: "rebate_db \<Rightarrow> int \<Rightarrow> (rat \<times> rat \<times> pydate) list" where
  "invoice_tuples db sid = row_tuples (invoice_lines db) sid"

definition transaction_tuples :: "rebate_db \<Rightarrow> int \<Rightarrow> (rat \<times> rat \<times> pydate) list" where
  "transaction_tuples db sid = row_tuples (transactions db) sid"

definition choose_source :: "rebate_db \<Rightarrow> int \<Rightarrow> rpa \<Rightarrow> (rat \<times> rat \<times> pydate) list \<times> entry_source" where
  "choose_source db sid r =
     (if rp_entry_source r = INVOICE_AGGREGATION then (invoice_tuples db sid, INVOICE_AGGREGATION)
      else if invoice_tuples db sid \<noteq> [] then (invoice_tuples db sid, INVOICE_AGGREGATION)
      else (transaction_tuples db sid,
        if transaction_tuples db sid \<noteq> [] then TRANSACTION_AGGREGATION else rp_entry_source r))"

definition affected_periods :: "rebate_db \<Rightarrow> int \<Rightarrow> pydate \<Rightarrow> pydate \<Rightarrow> int list" where
  "affected_periods db sid min_date max_date = map fst (filter (\<lambda>(i, r).
     (case map_of (agreements db) (rp_agreement r) of Some a \<Rightarrow> ag_supplier a = sid | None \<Rightarrow> False) \<and>
     rp_earned r = None \<and> rp_period_start r \<le> max_date \<and> min_date \<le> rp_period_end r) (rpas (led db)))"

definition recalculate_period :: "int \<Rightarrow> int \<Rightarrow> rebate_db \<Rightarrow> int \<Rightarrow> rebate_db res" where
  "recalculate_period sid now db rid = (case map_of (rpas (led db)) rid of
     None \<Rightarrow> Inl KeyError
   | Some r \<Rightarrow> (case map_of (agreements db) (rp_agreement r) of
       None \<Rightarrow> Inl KeyError
     | Some a \<Rightarrow> (let (tuples, src) = choose_source db sid r in
         if src \<in> {INVOICE_AGGREGATION, TRANSACTION_AGGREGATION} then
           bindR (aggregate_transactions_for_period tuples (rp_period_start r) (rp_period_end r)) (\<lambda>agg.
             bindR (recalculate_expected (put_period (led db) rid (r\<lparr> rp_actual_spend := Some (ta_total_spend agg),
                 rp_actual_volume := Some (ta_total_volume agg), rp_entry_source := src \<rparr>)) a rid now Recalculation)
               (\<lambda>l. Inr (db\<lparr> led := l \<rparr>)))
         else Inr db)))"

definition recalculate_affected_periods :: "rebate_db \<Rightarrow> int \<Rightarrow> pydate \<Rightarrow> pydate \<Rightarrow> int \<Rightarrow> rebate_db res" where
  "recalculate_affected_periods db sid min_date max_date now =
     foldR (recalculate_period sid now) db (affected_periods db sid min_date max_date)"

section \<open>Lemmas: rows and the constraints\<close>

lemma put_period_simps [simp]:
  "events (put_period l rid r) = events l" "evidence (put_period l rid r) = evidence l"
  "opps (put_period l rid r) = opps l" "map_of (rpas (put_period l rid r)) = (map_of (rpas l))(rid \<mapsto> r)"
  by (simp_all add: put_period_def)

lemma put_period_consistent:
  assumes q: "consistent_but l Q" and r: "map_of (rpas l) rid = Some r"
    and same: "rp_org r' = rp_org r" "rp_expected r' = rp_expected r"
  shows "consistent_but (put_period l rid r') Q"
proof (rule consistent_same [OF q])
  have k: "keys_ok l" using consistent_butD(2) [OF q] .
  then show "keys_ok (put_period l rid r')" by (simp add: keys_ok_def put_period_def)
  show "parent_exists (put_period l rid r') p = parent_exists l p" for p
    using r by (cases p) (auto split: if_splits)
  have "(rid, r) \<in> set (rpas l)" using r by (rule map_of_SomeD)
  then show "set (cells (put_period l rid r')) \<subseteq> set (cells l)"
    using k same by (force simp: cells_def put_period_def keys_ok_def set_update)
qed simp_all

lemma insert_period_consistent:
  assumes q: "consistent_but l Q" and new: "rid \<notin> fst ` set (rpas l)"
  shows "consistent_but (put_period l rid r) (insert (Rpa rid, Expected_amount) Q)"
    "chain_free (put_period l rid r) (Rpa rid) m"
proof -
  note k = consistent_butD(2) [OF q]
  show "consistent_but (put_period l rid r) (insert (Rpa rid, Expected_amount) Q)"
  proof (rule consistent_grow [OF q])
    show "keys_ok (put_period l rid r)" using k by (simp add: keys_ok_def put_period_def)
    show "parent_exists (put_period l rid r) p" if "parent_exists l p" for p using that by (cases p) auto
    show "(org, p, m, c) \<in> set (cells l) \<or> (p, m) \<in> insert (Rpa rid, Expected_amount) Q"
      if "(org, p, m, c) \<in> set (cells (put_period l rid r))" for org p m c
      using that k new by (auto simp: cells_def put_period_def keys_ok_def set_update)
  qed auto
  show "chain_free (put_period l rid r) (Rpa rid) m"
    using new_parent_chain_free [OF q, of "Rpa rid" m] new
    by (simp add: chain_free_def map_of_eq_None_iff)
qed

lemma expected_snap_ok [simp]:
  "row_view Expected_amount (expected_snap now x) = expected_snap now x"
  "state_combination Expected_amount (expected_snap now x)"
  "s_status (expected_snap now x) = (if x = None then Unknown else Calculated)"
  "s_amount (expected_snap now x) = x"
  by (cases x; simp add: expected_snap_def plain_snap_def no_provenance_def)+

lemma no_evidence_needed:
  "s_status (ev_new e) \<noteq> Confirmed \<Longrightarrow> check_confirmed_event_has_sufficient_evidence d e"
  by (simp add: check_confirmed_event_has_sufficient_evidence_def)

definition may_recalculate :: "ledger \<Rightarrow> (parent \<times> measure) set \<Rightarrow> int \<Rightarrow> rpa \<Rightarrow> rat option \<Rightarrow> reason_code \<Rightarrow> bool" where
  "may_recalculate l Q rid r x reason = (chain_free l (Rpa rid) Expected_amount \<or>
     ((Rpa rid, Expected_amount) \<notin> Q \<and>
      (ev_tier (s_status (c_snap (rp_expected r))) \<le> ev_tier (s_status (expected_snap 0 x)) \<or> correction_reason reason)))"

lemma recalculate_consistent:
  assumes q: "consistent_but l Q" and r: "map_of (rpas l) rid = Some r" and x: "compute_expected_amount a r = Inr x"
    and row: "row_view Expected_amount (c_snap (rp_expected r)) = c_snap (rp_expected r)"
    and may: "may_recalculate l Q rid r x reason"
  obtains l' where "recalculate_expected l a rid now reason = Inr l'"
    "consistent_but l' (Q - {(Rpa rid, Expected_amount)})"
    "rpas l' = AList.update rid (r\<lparr> rp_expected := \<lparr> c_snap = expected_snap now x, c_event = Some (next_event_id l) \<rparr> \<rparr>) (rpas l)"
    "opps l' = opps l" "evidence l' = evidence l"
proof -
  have g: "expected_get l rid = Some (rp_org r, rp_expected r)" by (simp add: expected_get_def r)
  have cell: "(rp_org r, Rpa rid, Expected_amount, rp_expected r) \<in> set (cells l)"
    using g xw.get_cell [OF consistent_butD(2) [OF q]] by blast
  have may': "may_append l (rp_org r) (Rpa rid) Expected_amount (c_snap (rp_expected r)) (expected_snap now x) reason"
    using may consistent_butD(3) [OF q cell] by (auto simp: may_recalculate_def may_append_def)
  have ne: "s_status (expected_snap now x) \<noteq> Confirmed" by simp
  obtain l' where w: "write_expected_amount_event l rid (expected_snap now x) reason = Inr l'"
    and c: "consistent_but (l'\<lparr> evidence := evidence l @ [] \<rparr>) (Q - {(Rpa rid, Expected_amount)})"
    using xw.write_consistent [OF q g expected_snap_ok(1,2) row may', of "[]"] no_evidence_needed ne by metis
  have f: "rpas l' = AList.update rid (r\<lparr> rp_expected := \<lparr> c_snap = expected_snap now x, c_event = Some (next_event_id l) \<rparr> \<rparr>) (rpas l)"
    "opps l' = opps l" "evidence l' = evidence l"
    using w by (auto simp: write_expected_amount_event_def r append_event_def Let_def simp del: row_view.simps)
  then have "l'\<lparr> evidence := evidence l @ [] \<rparr> = l'" by simp
  with c have "consistent_but l' (Q - {(Rpa rid, Expected_amount)})" by simp
  then show ?thesis using that f w by (simp add: recalculate_expected_def r x)
qed

lemma ready_row:
  assumes "consistent_but l Q" "map_of (rpas l) rid = Some r" "(Rpa rid, Expected_amount) \<notin> Q"
  shows "cell_ok l (rp_org r) (Rpa rid) Expected_amount (rp_expected r)"
    "row_view Expected_amount (c_snap (rp_expected r)) = c_snap (rp_expected r)"
    "state_combination Expected_amount (c_snap (rp_expected r))"
proof -
  have "expected_get l rid = Some (rp_org r, rp_expected r)" by (simp add: expected_get_def assms(2))
  then show c: "cell_ok l (rp_org r) (Rpa rid) Expected_amount (rp_expected r)"
    using xw.get_cell [OF consistent_butD(2) [OF assms(1)]] consistent_butD(3) [OF assms(1)] assms(3) by blast
  show "row_view Expected_amount (c_snap (rp_expected r)) = c_snap (rp_expected r)"
    using c by (elim cell_okD) (metis row_view_idem)
  show "state_combination Expected_amount (c_snap (rp_expected r))" using c by (simp add: cell_ok_def)
qed

section \<open>An example ledger\<close>

text \<open>One period with one event; it carries evidence so that it may hold any status.\<close>

definition example_period :: "snap \<Rightarrow> rpa" where
  "example_period s = \<lparr> rp_org = 1, rp_agreement = 7, rp_period_start = PyDate 2026 1 1,
     rp_period_end = PyDate 2026 3 31, rp_actual_spend = Some 2000, rp_actual_volume = None,
     rp_entry_source = MANUAL, rp_earned = None, rp_received = None, rp_status = ON_TRACK,
     rp_expected = \<lparr> c_snap = s, c_event = Some 1 \<rparr> \<rparr>"

definition example_ledger :: "snap \<Rightarrow> ledger" where
  "example_ledger s = \<lparr> events = [\<lparr> ev_id = 1, ev_org = 1, ev_parent = Rpa 1, ev_measure = Expected_amount,
       ev_version = 1, ev_old = None, ev_new = s, ev_reason = Initial_backfill \<rparr>],
     evidence = [(1, Ev_credit_note)], rpas = [(1, example_period s)], opps = [] \<rparr>"

definition example_agreement :: agreement where
  "example_agreement = \<lparr> ag_org = 1, ag_supplier = 3, ag_type = TIERED, ag_flat = None,
     ag_bands = Some example_bands, ag_fixed = None \<rparr>"

definition example_db :: "ledger \<Rightarrow> rebate_db" where
  "example_db l = \<lparr> led = l, agreements = [(7, example_agreement)], alerts = [], invoice_lines = [], transactions = [] \<rparr>"

lemma example_ready:
  assumes "state_combination Expected_amount s" "row_view Expected_amount s = s"
  shows "ready (example_ledger s)"
proof -
  have "s_basis s = Some Reconciled_actuals \<Longrightarrow> s_status s \<noteq> Confirmed"
    using assms(1) by (auto split: ev_status.splits)
  then show ?thesis using assms
    by (simp add: ready_def db_ok_def events_ok_def rpa_ok_def cell_ok_def check_matches_event_def event_ok_def
        example_ledger_def example_period_def check_event_chain_integrity_def normal_events_def has_evidence_def
        check_confirmed_event_has_sufficient_evidence_def del: row_view.simps state_combination.simps)
qed

lemma example_row [simp]: "map_of (rpas (example_ledger s)) 1 = Some (example_period s)"
  by (simp add: example_ledger_def)

lemma example_expected [simp]: "c_snap (rp_expected (example_period s)) = s" "rp_earned (example_period s) = None"
  "rp_period_end (example_period s) = PyDate 2026 3 31"
  by (simp_all add: example_period_def)

lemma example_computed: "compute_expected_amount example_agreement (example_period s) = Inr (Some 20)"
  by (simp add: compute_expected_amount_def example_period_def example_agreement_def bands_from_agreement_def
      tiered_rebate rebate_tier_def best_reached_def example_bands_def dec_eval)

lemma example_snaps:
  "ready (example_ledger (plain_snap None Unknown))" "ready (example_ledger (plain_snap None Not_applicable))"
  "ready (example_ledger (expected_snap 5 (Some 20)))"
  by (rule example_ready; simp add: plain_snap_def no_provenance_def expected_snap_def)+

section \<open>Properties\<close>



text \<open>The snapshot of an expected amount cannot be edited behind the event log: any change of amount,
  status or provenance that does not go through an event is refused at commit.\<close>

lemma direct_edit_refused:
  assumes q: "ready l" and r: "map_of (rpas l) rid = Some r" and s: "s \<noteq> c_snap (rp_expected r)"
  shows "commit (put_period l rid (r\<lparr> rp_expected := (rp_expected r)\<lparr> c_snap := s \<rparr> \<rparr>)) =
    Inl (IntegrityError ''constraint violated at commit'')"
proof -
  have g: "expected_get l rid = Some (rp_org r, rp_expected r)" by (simp add: expected_get_def r)
  have "put_period l rid (r\<lparr> rp_expected := (rp_expected r)\<lparr> c_snap := s \<rparr> \<rparr>) =
      expected_put l rid ((rp_expected r)\<lparr> c_snap := s \<rparr>)"
    by (simp add: put_period_def expected_put_def r)
  then show ?thesis
    using xw.bypass_rejected [OF q g, of "(rp_expected r)\<lparr> c_snap := s \<rparr>"] s by (simp add: commit_def)
qed

lemma direct_edit_refused_witness:
  "commit (put_period (example_ledger (expected_snap 5 (Some 20))) 1
    ((example_period (expected_snap 5 (Some 20)))\<lparr> rp_expected := (rp_expected (example_period (expected_snap 5 (Some 20))))
      \<lparr> c_snap := expected_snap 5 (Some 25) \<rparr> \<rparr>)) = Inl (IntegrityError ''constraint violated at commit'')"
  by (rule direct_edit_refused [OF example_snaps(3) example_row]) (simp add: expected_snap_def plain_snap_def)



text \<open>C14: Closing a period whose expected amount is known locks it: the earned amount is that amount,
  the period cannot be closed again, and no later aggregation touches it.\<close>

lemma close_period_locks:
  assumes c: "close_period l rid d = Inr l'" and r: "map_of (rpas l) rid = Some r"
    and known: "s_amount (c_snap (rp_expected r)) = Some x"
  shows "(\<exists>r'. map_of (rpas l') rid = Some r' \<and> rp_earned r' = Some x \<and> rp_expected r' = rp_expected r) \<and>
    (\<forall>d'. rp_period_end r \<le> d' \<longrightarrow> close_period l' rid d' = Inl (ConflictError ''Period has already been closed'')) \<and>
    (distinct (map fst (rpas l')) \<longrightarrow> (\<forall>db sid a b. led db = l' \<longrightarrow> rid \<notin> set (affected_periods db sid a b)))"
proof -
  have "\<exists>r'. refresh_rebate_status (r\<lparr> rp_earned := Some x \<rparr>) True = Inr r' \<and> l' = put_period l rid r'"
    using c by (auto simp: close_period_def r known res_simps commit_eq_Inr split: if_splits)
  then obtain r' where r': "refresh_rebate_status (r\<lparr> rp_earned := Some x \<rparr>) True = Inr r'" "l' = put_period l rid r'" by blast
  then have e: "rp_earned r' = Some x" "rp_expected r' = rp_expected r" "rp_period_end r' = rp_period_end r"
    by (auto simp: refresh_rebate_status_def res_simps split: if_splits)
  have "rid \<notin> set (affected_periods db sid a b)" if "led db = l'" "distinct (map fst (rpas l'))" for db sid a b
  proof
    assume "rid \<in> set (affected_periods db sid a b)"
    then obtain y where "(rid, y) \<in> set (rpas (led db))" "rp_earned y = None"
      by (auto simp: affected_periods_def)
    then have "map_of (rpas l') rid = Some y" using that by (simp add: row_in)
    then show False using e(1) \<open>rp_earned y = None\<close> by (simp add: r'(2))
  qed
  moreover have "close_period l' rid d' = Inl (ConflictError ''Period has already been closed'')"
    if "rp_period_end r \<le> d'" for d'
    using that e by (simp add: close_period_def r'(2) is_period_due_for_close_def)
  ultimately show ?thesis using e by (simp add: r'(2))
qed

lemma close_period_locks_witness:
  "\<exists>l'. close_period (example_ledger (expected_snap 5 (Some 20))) 1 (PyDate 2026 4 1) = Inr l' \<and>
     close_period l' 1 (PyDate 2026 4 2) = Inl (ConflictError ''Period has already been closed'')"
proof -
  let ?l = "example_ledger (expected_snap 5 (Some 20))"
  let ?r = "(example_period (expected_snap 5 (Some 20)))\<lparr> rp_earned := Some 20, rp_status := PERIOD_CLOSED_AWAITING_PAYMENT \<rparr>"
  have "ready (put_period ?l 1 ?r)"
    using put_period_consistent [OF example_snaps(3) [unfolded ready_consistent] example_row, of ?r]
    by (simp add: ready_consistent example_period_def)
  then have c: "close_period ?l 1 (PyDate 2026 4 1) = Inr (put_period ?l 1 ?r)"
    by (simp add: close_period_def is_period_due_for_close_def less_eq_pydate_def refresh_rebate_status_def as_decimal_def
        classify_rebate_status_def ready_commit) (simp add: example_period_def ready_commit)
  show ?thesis using c close_period_locks [OF c example_row, of 20] by (simp add: less_eq_pydate_def)
qed

text \<open>Closing a period whose expected amount is unknown reports success but locks nothing: the row
  is left exactly as it was, so it can be closed again and later uploads still change it.\<close>

lemma close_unknown_period_stays_open:
  assumes q: "ready l" and r: "map_of (rpas l) rid = Some r" and u: "s_status (c_snap (rp_expected r)) = Unknown"
    and open': "rp_earned r = None" and due: "rp_period_end r \<le> d"
  shows "\<exists>l'. close_period l rid d = Inr l' \<and> map_of (rpas l') = map_of (rpas l) \<and>
    (\<exists>l''. close_period l' rid d = Inr l'' \<and> map_of (rpas l'') = map_of (rpas l))"
proof -
  have none: "s_amount (c_snap (rp_expected r)) = None"
    using ready_row(3) [OF q [unfolded ready_consistent] r] u by simp
  have same: "r\<lparr> rp_earned := None \<rparr> = r" using open' by simp
  have step: "close_period k rid d = Inr (put_period k rid r) \<and> ready (put_period k rid r)"
    if "ready k" "map_of (rpas k) rid = Some r" for k
  proof -
    have "ready (put_period k rid r)"
      using that put_period_consistent [OF _ that(2), of "{}" r] by (simp add: ready_consistent)
    then show ?thesis using that(2) due open' u
      by (simp add: close_period_def is_period_due_for_close_def none same refresh_rebate_status_def ready_commit)
  qed
  have id: "(map_of (rpas l))(rid \<mapsto> r) = map_of (rpas l)" using r by (rule map_upd_triv)
  let ?l = "put_period l rid r"
  have "ready ?l" "close_period l rid d = Inr ?l" using step [OF q r] by simp_all
  moreover have "close_period ?l rid d = Inr (put_period ?l rid r)" using step [of ?l] calculation(1) by simp
  ultimately show ?thesis using id by (intro exI conjI) (assumption | simp)+
qed

lemma close_unknown_period_stays_open_witness:
  "\<exists>l'. close_period (example_ledger (plain_snap None Unknown)) 1 (PyDate 2026 4 1) = Inr l' \<and>
     map_of (rpas l') 1 = Some (example_period (plain_snap None Unknown))"
  using close_unknown_period_stays_open [OF example_snaps(1) example_row, of "PyDate 2026 4 1"] example_row
  by (fastforce simp: plain_snap_def less_eq_pydate_def)

text \<open>A receipt is stored with its leakage, and a leakage figure is produced exactly when an amount
  was expected: for a row without evidence the answer is diagnostic and the status is left alone.\<close>

lemma record_receipt_result:
  assumes q: "ready l" and r: "map_of (rpas l) rid = Some r" and am: "amount x"
    and na: "s_status (c_snap (rp_expected r)) \<noteq> Not_applicable"
    and e: "\<And>y. s_amount (c_snap (rp_expected r)) = Some y \<Longrightarrow> amount y"
  shows "\<exists>l' r' res. record_receipt l rid x = Inr (l', res) \<and> ready l' \<and>
    map_of (rpas l') = (map_of (rpas l))(rid \<mapsto> r') \<and> rp_received r' = Some x \<and> rp_earned r' = rp_earned r \<and>
    (if s_status (c_snap (rp_expected r)) \<in> {Unknown, Legacy_unverified} then res = Diagnostic \<and> rp_status r' = rp_status r
     else \<exists>y. s_amount (c_snap (rp_expected r)) = Some y \<and> res = Leakage (y - x) \<and>
       rp_status r' = (if y \<le> x + 1 / 10000 then RECONCILED else LEAKAGE_DETECTED))"
proof -
  note q' = q [unfolded ready_consistent]
  note sc = ready_row(3) [OF q' r]
  have put: "ready (put_period l rid r')" if "rp_org r' = rp_org r" "rp_expected r' = rp_expected r" for r'
    using put_period_consistent [OF q' r that] by (simp add: ready_consistent)
  show ?thesis
  proof (cases "s_status (c_snap (rp_expected r)) \<in> {Unknown, Legacy_unverified}")
    case True
    then show ?thesis using ready_commit [OF put, of "r\<lparr> rp_received := Some x \<rparr>"] put [of "r\<lparr> rp_received := Some x \<rparr>"]
      by (intro exI [of _ "put_period l rid (r\<lparr> rp_received := Some x \<rparr>)"] exI [of _ "r\<lparr> rp_received := Some x \<rparr>"]
          exI [of _ Diagnostic]) (simp add: record_receipt_def r refresh_rebate_status_def)
  next
    case False
    obtain y where y: "s_amount (c_snap (rp_expected r)) = Some y"
      using sc False na by (auto split: ev_status.splits)
    define st where "st = (if y \<le> x + 1 / 10000 then RECONCILED else LEAKAGE_DETECTED)"
    have st: "classify_rebate_status y (Some x) c False = Inr st" for c
      using rebate_status_cases [of y "Some x" c False] e [OF y] am by (simp add: st_def)
    have lk: "calculate_rebate_leakage y (Some x) = Inr (y - x)" using leakage_amounts [of y "Some x"] e [OF y] am by simp
    let ?r = "r\<lparr> rp_received := Some x, rp_status := st \<rparr>"
    have "record_receipt l rid x = Inr (put_period l rid ?r, Leakage (y - x))"
      using False by (simp add: record_receipt_def r refresh_rebate_status_def y as_decimal_def st lk ready_commit [OF put])
    then show ?thesis using False y put [of ?r]
      by (intro exI [of _ "put_period l rid ?r"] exI [of _ ?r] exI [of _ "Leakage (y - x)"]) (simp add: st_def)
  qed
qed

lemma record_receipt_result_witness:
  "\<exists>l'. record_receipt (example_ledger (expected_snap 5 (Some 20))) 1 15 = Inr (l', Leakage 5)"
proof -
  have "amount 15" "\<And>y. s_amount (c_snap (rp_expected (example_period (expected_snap 5 (Some 20))))) = Some y \<Longrightarrow> amount y"
    by (simp_all add: amount_def)
  from record_receipt_result [OF example_snaps(3) example_row this(1) _ this(2)] show ?thesis by auto
qed

text \<open>The exception to the receipt's promise: for a period marked not applicable the operation
  raises \<open>InvalidOperation\<close> and nothing is stored.\<close>

lemma receipt_lost_when_not_applicable:
  assumes q: "ready l" and r: "map_of (rpas l) rid = Some r"
    and na: "s_status (c_snap (rp_expected r)) = Not_applicable"
  shows "record_receipt l rid x = Inl InvalidOperation"
  using ready_row(3) [OF q [unfolded ready_consistent] r] na
  by (simp add: record_receipt_def r refresh_rebate_status_def as_decimal_def)

lemma receipt_lost_when_not_applicable_witness:
  "record_receipt (example_ledger (plain_snap None Not_applicable)) 1 15 = Inl InvalidOperation"
  by (rule receipt_lost_when_not_applicable [OF example_snaps(2) example_row]) (simp add: plain_snap_def)

text \<open>An agreement accepted by the schema always computes: for every spend that fits the column the expected
  rebate of the created agreement exists, and unless it is a fixed amount it lies between zero and the
  spend.  In particular the missing-parameter errors of the calculation never reach a period.\<close>

lemma accepted_agreement_computes:
  assumes p: "parse_rebate_agreement_create p = Inr p'" and c: "create_rebate_agreement db org p' = Inr (db', i)"
    and s: "rp_actual_spend r = Some s" "amount s" "0 \<le> s" and f: "\<And>x. rc_fixed p = Some x \<Longrightarrow> \<bar>x\<bar> < 10 ^ 23"
  shows "\<exists>a x. map_of (agreements db') i = Some a \<and> compute_expected_amount a r = Inr (Some x) \<and>
    (rc_type p \<noteq> FIXED_AMOUNT \<longrightarrow> 0 \<le> x \<and> x \<le> s)"
proof -
  have v: "validate_type_specific_fields p = Inr p'" and p': "p' = p"
    and flat: "\<And>q. rc_flat p = Some q \<Longrightarrow> 0 \<le> q \<and> q \<le> 1"
    and bands: "\<And>bs b. rc_bands p = Some bs \<Longrightarrow> b \<in> set bs \<Longrightarrow> 0 \<le> rate_pct b \<and> rate_pct b \<le> 1"
    using p by (auto simp: parse_rebate_agreement_create_def validate_type_specific_fields_def list_all_iff
        rebate_band_input_ok_def split: if_splits)
  obtain a where a: "map_of (agreements db') i = Some a" "ag_type a = rc_type p" "ag_flat a = rc_flat p"
      "ag_bands a = (case rc_bands p of Some [] \<Rightarrow> None | b \<Rightarrow> b)" "ag_fixed a = rc_fixed p"
    using c by (auto simp: create_rebate_agreement_def p' Let_def res_simps split: option.splits)
  have product: "\<exists>x. round_currency (dmul s q) = Inr x \<and> 0 \<le> x \<and> x \<le> s" if "0 \<le> q \<and> q \<le> 1" for q
    unfolding dmul_def
  proof (rule cur.ctx_total)
    show "0 \<le> s * q" "s * q \<le> s" using that s(3) by (simp_all add: mult_left_le)
    show "fits 4 s" using s(2) by (rule amount_fits)
    show "\<bar>s\<bar> * 10 ^ 4 + 1 < 10 ^ prec" using s(2) by (simp add: amount_def prec_def)
  qed (simp_all add: fits_def prec_def)
  have "\<exists>x. calculate_expected_rebate s (rc_type p) (rc_flat p) (bands_from_agreement a) (rc_fixed p) = Inr x \<and>
      (rc_type p \<noteq> FIXED_AMOUNT \<longrightarrow> 0 \<le> x \<and> x \<le> s)"
  proof (cases "rc_type p \<in> {FIXED_PERCENTAGE, VOLUME, GROWTH}")
    case True
    then obtain q where "rc_flat p = Some q" using v by (auto simp: validate_type_specific_fields_def split: if_splits)
    then show ?thesis using True flat product [of q] by (auto simp: calculate_expected_rebate_def)
  next
    case nf: False
    show ?thesis
    proof (cases "rc_type p \<in> {TIERED, RETROSPECTIVE}")
      case True
      then obtain b bs where bs: "rc_bands p = Some (b # bs)"
        using v by (auto simp: validate_type_specific_fields_def neq_Nil_conv split: if_splits)
      then have "bands_from_agreement a = Some (b # bs)" using a(4) by (simp add: bands_from_agreement_def)
      then have e: "calculate_expected_rebate s (rc_type p) (rc_flat p) (bands_from_agreement a) (rc_fixed p) =
          (case rebate_tier s (b # bs) of None \<Rightarrow> Inr 0 | Some best \<Rightarrow> round_currency (dmul s (rate_pct best)))"
        using True by (auto simp: tiered_rebate)
      show ?thesis
      proof (cases "rebate_tier s (b # bs)")
        case (Some best)
        then have "best \<in> set (b # bs)" using rt.select_reached by blast
        then show ?thesis using e Some product [OF bands [OF bs]] by auto
      qed (use e s(3) in simp)
    next
      case False
      then have ty: "rc_type p = FIXED_AMOUNT" using nf by (cases "rc_type p") auto
      then obtain x where "rc_fixed p = Some x" using v by (auto simp: validate_type_specific_fields_def split: if_splits)
      then show ?thesis using ty f round_currency_defined by (auto simp: calculate_expected_rebate_def)
    qed
  qed
  then show ?thesis using a s(1) by (auto simp: compute_expected_amount_def res_simps)
qed

lemma accepted_agreement_computes_witness:
  "\<exists>a x. map_of (agreements (example_db (example_ledger (plain_snap None Unknown))\<lparr> agreements := [(1, \<lparr> ag_org = 1, ag_supplier = 3,
       ag_type = VOLUME, ag_flat = Some (1/2), ag_bands = None, ag_fixed = None \<rparr>)] \<rparr>)) 1 = Some a \<and>
     compute_expected_amount a (example_period (plain_snap None Unknown)) = Inr (Some x) \<and> 0 \<le> x \<and> x \<le> 2000"
proof -
  let ?p = "\<lparr> rc_supplier = Some 3, rc_type = VOLUME, rc_flat = Some (1/2), rc_bands = None, rc_fixed = None \<rparr>"
  let ?l = "example_ledger (plain_snap None Unknown)"
  let ?db = "example_db ?l\<lparr> agreements := [] \<rparr>"
  have "ready ?l" by (rule example_ready) (simp_all add: plain_snap_def no_provenance_def)
  then have "commit ?l = Inr ?l" by (simp add: ready_def commit_def)
  then have "create_rebate_agreement ?db 1 ?p = Inr (?db\<lparr> agreements := [(1, \<lparr> ag_org = 1, ag_supplier = 3,
      ag_type = VOLUME, ag_flat = Some (1/2), ag_bands = None, ag_fixed = None \<rparr>)] \<rparr>, 1)"
    by (simp add: create_rebate_agreement_def example_db_def Let_def fresh_id_def)
  moreover have "parse_rebate_agreement_create ?p = Inr ?p"
    by (simp add: parse_rebate_agreement_create_def validate_type_specific_fields_def)
  ultimately show ?thesis
    using accepted_agreement_computes [of ?p ?p ?db 1] by (fastforce simp: example_period_def amount_def dec_eval example_db_def)
qed

end
