(* ===== verification/RebateIngestion.thy ===== *)
theory RebateIngestion
  imports RebateService
begin

text \<open>
  Purchases: \<open>purchase_transaction_service.py\<close> and \<open>purchase_ledger_service.py\<close>, both of which end in
  \<open>rebate_aggregation_service.recalculate_affected_periods\<close>, and the lemmas about that function.
  Parsing of a cell of an uploaded row is a parameter: a row holds the outcome of
  \<open>date.fromisoformat\<close> and of \<open>Decimal\<close> on its cells.
\<close>

section \<open>Ingestion\<close>

record tx_row =
  tr_date :: "pydate res"
  tr_amount :: "rat res"
  tr_quantity :: "rat res option"

fun caught_by_row_parser :: "pyerr \<Rightarrow> bool" where
  "caught_by_row_parser KeyError = True"
| "caught_by_row_parser (ValueError _) = True"
| "caught_by_row_parser InvalidOperation = True"
| "caught_by_row_parser _ = False"

definition row_try :: "'a res \<Rightarrow> 'a res" where
  "row_try m = (case m of Inr x \<Rightarrow> Inr x
     | Inl e \<Rightarrow> Inl (if caught_by_row_parser e then ValidationFailedError ''Could not parse transaction row'' else e))"

definition parse_tx_row :: "int \<Rightarrow> tx_row \<Rightarrow> purchase_row res" where
  "parse_tx_row sid row = bindR (row_try (tr_date row)) (\<lambda>d. bindR (row_try (tr_amount row)) (\<lambda>a.
     bindR (case tr_quantity row of None \<Rightarrow> Inr None | Some q \<Rightarrow> bindR q (\<lambda>x. Inr (Some x))) (\<lambda>q.
     Inr \<lparr> pu_supplier = sid, pu_amount = a, pu_quantity = q, pu_date = d, pu_corrects = None \<rparr>)))"

fun min_date :: "pydate list \<Rightarrow> pydate" where
  "min_date [] = PyDate 1 1 1"
| "min_date (d # ds) = foldl min d ds"

fun max_date :: "pydate list \<Rightarrow> pydate" where
  "max_date [] = PyDate 1 1 1"
| "max_date (d # ds) = foldl max d ds"

definition commit_db :: "rebate_db \<Rightarrow> rebate_db res" where
  "commit_db db = bindR (commit (led db)) (\<lambda>l. Inr (db\<lparr> led := l \<rparr>))"

definition ingest_transactions :: "rebate_db \<Rightarrow> int \<Rightarrow> tx_row list \<Rightarrow> int \<Rightarrow> rebate_db res" where
  "ingest_transactions db sid rows now = bindR (mapR (parse_tx_row sid) rows) (\<lambda>ts.
     let db1 = db\<lparr> transactions := transactions db @ ts \<rparr> in
     bindR (if ts = [] then Inr db1
            else recalculate_affected_periods db1 sid (min_date (map pu_date ts)) (max_date (map pu_date ts)) now) commit_db)"

record invoice_line_input =
  il_quantity :: rat
  il_unit_price :: rat
  il_discount_pct :: "rat option"
  il_reference_price :: "rat option"

definition invoice_line :: "int \<Rightarrow> pydate \<Rightarrow> invoice_line_input \<Rightarrow> (purchase_row \<times> price_variance option) res" where
  "invoice_line sid d li = bindR (calculate_invoice_line_net_amount (il_quantity li) (il_unit_price li) (il_discount_pct li)) (\<lambda>n.
     bindR (case il_reference_price li of None \<Rightarrow> Inr None
        | Some p \<Rightarrow> bindR (calculate_purchase_price_variance p (il_unit_price li) (il_quantity li)) (\<lambda>v. Inr (Some v))) (\<lambda>v.
     Inr (\<lparr> pu_supplier = sid, pu_amount = n, pu_quantity = Some (il_quantity li), pu_date = d, pu_corrects = None \<rparr>, v)))"

definition ingest_purchase_invoice ::
    "rebate_db \<Rightarrow> int option \<Rightarrow> pydate \<Rightarrow> invoice_line_input list \<Rightarrow> int \<Rightarrow> (rebate_db \<times> price_variance list) res" where
  "ingest_purchase_invoice db supplier d lines now = (case supplier of
     None \<Rightarrow> Inl (NotFoundError ''Supplier not found'')
   | Some sid \<Rightarrow> bindR (mapR (invoice_line sid d) lines) (\<lambda>ls.
       bindR (recalculate_affected_periods (db\<lparr> invoice_lines := invoice_lines db @ map fst ls \<rparr>) sid d d now) (\<lambda>db2.
       bindR (commit_db db2) (\<lambda>db3. Inr (db3, List.map_filter snd ls)))))"

record purchase_order_line =
  po_quantity :: rat
  po_unit_price :: rat
  po_line_total :: rat

definition create_purchase_order :: "int option \<Rightarrow> (rat \<times> rat) list \<Rightarrow> (int \<times> purchase_order_line list) res" where
  "create_purchase_order supplier lines = (case supplier of
     None \<Rightarrow> Inl (NotFoundError ''Supplier not found'')
   | Some sid \<Rightarrow> Inr (sid, map (\<lambda>(q, p). \<lparr> po_quantity = q, po_unit_price = p, po_line_total = dmul q p \<rparr>) lines))"

definition record_goods_receipt :: "int option \<Rightarrow> (rat option \<times> rat) list \<Rightarrow> (int \<times> receipt_variance list) res" where
  "record_goods_receipt supplier lines = (case supplier of
     None \<Rightarrow> Inl (NotFoundError ''Supplier not found'')
   | Some sid \<Rightarrow> bindR (mapR (\<lambda>(ordered, got). case ordered of None \<Rightarrow> Inr None
         | Some q \<Rightarrow> bindR (calculate_receipt_variance q got) (\<lambda>v. Inr (Some v))) lines) (\<lambda>vs.
       Inr (sid, List.map_filter id vs)))"

section \<open>Lemmas: one recalculated period\<close>

fun source_rank :: "entry_source \<Rightarrow> int" where
  "source_rank MANUAL = 0"
| "source_rank TRANSACTION_AGGREGATION = 1"
| "source_rank INVOICE_AGGREGATION = 2"

lemma write_expected_InrD:
  assumes "write_expected_amount_event l rid n reason = Inr l'"
  shows "\<exists>r. map_of (rpas l) rid = Some r \<and> map_of (rpas l') = (map_of (rpas l))(rid \<mapsto>
      r\<lparr> rp_expected := \<lparr> c_snap = row_view Expected_amount n, c_event = Some (next_event_id l) \<rparr> \<rparr>) \<and>
    map fst (rpas l') = map fst (rpas l) \<and> opps l' = opps l \<and> evidence l' = evidence l"
  using assms by (auto simp: write_expected_amount_event_def append_event_def Let_def keys_update
      simp del: row_view.simps split: option.splits dest: map_of_SomeD)
    (metis fst_conv image_eqI map_of_SomeD)

definition aggregated_period :: "rpa \<Rightarrow> transaction_aggregate \<Rightarrow> entry_source \<Rightarrow> rpa" where
  "aggregated_period r agg src = r\<lparr> rp_actual_spend := Some (ta_total_spend agg),
     rp_actual_volume := Some (ta_total_volume agg), rp_entry_source := src \<rparr>"

lemma choose_source_rank: "choose_source db sid r = (ts, src) \<Longrightarrow> source_rank (rp_entry_source r) \<le> source_rank src"
  by (cases "rp_entry_source r") (auto simp: choose_source_def split: if_splits)

lemma recalculate_period_InrD:
  assumes "recalculate_period sid now db rid = Inr db'"
  obtains (kept) r ts where "db' = db" "map_of (rpas (led db)) rid = Some r" "choose_source db sid r = (ts, MANUAL)"
  | (aggregated) r a ts src agg x e where "map_of (rpas (led db)) rid = Some r"
      "map_of (agreements db) (rp_agreement r) = Some a" "choose_source db sid r = (ts, src)"
      "aggregate_transactions_for_period ts (rp_period_start r) (rp_period_end r) = Inr agg"
      "compute_expected_amount a (aggregated_period r agg src) = Inr (Some x)"
      "recalculate_expected (put_period (led db) rid (aggregated_period r agg src)) a rid now Recalculation = Inr (led db')"
      "agreements db' = agreements db" "invoice_lines db' = invoice_lines db" "transactions db' = transactions db"
      "alerts db' = alerts db"
      "map_of (rpas (led db')) = (map_of (rpas (led db)))(rid \<mapsto> (aggregated_period r agg src)\<lparr> rp_expected :=
        \<lparr> c_snap = expected_snap now (Some x), c_event = Some e \<rparr> \<rparr>)"
      "map fst (rpas (led db')) = map fst (rpas (led db))"
proof -
  obtain r a where r: "map_of (rpas (led db)) rid = Some r" and a: "map_of (agreements db) (rp_agreement r) = Some a"
    using assms by (auto simp: recalculate_period_def split: option.splits)
  obtain ts src where cs: "choose_source db sid r = (ts, src)" by fastforce
  show ?thesis
  proof (cases "src \<in> {INVOICE_AGGREGATION, TRANSACTION_AGGREGATION}")
    case False
    then have "src = MANUAL" by (cases src) auto
    then show ?thesis using assms kept [OF _ r] cs by (simp add: recalculate_period_def r a cs)
  next
    case True
    then obtain agg l where agg: "aggregate_transactions_for_period ts (rp_period_start r) (rp_period_end r) = Inr agg"
      and l: "recalculate_expected (put_period (led db) rid (aggregated_period r agg src)) a rid now Recalculation = Inr l"
      and db': "db' = db\<lparr> led := l \<rparr>"
      using assms by (auto simp: recalculate_period_def r a cs res_simps aggregated_period_def)
    let ?p = "aggregated_period r agg src" and ?l = "put_period (led db) rid (aggregated_period r agg src)"
    obtain y where y: "compute_expected_amount a ?p = Inr y"
      and w: "write_expected_amount_event ?l rid (expected_snap now y) Recalculation = Inr l"
      using l by (auto simp: recalculate_expected_def res_simps)
    obtain x where x: "y = Some x"
      using y by (auto simp: compute_expected_amount_def aggregated_period_def res_simps)
    have k: "map fst (rpas ?l) = map fst (rpas (led db))"
      using r by (auto simp: put_period_def keys_update dest: map_of_SomeD) (metis fst_conv image_eqI map_of_SomeD)
    show ?thesis
      using write_expected_InrD [OF w] k
      by (intro aggregated [where e = "next_event_id ?l", OF r a cs agg])
        (auto simp: x y [unfolded x] db' l simp del: row_view.simps)
  qed
qed

lemma choose_source_led [simp]: "choose_source (db\<lparr> led := l \<rparr>) sid r = choose_source db sid r"
  by (simp add: choose_source_def invoice_tuples_def transaction_tuples_def)

definition same_source_data :: "rebate_db \<Rightarrow> rebate_db \<Rightarrow> bool" where
  "same_source_data db db' = (agreements db' = agreements db \<and> invoice_lines db' = invoice_lines db \<and>
     transactions db' = transactions db \<and> alerts db' = alerts db \<and> map fst (rpas (led db')) = map fst (rpas (led db)))"

lemma same_source_choose: "same_source_data db db' \<Longrightarrow> choose_source db' sid r = choose_source db sid r"
  by (simp add: same_source_data_def choose_source_def invoice_tuples_def transaction_tuples_def)

text \<open>The loop, row by row: every listed row is processed once on its original contents.\<close>

lemma recalculate_loop:
  assumes "foldR (recalculate_period sid now) db rids = Inr db'" "distinct rids"
  shows "same_source_data db db' \<and> (\<forall>k. k \<notin> set rids \<longrightarrow> map_of (rpas (led db')) k = map_of (rpas (led db)) k) \<and>
    (\<forall>k\<in>set rids. \<exists>d1 d2. same_source_data db d1 \<and> map_of (rpas (led d1)) k = map_of (rpas (led db)) k \<and>
       recalculate_period sid now d1 k = Inr d2 \<and> map_of (rpas (led db')) k = map_of (rpas (led d2)) k)"
  using assms
proof (induction rids arbitrary: db)
  case Nil
  then show ?case by (simp add: same_source_data_def)
next
  case (Cons k ks)
  obtain d where d: "recalculate_period sid now db k = Inr d" "foldR (recalculate_period sid now) d ks = Inr db'"
    using Cons.prems(1) by (auto simp: res_simps)
  have s: "same_source_data db d" and other: "\<And>j. j \<noteq> k \<Longrightarrow> map_of (rpas (led d)) j = map_of (rpas (led db)) j"
    using d(1) by (cases rule: recalculate_period_InrD; simp add: same_source_data_def)+
  have k: "k \<notin> set ks" "distinct ks" using Cons.prems(2) by simp_all
  note IH = Cons.IH [OF d(2) k(2)]
  note IHs = IH [THEN conjunct1] and IHo = IH [THEN conjunct2, THEN conjunct1, rule_format]
    and IHm = IH [THEN conjunct2, THEN conjunct2, THEN bspec]
  have tr: "same_source_data db y" if "same_source_data d y" for y
    using that s by (simp add: same_source_data_def)
  show ?case
  proof (intro conjI allI ballI impI)
    show "same_source_data db db'" by (rule tr [OF IHs])
    show "map_of (rpas (led db')) j = map_of (rpas (led db)) j" if "j \<notin> set (k # ks)" for j
      using that IHo other by simp
    show "\<exists>d1 d2. same_source_data db d1 \<and> map_of (rpas (led d1)) j = map_of (rpas (led db)) j \<and>
       recalculate_period sid now d1 j = Inr d2 \<and> map_of (rpas (led db')) j = map_of (rpas (led d2)) j"
      if "j \<in> set (k # ks)" for j
    proof (cases "j = k")
      case True
      then show ?thesis using d(1) IHo [OF k(1)]
        by (intro exI [of _ db] exI [of _ d]) (simp add: same_source_data_def)
    next
      case False
      then have "j \<in> set ks" using that by simp
      then obtain d1 d2 where "same_source_data d d1" "map_of (rpas (led d1)) j = map_of (rpas (led d)) j"
        "recalculate_period sid now d1 j = Inr d2" "map_of (rpas (led db')) j = map_of (rpas (led d2)) j"
        using IHm by blast
      then show ?thesis using tr other [OF False] by (intro exI [of _ d1] exI [of _ d2]) simp
    qed
  qed
qed

lemma affected_distinct: "keys_ok (led db) \<Longrightarrow> distinct (affected_periods db sid a b)"
  unfolding affected_periods_def keys_ok_def by (rule distinct_map_filter) simp

lemma affected_iff:
  assumes "keys_ok (led db)" "map_of (rpas (led db)) k = Some r"
  shows "k \<in> set (affected_periods db sid a b) \<longleftrightarrow>
    (\<exists>ag. map_of (agreements db) (rp_agreement r) = Some ag \<and> ag_supplier ag = sid) \<and>
    rp_earned r = None \<and> rp_period_start r \<le> b \<and> a \<le> rp_period_end r"
proof -
  have d: "distinct (map fst (rpas (led db)))" using assms(1) by (simp add: keys_ok_def)
  have "(k, r') \<in> set (rpas (led db)) \<longleftrightarrow> r' = r" for r'
    unfolding row_in [OF d, symmetric] assms(2) by auto
  then show ?thesis by (auto simp: affected_periods_def image_iff split: option.splits)
qed

lemma recalculated_row:
  assumes k: "keys_ok (led db)" and a: "recalculate_affected_periods db sid a b now = Inr db'"
    and r: "map_of (rpas (led db)) k = Some r" and m: "k \<in> set (affected_periods db sid a b)"
  obtains (kept) "rp_entry_source r = MANUAL" "invoice_tuples db sid = []" "transaction_tuples db sid = []"
      "map_of (rpas (led db')) k = Some r"
  | (aggregated) ts src agg ag x e where "choose_source db sid r = (ts, src)" "src \<noteq> MANUAL"
      "map_of (agreements db) (rp_agreement r) = Some ag"
      "aggregate_transactions_for_period ts (rp_period_start r) (rp_period_end r) = Inr agg"
      "compute_expected_amount ag (aggregated_period r agg src) = Inr (Some x)"
      "map_of (rpas (led db')) k = Some ((aggregated_period r agg src)\<lparr> rp_expected :=
        \<lparr> c_snap = expected_snap now (Some x), c_event = Some e \<rparr> \<rparr>)"
proof -
  obtain d1 d2 where d: "same_source_data db d1" "map_of (rpas (led d1)) k = Some r"
    "recalculate_period sid now d1 k = Inr d2" "map_of (rpas (led db')) k = map_of (rpas (led d2)) k"
    using recalculate_loop [OF a [unfolded recalculate_affected_periods_def] affected_distinct [OF k]] m r by metis
  obtain ag where ag: "map_of (agreements db) (rp_agreement r) = Some ag"
    using m affected_iff [OF k r] by blast
  have agd: "map_of (agreements d1) (rp_agreement r) = Some ag" using ag d(1) by (simp add: same_source_data_def)
  obtain ts src where cs: "choose_source db sid r = (ts, src)" by fastforce
  show ?thesis
  proof (cases "src = MANUAL")
    case True
    then have "rp_entry_source r = MANUAL" "invoice_tuples db sid = []" "transaction_tuples db sid = []"
      using cs by (auto simp: choose_source_def split: if_splits)
    moreover have "d2 = d1"
      using d(3) True by (simp add: recalculate_period_def d(2) agd same_source_choose [OF d(1)] cs)
    ultimately show ?thesis using kept d(2,4) by simp
  next
    case False
    show ?thesis
      using d(3)
    proof (cases rule: recalculate_period_InrD)
      case (kept r' ts')
      then have False using False cs d(2) by (simp add: same_source_choose [OF d(1)])
      then show ?thesis ..
    next
      case (aggregated r' a ts' src' agg x e)
      have "r' = r" "a = ag" "ts' = ts" "src' = src"
        using aggregated(1,2,3) d(2) agd cs by (simp_all add: same_source_choose [OF d(1)])
      then show ?thesis using that(2) [OF cs False ag] aggregated d(4) by simp
    qed
  qed
qed

section \<open>An example upload\<close>

definition example_upload :: rebate_db where
  "example_upload = (example_db (example_ledger (plain_snap None Unknown)))\<lparr>
     invoice_lines := [\<lparr> pu_supplier = 3, pu_amount = 900, pu_quantity = None, pu_date = PyDate 2025 12 1, pu_corrects = None \<rparr>],
     transactions := [\<lparr> pu_supplier = 3, pu_amount = 500, pu_quantity = None, pu_date = PyDate 2026 2 1, pu_corrects = None \<rparr>] \<rparr>"

abbreviation "upload_day \<equiv> PyDate 2026 2 1"

lemma example_upload_simps:
  "keys_ok (led example_upload)" "ready (led example_upload)"
  "map_of (rpas (led example_upload)) 1 = Some (example_period (plain_snap None Unknown))"
  "map_of (agreements example_upload) 7 = Some example_agreement"
  "invoice_tuples example_upload 3 = [(900, 0, PyDate 2025 12 1)]"
  "affected_periods example_upload 3 upload_day upload_day = [1]"
  using example_snaps(1)
  by (simp_all add: example_upload_def example_db_def example_ledger_def keys_ok_def example_period_def affected_periods_def
      example_agreement_def less_eq_pydate_def invoice_tuples_def row_tuples_def)

lemma example_upload_runs:
  "\<exists>db'. recalculate_affected_periods example_upload 3 upload_day upload_day 9 = Inr db'"
proof -
  have c: "choose_source example_upload 3 (example_period (plain_snap None Unknown)) =
      ([(900, 0, PyDate 2025 12 1)], INVOICE_AGGREGATION)"
    by (simp add: choose_source_def example_upload_simps example_period_def)
  have g: "aggregate_transactions_for_period [(900, 0, PyDate 2025 12 1)] (PyDate 2026 1 1) (PyDate 2026 3 31) =
      Inr \<lparr> ta_total_spend = 0, ta_total_volume = 0, ta_transaction_count = 0 \<rparr>"
    by (simp add: aggregate_transactions_for_period_def less_eq_pydate_def dsum_def dec_eval)
  have x: "calculate_expected_rebate 0 TIERED None (Some example_bands) None = Inr 0"
    by (simp add: tiered_rebate rebate_tier_def best_reached_def example_bands_def)
  have ag: "ag_type example_agreement = TIERED" "ag_flat example_agreement = None" "ag_fixed example_agreement = None"
    "bands_from_agreement example_agreement = Some example_bands"
    by (simp_all add: example_agreement_def bands_from_agreement_def example_bands_def)
  have p: "rp_agreement (example_period s) = 7" "rp_period_start (example_period s) = PyDate 2026 1 1" for s
    by (simp_all add: example_period_def)
  show ?thesis
    by (simp add: recalculate_affected_periods_def example_upload_simps recalculate_period_def c g p
        recalculate_expected_def compute_expected_amount_def ag x write_expected_amount_event_def append_event_def Let_def
        del: row_view.simps)
qed

section \<open>Properties\<close>

text \<open>What a re-aggregation may touch: closed periods, periods of other suppliers and periods outside
  the uploaded dates keep their row; no row loses its closing or its receipt, and the authority of a
  period's source never decreases.\<close>

lemma aggregation_frame:
  assumes k: "keys_ok (led db)" and a: "recalculate_affected_periods db sid a b now = Inr db'"
    and r: "map_of (rpas (led db)) i = Some r"
  shows "\<exists>r'. map_of (rpas (led db')) i = Some r' \<and> rp_earned r' = rp_earned r \<and> rp_received r' = rp_received r \<and>
    source_rank (rp_entry_source r) \<le> source_rank (rp_entry_source r') \<and>
    (rp_earned r \<noteq> None \<or> b < rp_period_start r \<or> rp_period_end r < a \<or>
      (\<forall>ag. map_of (agreements db) (rp_agreement r) = Some ag \<longrightarrow> ag_supplier ag \<noteq> sid) \<longrightarrow> r' = r)"
proof (cases "i \<in> set (affected_periods db sid a b)")
  case False
  then have "map_of (rpas (led db')) i = Some r"
    using recalculate_loop [OF a [unfolded recalculate_affected_periods_def] affected_distinct [OF k]] r by simp
  then show ?thesis by simp
next
  case True
  note af = True [unfolded affected_iff [OF k r]]
  from k a r True show ?thesis
  proof (cases rule: recalculated_row)
    case kept
    then show ?thesis by simp
  next
    case (aggregated ts src agg ag x e)
    then show ?thesis using choose_source_rank [OF aggregated(1)] af
      by (auto simp: aggregated_period_def not_less)
  qed
qed

lemma aggregation_frame_witness:
  "\<exists>db' r'. recalculate_affected_periods example_upload 3 upload_day upload_day 9 = Inr db' \<and>
     map_of (rpas (led db')) 1 = Some r' \<and> rp_earned r' = None"
  using example_upload_runs aggregation_frame [OF example_upload_simps(1) _ example_upload_simps(3)]
  by (metis example_expected(2))

text \<open>After a re-aggregation every affected period that has data shows exactly the total of its
  authoritative source within its own dates, and the rebate expected on that total.\<close>

lemma aggregation_totals:
  assumes k: "keys_ok (led db)" and a: "recalculate_affected_periods db sid a b now = Inr db'"
    and r: "map_of (rpas (led db)) i = Some r" and m: "i \<in> set (affected_periods db sid a b)"
    and src: "choose_source db sid r = (ts, src)" "src \<noteq> MANUAL"
  shows "\<exists>r' agg ag x. map_of (rpas (led db')) i = Some r' \<and> map_of (agreements db) (rp_agreement r) = Some ag \<and>
    aggregate_transactions_for_period ts (rp_period_start r) (rp_period_end r) = Inr agg \<and>
    calculate_expected_rebate (ta_total_spend agg) (ag_type ag) (ag_flat ag) (bands_from_agreement ag) (ag_fixed ag) = Inr x \<and>
    rp_actual_spend r' = Some (ta_total_spend agg) \<and> rp_actual_volume r' = Some (ta_total_volume agg) \<and>
    rp_entry_source r' = src \<and> c_snap (rp_expected r') = expected_snap now (Some x)"
  using k a r m
proof (cases rule: recalculated_row)
  case kept
  then show ?thesis using src by (simp add: choose_source_def)
next
  case (aggregated ts' src' agg ag x e)
  then show ?thesis using src
    by (auto simp: aggregated_period_def compute_expected_amount_def res_simps)
qed

lemma aggregation_totals_witness:
  "\<exists>db' r'. recalculate_affected_periods example_upload 3 upload_day upload_day 9 = Inr db' \<and>
     map_of (rpas (led db')) 1 = Some r' \<and> rp_entry_source r' = INVOICE_AGGREGATION"
proof -
  obtain db' where a: "recalculate_affected_periods example_upload 3 upload_day upload_day 9 = Inr db'"
    using example_upload_runs by blast
  have "choose_source example_upload 3 (example_period (plain_snap None Unknown)) =
      (invoice_tuples example_upload 3, INVOICE_AGGREGATION)" by (simp add: choose_source_def example_upload_simps)
  from aggregation_totals [OF example_upload_simps(1) a example_upload_simps(3) _ this] a
  show ?thesis by (auto simp: example_upload_simps)
qed

text \<open>C7: One invoice of the supplier anywhere in time switches a period to invoices: if none of the
  supplier's invoices is dated inside an affected period, its spend is set to zero, whatever
  transactions the period has.\<close>

lemma foreign_invoice_zeroes_period:
  assumes k: "keys_ok (led db)" and a: "recalculate_affected_periods db sid a b now = Inr db'"
    and r: "map_of (rpas (led db)) i = Some r" and m: "i \<in> set (affected_periods db sid a b)"
    and some: "invoice_tuples db sid \<noteq> []"
    and out: "\<And>x q d. (x, q, d) \<in> set (invoice_tuples db sid) \<Longrightarrow> d < rp_period_start r \<or> rp_period_end r < d"
  shows "\<exists>r'. map_of (rpas (led db')) i = Some r' \<and> rp_actual_spend r' = Some 0 \<and> rp_entry_source r' = INVOICE_AGGREGATION"
proof -
  have c: "choose_source db sid r = (invoice_tuples db sid, INVOICE_AGGREGATION)"
    using some by (simp add: choose_source_def)
  have e: "filter (\<lambda>(x, q, d). rp_period_start r \<le> d \<and> d \<le> rp_period_end r) (invoice_tuples db sid) = []"
    using out by (fastforce simp: filter_empty_conv not_le)
  have z: "aggregate_transactions_for_period (invoice_tuples db sid) (rp_period_start r) (rp_period_end r) =
      Inr \<lparr> ta_total_spend = 0, ta_total_volume = 0, ta_transaction_count = 0 \<rparr>"
    unfolding aggregate_transactions_for_period_def Let_def e by (simp add: dsum_def dec_eval)
  from k a r m show ?thesis
  proof (cases rule: recalculated_row)
    case kept
    then show ?thesis using some by simp
  next
    case (aggregated ts src agg ag x e)
    then show ?thesis using c z by (auto simp: aggregated_period_def)
  qed
qed

lemma foreign_invoice_zeroes_period_witness:
  "\<exists>db' r'. recalculate_affected_periods example_upload 3 upload_day upload_day 9 = Inr db' \<and>
     transaction_tuples example_upload 3 = [(500, 0, upload_day)] \<and>
     map_of (rpas (led db')) 1 = Some r' \<and> rp_actual_spend r' = Some 0"
proof -
  obtain db' where a: "recalculate_affected_periods example_upload 3 upload_day upload_day 9 = Inr db'"
    using example_upload_runs by blast
  have t: "transaction_tuples example_upload 3 = [(500, 0, upload_day)]"
    by (simp add: transaction_tuples_def row_tuples_def example_upload_def)
  have "\<exists>r'. map_of (rpas (led db')) 1 = Some r' \<and> rp_actual_spend r' = Some 0 \<and> rp_entry_source r' = INVOICE_AGGREGATION"
    by (rule foreign_invoice_zeroes_period [OF example_upload_simps(1) a example_upload_simps(3)])
      (auto simp: example_upload_simps example_period_def less_pydate_def less_eq_pydate_def)
  with a t show ?thesis by blast
qed

text \<open>C13: An upload succeeds at the database as long as no affected period has a confirmed amount:
  whatever the recalculation wrote is accepted at commit.\<close>

lemma aggregation_commits:
  assumes q: "ready (led db)" and a: "recalculate_affected_periods db sid a b now = Inr db'"
    and nc: "\<And>i r. i \<in> set (affected_periods db sid a b) \<Longrightarrow> map_of (rpas (led db)) i = Some r \<Longrightarrow>
      s_status (c_snap (rp_expected r)) \<noteq> Confirmed"
  shows "ready (led db') \<and> commit (led db') = Inr (led db')"
proof -
  have loop: "ready (led y)" if "foldR (recalculate_period sid now) x is' = Inr y" "distinct is'" "ready (led x)"
    "\<And>i r. i \<in> set is' \<Longrightarrow> map_of (rpas (led x)) i = Some r \<Longrightarrow> s_status (c_snap (rp_expected r)) \<noteq> Confirmed" for is' x y
    using that
  proof (induction is' arbitrary: x)
    case (Cons i is')
    obtain z where z: "recalculate_period sid now x i = Inr z" "foldR (recalculate_period sid now) z is' = Inr y"
      using Cons.prems(1) by (auto simp: res_simps)
    have "ready (led z) \<and> (\<forall>j. j \<noteq> i \<longrightarrow> map_of (rpas (led z)) j = map_of (rpas (led x)) j)"
      using z(1)
    proof (cases rule: recalculate_period_InrD)
      case (aggregated r ag ts src agg v e)
      let ?l = "put_period (led x) i (aggregated_period r agg src)" and ?r = "aggregated_period r agg src"
      note qx = Cons.prems(3) [unfolded ready_consistent]
      have q1: "consistent_but ?l {}"
        using put_period_consistent [OF qx aggregated(1), of ?r] by (simp add: aggregated_period_def)
      have row: "map_of (rpas ?l) i = Some ?r" by simp
      have "ev_tier (s_status (c_snap (rp_expected ?r))) \<le> 3"
        using Cons.prems(4) [OF _ aggregated(1)]
        by (cases "s_status (c_snap (rp_expected r))") (auto simp: aggregated_period_def)
      then have may: "may_recalculate ?l {} i ?r (Some v) Recalculation" by (simp add: may_recalculate_def)
      obtain l' where l': "recalculate_expected ?l ag i now Recalculation = Inr l'"
        "consistent_but l' ({} - {(Rpa i, Expected_amount)})"
        by (rule recalculate_consistent [OF q1 row aggregated(5) _ may]) (use ready_row(2) [OF q1 row] in simp)
      then show ?thesis using aggregated by (simp add: ready_consistent)
    qed (use Cons.prems(3) in simp)
    then have z': "ready (led z)" "\<And>j. j \<noteq> i \<Longrightarrow> map_of (rpas (led z)) j = map_of (rpas (led x)) j" by auto
    show ?case
    proof (rule Cons.IH [OF z(2) _ z'(1)])
      show "distinct is'" using Cons.prems(2) by simp
      show "s_status (c_snap (rp_expected r)) \<noteq> Confirmed"
        if "j \<in> set is'" "map_of (rpas (led z)) j = Some r" for j r
      proof -
        have "j \<noteq> i" using Cons.prems(2) that(1) by auto
        then show ?thesis using Cons.prems(4) [of j r] that z'(2) by simp
      qed
    qed
  qed simp
  have "ready (led db')"
    using loop [OF a [unfolded recalculate_affected_periods_def]] q nc
      affected_distinct [OF consistent_butD(2) [OF q [unfolded ready_consistent]]] by blast
  then show ?thesis by (simp add: ready_commit)
qed

lemma aggregation_commits_witness:
  "\<exists>db'. recalculate_affected_periods example_upload 3 upload_day upload_day 9 = Inr db' \<and> commit (led db') = Inr (led db')"
proof -
  obtain db' where a: "recalculate_affected_periods example_upload 3 upload_day upload_day 9 = Inr db'"
    using example_upload_runs by blast
  have "ready (led db') \<and> commit (led db') = Inr (led db')"
    by (rule aggregation_commits [OF example_upload_simps(2) a])
      (auto simp: example_upload_simps plain_snap_def)
  with a show ?thesis by blast
qed

text \<open>An upload is all or nothing: one row whose date or amount cannot be parsed fails the whole
  batch, and no transaction of it is stored.\<close>

lemma one_bad_row_fails_batch:
  assumes "row \<in> set rows" "tr_date row = Inl (ValueError m) \<or> tr_amount row = Inl InvalidOperation"
  shows "\<exists>e. ingest_transactions db sid rows now = Inl e"
proof -
  have bad: "\<exists>e. parse_tx_row sid row = Inl e"
    using assms(2) by (cases "tr_date row") (auto simp: parse_tx_row_def row_try_def)
  have "\<exists>e. mapR (parse_tx_row sid) rows = Inl e"
    using assms(1)
  proof (induction rows)
    case (Cons x xs)
    then show ?case using bad by (cases "parse_tx_row sid x") auto
  qed simp
  then show ?thesis by (auto simp: ingest_transactions_def)
qed

lemma one_bad_row_fails_batch_witness:
  "\<exists>e. ingest_transactions example_upload 3 [\<lparr> tr_date = Inr upload_day, tr_amount = Inl InvalidOperation, tr_quantity = None \<rparr>] 9 = Inl e"
  by (rule one_bad_row_fails_batch [where m = "''''"
        and row = "\<lparr> tr_date = Inr upload_day, tr_amount = Inl InvalidOperation, tr_quantity = None \<rparr>"]) simp_all

end
