(* ===== verification/OpportunityService.thy ===== *)
theory OpportunityService
  imports EvidenceWriters
begin

text \<open>
  The opportunity register: \<open>app/services/opportunity_service.py\<close> and
  \<open>price_review_service.create_opportunity_from_line\<close>, over the ledger of governed amounts.  An
  opportunity is found by id (the callers pass the loaded row); of its descriptive columns only the
  savings type is kept.  \<open>now\<close> stands for \<open>datetime.now(UTC)\<close>; evidence rows keep their type.
\<close>

section \<open>Operations\<close>

definition waterfall_order :: "string list" where
  "waterfall_order = [''identified'', ''validated'', ''approved'', ''implementation'', ''realised'']"

definition new_opportunity :: "int \<Rightarrow> string option \<Rightarrow> rat option \<Rightarrow> opp" where
  "new_opportunity org savings_type afi = \<lparr> op_org = org, op_savings_type = savings_type, op_status = ''identified'',
     op_approved_by = None,
     op_afi = \<lparr> c_snap = plain_snap afi Unknown, c_event = None \<rparr>,
     op_rs = \<lparr> c_snap = plain_snap None Unknown, c_event = None \<rparr> \<rparr>"

definition put_opportunity :: "ledger \<Rightarrow> int \<Rightarrow> opp \<Rightarrow> ledger" where
  "put_opportunity l oid r = l\<lparr> opps := AList.update oid r (opps l) \<rparr>"

definition estimate_snap :: "rat option \<Rightarrow> pydate option \<Rightarrow> snap" where
  "estimate_snap afi start = (case afi of None \<Rightarrow> plain_snap None Unknown
     | Some a \<Rightarrow> (plain_snap (Some a) Estimated)\<lparr> s_basis := Some Manual_estimate, s_start := start \<rparr>)"

text \<open>\<open>supplier\<close> is \<open>None\<close> when the payload names none, otherwise the result of the query.\<close>

definition create_opportunity ::
    "ledger \<Rightarrow> int \<Rightarrow> int option option \<Rightarrow> string option \<Rightarrow> rat option \<Rightarrow> pydate option \<Rightarrow> (ledger \<times> int) res" where
  "create_opportunity l org supplier savings_type afi effective_from =
     (if supplier = Some None then Inl (NotFoundError ''Supplier not found'')
      else if afi \<noteq> None \<and> effective_from = None
      then Inl (ConflictError ''annual_financial_impact requires annual_financial_impact_effective_from'')
      else let oid = fresh_id (opps l);
               l1 = put_opportunity l oid (new_opportunity org savings_type None)
           in bindR (write_opportunity_measure_event l1 oid Annual_financial_impact (estimate_snap afi effective_from) By_manual_estimate)
             (\<lambda>(l2, _). bindR (write_opportunity_measure_event l2 oid Realised_savings (plain_snap None Unknown) By_manual_estimate)
             (\<lambda>(l3, _). bindR (commit l3) (\<lambda>l4. Inr (l4, oid)))))"

fun index_of :: "'a list \<Rightarrow> 'a \<Rightarrow> int option" where
  "index_of [] y = None"
| "index_of (x # xs) y = (if x = y then Some 0 else map_option (\<lambda>i. i + 1) (index_of xs y))"

definition stage_step :: "string \<Rightarrow> string \<Rightarrow> string res" where
  "stage_step status target_status =
     (if target_status \<in> {''rejected'', ''expired''} then Inr target_status
      else (case index_of waterfall_order target_status of
          None \<Rightarrow> Inl (ConflictError ''Unknown waterfall stage'')
        | Some target_index \<Rightarrow>
            let current_index = (case index_of waterfall_order status of Some i \<Rightarrow> i | None \<Rightarrow> -1) in
            if target_index \<noteq> current_index + 1 then Inl (ConflictError ''the waterfall advances one stage at a time'')
            else Inr target_status))"

definition advance_waterfall_stage :: "ledger \<Rightarrow> int \<Rightarrow> int \<Rightarrow> string \<Rightarrow> ledger res" where
  "advance_waterfall_stage l user oid target_status = (case map_of (opps l) oid of
     None \<Rightarrow> Inl (NotFoundError ''opportunity'')
   | Some r \<Rightarrow> bindR (stage_step (op_status r) target_status) (\<lambda>st.
       commit (put_opportunity l oid (r\<lparr> op_status := st,
         op_approved_by := (if st = ''approved'' then Some user else op_approved_by r) \<rparr>))))"

definition realised_snap :: "int \<Rightarrow> int \<Rightarrow> rat \<Rightarrow> pydate \<Rightarrow> pydate \<Rightarrow> snap" where
  "realised_snap now user x ps pe = \<lparr> s_amount = Some x, s_status = Confirmed, s_basis = Some Reconciled_actuals,
     s_calculated_at = None, s_approved_at = Some now, s_approved_by = Some user, s_start = Some ps, s_end = Some pe \<rparr>"

definition realisation_evidence :: "evidence_type list" where
  "realisation_evidence = [Ev_documented_baseline, Ev_actual_cost_source, Ev_variance_calculation_reference]"

definition record_realised_savings ::
    "ledger \<Rightarrow> int \<Rightarrow> int \<Rightarrow> int \<Rightarrow> rat \<Rightarrow> pydate \<Rightarrow> pydate \<Rightarrow> ledger res" where
  "record_realised_savings l user now oid realised_savings effective_period_start effective_period_end =
     (case map_of (opps l) oid of None \<Rightarrow> Inl (NotFoundError ''opportunity'')
      | Some r \<Rightarrow>
          if op_status r \<noteq> ''implementation'' then Inl (ConflictError ''must be in implementation first'')
          else if effective_period_end < effective_period_start
          then Inl (ConflictError ''effective_period_start must not be after effective_period_end'')
          else bindR (write_opportunity_measure_event l oid Realised_savings
              (realised_snap now user realised_savings effective_period_start effective_period_end) Evidence_received)
            (\<lambda>(l1, i). case map_of (opps l1) oid of None \<Rightarrow> Inl (NotFoundError ''opportunity'')
              | Some r1 \<Rightarrow> commit (put_opportunity (l1\<lparr> evidence := evidence l1 @ map (Pair i) realisation_evidence \<rparr>)
                  oid (r1\<lparr> op_status := ''realised'' \<rparr>))))"

definition list_opportunities :: "ledger \<Rightarrow> string option \<Rightarrow> string option \<Rightarrow> opp list" where
  "list_opportunities l savings_type status = filter (\<lambda>r.
     (savings_type = None \<or> savings_type = Some [] \<or> op_savings_type r = savings_type) \<and>
     (status = None \<or> status = Some [] \<or> Some (op_status r) = status)) (map snd (opps l))"

text \<open>\<open>price_review_service.create_opportunity_from_line\<close> inserts the row and commits.\<close>

definition create_opportunity_from_line :: "ledger \<Rightarrow> int \<Rightarrow> rat option \<Rightarrow> (ledger \<times> int) res" where
  "create_opportunity_from_line l org annual_impact =
     (let oid = fresh_id (opps l)
      in bindR (commit (put_opportunity l oid (new_opportunity org None annual_impact))) (\<lambda>l'. Inr (l', oid)))"

section \<open>Lemmas\<close>

lemma put_opportunity_simps [simp]:
  "events (put_opportunity l oid r) = events l" "evidence (put_opportunity l oid r) = evidence l"
  "rpas (put_opportunity l oid r) = rpas l" "map_of (opps (put_opportunity l oid r)) = (map_of (opps l))(oid \<mapsto> r)"
  by (simp_all add: put_opportunity_def)

lemma put_opportunity_keys: "keys_ok l \<Longrightarrow> keys_ok (put_opportunity l oid r)"
  by (simp add: keys_ok_def put_opportunity_def)

lemma put_opportunity_cells:
  assumes "keys_ok l" "(org, p, m, c) \<in> set (cells (put_opportunity l oid r))"
  shows "((org, p, m, c) \<in> set (cells l) \<and> p \<noteq> Opp oid) \<or>
    (org = op_org r \<and> p = Opp oid \<and> (m = Annual_financial_impact \<and> c = op_afi r \<or> m = Realised_savings \<and> c = op_rs r))"
  using assms by (auto simp: cells_def put_opportunity_def keys_ok_def set_update)

lemma opp_cells:
  assumes "map_of (opps l) oid = Some r"
  shows "(op_org r, Opp oid, Annual_financial_impact, op_afi r) \<in> set (cells l)"
    "(op_org r, Opp oid, Realised_savings, op_rs r) \<in> set (cells l)"
  using map_of_SomeD [OF assms] by (force simp: cells_def)+

lemma put_opportunity_consistent:
  assumes q: "consistent_but l Q" and r: "map_of (opps l) oid = Some r"
    and same: "op_org r' = op_org r" "op_afi r' = op_afi r" "op_rs r' = op_rs r"
  shows "consistent_but (put_opportunity l oid r') Q"
proof (rule consistent_same [OF q])
  note k = consistent_butD(2) [OF q]
  show "keys_ok (put_opportunity l oid r')" using k by (rule put_opportunity_keys)
  show "parent_exists (put_opportunity l oid r') p = parent_exists l p" for p
    using r by (cases p) (auto split: if_splits)
  show "set (cells (put_opportunity l oid r')) \<subseteq> set (cells l)"
  proof
    fix x assume x: "x \<in> set (cells (put_opportunity l oid r'))"
    obtain org p m c where "x = (org, p, m, c)" by (cases x)
    then show "x \<in> set (cells l)" using put_opportunity_cells [OF k, of org p m c oid r'] x opp_cells [OF r] same by auto
  qed
qed simp_all

lemma insert_opportunity_consistent:
  assumes q: "consistent_but l Q" and new: "oid \<notin> fst ` set (opps l)"
  shows "consistent_but (put_opportunity l oid r)
      ({(Opp oid, Annual_financial_impact), (Opp oid, Realised_savings)} \<union> Q)"
    "chain_free (put_opportunity l oid r) (Opp oid) m"
proof -
  note k = consistent_butD(2) [OF q]
  show "consistent_but (put_opportunity l oid r) ({(Opp oid, Annual_financial_impact), (Opp oid, Realised_savings)} \<union> Q)"
  proof (rule consistent_grow [OF q])
    show "keys_ok (put_opportunity l oid r)" using k by (rule put_opportunity_keys)
    show "parent_exists (put_opportunity l oid r) p" if "parent_exists l p" for p using that by (cases p) auto
    show "(org, p, m, c) \<in> set (cells l) \<or> (p, m) \<in> {(Opp oid, Annual_financial_impact), (Opp oid, Realised_savings)} \<union> Q"
      if "(org, p, m, c) \<in> set (cells (put_opportunity l oid r))" for org p m c
      using put_opportunity_cells [OF k that] by auto
  qed auto
  show "chain_free (put_opportunity l oid r) (Opp oid) m"
    using new_parent_chain_free [OF q, of "Opp oid" m] new by (simp add: chain_free_def map_of_eq_None_iff)
qed

lemma opp_snaps_ok [simp]:
  "row_view Annual_financial_impact (estimate_snap afi d) = estimate_snap afi d"
  "row_view Realised_savings (realised_snap now user x ps pe) = realised_snap now user x ps pe"
  "row_view m (plain_snap a st) = plain_snap a st"
  "s_status (estimate_snap afi d) = (if afi = None then Unknown else Estimated)"
  "s_amount (estimate_snap afi d) = afi"
  by (cases m; cases afi; simp add: estimate_snap_def plain_snap_def realised_snap_def)+

lemma opp_snaps_combination:
  "afi \<noteq> None \<Longrightarrow> d \<noteq> None \<Longrightarrow> state_combination Annual_financial_impact (estimate_snap afi d)"
  "state_combination Annual_financial_impact (estimate_snap None d)"
  "state_combination m (plain_snap None Unknown)"
  "ps \<le> pe \<Longrightarrow> state_combination Realised_savings (realised_snap now user x ps pe)"
  by (cases m; auto simp: estimate_snap_def plain_snap_def realised_snap_def no_provenance_def no_period_def full_period_def)+

lemma write_opp_InrD:
  assumes "write_opportunity_measure_event l oid m n reason = Inr (l', i)" "row_view m n = n"
  shows "\<exists>r. map_of (opps l) oid = Some r \<and> i = next_event_id l \<and>
    map_of (opps l') = (map_of (opps l))(oid \<mapsto> set_measure_cell m \<lparr> c_snap = n, c_event = Some i \<rparr> r) \<and>
    rpas l' = rpas l \<and> evidence l' = evidence l \<and>
    (\<exists>e. events l' = events l @ [e] \<and> ev_parent e = Opp oid \<and> ev_measure e = m \<and> ev_id e = i \<and> ev_new e = n)"
  using assms by (auto simp: write_opportunity_measure_event_def append_event_def Let_def
      split: option.splits if_splits)

text \<open>One write of an opportunity measure, as the contract of the writer gives it.\<close>

lemma opp_write_consistent:
  assumes m: "m = Annual_financial_impact \<or> m = Realised_savings"
    and q: "consistent_but l Q" and r: "map_of (opps l) oid = Some r"
    and n: "row_view m n = n" "state_combination m n"
    and row: "row_view m (c_snap (measure_cell m r)) = c_snap (measure_cell m r)"
    and may: "may_append l (op_org r) (Opp oid) m (c_snap (measure_cell m r)) n reason"
    and evs: "\<And>e d. ev_id e = next_event_id l \<Longrightarrow> ev_measure e = m \<Longrightarrow> ev_new e = n \<Longrightarrow>
        check_confirmed_event_has_sufficient_evidence (d\<lparr> evidence := evidence l @ es \<rparr>) e"
  obtains l' where "write_opportunity_measure_event l oid m n reason = Inr (l', next_event_id l)"
    "consistent_but (l'\<lparr> evidence := evidence l @ es \<rparr>) (Q - {(Opp oid, m)})"
proof -
  have g: "measure_get m l oid = Some (op_org r, measure_cell m r)" by (simp add: measure_get_def r)
  obtain l' where l': "measure_write m l oid n reason = Inr l'"
    "consistent_but (l'\<lparr> evidence := evidence l @ es \<rparr>) (Q - {(Opp oid, m)})"
    using measure_writer.write_consistent [OF measure_writer_opp [OF m] q g n row may evs] by blast
  then obtain i where "write_opportunity_measure_event l oid m n reason = Inr (l', i)"
    by (auto simp: measure_write_def res_simps)
  then show ?thesis using that l'(2) write_opp_InrD [OF _ n(1)] by blast
qed

text \<open>The first event of a measure of a new opportunity.\<close>

lemma opp_genesis:
  assumes m: "m = Annual_financial_impact \<or> m = Realised_savings"
    and q: "consistent_but l Q" and r: "map_of (opps l) oid = Some r" and free: "chain_free l (Opp oid) m"
    and n: "row_view m n = n" "state_combination m n" "s_status n \<noteq> Confirmed"
    and row: "row_view m (c_snap (measure_cell m r)) = c_snap (measure_cell m r)"
  obtains l' c where "write_opportunity_measure_event l oid m n reason = Inr (l', next_event_id l)"
    "consistent_but l' (Q - {(Opp oid, m)})" "c_snap c = n"
    "map_of (opps l') = (map_of (opps l))(oid \<mapsto> set_measure_cell m c r)"
    "\<And>m'. m' \<noteq> m \<Longrightarrow> chain_free l (Opp oid) m' \<Longrightarrow> chain_free l' (Opp oid) m'"
proof -
  have may: "may_append l (op_org r) (Opp oid) m (c_snap (measure_cell m r)) n reason"
    using free by (simp add: may_append_def)
  have nc: "check_confirmed_event_has_sufficient_evidence (d\<lparr> evidence := evidence l @ [] \<rparr>) e" if "ev_new e = n" for d e
    using n(3) that by (simp add: check_confirmed_event_has_sufficient_evidence_def)
  obtain l' where w: "write_opportunity_measure_event l oid m n reason = Inr (l', next_event_id l)"
    and c: "consistent_but (l'\<lparr> evidence := evidence l @ [] \<rparr>) (Q - {(Opp oid, m)})"
    by (rule opp_write_consistent [OF m q r n(1,2) row may nc])
  obtain e where d: "map_of (opps l') = (map_of (opps l))(oid \<mapsto>
      set_measure_cell m \<lparr> c_snap = n, c_event = Some (next_event_id l) \<rparr> r)"
    "evidence l' = evidence l" "events l' = events l @ [e]" "ev_measure e = m"
    using write_opp_InrD [OF w n(1)] r by auto
  have "l'\<lparr> evidence := evidence l @ [] \<rparr> = l'" using d(2) by simp
  with c have q': "consistent_but l' (Q - {(Opp oid, m)})" by simp
  have f: "chain_free l' (Opp oid) m'" if "m' \<noteq> m" "chain_free l (Opp oid) m'" for m'
    using that by (auto simp: chain_free_def d(3,4) same_chain_def)
  show ?thesis by (rule that [OF w q' _ d(1) f]) simp
qed

section \<open>The waterfall as a state machine\<close>

inductive stage_path :: "string list \<Rightarrow> string \<Rightarrow> string \<Rightarrow> bool" where
  stage_nil: "stage_path [] s s"
| stage_cons: "stage_step s t = Inr u \<Longrightarrow> stage_path ts u v \<Longrightarrow> stage_path (t # ts) s v"

inductive_cases stage_consE: "stage_path (t # ts) s v"
inductive_simps stage_simps: "stage_path [] s v" "stage_path (t # ts) s v"

lemma index_of_waterfall:
  "index_of waterfall_order s = Some i \<longleftrightarrow> 0 \<le> i \<and> i < 5 \<and> waterfall_order ! nat i = s"
proof -
  have i: "(0 \<le> i \<and> i < 5 \<and> waterfall_order ! nat i = s) \<longleftrightarrow>
      (i = 0 \<and> s = ''identified'' \<or> i = 1 \<and> s = ''validated'' \<or> i = 2 \<and> s = ''approved'' \<or>
       i = 3 \<and> s = ''implementation'' \<or> i = 4 \<and> s = ''realised'')"
  proof -
    have "0 \<le> i \<and> i < 5 \<longleftrightarrow> i = 0 \<or> i = 1 \<or> i = 2 \<or> i = 3 \<or> i = 4" by auto
    then show ?thesis unfolding conj_assoc [symmetric] by (auto simp: waterfall_order_def)
  qed
  show ?thesis unfolding i
    by (cases "s \<in> {''identified'', ''validated'', ''approved'', ''implementation'', ''realised''}")
      (auto simp: waterfall_order_def)
qed

lemma stage_step_Inr:
  "stage_step s t = Inr u \<longleftrightarrow> u = t \<and> (t \<in> {''rejected'', ''expired''} \<or>
     (\<exists>i. index_of waterfall_order t = Some i \<and>
        i = (case index_of waterfall_order s of Some j \<Rightarrow> j | None \<Rightarrow> -1) + 1))"
  by (auto simp: stage_step_def Let_def split: option.splits if_splits)

text \<open>Without a rejection every path climbs one stage at a time.\<close>

lemma stage_path_climbs:
  assumes "stage_path ts s v" "index_of waterfall_order s = Some i" "''rejected'' \<notin> set ts" "''expired'' \<notin> set ts"
  shows "index_of waterfall_order v = Some (i + int (length ts)) \<and>
    (\<forall>k<length ts. index_of waterfall_order (ts ! k) = Some (i + 1 + int k))"
  using assms
proof (induction arbitrary: i)
  case (stage_cons s t u ts v)
  then have t: "u = t" "index_of waterfall_order t = Some (i + 1)" by (auto simp: stage_step_Inr)
  then have "index_of waterfall_order v = Some (i + 1 + int (length ts)) \<and>
    (\<forall>k<length ts. index_of waterfall_order (ts ! k) = Some (i + 1 + 1 + int k))"
    using stage_cons by simp
  then show ?case using t(2) by (auto simp: nth_Cons algebra_simps split: nat.splits)
qed simp

section \<open>Properties\<close>



text \<open>Rejection and expiry are not terminal: from either state, and so also from a realised
  opportunity by way of a rejection, the waterfall starts again at its first stage.\<close>

lemma rejection_is_not_terminal:
  "stage_step ''rejected'' ''identified'' = Inr ''identified'' \<and> stage_step ''expired'' ''identified'' = Inr ''identified'' \<and>
   stage_path [''rejected'', ''identified'', ''validated''] ''realised'' ''validated''"
  by (simp add: stage_simps stage_step_def waterfall_order_def Let_def)

text \<open>The stage operation on a stored opportunity: it commits exactly when the step is legal, changes
  only the stage and, on approval, the approver; in particular an opportunity in implementation can be
  advanced to realised with its realised savings and their evidence left exactly as they were.\<close>

lemma advance_changes_only_stage:
  assumes q: "ready l" and r: "map_of (opps l) oid = Some r" and st: "stage_step (op_status r) t = Inr t"
  shows "\<exists>l'. advance_waterfall_stage l user oid t = Inr l' \<and> ready l' \<and> events l' = events l \<and> evidence l' = evidence l \<and>
    map_of (opps l') = (map_of (opps l))(oid \<mapsto> r\<lparr> op_status := t,
      op_approved_by := (if t = ''approved'' then Some user else op_approved_by r) \<rparr>)"
proof -
  let ?r = "r\<lparr> op_status := t, op_approved_by := (if t = ''approved'' then Some user else op_approved_by r) \<rparr>"
  have "ready (put_opportunity l oid ?r)"
    using put_opportunity_consistent [OF q [unfolded ready_consistent] r, of ?r] by (simp add: ready_consistent)
  then show ?thesis
    by (intro exI [of _ "put_opportunity l oid ?r"]) (simp add: advance_waterfall_stage_def r st ready_commit)
qed



text \<open>Savings are recorded only from implementation and only for an ordered period; otherwise the
  operation is refused and nothing is written.\<close>

lemma realised_savings_guards:
  assumes "record_realised_savings l user now oid x ps pe = Inr l'"
  shows "\<exists>r. map_of (opps l) oid = Some r \<and> op_status r = ''implementation'' \<and> ps \<le> pe \<and> db_ok l'"
  using assms by (auto simp: record_realised_savings_def res_simps commit_eq_Inr not_less split: option.splits if_splits)

text \<open>Raising an opportunity from a price-review line never succeeds: the row is inserted without an
  event, so the database refuses every such commit, with or without an impact.\<close>

lemma opportunity_from_line_always_refused:
  "create_opportunity_from_line l org impact = Inl (IntegrityError ''constraint violated at commit'')"
proof -
  let ?oid = "fresh_id (opps l)" and ?r = "new_opportunity org None impact"
  let ?l = "put_opportunity l (fresh_id (opps l)) (new_opportunity org None impact)"
  have "(?oid, ?r) \<in> set (opps ?l)"
    using map_of_SomeD [of "opps ?l" ?oid ?r] by simp
  moreover have "\<not> opp_ok ?l (?oid, ?r)"
    by (simp add: opp_ok_def cell_ok_def check_matches_event_def new_opportunity_def)
  ultimately have "\<not> db_ok ?l" by (auto simp: db_ok_def list_all_iff)
  then show ?thesis by (simp add: create_opportunity_from_line_def Let_def commit_def)
qed

text \<open>Without the evidence rows a confirmation is refused at commit, whoever writes it: an event that
  confirms realised savings with no evidence attached never becomes visible.\<close>

lemma unsupported_realisation_refused:
  assumes q: "ready l" and w: "write_opportunity_measure_event l oid Realised_savings (realised_snap now user x ps pe) reason = Inr (l', i)"
    and none: "\<And>t. (next_event_id l, t) \<notin> set (evidence l)"
  shows "commit l' = Inl (IntegrityError ''constraint violated at commit'')"
proof -
  obtain r where r: "map_of (opps l) oid = Some r" using write_opp_InrD [OF w opp_snaps_ok(2)] by blast
  have g: "measure_get Realised_savings l oid = Some (op_org r, measure_cell Realised_savings r)" by (simp add: measure_get_def r)
  have "measure_write Realised_savings l oid (realised_snap now user x ps pe) reason = Inr l'"
    by (simp add: measure_write_def w)
  then have "\<not> db_ok l'"
    using sw.unsupported_confirmation_rejected [OF q g opp_snaps_ok(2)] none by (simp add: realised_snap_def)
  then show ?thesis by (simp add: commit_def)
qed

section \<open>An example register\<close>

definition example_opp :: "string \<Rightarrow> opp" where
  "example_opp st = \<lparr> op_org = 1, op_savings_type = Some ''hard_saving'', op_status = st, op_approved_by = None,
     op_afi = \<lparr> c_snap = plain_snap None Unknown, c_event = Some 1 \<rparr>,
     op_rs = \<lparr> c_snap = plain_snap None Unknown, c_event = Some 2 \<rparr> \<rparr>"

definition example_register :: "string \<Rightarrow> ledger" where
  "example_register st = \<lparr> events =
      [\<lparr> ev_id = 1, ev_org = 1, ev_parent = Opp 1, ev_measure = Annual_financial_impact, ev_version = 1, ev_old = None,
         ev_new = plain_snap None Unknown, ev_reason = By_manual_estimate \<rparr>,
       \<lparr> ev_id = 2, ev_org = 1, ev_parent = Opp 1, ev_measure = Realised_savings, ev_version = 1, ev_old = None,
         ev_new = plain_snap None Unknown, ev_reason = By_manual_estimate \<rparr>],
     evidence = [], rpas = [], opps = [(1, example_opp st)] \<rparr>"

lemma example_register_ready: "ready (example_register st)"
  by (simp add: ready_def db_ok_def events_ok_def opp_ok_def cell_ok_def check_matches_event_def event_ok_def
      example_register_def example_opp_def check_event_chain_integrity_def normal_events_def has_evidence_def
      check_confirmed_event_has_sufficient_evidence_def plain_snap_def no_provenance_def no_period_def same_chain_def)

lemma example_register_row [simp]: "map_of (opps (example_register st)) 1 = Some (example_opp st)"
  "op_status (example_opp st) = st" "evidence (example_register st) = []"
  by (simp_all add: example_register_def example_opp_def)

lemma unsupported_realisation_refused_witness:
  "\<exists>l' i. write_opportunity_measure_event (example_register ''implementation'') 1 Realised_savings
      (realised_snap 5 9 250 (PyDate 2026 1 1) (PyDate 2026 6 30)) Evidence_received = Inr (l', i) \<and>
    commit l' = Inl (IntegrityError ''constraint violated at commit'')"
proof -
  obtain l' i where w: "write_opportunity_measure_event (example_register ''implementation'') 1 Realised_savings
      (realised_snap 5 9 250 (PyDate 2026 1 1) (PyDate 2026 6 30)) Evidence_received = Inr (l', i)"
    by (simp add: write_opportunity_measure_event_def append_event_def Let_def)
  with unsupported_realisation_refused [OF example_register_ready w] show ?thesis by auto
qed

lemma advance_changes_only_stage_witness:
  "\<exists>l' r'. advance_waterfall_stage (example_register ''implementation'') 9 1 ''realised'' = Inr l' \<and>
     map_of (opps l') 1 = Some r' \<and> op_status r' = ''realised'' \<and> s_amount (c_snap (op_rs r')) = None"
proof -
  have "stage_step (op_status (example_opp ''implementation'')) ''realised'' = Inr ''realised''"
    by (simp add: stage_step_def waterfall_order_def Let_def)
  from advance_changes_only_stage [OF example_register_ready example_register_row(1) this, of 9]
  obtain l' where l': "advance_waterfall_stage (example_register ''implementation'') 9 1 ''realised'' = Inr l'"
    "map_of (opps l') 1 = Some ((example_opp ''implementation'')\<lparr> op_status := ''realised'' \<rparr>)"
    by (auto simp: example_opp_def)
  then show ?thesis by (intro exI [of _ l'] exI conjI) (auto simp: example_opp_def plain_snap_def)
qed



lemma realised_savings_guards_witness:
  "\<exists>l' r. record_realised_savings (example_register ''implementation'') 9 5 1 250 (PyDate 2026 1 1) (PyDate 2026 6 30) = Inr l' \<and>
     map_of (opps (example_register ''implementation'')) 1 = Some r \<and> op_status r = ''implementation'' \<and> db_ok l'"
proof -
  let ?l = "example_register ''implementation''" and ?n = "realised_snap 5 9 250 (PyDate 2026 1 1) (PyDate 2026 6 30)"
  obtain l' where l': "record_realised_savings ?l 9 5 1 250 (PyDate 2026 1 1) (PyDate 2026 6 30) = Inr l'"
    by (simp add: record_realised_savings_def less_pydate_def write_opportunity_measure_event_def append_event_def Let_def
        example_register_def example_opp_def realised_snap_def realisation_evidence_def commit_def
        measure_cell_def set_measure_cell_def put_opportunity_def next_event_id_def max_version_def same_chain_def
        db_ok_def events_ok_def opp_ok_def cell_ok_def check_matches_event_def event_ok_def
        check_event_chain_integrity_def has_evidence_def check_confirmed_event_has_sufficient_evidence_def
        plain_snap_def no_provenance_def no_period_def full_period_def less_eq_pydate_def)
  from realised_savings_guards [OF l'] l' show ?thesis by auto
qed

end
