(* ===== verification/EvidenceBackfill.thy ===== *)
theory EvidenceBackfill
  imports EvidenceWriters
begin

text \<open>
  The data part of migration \<open>0021_financial_amount_status_events\<close> (steps 6 and 7): every existing row
  gets a status that claims no more than its amount does, a genesis event, and the pointer to it.
  The identity column hands out ids 1, 2, ... in the order of the three inserts.
\<close>

section \<open>The migration\<close>

definition backfill_snap :: "rat option \<Rightarrow> snap" where
  "backfill_snap a = plain_snap a (if a = None then Unknown else Legacy_unverified)"

definition backfill_cell :: "int \<Rightarrow> cell \<Rightarrow> cell" where
  "backfill_cell i c = \<lparr> c_snap = backfill_snap (s_amount (c_snap c)), c_event = Some i \<rparr>"

definition genesis_event :: "int \<times> parent \<times> measure \<times> cell \<Rightarrow> event" where
  "genesis_event x = (case x of (org, p, m, c) \<Rightarrow> \<lparr> ev_id = (case c_event c of Some i \<Rightarrow> i | None \<Rightarrow> 0), ev_org = org,
     ev_parent = p, ev_measure = m, ev_version = 1, ev_old = None, ev_new = c_snap c, ev_reason = Initial_backfill \<rparr>)"

primrec number_from :: "int \<Rightarrow> 'a list \<Rightarrow> (int \<times> 'a) list" where
  "number_from i [] = []"
| "number_from i (x # xs) = (i, x) # number_from (i + 1) xs"

definition backfill :: "ledger \<Rightarrow> ledger" where
  "backfill l =
     (let n = int (length (rpas l)); m = int (length (opps l));
          rs = map (\<lambda>(i, k, r). (k, r\<lparr> rp_expected := backfill_cell i (rp_expected r) \<rparr>)) (number_from 1 (rpas l));
          os = map (\<lambda>(i, k, r). (k, r\<lparr> op_afi := backfill_cell i (op_afi r), op_rs := backfill_cell (i + m) (op_rs r) \<rparr>))
            (number_from (n + 1) (opps l));
          l' = l\<lparr> rpas := rs, opps := os \<rparr>
      in l'\<lparr> events := map genesis_event (cells l') \<rparr>)"

section \<open>Lemmas\<close>

lemma genesis_event_simps [simp]:
  "ev_org (genesis_event (org, p, m, c)) = org" "ev_parent (genesis_event (org, p, m, c)) = p"
  "ev_measure (genesis_event (org, p, m, c)) = m" "ev_version (genesis_event (org, p, m, c)) = 1"
  "ev_old (genesis_event (org, p, m, c)) = None" "ev_new (genesis_event (org, p, m, c)) = c_snap c"
  "c_event c = Some i \<Longrightarrow> ev_id (genesis_event (org, p, m, c)) = i"
  "same_chain p' m' (genesis_event (org, p, m, c)) \<longleftrightarrow> p' = p \<and> m' = m"
  by (auto simp: genesis_event_def same_chain_def)

text \<open>A log that holds exactly one first event per cell, with the cell's contents, would commit.\<close>

lemma genesis_log_ready:
  assumes ev: "events l = map genesis_event (cells l)" and k: "keys_ok l"
    and ids: "distinct (map ev_id (events l))" and keys: "distinct (map (\<lambda>(org, p, m, c). (p, m)) (cells l))"
    and cell: "\<And>org p m c. (org, p, m, c) \<in> set (cells l) \<Longrightarrow> c_event c \<noteq> None \<and> state_combination m (c_snap c) \<and>
      row_view m (c_snap c) = c_snap c \<and> s_status (c_snap c) \<noteq> Confirmed"
  shows "ready l"
proof -
  have "event_ok l e" if e: "e \<in> set (events l)" for e
  proof -
    obtain y where y: "y \<in> set (cells l)" "e = genesis_event y" using e unfolding ev set_map by blast
    obtain org p m c where "y = (org, p, m, c)" by (cases y)
    then have x: "(org, p, m, c) \<in> set (cells l)" "e = genesis_event (org, p, m, c)" using y by simp_all
    then show ?thesis using cell [OF x(1)] cell_rows [OF x(1)] cell_parent [OF x(1)]
      by (simp add: event_ok_def check_event_chain_integrity_def check_confirmed_event_has_sufficient_evidence_def)
  qed
  moreover have "distinct (map (\<lambda>e. (ev_parent e, ev_measure e, ev_version e)) (events l))"
  proof -
    have "map (\<lambda>e. (ev_parent e, ev_measure e, ev_version e)) (events l) =
        map (\<lambda>(p, m). (p, m, 1)) (map (\<lambda>(org, p, m, c). (p, m)) (cells l))" by (auto simp: ev)
    moreover have "inj (\<lambda>(p, m). (p :: parent, m :: measure, 1 :: int))" by (auto intro: injI)
    ultimately show ?thesis using keys by (simp only: distinct_map) (auto intro: inj_on_subset)
  qed
  ultimately have e_ok: "events_ok l" using ids by (simp add: events_ok_def list_all_iff)
  have n: "normal_events l" using cell by (auto simp: normal_events_def ev list_all_iff)
  have "cell_ok l org p m c" if x: "(org, p, m, c) \<in> set (cells l)" for org p m c
  proof -
    obtain i where i: "c_event c = Some i" using cell [OF x] by blast
    let ?e = "genesis_event (org, p, m, c)"
    have mem: "?e \<in> set (events l)" using x by (simp add: ev)
    then obtain e where f: "find (\<lambda>e. ev_id e = i) (events l) = Some e"
      using find_NoneD [of "\<lambda>e. ev_id e = i" "events l" ?e] i by (cases "find (\<lambda>e. ev_id e = i) (events l)") auto
    have "e = ?e" using find_SomeD [OF f] mem ids i by (auto simp: distinct_map inj_on_def)
    moreover have "ev_version e' \<le> 1" if "e' \<in> set (events l)" for e' using that by (auto simp: ev)
    ultimately show ?thesis using cell [OF x] i f by (auto simp: cell_ok_def check_matches_event_def list_all_iff)
  qed
  then show ?thesis using e_ok n k by (auto simp: ready_def all_cells_db_ok)
qed

lemma number_from_map: "map (\<lambda>(i, x). f i x) (number_from i xs) = map2 f [i..i + int (length xs) - 1] xs"
proof (induction xs arbitrary: i)
  case (Cons x xs)
  have "[i..i + int (length (x # xs)) - 1] = i # [i + 1..i + 1 + int (length xs) - 1]"
    by (simp add: upto_rec1)
  then show ?case using Cons by simp
qed simp

lemma number_from_fst [simp]: "map fst (number_from i xs) = [i..i + int (length xs) - 1]"
  and number_from_snd [simp]: "map snd (number_from i xs) = xs"
  by (induction xs arbitrary: i) (simp_all add: upto_rec1)

lemma number_from_keys:
  "map (\<lambda>x. fst (snd x)) (number_from i xs) = map fst xs"
  by (induction xs arbitrary: i) simp_all

lemma number_from_rel:
  "(\<And>i x. P x (f i x)) \<Longrightarrow> list_all2 P xs (map (\<lambda>x. f (fst x) (snd x)) (number_from i xs))"
  by (induction xs arbitrary: i) simp_all

lemma number_from_inD: "(i, x) \<in> set (number_from j xs) \<Longrightarrow> x \<in> set xs"
  by (induction xs arbitrary: j) auto

lemma backfill_snap_ok [simp]:
  "row_view m (backfill_snap a) = backfill_snap a" "state_combination m (backfill_snap a)"
  "s_status (backfill_snap a) \<noteq> Confirmed" "s_amount (backfill_snap a) = a"
proof -
  note defs = backfill_snap_def plain_snap_def no_provenance_def no_period_def
  show "row_view m (backfill_snap a) = backfill_snap a" by (cases m) (simp_all add: defs)
  show "state_combination m (backfill_snap a)" by (cases m; cases a) (simp_all add: defs)
  show "s_status (backfill_snap a) \<noteq> Confirmed" "s_amount (backfill_snap a) = a" by (simp_all add: defs)
qed

lemma backfill_cells:
  "cells (backfill l) =
     map (\<lambda>(i, k, r). (rp_org r, Rpa k, Expected_amount, backfill_cell i (rp_expected r))) (number_from 1 (rpas l))
   @ map (\<lambda>(i, k, r). (op_org r, Opp k, Annual_financial_impact, backfill_cell i (op_afi r)))
       (number_from (int (length (rpas l)) + 1) (opps l))
   @ map (\<lambda>(i, k, r). (op_org r, Opp k, Realised_savings, backfill_cell (i + int (length (opps l))) (op_rs r)))
       (number_from (int (length (rpas l)) + 1) (opps l))"
  by (simp add: backfill_def cells_def Let_def case_prod_unfold comp_def)

lemma cells_with_events: "cells (d\<lparr> events := es \<rparr>) = cells d"
  by (simp add: cells_def)

lemma backfill_events: "events (backfill l) = map genesis_event (cells (backfill l))"
  by (simp add: backfill_def Let_def cells_with_events)

lemma upto_append: "0 \<le> a \<Longrightarrow> 0 \<le> b \<Longrightarrow> [i..i + a - 1] @ [i + a..i + a + b - 1] = [i..i + a + b - (1::int)]"
  using upto_split2 [of i "i + a - 1" "i + a + b - 1"] by (cases "a = 0"; cases "b = 0"; simp)

lemma backfill_ids:
  "map ev_id (events (backfill l)) = [1..int (length (rpas l)) + 2 * int (length (opps l))]"
proof -
  let ?n = "int (length (rpas l))" and ?m = "int (length (opps l))"
  have id: "ev_id (genesis_event (org, p, m, backfill_cell i c)) = i" for org p m i c
    by (simp add: genesis_event_def backfill_cell_def)
  have shift: "map (\<lambda>x. fst x + d) (number_from i xs) = [i + d..i + d + int (length xs) - 1]" for d i and xs :: "'x list"
    by (induction xs arbitrary: i) (simp_all add: upto_rec1 algebra_simps)
  have "map ev_id (events (backfill l)) = [1..?n] @ [?n + 1..?n + ?m] @ [?n + 1 + ?m..?n + 1 + ?m + ?m - 1]"
    using number_from_fst [of 1 "rpas l"] number_from_fst [of "?n + 1" "opps l"] shift [of ?m "?n + 1" "opps l"]
    by (simp add: backfill_events backfill_cells case_prod_unfold comp_def id)
  also have "\<dots> = [1..?n + 2 * ?m]"
    using upto_append [of ?n ?m 1] upto_append [of "?n + ?m" ?m 1] by (simp add: add_ac flip: append_assoc)
  finally show ?thesis .
qed

lemma backfill_rows:
  "rpas (backfill l) = map (\<lambda>(i, k, r). (k, r\<lparr> rp_expected := backfill_cell i (rp_expected r) \<rparr>)) (number_from 1 (rpas l))"
  "opps (backfill l) = map (\<lambda>(i, k, r). (k, r\<lparr> op_afi := backfill_cell i (op_afi r),
     op_rs := backfill_cell (i + int (length (opps l))) (op_rs r) \<rparr>)) (number_from (int (length (rpas l)) + 1) (opps l))"
  by (simp_all add: backfill_def Let_def)

section \<open>Properties\<close>

text \<open>C12: The migration leaves a database that passes every constraint it installs, and it changes no
  amount: each row keeps its three amounts, an absent amount is called unknown, and a present one only
  legacy-unverified.\<close>

lemma backfill_is_consistent:
  assumes k: "keys_ok l"
  shows "ready (backfill l) \<and>
    list_all2 (\<lambda>(i, r) (j, r'). j = i \<and> c_snap (rp_expected r') = backfill_snap (s_amount (c_snap (rp_expected r))))
      (rpas l) (rpas (backfill l)) \<and>
    list_all2 (\<lambda>(i, r) (j, r'). j = i \<and> c_snap (op_afi r') = backfill_snap (s_amount (c_snap (op_afi r))) \<and>
        c_snap (op_rs r') = backfill_snap (s_amount (c_snap (op_rs r)))) (opps l) (opps (backfill l))"
proof (intro conjI)
  have keys: "map fst (rpas (backfill l)) = map fst (rpas l)" "map fst (opps (backfill l)) = map fst (opps l)"
    by (simp_all add: backfill_rows case_prod_unfold comp_def number_from_keys)
  show "ready (backfill l)"
  proof (rule genesis_log_ready [OF backfill_events])
    show "keys_ok (backfill l)" using k by (simp add: keys_ok_def keys)
    show "distinct (map ev_id (events (backfill l)))" by (simp add: backfill_ids)
    have "map (\<lambda>(org, p, m, c). (p, m)) (cells (backfill l)) =
        map (\<lambda>i. (Rpa i, Expected_amount)) (map fst (rpas l)) @
        map (\<lambda>i. (Opp i, Annual_financial_impact)) (map fst (opps l)) @ map (\<lambda>i. (Opp i, Realised_savings)) (map fst (opps l))"
      by (simp add: backfill_cells case_prod_unfold comp_def flip: number_from_keys [of 1 "rpas l"]
          number_from_keys [of "int (length (rpas l)) + 1" "opps l"])
    then show "distinct (map (\<lambda>(org, p, m, c). (p, m)) (cells (backfill l)))"
      using k by (auto simp: keys_ok_def distinct_map inj_on_def simp del: map_map)
    show "c_event c \<noteq> None \<and> state_combination m (c_snap c) \<and> row_view m (c_snap c) = c_snap c \<and> s_status (c_snap c) \<noteq> Confirmed"
      if "(org, p, m, c) \<in> set (cells (backfill l))" for org p m c
      using that by (auto simp: backfill_cells backfill_cell_def)
  qed
  show "list_all2 (\<lambda>(i, r) (j, r'). j = i \<and> c_snap (rp_expected r') = backfill_snap (s_amount (c_snap (rp_expected r))))
      (rpas l) (rpas (backfill l))"
    unfolding backfill_rows case_prod_unfold
    by (rule number_from_rel [where f = "\<lambda>i x. (fst x, (snd x)\<lparr> rp_expected := backfill_cell i (rp_expected (snd x)) \<rparr>)"])
      (simp add: backfill_cell_def)
  show "list_all2 (\<lambda>(i, r) (j, r'). j = i \<and> c_snap (op_afi r') = backfill_snap (s_amount (c_snap (op_afi r))) \<and>
        c_snap (op_rs r') = backfill_snap (s_amount (c_snap (op_rs r)))) (opps l) (opps (backfill l))"
    unfolding backfill_rows case_prod_unfold
    by (rule number_from_rel [where f = "\<lambda>i x. (fst x, (snd x)\<lparr> op_afi := backfill_cell i (op_afi (snd x)),
        op_rs := backfill_cell (i + int (length (opps l))) (op_rs (snd x)) \<rparr>)"])
      (simp add: backfill_cell_def)
qed

definition legacy_ledger :: ledger where
  "legacy_ledger = \<lparr> events = [], evidence = [], rpas = [], opps = [(4, \<lparr> op_org = 1, op_savings_type = None, op_status = ''approved'',
     op_approved_by = None, op_afi = \<lparr> c_snap = plain_snap (Some 700) Unknown, c_event = None \<rparr>,
     op_rs = \<lparr> c_snap = plain_snap None Unknown, c_event = None \<rparr> \<rparr>)] \<rparr>"

lemma backfill_is_consistent_witness:
  "\<not> ready legacy_ledger \<and> ready (backfill legacy_ledger)"
proof -
  have "keys_ok legacy_ledger" by (simp add: keys_ok_def legacy_ledger_def)
  moreover have "\<not> ready legacy_ledger"
    by (simp add: ready_def db_ok_def opp_ok_def cell_ok_def check_matches_event_def legacy_ledger_def)
  ultimately show ?thesis using backfill_is_consistent [of legacy_ledger] by blast
qed

end
