(* ===== verification/CapitalInvestment.thy ===== *)
theory CapitalInvestment
  imports Rounding
begin

text \<open>
  Capital investment appraisal: \<open>app/analytics/capital_investment.py\<close>.  The bisection of
  \<open>calculate_irr\<close> has the iteration bound of the code as its fuel.
\<close>

section \<open>The functions\<close>

fun npv_loop :: "rat \<Rightarrow> int \<Rightarrow> rat \<Rightarrow> rat list \<Rightarrow> rat res" where
  "npv_loop rate t acc [] = Inr acc"
| "npv_loop rate t acc (cf # cfs) = bindR (dpow (dadd 1 rate) t) (\<lambda>p. bindR (ddiv cf p) (\<lambda>q.
     npv_loop rate (t + 1) (dadd acc q) cfs))"

definition npv_at_rate :: "rat \<Rightarrow> rat list \<Rightarrow> rat res" where
  "npv_at_rate rate cash_flows = npv_loop rate 0 0 cash_flows"

definition calculate_npv :: "rat \<Rightarrow> rat list \<Rightarrow> rat res" where
  "calculate_npv discount_rate cash_flows =
     (if discount_rate \<le> 0 then Inl (ValueError ''discount_rate must be positive'')
      else bindR (npv_at_rate discount_rate cash_flows) round_currency)"

fun sign_flips :: "rat list \<Rightarrow> nat" where
  "sign_flips (a # b # xs) = (if (0 < b) \<noteq> (0 < a) then 1 else 0) + sign_flips (b # xs)"
| "sign_flips _ = 0"

definition count_sign_changes :: "rat list \<Rightarrow> nat" where
  "count_sign_changes cash_flows = sign_flips (filter (\<lambda>cf. cf \<noteq> 0) cash_flows)"

fun irr_loop :: "rat list \<Rightarrow> rat \<Rightarrow> nat \<Rightarrow> rat \<Rightarrow> rat \<Rightarrow> rat \<Rightarrow> rat option res" where
  "irr_loop cash_flows tolerance 0 low npv_low high = Inr None"
| "irr_loop cash_flows tolerance (Suc n) low npv_low high = bindR (ddiv (dadd low high) 2) (\<lambda>mid.
     bindR (npv_at_rate mid cash_flows) (\<lambda>npv_mid.
       if dabs npv_mid < tolerance then bindR (round_rate mid) (\<lambda>r. Inr (Some r))
       else if (0 < npv_mid) = (0 < npv_low) then irr_loop cash_flows tolerance n mid npv_mid high
       else irr_loop cash_flows tolerance n low npv_low mid))"

definition irr_low :: rat where "irr_low = - (9999 / 10000)"
definition irr_high :: rat where "irr_high = 100"

definition calculate_irr :: "rat list \<Rightarrow> nat \<Rightarrow> rat \<Rightarrow> rat option res" where
  "calculate_irr cash_flows max_iterations tolerance =
     (if count_sign_changes cash_flows \<noteq> 1 then Inr None
      else bindR (npv_at_rate irr_low cash_flows) (\<lambda>npv_low. bindR (npv_at_rate irr_high cash_flows) (\<lambda>npv_high.
        if 0 < dmul npv_low npv_high then Inr None
        else irr_loop cash_flows tolerance max_iterations irr_low npv_low irr_high)))"

fun payback_loop :: "rat \<Rightarrow> int \<Rightarrow> rat \<Rightarrow> rat list \<Rightarrow> rat option res" where
  "payback_loop rate t cumulative [] = Inr None"
| "payback_loop rate t cumulative (cf # cfs) = bindR (dpow (dadd 1 rate) t) (\<lambda>p. bindR (ddiv cf p) (\<lambda>discounted.
     let cumulative' = dadd cumulative discounted in
     if 0 < t \<and> cumulative < 0 \<and> 0 \<le> cumulative'
     then bindR (ddiv (dneg cumulative) discounted) (\<lambda>f. bindR (round_rate (dadd (of_int (t - 1)) f)) (\<lambda>r. Inr (Some r)))
     else payback_loop rate (t + 1) cumulative' cfs))"

definition calculate_discounted_payback_period :: "rat \<Rightarrow> rat list \<Rightarrow> rat option res" where
  "calculate_discounted_payback_period discount_rate cash_flows =
     (if discount_rate \<le> 0 then Inl (ValueError ''discount_rate must be positive'')
      else payback_loop discount_rate 0 0 cash_flows)"

definition apply_tax_shield_to_cash_flows :: "rat list \<Rightarrow> rat list \<Rightarrow> rat \<Rightarrow> rat list res" where
  "apply_tax_shield_to_cash_flows flows allowances tax_rate =
     (if length flows \<noteq> length allowances then Inl (ValueError ''lengths must match'')
      else mapR (\<lambda>(cf, allowance). round_currency (dadd cf (dmul allowance tax_rate))) (zip flows allowances))"

text \<open>A warning is kept as the two percentages its text shows.\<close>

record residual_flag =
  is_speculative :: bool
  residual_pct_of_outlay :: "rat option"
  warning :: "(rat \<times> rat) option"

definition flag_speculative_residual_value :: "rat \<Rightarrow> rat \<Rightarrow> rat \<Rightarrow> residual_flag res" where
  "flag_speculative_residual_value residual_value initial_capital_outlay threshold_pct =
     (if initial_capital_outlay = 0 then Inr \<lparr> is_speculative = False, residual_pct_of_outlay = None, warning = None \<rparr>
      else bindR (ddiv (dabs residual_value) (dabs initial_capital_outlay)) (\<lambda>q. bindR (round_rate q) (\<lambda>residual_pct.
        if threshold_pct \<le> residual_pct
        then bindR (round_currency (dmul residual_pct 100)) (\<lambda>a. bindR (round_currency (dmul threshold_pct 100)) (\<lambda>b.
          Inr \<lparr> is_speculative = True, residual_pct_of_outlay = Some residual_pct, warning = Some (a, b) \<rparr>))
        else Inr \<lparr> is_speculative = False, residual_pct_of_outlay = Some residual_pct, warning = None \<rparr>)))"

record investment_evaluation =
  ie_npv :: rat
  ie_irr :: "rat option"
  ie_payback :: "rat option"
  ie_residual_flag :: residual_flag

definition evaluate_capital_investment :: "rat \<Rightarrow> rat list \<Rightarrow> rat \<Rightarrow> rat \<Rightarrow> investment_evaluation res" where
  "evaluate_capital_investment discount_rate cash_flows residual_value residual_flag_threshold_pct =
     bindR (calculate_npv discount_rate cash_flows) (\<lambda>npv.
     bindR (calculate_irr cash_flows 200 (1 / 10 ^ 7)) (\<lambda>irr.
     bindR (calculate_discounted_payback_period discount_rate cash_flows) (\<lambda>payback.
     case cash_flows of [] \<Rightarrow> Inl IndexError
     | outlay # _ \<Rightarrow> bindR (flag_speculative_residual_value residual_value outlay residual_flag_threshold_pct) (\<lambda>flag.
         Inr \<lparr> ie_npv = npv, ie_irr = irr, ie_payback = payback, ie_residual_flag = flag \<rparr>))))"

section \<open>Lemmas\<close>

lemma pow_work_pos: "0 < x \<Longrightarrow> 0 < w \<Longrightarrow> 0 < pow_work w x n"
proof (induction w x n rule: pow_work.induct)
  case (1 w x n)
  show ?case
  proof (cases "n \<le> 1")
    case True
    then show ?thesis using 1 by (subst pow_work.simps) simp
  next
    case False
    then have "0 < pow_work w x (n div 2)" using 1 by simp
    then show ?thesis using False 1(2,3) by (subst pow_work.simps) (simp add: Let_def sig_round_pos_sign)
  qed
qed

lemma dpow_pos: "0 < x \<Longrightarrow> 0 \<le> n \<Longrightarrow> \<exists>p. dpow x n = Inr p \<and> 0 < p"
  by (simp add: dpow_def pow_work_pos prec_def)

lemma one_plus_pos: "- 1 < r \<Longrightarrow> 0 < dadd 1 r"
  by (simp add: dadd_def)

lemma npv_loop_total:
  assumes "- 1 < rate" "0 \<le> t" shows "\<exists>x. npv_loop rate t acc cfs = Inr x"
  using assms(2)
proof (induction cfs arbitrary: t acc)
  case (Cons cf cfs)
  obtain p where "dpow (dadd 1 rate) t = Inr p" "0 < p" using dpow_pos [OF one_plus_pos [OF assms(1)] Cons.prems] by blast
  then show ?case using Cons.IH [of "t + 1"] Cons.prems by simp
qed simp

lemma npv_defined: "- 1 < rate \<Longrightarrow> \<exists>x. npv_at_rate rate cfs = Inr x"
  by (simp add: npv_at_rate_def npv_loop_total)

lemma mid_bounds:
  assumes "a \<le> low" "low \<le> b" "a \<le> high" "high \<le> b" and "fits 4 a" "fits 4 b" "fits 4 (2 * a)" "fits 4 (2 * b)"
    and "ddiv (dadd low high) 2 = Inr mid"
  shows "a \<le> mid \<and> mid \<le> b"
proof -
  have "2 * a \<le> dadd low high" "dadd low high \<le> 2 * b"
    using ctx_mono [of "2 * a" "low + high"] ctx_mono [of "low + high" "2 * b"] assms(1-4) ctx_exact [OF assms(7)] ctx_exact [OF assms(8)]
    by (simp_all add: dadd_def)
  then have "ctx a \<le> ctx (dadd low high / 2)" "ctx (dadd low high / 2) \<le> ctx b" by (simp_all add: ctx_mono)
  then show ?thesis using assms(9) by (simp add: ctx_exact [OF assms(5)] ctx_exact [OF assms(6)])
qed

lemma irr_loop_sound:
  assumes "irr_loop cfs tol n low npv_low high = Inr (Some r)" and "irr_low \<le> low" "low \<le> irr_high" "irr_low \<le> high" "high \<le> irr_high"
  shows "\<exists>mid v. npv_at_rate mid cfs = Inr v \<and> \<bar>ctx v\<bar> < tol \<and> irr_low \<le> mid \<and> mid \<le> irr_high \<and> round_rate mid = Inr r"
  using assms
proof (induction n arbitrary: low npv_low high)
  case (Suc n)
  obtain mid where mid: "ddiv (dadd low high) 2 = Inr mid" by simp
  have f: "fits 4 irr_low" "fits 4 irr_high" "fits 4 (2 * irr_low)" "fits 4 (2 * irr_high)"
    by (simp_all add: fits_def on_grid_def irr_low_def irr_high_def prec_def)
  have b: "irr_low \<le> mid" "mid \<le> irr_high" using mid_bounds [OF Suc.prems(2-5) f mid] by simp_all
  obtain v where v: "npv_at_rate mid cfs = Inr v" using Suc.prems(1) mid by (auto simp: res_simps)
  show ?case
  proof (cases "dabs v < tol")
    case True
    then have "round_rate mid = Inr r" using Suc.prems(1) mid v by (auto simp: res_simps)
    moreover have "\<bar>ctx v\<bar> < tol" using True ctx_minus [of v] by (simp add: dabs_def abs_if split: if_splits)
    ultimately show ?thesis using b v by blast
  next
    case False
    then show ?thesis using Suc.IH [of mid v high] Suc.IH [of low npv_low mid] Suc.prems mid v b
      by (simp split: if_splits)
  qed
qed simp

lemma crossing_fraction:
  assumes "x < 0" "0 \<le> dadd x (ctx d)"
  shows "0 < ctx d" "\<exists>f. ddiv (dneg x) (ctx d) = Inr f \<and> 0 \<le> f \<and> f \<le> 1"
proof -
  have d: "- x \<le> ctx d" using assms(2) by (simp add: dadd_def)
  then show p: "0 < ctx d" using assms(1) by linarith
  have "dneg x \<le> ctx d" using ctx_mono [OF d] by (simp add: dneg_def)
  moreover have "0 \<le> dneg x" using assms(1) by (simp add: dneg_def)
  ultimately have "0 \<le> dneg x / ctx d" "dneg x / ctx d \<le> 1" using p by simp_all
  then have "0 \<le> ctx (dneg x / ctx d)" "ctx (dneg x / ctx d) \<le> ctx 1" by (simp_all add: ctx_mono)
  moreover have "ctx 1 = 1" by (rule ctx_exact [of 0]) (simp add: fits_def prec_def)
  ultimately show "\<exists>f. ddiv (dneg x) (ctx d) = Inr f \<and> 0 \<le> f \<and> f \<le> 1" using p by simp
qed

lemma payback_year:
  assumes "0 \<le> f" "f \<le> 1" "0 \<le> (t :: int)" "t < 10 ^ 20" "round_rate (dadd (of_int t) f) = Inr p"
  shows "of_int t \<le> p \<and> p \<le> of_int (t + 1)"
proof -
  have t: "of_int t \<le> (10 ^ 20 :: rat)" "0 \<le> (of_int t :: rat)" using assms(3,4)
    by (metis less_imp_le of_int_le_iff of_int_numeral of_int_power) (use assms(3) in simp)
  then have b: "\<bar>of_int t * 10 ^ 6\<bar> < (10 ^ prec :: rat)" "\<bar>of_int (t + 1) * 10 ^ 6\<bar> < (10 ^ prec :: rat)"
    by (simp_all add: prec_def abs_mult)
  have "on_grid 6 (of_int t)" "on_grid 6 (of_int (t + 1))" by (simp_all only: on_grid_of_int)
  then have "fits 6 (of_int t)" "fits 6 (of_int (t + 1))" using b by (simp_all only: fits_def abs_mult) simp_all
  then show ?thesis using rate.between [OF assms(5) [unfolded dadd_def], of "of_int t" "of_int (t + 1)"] assms(1,2) by simp
qed

lemma payback_loop_year:
  assumes "payback_loop rate t cum cfs = Inr (Some p)" "- 1 < rate" "0 \<le> t" "t + int (length cfs) < 10 ^ 20"
  shows "\<exists>k a b. k < length cfs \<and> 0 < t + int k \<and> npv_loop rate t cum (take k cfs) = Inr a \<and> a < 0 \<and>
    npv_loop rate t cum (take (Suc k) cfs) = Inr b \<and> 0 \<le> b \<and> of_int (t + int k - 1) \<le> p \<and> p \<le> of_int (t + int k)"
  using assms(1,3,4)
proof (induction cfs arbitrary: t cum)
  case (Cons cf cfs)
  obtain q where q: "dpow (dadd 1 rate) t = Inr q" "0 < q" using dpow_pos [OF one_plus_pos [OF assms(2)] Cons.prems(2)] by blast
  let ?d = "ctx (cf / q)"
  show ?case
  proof (cases "0 < t \<and> cum < 0 \<and> 0 \<le> dadd cum ?d")
    case True
    obtain f where f: "ddiv (dneg cum) ?d = Inr f" "0 \<le> f" "f \<le> 1" using crossing_fraction(2) [of cum "cf / q"] True by blast
    have "round_rate (dadd (of_int (t - 1)) f) = Inr p" using Cons.prems(1) q True f(1) by (auto simp: res_simps)
    from payback_year [OF f(2,3) _ _ this] show ?thesis
      using True q Cons.prems(2,3) by (intro exI [of _ 0] exI [of _ cum] exI [of _ "dadd cum ?d"]) simp
  next
    case False
    then have "payback_loop rate (t + 1) (dadd cum ?d) cfs = Inr (Some p)" using Cons.prems(1) q by (auto simp: Let_def)
    from Cons.IH [OF this] obtain k a b where k: "k < length cfs" "0 < t + 1 + int k" "npv_loop rate (t + 1) (dadd cum ?d) (take k cfs) = Inr a" "a < 0"
      "npv_loop rate (t + 1) (dadd cum ?d) (take (Suc k) cfs) = Inr b" "0 \<le> b" "of_int (t + 1 + int k - 1) \<le> p" "p \<le> of_int (t + 1 + int k)"
      using Cons.prems(2,3) by auto
    then show ?thesis using q
      by (intro exI [of _ "Suc k"] exI [of _ a] exI [of _ b]) (simp add: algebra_simps)
  qed
qed simp

section \<open>Properties\<close>

text \<open>C38: A reported internal rate of return is one: exactly one sign change in the flows, and the rate reported is the
  rounding of a rate within the search bracket whose net present value is zero up to the tolerance.\<close>

lemma reported_irr_is_root:
  assumes "calculate_irr cfs n tol = Inr (Some r)"
  shows "count_sign_changes cfs = 1 \<and> (\<exists>mid v. npv_at_rate mid cfs = Inr v \<and> \<bar>ctx v\<bar> < tol \<and>
    irr_low \<le> mid \<and> mid \<le> irr_high \<and> round_rate mid = Inr r)"
proof -
  obtain a where "irr_loop cfs tol n irr_low a irr_high = Inr (Some r)" "count_sign_changes cfs = 1"
    using assms by (auto simp: calculate_irr_def res_simps split: if_splits)
  then show ?thesis using irr_loop_sound [of cfs tol n irr_low a irr_high r] by (simp add: irr_low_def irr_high_def)
qed


text \<open>A reported payback period lies in the year in which the discounted balance turns from negative to not
  negative, where the balance after a year is the net present value of the flows up to that year.\<close>

lemma payback_in_crossing_year:
  assumes "calculate_discounted_payback_period rate cfs = Inr (Some p)" "length cfs < 10 ^ 20"
  shows "\<exists>k a b. 0 < k \<and> k < length cfs \<and> npv_at_rate rate (take k cfs) = Inr a \<and> a < 0 \<and>
    npv_at_rate rate (take (Suc k) cfs) = Inr b \<and> 0 \<le> b \<and> of_nat k - 1 \<le> p \<and> p \<le> of_nat k"
proof -
  have "payback_loop rate 0 0 cfs = Inr (Some p)" "- 1 < rate"
    using assms(1) by (auto simp: calculate_discounted_payback_period_def split: if_splits)
  from payback_loop_year [OF this] assms(2) show ?thesis by (auto simp: npv_at_rate_def)
qed

lemma reported_irr_is_root_witness:
  "calculate_irr [- 101, 102010101 / 20000] 1 (1 / 1000) = Inr (Some (990001 / 20000)) \<and> count_sign_changes [- 101, 102010101 / 20000] = 1 \<and>
    (\<exists>mid v. npv_at_rate mid [- 101, 102010101 / 20000] = Inr v \<and> \<bar>ctx v\<bar> < 1 / 1000 \<and>
    irr_low \<le> mid \<and> mid \<le> irr_high \<and> round_rate mid = Inr (990001 / 20000))"
proof -
  have "calculate_irr [- 101, 102010101 / 20000] 1 (1 / 1000) = Inr (Some (990001 / 20000))" 
    by (simp add: calculate_irr_def count_sign_changes_def npv_at_rate_def irr_low_def irr_high_def dpow_def pow_work.simps numeral_eq_Suc [of Num.One] dec_eval cong: bindR_weak_cong if_weak_cong)
  from reported_irr_is_root [OF this] this show ?thesis by blast
qed

lemma payback_in_crossing_year_witness:
  "\<exists>p. calculate_discounted_payback_period 1 [- 100, 400] = Inr (Some p) \<and>
    (\<exists>k a b. 0 < k \<and> k < length [- 100, 400 :: rat] \<and> npv_at_rate 1 (take k [- 100, 400]) = Inr a \<and> a < 0 \<and>
    npv_at_rate 1 (take (Suc k) [- 100, 400]) = Inr b \<and> 0 \<le> b \<and> of_nat k - 1 \<le> p \<and> p \<le> of_nat k)"
proof -
  have "calculate_discounted_payback_period 1 [- 100, 400] = Inr (Some (1 / 2))" by code_simp
  moreover have "length [- 100, 400 :: rat] < 10 ^ 20" by simp
  ultimately show ?thesis by (intro exI [of _ "1 / 2"] conjI payback_in_crossing_year)
qed

end
