(* ===== verification/SpendAnalytics.thy ===== *)
theory SpendAnalytics
  imports Grouping Rounding PyDate "HOL-Library.Multiset"
begin

text \<open>
  Spend analytics: \<open>app/analytics/spend_analytics.py\<close> and the queries of
  \<open>app/services/spend_analytics_service.py\<close> that feed it.  A query without \<open>ORDER BY\<close> returns its rows
  in the order of the lists of the state, so theorems about every state hold for every order the
  database may choose.  A supplier is its id (\<open>str(id)\<close> is injective), a month label is the pair of
  year and month, whose order is that of the labels for years of four digits.
\<close>

section \<open>spend\_analytics.py\<close>

record 'k spend_item =
  si_key :: 'k
  si_label :: string
  si_amount :: rat

definition last_labels :: "('k \<times> string \<times> rat) list \<Rightarrow> ('k, string) pydict" where
  "last_labels rows = foldl (\<lambda>d (key, label, x). AList.update key label d) [] rows"

definition aggregate_spend :: "('k \<times> string \<times> rat) list \<Rightarrow> 'k spend_item list res" where
  "aggregate_spend rows =
     (let totals = accumulate (map (\<lambda>(key, label, x). (key, x)) rows); labels = last_labels rows in
      bindR (mapR (\<lambda>(key, t). bindR (round_currency t) (\<lambda>a.
        Inr \<lparr> si_key = key, si_label = dict_get labels key [], si_amount = a \<rparr>)) totals)
      (\<lambda>items. Inr (sort_key (\<lambda>i. dneg (si_amount i)) items)))"

datatype abc_class = Class_A | Class_B | Class_C

record 'k abc_result =
  ar_item :: "'k spend_item"
  ar_cumulative_pct :: rat
  ar_classification :: abc_class

definition share_pct :: "rat \<Rightarrow> rat \<Rightarrow> rat res" where
  "share_pct running t = bindR (ddiv running t) (\<lambda>q. bindR (round_currency (dmul q 100)) (\<lambda>p. ddiv p 100))"

definition abc_band :: "rat \<Rightarrow> rat \<Rightarrow> rat \<Rightarrow> abc_class" where
  "abc_band a_threshold_pct b_threshold_pct cumulative_pct =
     (if cumulative_pct \<le> a_threshold_pct then Class_A else if cumulative_pct \<le> b_threshold_pct then Class_B else Class_C)"

fun abc_loop :: "rat \<Rightarrow> rat \<Rightarrow> rat \<Rightarrow> rat \<Rightarrow> 'k spend_item list \<Rightarrow> 'k abc_result list res" where
  "abc_loop t a b running [] = Inr []"
| "abc_loop t a b running (i # items) = (let running' = dadd running (si_amount i) in
     bindR (share_pct running' t) (\<lambda>c. bindR (abc_loop t a b running' items) (\<lambda>rs.
       Inr (\<lparr> ar_item = i, ar_cumulative_pct = c, ar_classification = abc_band a b c \<rparr> # rs))))"

definition calculate_abc_classification :: "'k spend_item list \<Rightarrow> rat \<Rightarrow> rat \<Rightarrow> 'k abc_result list res" where
  "calculate_abc_classification items a_threshold_pct b_threshold_pct =
     (let t = dsum (map si_amount items) in
      if t = 0 then Inr (map (\<lambda>i. \<lparr> ar_item = i, ar_cumulative_pct = 0, ar_classification = Class_C \<rparr>) items)
      else abc_loop t a_threshold_pct b_threshold_pct 0 items)"

record 'k pareto_result =
  contributors :: "'k spend_item list"
  contributor_count :: nat
  total_item_count :: nat
  cumulative_pct_covered :: rat

fun pareto_loop :: "rat \<Rightarrow> rat \<Rightarrow> 'k spend_item list \<Rightarrow> rat \<Rightarrow> 'k spend_item list \<Rightarrow> ('k spend_item list \<times> rat) res" where
  "pareto_loop t target acc running [] = Inr (acc, running)"
| "pareto_loop t target acc running (i # items) = (let running' = dadd running (si_amount i) in
     bindR (ddiv running' t) (\<lambda>q. if target \<le> q then Inr (acc @ [i], running')
       else pareto_loop t target (acc @ [i]) running' items))"

definition calculate_pareto_contributors :: "'k spend_item list \<Rightarrow> rat \<Rightarrow> 'k pareto_result res" where
  "calculate_pareto_contributors items target_pct =
     (let t = dsum (map si_amount items) in
      if t = 0 then Inr \<lparr> contributors = [], contributor_count = 0, total_item_count = length items, cumulative_pct_covered = 0 \<rparr>
      else bindR (pareto_loop t target_pct [] 0 items) (\<lambda>(cs, running). bindR (share_pct running t) (\<lambda>c.
        Inr \<lparr> contributors = cs, contributor_count = length cs, total_item_count = length items, cumulative_pct_covered = c \<rparr>)))"

record 'm month_point =
  mp_label :: 'm
  mp_amount :: rat
  mp_change_pct :: "rat option"

fun trend_loop :: "rat option \<Rightarrow> ('m \<times> rat) list \<Rightarrow> 'm month_point list res" where
  "trend_loop prior [] = Inr []"
| "trend_loop prior ((label, x) # rest) =
     bindR (case prior of None \<Rightarrow> Inr None
        | Some p \<Rightarrow> if p = 0 then Inr None else bindR (share_pct (dsub x p) p) (\<lambda>c. Inr (Some c))) (\<lambda>change.
     bindR (round_currency x) (\<lambda>r. bindR (trend_loop (Some x) rest) (\<lambda>ps.
       Inr (\<lparr> mp_label = label, mp_amount = r, mp_change_pct = change \<rparr> # ps))))"

definition calculate_month_over_month_trend :: "('m \<times> rat) list \<Rightarrow> 'm month_point list res" where
  "calculate_month_over_month_trend monthly_totals = trend_loop None monthly_totals"

record price_consistency =
  min_price :: rat
  max_price :: rat
  spread :: rat
  spread_pct :: "rat option"
  is_significant :: bool
  observation_count :: nat

fun min_list' :: "rat \<Rightarrow> rat list \<Rightarrow> rat" where
  "min_list' m [] = m"
| "min_list' m (x # xs) = min_list' (if x < m then x else m) xs"

fun max_list' :: "rat \<Rightarrow> rat list \<Rightarrow> rat" where
  "max_list' m [] = m"
| "max_list' m (x # xs) = max_list' (if m < x then x else m) xs"

definition calculate_price_consistency :: "rat list \<Rightarrow> rat \<Rightarrow> price_consistency res" where
  "calculate_price_consistency prices significance_threshold_pct = (case prices of
     [] \<Rightarrow> Inl (ValueError ''observations must not be empty'')
   | p # ps \<Rightarrow> let lo = min_list' p ps; hi = max_list' p ps in
       bindR (round_currency (dsub hi lo)) (\<lambda>s.
       bindR (if lo = 0 then Inr None else bindR (share_pct s lo) (\<lambda>c. Inr (Some c))) (\<lambda>pc.
       Inr \<lparr> min_price = lo, max_price = hi, spread = s, spread_pct = pc,
         is_significant = (case pc of None \<Rightarrow> False | Some c \<Rightarrow> significance_threshold_pct \<le> c),
         observation_count = length prices \<rparr>)))"

section \<open>spend\_analytics\_service.py\<close>

record spend_line =
  ln_sku :: "string option"
  ln_description :: "string option"
  ln_unit_price :: rat
  ln_net_amount :: rat

record spend_invoice =
  iv_supplier :: int
  iv_date :: pydate
  iv_corrects :: "int option"
  iv_lines :: "spend_line list"

record spend_txn =
  tx_supplier :: int
  tx_sku :: "string option"
  tx_description :: "string option"
  tx_amount :: rat
  tx_date :: pydate
  tx_corrects :: "int option"

record spend_db =
  sd_suppliers :: "(int, string) pydict"
  sd_invoices :: "spend_invoice list"
  sd_transactions :: "spend_txn list"

definition active_invoices :: "spend_db \<Rightarrow> spend_invoice list" where
  "active_invoices db = filter (\<lambda>v. iv_corrects v = None) (sd_invoices db)"

definition active_transactions :: "spend_db \<Rightarrow> spend_txn list" where
  "active_transactions db = filter (\<lambda>t. tx_corrects t = None) (sd_transactions db)"

definition suppliers_with_invoice_data :: "spend_db \<Rightarrow> int set" where
  "suppliers_with_invoice_data db = set (map iv_supplier (active_invoices db))"

definition supplier_row :: "spend_db \<Rightarrow> int \<Rightarrow> rat \<Rightarrow> (int \<times> string \<times> rat) list" where
  "supplier_row db sid x = (case map_of (sd_suppliers db) sid of None \<Rightarrow> [] | Some name \<Rightarrow> [(sid, name, x)])"

definition supplier_spend_rows :: "spend_db \<Rightarrow> (int \<times> string \<times> rat) list" where
  "supplier_spend_rows db =
     concat (map (\<lambda>v. concat (map (\<lambda>l. supplier_row db (iv_supplier v) (ln_net_amount l)) (iv_lines v))) (active_invoices db))
     @ concat (map (\<lambda>t. supplier_row db (tx_supplier t) (tx_amount t))
         (filter (\<lambda>t. tx_supplier t \<notin> suppliers_with_invoice_data db) (active_transactions db)))"

definition get_spend_by_supplier :: "spend_db \<Rightarrow> int spend_item list res" where
  "get_spend_by_supplier db = aggregate_spend (supplier_spend_rows db)"

definition or_text :: "string option \<Rightarrow> string option \<Rightarrow> string \<Rightarrow> string" where
  "or_text a b c = (case a of Some (x # xs) \<Rightarrow> x # xs | _ \<Rightarrow> (case b of Some (y # ys) \<Rightarrow> y # ys | _ \<Rightarrow> c))"

definition sku_row :: "string option \<Rightarrow> string option \<Rightarrow> rat \<Rightarrow> string \<times> string \<times> rat" where
  "sku_row sku description x = (or_text sku description ''unknown'', or_text description sku ''Unknown item'', x)"

definition wanted_supplier :: "int option \<Rightarrow> int \<Rightarrow> bool" where
  "wanted_supplier supplier_id s = (supplier_id = None \<or> supplier_id = Some s)"

definition get_spend_by_sku :: "spend_db \<Rightarrow> int option \<Rightarrow> string spend_item list res" where
  "get_spend_by_sku db supplier_id = aggregate_spend
     (concat (map (\<lambda>v. map (\<lambda>l. sku_row (ln_sku l) (ln_description l) (ln_net_amount l)) (iv_lines v))
        (filter (\<lambda>v. wanted_supplier supplier_id (iv_supplier v)) (active_invoices db)))
      @ map (\<lambda>t. sku_row (tx_sku t) (tx_description t) (tx_amount t))
        (filter (\<lambda>t. wanted_supplier supplier_id (tx_supplier t) \<and> tx_supplier t \<notin> suppliers_with_invoice_data db)
          (active_transactions db)))"

definition get_abc_classification :: "spend_db \<Rightarrow> int abc_result list res" where
  "get_abc_classification db = bindR (get_spend_by_supplier db) (\<lambda>items. calculate_abc_classification items (80 / 100) (95 / 100))"

definition get_pareto_contributors :: "spend_db \<Rightarrow> int pareto_result res" where
  "get_pareto_contributors db = bindR (get_spend_by_supplier db) (\<lambda>items. calculate_pareto_contributors items (80 / 100))"

definition check_price_consistency :: "spend_db \<Rightarrow> int \<Rightarrow> string \<Rightarrow> price_consistency res" where
  "check_price_consistency db supplier_id sku_or_description =
     (let observations = concat (map (\<lambda>v. map ln_unit_price (filter (\<lambda>l. ln_sku l = Some sku_or_description \<or>
            ln_description l = Some sku_or_description) (iv_lines v)))
          (filter (\<lambda>v. iv_supplier v = supplier_id) (sd_invoices db)))
      in if observations = [] then Inl (ValueError ''No purchase price observations found'')
         else calculate_price_consistency observations (5 / 100))"

definition month_of :: "pydate \<Rightarrow> int \<times> int" where
  "month_of d = (year d, month d)"

definition get_month_over_month_trend :: "spend_db \<Rightarrow> (int \<times> int) month_point list res" where
  "get_month_over_month_trend db =
     (let monthly = accumulate
        (concat (map (\<lambda>v. map (\<lambda>l. (month_of (iv_date v), ln_net_amount l)) (iv_lines v)) (active_invoices db))
         @ map (\<lambda>t. (month_of (tx_date t), tx_amount t))
             (filter (\<lambda>t. tx_supplier t \<notin> suppliers_with_invoice_data db) (active_transactions db)))
      in calculate_month_over_month_trend (sort_key (\<lambda>((y, m), x). 12 * y + m) monthly))"

text \<open>The columns of a price review line the ranking reads, with the name of its supplier.\<close>

record ranked_line =
  rl_supplier_name :: string
  rl_movement_type :: string
  rl_new_description :: "string option"
  rl_old_description :: "string option"
  rl_percentage_change :: "rat option"
  rl_annual_impact :: "rat option"
  rl_risk :: "string option"

record ranked_view =
  rv_supplier :: string
  rv_product :: "string option"
  rv_percentage_change :: "rat option"
  rv_annual_impact :: "rat option"
  rv_risk :: "string option"

definition truthy :: "rat option \<Rightarrow> rat option" where
  "truthy x = (if x = Some 0 then None else x)"

text \<open>PostgreSQL sorts nulls first in a descending order.\<close>

definition order_desc :: "ranked_line list \<Rightarrow> ranked_line list" where
  "order_desc ls = filter (\<lambda>l. rl_annual_impact l = None) ls
     @ sort_key (\<lambda>l. - the (rl_annual_impact l)) (filter (\<lambda>l. rl_annual_impact l \<noteq> None) ls)"

definition get_top_supplier_price_increases :: "ranked_line list \<Rightarrow> nat \<Rightarrow> ranked_view list" where
  "get_top_supplier_price_increases lines limit =
     map (\<lambda>l. \<lparr> rv_supplier = rl_supplier_name l,
        rv_product = (case rl_new_description l of Some (c # cs) \<Rightarrow> Some (c # cs) | _ \<Rightarrow> rl_old_description l),
        rv_percentage_change = truthy (rl_percentage_change l), rv_annual_impact = truthy (rl_annual_impact l), rv_risk = rl_risk l \<rparr>)
      (take limit (order_desc (filter (\<lambda>l. rl_movement_type l = ''price_increase'') lines)))"

section \<open>Lemmas\<close>

lemma last_labels_get: "(key, label, x) \<in> set rows \<Longrightarrow> \<exists>l y. (key, l, y) \<in> set rows \<and> dict_get (last_labels rows) key [] = l"
proof (induction rows rule: rev_induct)
  case (snoc r rows)
  obtain k l y where r: "r = (k, l, y)" by (cases r)
  have step: "last_labels (rows @ [r]) = AList.update k l (last_labels rows)" by (simp add: last_labels_def r)
  show ?case
  proof (cases "key = k")
    case True
    then show ?thesis unfolding step by (intro exI [of _ l] exI [of _ y]) (simp add: r dict_get_def)
  next
    case False
    then show ?thesis using snoc unfolding step by (auto simp: r dict_get_def)
  qed
qed simp

definition spend_pairs :: "('k \<times> string \<times> rat) list \<Rightarrow> ('k \<times> rat) list" where
  "spend_pairs rows = map (\<lambda>(key, label, x). (key, x)) rows"

lemma sum_bound_le: "sum_bound (of_key k rows) \<le> sum_bound (map snd rows)"
  by (induction rows) (auto simp: sum_bound_def of_key_def)

lemma aggregate_amounts:
  assumes "\<And>r. r \<in> set rows \<Longrightarrow> amount (snd r)" "sum_bound (map snd rows) < 10 ^ 23"
  shows "dsum (of_key k rows) = sum_list (of_key k rows)" "round_currency (sum_list (of_key k rows)) = Inr (sum_list (of_key k rows))"
proof -
  have g: "on_grid 4 x" if "x \<in> set (of_key k rows)" for x
    using that assms(1) by (auto simp: of_key_def amount_def)
  have b: "sum_bound (of_key k rows) * 10 ^ 4 < 10 ^ prec"
  proof -
    have "sum_bound (of_key k rows) < 10 ^ 23" using sum_bound_le [of k rows] assms(2) by (rule le_less_trans)
    then show ?thesis by (simp add: prec_def)
  qed
  show "dsum (of_key k rows) = sum_list (of_key k rows)" by (rule dsum_exact [OF g b])
  have "\<bar>sum_list (of_key k rows)\<bar> \<le> sum_bound (of_key k rows)" by (simp add: sum_bound_def sum_list_abs)
  then have "\<bar>sum_list (of_key k rows)\<bar> * 10 ^ 4 < 10 ^ prec"
    using b by (meson le_less_trans mult_right_mono zero_le_numeral zero_le_power)
  then show "round_currency (sum_list (of_key k rows)) = Inr (sum_list (of_key k rows))"
    by (intro cur.exact on_grid_sum_list g)
qed

lemma sort_key_descending:
  assumes "\<And>i. i \<in> set items \<Longrightarrow> fits 4 (f i)"
  shows "sorted (map (\<lambda>i. - f i) (sort_key (\<lambda>i. dneg (f i)) items))"
proof -
  have "map (\<lambda>i. dneg (f i)) (sort_key (\<lambda>i. dneg (f i)) items) = map (\<lambda>i. - f i) (sort_key (\<lambda>i. dneg (f i)) items)"
    using assms by (intro map_cong) (auto simp: dneg_def ctx_minus ctx_exact [of 4])
  then show ?thesis by (metis sorted_sort_key)
qed

text \<open>Shares of a positive total: they grow with the running amount, the whole is exactly one, and a lower
  bound of two decimal places survives the roundings.\<close>

lemma share_mono:
  assumes "share_pct r t = Inr c" "share_pct r' t = Inr c'" "r \<le> r'" "0 < t" shows "c \<le> c'"
proof -
  obtain p p' where p: "round_currency (dmul (ctx (r / t)) 100) = Inr p" "c = ctx (p / 100)"
    and p': "round_currency (dmul (ctx (r' / t)) 100) = Inr p'" "c' = ctx (p' / 100)"
    using assms by (auto simp: share_pct_def res_simps)
  have "ctx (r / t) \<le> ctx (r' / t)" using assms(3,4) by (intro ctx_mono divide_right_mono) simp_all
  then have "dmul (ctx (r / t)) 100 \<le> dmul (ctx (r' / t)) 100" by (simp add: dmul_def ctx_mono)
  then have "p \<le> p'" by (rule cur.mono [OF p(1) p'(1)])
  then show ?thesis by (simp add: p(2) p'(2) ctx_mono)
qed

lemma ctx_whole [simp]: "ctx 1 = 1" "ctx 100 = 100"
  by (rule ctx_exact [of 0], simp add: fits_def prec_def)+

lemma share_whole: "t \<noteq> 0 \<Longrightarrow> share_pct t t = Inr 1"
  by (simp add: share_pct_def dmul_def cur.exact prec_def)

lemma share_lower:
  assumes "share_pct r t = Inr c" "q * t \<le> r" "0 < t" "on_grid 2 q" "\<bar>q\<bar> \<le> 1" shows "q \<le> c"
proof -
  obtain p where p: "round_currency (dmul (ctx (r / t)) 100) = Inr p" "c = ctx (p / 100)"
    using assms by (auto simp: share_pct_def res_simps)
  have b: "\<bar>q\<bar> * 10 ^ 2 < 10 ^ prec" using assms(5) by (simp add: prec_def)
  have q: "ctx q = q" by (rule ctx_exact [of 2]) (use assms(4) b in \<open>simp add: fits_def\<close>)
  obtain n where n: "q = of_int n / 10 ^ 2" using assms(4) by (rule on_gridE)
  have q100: "q * 100 = of_int n" by (simp add: n)
  have g: "on_grid 4 (q * 100)" by (simp add: q100)
  have b4: "\<bar>q * 100\<bar> * 10 ^ 4 < 10 ^ prec" using assms(5) by (simp add: prec_def abs_mult)
  have c100: "ctx (q * 100) = q * 100" by (rule ctx_exact [of 4]) (use g b4 in \<open>simp add: fits_def\<close>)
  have "q \<le> r / t" using assms(2,3) by (simp add: pos_le_divide_eq)
  then have "q \<le> ctx (r / t)" using ctx_mono [of q "r / t"] q by simp
  then have "q * 100 \<le> dmul (ctx (r / t)) 100" using ctx_mono [of "q * 100" "ctx (r / t) * 100"] c100 by (simp add: dmul_def)
  then have "q * 100 \<le> p" by (rule cur.mono [OF cur.exact [OF g b4] p(1)])
  then have "ctx q \<le> ctx (p / 100)" by (intro ctx_mono) simp
  then show ?thesis by (simp add: q p(2))
qed

lemma dadd_grows: assumes "ctx r = r" "0 \<le> x" shows "r \<le> dadd r x"
  using ctx_mono [of r "r + x"] assms by (simp add: dadd_def)

lemma ctx_dadd [simp]: "ctx (dadd x y) = dadd x y"
  by (simp add: dadd_def)

lemma abc_loop_nth:
  assumes "abc_loop t a b r items = Inr rs"
  shows "length rs = length items \<and> (\<forall>i<length items. ar_item (rs ! i) = items ! i \<and>
    share_pct (foldl dadd r (map si_amount (take (Suc i) items))) t = Inr (ar_cumulative_pct (rs ! i)) \<and>
    ar_classification (rs ! i) = abc_band a b (ar_cumulative_pct (rs ! i)))"
  using assms
proof (induction items arbitrary: r rs)
  case (Cons x items)
  obtain c rs' where c: "share_pct (dadd r (si_amount x)) t = Inr c" and rs': "abc_loop t a b (dadd r (si_amount x)) items = Inr rs'"
    and rs: "rs = \<lparr> ar_item = x, ar_cumulative_pct = c, ar_classification = abc_band a b c \<rparr> # rs'"
    using Cons.prems by (auto simp: Let_def res_simps)
  show ?case using Cons.IH [OF rs'] c by (auto simp: rs nth_Cons split: nat.split)
qed simp

lemma running_mono:
  assumes "\<And>x. x \<in> set xs \<Longrightarrow> 0 \<le> x" "ctx r = r" "m \<le> n"
  shows "foldl dadd r (take m xs) \<le> foldl dadd r (take n xs)"
proof -
  have ext: "s \<le> foldl dadd s ys" if "ctx s = s" "\<And>x. x \<in> set ys \<Longrightarrow> 0 \<le> x" for s ys
    using that
  proof (induction ys arbitrary: s)
    case (Cons y ys)
    have "s \<le> dadd s y" using Cons.prems by (intro dadd_grows) simp_all
    also have "\<dots> \<le> foldl dadd (dadd s y) ys" using Cons by simp
    finally show ?case by simp
  qed simp
  have c: "ctx (foldl dadd r ys) = foldl dadd r ys" for ys using assms(2) by (induction ys rule: rev_induct) simp_all
  have "take n xs = take m xs @ take (n - m) (drop m xs)" using assms(3) by (metis le_add_diff_inverse take_add)
  moreover have "0 \<le> x" if "x \<in> set (take (n - m) (drop m xs))" for x
    using that assms(1) by (meson in_set_dropD in_set_takeD)
  ultimately show ?thesis using ext [OF c [of "take m xs"]] by simp
qed

section \<open>Properties\<close>

text \<open>C26: Grouping spend loses nothing and counts nothing twice: the items have distinct keys, exactly those of
  the rows, each item holds the exact sum of its rows, the items are sorted from the highest amount down,
  and together they add up to the total of the rows.\<close>

lemma spend_conserved:
  assumes a: "\<And>k l x. (k, l, x) \<in> set rows \<Longrightarrow> amount x" and b: "sum_bound (map snd (spend_pairs rows)) < 10 ^ 23"
  shows "\<exists>items. aggregate_spend rows = Inr items \<and> distinct (map si_key items) \<and> set (map si_key items) = fst ` set rows \<and>
    (\<forall>i\<in>set items. si_amount i = sum_list (of_key (si_key i) (spend_pairs rows))) \<and>
    sorted (map (\<lambda>i. - si_amount i) items) \<and> sum_list (map si_amount items) = (\<Sum>(k, l, x)\<leftarrow>rows. x)"
proof -
  let ?p = "spend_pairs rows" and ?lab = "last_labels rows"
  have p: "amount (snd r)" if "r \<in> set ?p" for r using that a by (auto simp: spend_pairs_def)
  note ag = aggregate_amounts [OF p b]
  define mk where "mk = (\<lambda>kt :: 'a \<times> rat. \<lparr> si_key = fst kt, si_label = dict_get ?lab (fst kt) [], si_amount = sum_list (of_key (fst kt) ?p) \<rparr>)"
  define its where "its = map mk (accumulate ?p)"
  have step: "(\<lambda>(key, t). bindR (round_currency t) (\<lambda>a. Inr \<lparr> si_key = key, si_label = dict_get ?lab key [], si_amount = a \<rparr>)) kt = Inr (mk kt)"
    if "kt \<in> set (accumulate ?p)" for kt
  proof -
    obtain k t where kt: "kt = (k, t)" by (cases kt)
    then have "t = sum_list (of_key k ?p)" using that by (simp add: accumulate_entries ag(1))
    then show ?thesis by (simp add: kt ag(2) mk_def)
  qed
  then have m: "mapR (\<lambda>(key, t). bindR (round_currency t) (\<lambda>a. Inr \<lparr> si_key = key, si_label = dict_get ?lab key [], si_amount = a \<rparr>))
      (accumulate ?p) = Inr its" unfolding its_def by (rule mapR_Inr)
  let ?s = "sort_key (\<lambda>i. dneg (si_amount i)) its"
  have e: "aggregate_spend rows = Inr ?s" using m by (simp add: aggregate_spend_def spend_pairs_def)
  have keys: "map si_key its = map fst (accumulate ?p)" by (simp add: its_def mk_def)
  have f: "fits 4 (si_amount i)" if i: "i \<in> set its" for i
  proof -
    obtain kt where "i = mk kt" using i unfolding its_def set_map by blast
    then obtain k where k: "si_amount i = sum_list (of_key k ?p)" by (simp add: mk_def)
    have "\<bar>sum_list (of_key k ?p)\<bar> \<le> sum_bound (of_key k ?p)" by (simp add: sum_bound_def sum_list_abs)
    then have "\<bar>sum_list (of_key k ?p)\<bar> < 10 ^ 23" using sum_bound_le [of k ?p] b by linarith
    moreover have "on_grid 4 (sum_list (of_key k ?p))" using p by (intro on_grid_sum_list) (auto simp: of_key_def amount_def)
    ultimately show ?thesis by (simp add: fits_def k prec_def)
  qed
  have "sum_list (map si_amount its) = (\<Sum>k\<leftarrow>map fst (accumulate ?p). sum_list (of_key k ?p))"
    by (simp add: its_def mk_def comp_def)
  also have "\<dots> = (\<Sum>r\<leftarrow>?p. snd r)" by (rule sum_of_keys) simp_all
  also have "\<dots> = (\<Sum>(k, l, x)\<leftarrow>rows. x)" by (simp add: spend_pairs_def comp_def case_prod_unfold)
  finally have total: "sum_list (map si_amount its) = (\<Sum>(k, l, x)\<leftarrow>rows. x)" .
  show ?thesis
  proof (intro exI [of _ ?s] conjI)
    have "mset (map si_key ?s) = mset (map si_key its)" by simp
    then show "distinct (map si_key ?s)" by (metis keys accumulate_distinct mset_eq_imp_distinct_iff)
    have "set (map si_key ?s) = fst ` set (accumulate ?p)" using keys by (metis set_map set_sort list.set_map)
    also have "\<dots> = fst ` set rows" by (force simp: spend_pairs_def)
    finally show "set (map si_key ?s) = fst ` set rows" .
    show "\<forall>i\<in>set ?s. si_amount i = sum_list (of_key (si_key i) ?p)" by (auto simp: its_def mk_def)
    show "sorted (map (\<lambda>i. - si_amount i) ?s)" by (rule sort_key_descending [OF f])
    have "mset (map si_amount ?s) = mset (map si_amount its)" by simp
    then show "sum_list (map si_amount ?s) = (\<Sum>(k, l, x)\<leftarrow>rows. x)" by (metis total sum_mset_sum_list)
  qed (rule e)
qed

lemma spend_conserved_witness:
  "\<exists>items. aggregate_spend [(1 :: int, ''A'', 10), (2, ''B'', 30), (1, ''A'', 5)] = Inr items \<and> sum_list (map si_amount items) = 45"
proof -
  let ?rows = "[(1 :: int, ''A'', 10), (2, ''B'', 30), (1, ''A'', 5)]"
  have "amount x" if "(k, l, x) \<in> set ?rows" for k l x using that by (auto simp: amount_def)
  moreover have "sum_bound (map snd (spend_pairs ?rows)) < 10 ^ 23" by (simp add: spend_pairs_def sum_bound_def)
  ultimately show ?thesis using spend_conserved [of ?rows] by auto
qed

text \<open>The bands of the classification follow the order of the items: with amounts that are not negative the
  cumulative shares never fall, so the classes come as a block of A, then B, then C; the last item
  always has the share one and is in class C, whatever it amounts to.\<close>

lemma abc_bands_ordered:
  assumes r: "calculate_abc_classification items a b = Inr rs" and nn: "\<And>i. i \<in> set items \<Longrightarrow> 0 \<le> si_amount i"
    and pos: "0 < dsum (map si_amount items)" and th: "a \<le> b" "b < 1"
  shows "map ar_item rs = items \<and> sorted (map ar_cumulative_pct rs) \<and> ar_cumulative_pct (last rs) = 1 \<and>
    ar_classification (last rs) = Class_C \<and>
    (\<forall>j<length rs. \<forall>i<j. (ar_classification (rs ! j) = Class_A \<longrightarrow> ar_classification (rs ! i) = Class_A) \<and>
       (ar_classification (rs ! i) = Class_C \<longrightarrow> ar_classification (rs ! j) = Class_C))"
proof -
  let ?t = "dsum (map si_amount items)"
  have ne: "items \<noteq> []" using pos by auto
  have l: "abc_loop ?t a b 0 items = Inr rs" using r pos by (simp add: calculate_abc_classification_def)
  note n = abc_loop_nth [OF l]
  have len: "length rs = length items" using n by simp
  have nth: "ar_item (rs ! i) = items ! i"
    "share_pct (foldl dadd 0 (take (Suc i) (map si_amount items))) ?t = Inr (ar_cumulative_pct (rs ! i))"
    "ar_classification (rs ! i) = abc_band a b (ar_cumulative_pct (rs ! i))" if "i < length items" for i
    using n that by (simp_all add: take_map)
  have mono: "ar_cumulative_pct (rs ! i) \<le> ar_cumulative_pct (rs ! j)" if "i \<le> j" "j < length items" for i j
  proof (rule share_mono [OF nth(2) nth(2) running_mono pos])
    show "0 \<le> x" if "x \<in> set (map si_amount items)" for x using that nn by auto
  qed (use that in simp_all)
  have rs: "rs \<noteq> []" using ne len by auto
  have last: "ar_cumulative_pct (last rs) = 1"
  proof -
    have "share_pct ?t ?t = Inr (ar_cumulative_pct (rs ! (length items - 1)))"
      using nth(2) [of "length items - 1"] ne by (simp add: dsum_def)
    then show ?thesis using rs len share_whole [of ?t] pos by (simp add: last_conv_nth)
  qed
  show ?thesis
  proof (intro conjI allI impI)
    show "map ar_item rs = items" using len nth(1) by (intro nth_equalityI) simp_all
    show "sorted (map ar_cumulative_pct rs)" using mono len by (simp add: sorted_iff_nth_mono)
    show "ar_cumulative_pct (last rs) = 1" by (rule last)
    show "ar_classification (last rs) = Class_C"
      using nth(3) [of "length items - 1"] last th ne rs len by (simp add: last_conv_nth abc_band_def)
    show "ar_classification (rs ! i) = Class_A" if "j < length rs" "i < j" "ar_classification (rs ! j) = Class_A" for i j
      using that mono [of i j] nth(3) [of i] nth(3) [of j] len by (auto simp: abc_band_def split: if_splits)
    show "ar_classification (rs ! j) = Class_C" if "j < length rs" "i < j" "ar_classification (rs ! i) = Class_C" for i j
      using that mono [of i j] nth(3) [of i] nth(3) [of j] len th by (auto simp: abc_band_def split: if_splits)
  qed
qed

text \<open>The supplier that matters most can end in the lowest class: when the first item has more than 96 percent of
  the total, its own cumulative share already exceeds both thresholds, and every item is in class C.\<close>

lemma dominant_item_in_class_C:
  assumes r: "calculate_abc_classification (x # items) (80 / 100) (95 / 100) = Inr rs"
    and nn: "\<And>i. i \<in> set (x # items) \<Longrightarrow> 0 \<le> si_amount i"
    and big: "96 / 100 * dsum (map si_amount (x # items)) \<le> si_amount x" and pos: "0 < dsum (map si_amount (x # items))"
    and exact: "ctx (si_amount x) = si_amount x"
  shows "\<forall>q\<in>set rs. ar_classification q = Class_C"
proof -
  let ?t = "dsum (map si_amount (x # items))"
  have s: "sorted (map ar_cumulative_pct rs)" and m: "map ar_item rs = x # items"
    using abc_bands_ordered [OF r nn pos] by simp_all
  have l: "abc_loop ?t (80 / 100) (95 / 100) 0 (x # items) = Inr rs" using r pos by (simp add: calculate_abc_classification_def Let_def)
  have "share_pct (si_amount x) ?t = Inr (ar_cumulative_pct (rs ! 0))"
    using abc_loop_nth [OF l] exact by (auto simp: dadd_def)
  then have b: "96 / 100 \<le> ar_cumulative_pct (rs ! 0)"
    by (rule share_lower [OF _ big pos]) (simp_all add: on_grid_def)
  show ?thesis
  proof
    fix q assume "q \<in> set rs"
    then obtain i where i: "i < length rs" "q = rs ! i" by (metis in_set_conv_nth)
    have "ar_cumulative_pct (rs ! 0) \<le> ar_cumulative_pct q" using s i by (simp add: sorted_iff_nth_mono)
    moreover have "ar_classification q = abc_band (80 / 100) (95 / 100) (ar_cumulative_pct q)"
      using abc_loop_nth [OF l] i by auto
    ultimately show "ar_classification q = Class_C" using b by (simp add: abc_band_def)
  qed
qed

definition two_items :: "rat \<Rightarrow> rat \<Rightarrow> nat spend_item list" where
  "two_items x y = [\<lparr> si_key = 1, si_label = ''Acme'', si_amount = x \<rparr>, \<lparr> si_key = 2, si_label = ''Beta'', si_amount = y \<rparr>]"

lemma two_items_total [simp]: "dsum (map si_amount (two_items 97 3)) = 100" "ctx 97 = 97"
  by (simp_all add: two_items_def dsum_def dec_eval)

lemma two_items_steps: "dadd 0 97 = 97" "dadd 97 3 = 100" "share_pct 97 100 = Inr (97 / 100)" "share_pct 100 100 = Inr 1"
  by (simp_all add: share_pct_def dec_eval cong: bindR_weak_cong)

definition two_results :: "nat abc_result list" where
  "two_results = [\<lparr> ar_item = two_items 97 3 ! 0, ar_cumulative_pct = 97 / 100, ar_classification = Class_C \<rparr>,
     \<lparr> ar_item = two_items 97 3 ! 1, ar_cumulative_pct = 1, ar_classification = Class_C \<rparr>]"

lemma two_items_classes: "calculate_abc_classification (two_items 97 3) (80 / 100) (95 / 100) = Inr two_results"
  unfolding calculate_abc_classification_def two_items_total Let_def
  by (simp add: two_items_def two_items_steps abc_band_def two_results_def)

lemma two_items_nonneg: "i \<in> set (two_items 97 3) \<Longrightarrow> 0 \<le> si_amount i"
  by (auto simp: two_items_def)

lemma abc_bands_ordered_witness:
  "calculate_abc_classification (two_items 97 3) (80 / 100) (95 / 100) = Inr two_results \<and> ar_classification (last two_results) = Class_C"
  using abc_bands_ordered [OF two_items_classes two_items_nonneg] two_items_classes by simp

lemma dominant_item_in_class_C_witness:
  "calculate_abc_classification (two_items 97 3) (80 / 100) (95 / 100) = Inr two_results \<and> (\<forall>q\<in>set two_results. ar_classification q = Class_C)"
proof -
  obtain x ys where c: "two_items 97 3 = x # ys" and x: "si_amount x = 97" by (simp add: two_items_def)
  have "\<forall>q\<in>set two_results. ar_classification q = Class_C"
  proof (rule dominant_item_in_class_C [of x ys, folded c, OF two_items_classes two_items_nonneg])
    show "96 / 100 * dsum (map si_amount (two_items 97 3)) \<le> si_amount x" by (simp add: x)
    show "ctx (si_amount x) = si_amount x" by (simp add: x)
  qed simp_all
  then show ?thesis using two_items_classes by simp
qed

text \<open>The contributors are the shortest front part of the items that reaches the target share: the share of the
  taken items reaches it, that of no shorter nonempty front part does, and for a target of at most
  one and a total that is not zero there always is one.\<close>

lemma pareto_shortest_prefix:
  assumes r: "calculate_pareto_contributors items target = Inr r" and t: "dsum (map si_amount items) \<noteq> 0" "target \<le> 1"
  shows "\<exists>n. 0 < n \<and> n \<le> length items \<and> contributors r = take n items \<and> contributor_count r = n \<and>
    total_item_count r = length items \<and>
    target \<le> ctx (dsum (map si_amount (take n items)) / dsum (map si_amount items)) \<and>
    (\<forall>m. 0 < m \<longrightarrow> m < n \<longrightarrow> ctx (dsum (map si_amount (take m items)) / dsum (map si_amount items)) < target)"
proof -
  let ?t = "dsum (map si_amount items)"
  have loop: "\<exists>n. 0 < n \<and> n \<le> length ys \<and> cs = acc @ take n ys \<and> target \<le> ctx (foldl dadd s (map si_amount (take n ys)) / ?t) \<and>
      (\<forall>m. 0 < m \<longrightarrow> m < n \<longrightarrow> ctx (foldl dadd s (map si_amount (take m ys)) / ?t) < target)"
    if "pareto_loop ?t target acc s ys = Inr (cs, fin)" "ys \<noteq> []" "foldl dadd s (map si_amount ys) = ?t" for acc s ys cs fin
    using that
  proof (induction ys arbitrary: acc s)
    case (Cons y ys)
    let ?s = "dadd s (si_amount y)"
    show ?case
    proof (cases "target \<le> ctx (?s / ?t)")
      case True
      then show ?thesis using Cons.prems(1) t(1) by (intro exI [of _ 1]) (simp add: Let_def)
    next
      case False
      have ne: "ys \<noteq> []"
      proof
        assume "ys = []"
        then have "?s = ?t" using Cons.prems(3) by simp
        then show False using False t by simp
      qed
      have "pareto_loop ?t target (acc @ [y]) ?s ys = Inr (cs, fin)" using Cons.prems(1) False t(1) by (simp add: Let_def)
      from Cons.IH [OF this ne] Cons.prems(3) obtain n where n: "0 < n" "n \<le> length ys" "cs = (acc @ [y]) @ take n ys"
        "target \<le> ctx (foldl dadd ?s (map si_amount (take n ys)) / ?t)"
        "\<And>m. 0 < m \<Longrightarrow> m < n \<Longrightarrow> ctx (foldl dadd ?s (map si_amount (take m ys)) / ?t) < target" by auto
      have "ctx (foldl dadd s (map si_amount (take m (y # ys))) / ?t) < target" if "0 < m" "m < Suc n" for m
        using that False n(5) [of "m - 1"] by (cases "m = 1") (auto simp: take_Cons')
      then show ?thesis using n by (intro exI [of _ "Suc n"]) simp
    qed
  qed simp
  obtain cs fin where l: "pareto_loop ?t target [] 0 items = Inr (cs, fin)"
    and c: "contributors r = cs" "contributor_count r = length cs" "total_item_count r = length items"
    using r t(1) by (auto simp: calculate_pareto_contributors_def Let_def res_simps)
  have "items \<noteq> []" using t(1) by auto
  from loop [OF l this] c show ?thesis by (auto simp: dsum_def)
qed

lemma pareto_shortest_prefix_witness:
  "\<exists>r. calculate_pareto_contributors (two_items 97 3) (80 / 100) = Inr r \<and> (\<exists>n. 0 < n \<and> n \<le> 2 \<and> contributors r = take n (two_items 97 3))"
proof -
  have "ddiv 97 100 = Inr (97 / 100)" by (simp add: dec_eval)
  then have "is_ok (calculate_pareto_contributors (two_items 97 3) (80 / 100))"
    unfolding calculate_pareto_contributors_def two_items_total Let_def
    by (simp add: two_items_def two_items_steps)
  then obtain r where r: "calculate_pareto_contributors (two_items 97 3) (80 / 100) = Inr r" by (auto simp: is_ok_iff)
  have len: "length (two_items 97 3) = 2" by (simp add: two_items_def)
  from pareto_shortest_prefix [OF r] show ?thesis by (intro exI [of _ r] conjI r) (auto simp: len)
qed

definition invoice_amounts :: "spend_db \<Rightarrow> int \<Rightarrow> rat list" where
  "invoice_amounts db s = concat (map (\<lambda>v. map ln_net_amount (iv_lines v)) (filter (\<lambda>v. iv_supplier v = s) (active_invoices db)))"

definition transaction_amounts :: "spend_db \<Rightarrow> int \<Rightarrow> rat list" where
  "transaction_amounts db s = map tx_amount (filter (\<lambda>t. tx_supplier t = s) (active_transactions db))"

lemma of_key_concat: "of_key k (concat xss) = concat (map (of_key k) xss)"
  by (induction xss) (simp_all add: of_key_append)

lemma of_key_supplier_row: "of_key s (spend_pairs (supplier_row db sid x)) = (if sid = s \<and> map_of (sd_suppliers db) s \<noteq> None then [x] else [])"
  by (auto simp: of_key_def spend_pairs_def supplier_row_def split: option.split)

lemma spend_pairs_concat: "spend_pairs (concat xss) = concat (map spend_pairs xss)"
  by (induction xss) (simp_all add: spend_pairs_def)

lemma supplier_rows_of:
  assumes "map_of (sd_suppliers db) s \<noteq> None"
  shows "of_key s (spend_pairs (supplier_spend_rows db)) =
    (if s \<in> suppliers_with_invoice_data db then invoice_amounts db s else transaction_amounts db s)"
proof -
  have lines: "concat (map (\<lambda>l. of_key s (spend_pairs (supplier_row db sid (ln_net_amount l)))) ls) =
      (if sid = s then map ln_net_amount ls else [])" for sid ls
    using assms by (induction ls) (auto simp: of_key_supplier_row)
  have inv: "concat (map (\<lambda>v. concat (map (\<lambda>l. of_key s (spend_pairs (supplier_row db (iv_supplier v) (ln_net_amount l)))) (iv_lines v))) vs) =
      concat (map (\<lambda>v. map ln_net_amount (iv_lines v)) (filter (\<lambda>v. iv_supplier v = s) vs))" for vs
    by (induction vs) (simp_all add: lines)
  have txn: "concat (map (\<lambda>t. of_key s (spend_pairs (supplier_row db (tx_supplier t) (tx_amount t)))) ts) =
      map tx_amount (filter (\<lambda>t. tx_supplier t = s) ts)" for ts
    using assms by (induction ts) (auto simp: of_key_supplier_row)
  have split: "spend_pairs (xs @ ys) = spend_pairs xs @ spend_pairs ys" for xs ys :: "(int \<times> string \<times> rat) list"
    by (simp add: spend_pairs_def)
  have none: "invoice_amounts db s = []" if "s \<notin> suppliers_with_invoice_data db"
    using that by (auto simp: suppliers_with_invoice_data_def invoice_amounts_def filter_empty_conv)
  have "of_key s (spend_pairs (supplier_spend_rows db)) = invoice_amounts db s @
      map tx_amount (filter (\<lambda>t. tx_supplier t = s) (filter (\<lambda>t. tx_supplier t \<notin> suppliers_with_invoice_data db) (active_transactions db)))"
    by (simp add: supplier_spend_rows_def split spend_pairs_concat of_key_append of_key_concat comp_def inv txn invoice_amounts_def)
  moreover have "filter (\<lambda>t. tx_supplier t = s) (filter (\<lambda>t. tx_supplier t \<notin> suppliers_with_invoice_data db) (active_transactions db)) =
      (if s \<in> suppliers_with_invoice_data db then [] else filter (\<lambda>t. tx_supplier t = s) (active_transactions db))"
    by (auto simp: filter_empty_conv intro!: filter_cong)
  ultimately show ?thesis using none by (simp add: transaction_amounts_def)
qed

text \<open>No purchase is counted twice: the spend of a supplier is the exact sum of its uncorrected invoice lines if it
  has an uncorrected invoice, and of its uncorrected transactions otherwise, never of both.\<close>

lemma supplier_spend_from_one_source:
  assumes a: "\<And>k l x. (k, l, x) \<in> set (supplier_spend_rows db) \<Longrightarrow> amount x"
    and b: "sum_bound (map snd (spend_pairs (supplier_spend_rows db))) < 10 ^ 23"
  shows "\<exists>items. get_spend_by_supplier db = Inr items \<and> (\<forall>i\<in>set items. si_amount i =
    (if si_key i \<in> suppliers_with_invoice_data db then sum_list (invoice_amounts db (si_key i))
     else sum_list (transaction_amounts db (si_key i))))"
proof -
  obtain items where items: "aggregate_spend (supplier_spend_rows db) = Inr items"
    "set (map si_key items) = fst ` set (supplier_spend_rows db)"
    "\<And>i. i \<in> set items \<Longrightarrow> si_amount i = sum_list (of_key (si_key i) (spend_pairs (supplier_spend_rows db)))"
    using spend_conserved [of "supplier_spend_rows db"] a b by blast
  have sup: "map_of (sd_suppliers db) (fst r) \<noteq> None" if "r \<in> set (supplier_spend_rows db)" for r
    using that by (auto simp: supplier_spend_rows_def supplier_row_def split: option.splits; metis)
  have "map_of (sd_suppliers db) (si_key i) \<noteq> None" if "i \<in> set items" for i
  proof -
    have "si_key i \<in> fst ` set (supplier_spend_rows db)" using that items(2) by (metis imageI list.set_map)
    then obtain r where "si_key i = fst r" "r \<in> set (supplier_spend_rows db)" by (rule imageE)
    then show ?thesis using sup by simp
  qed
  then show ?thesis using items(1,3) supplier_rows_of by (intro exI [of _ items]) (simp add: get_spend_by_supplier_def)
qed

definition example_spend :: spend_db where
  "example_spend = \<lparr> sd_suppliers = [(1, ''Acme''), (2, ''Beta'')],
     sd_invoices = [\<lparr> iv_supplier = 1, iv_date = PyDate 2026 1 5, iv_corrects = None,
       iv_lines = [\<lparr> ln_sku = Some ''A'', ln_description = None, ln_unit_price = 5, ln_net_amount = 50 \<rparr>] \<rparr>],
     sd_transactions = [
       \<lparr> tx_supplier = 1, tx_sku = Some ''A'', tx_description = None, tx_amount = 70, tx_date = PyDate 2026 1 6, tx_corrects = None \<rparr>,
       \<lparr> tx_supplier = 2, tx_sku = None, tx_description = None, tx_amount = 20, tx_date = PyDate 2026 1 7, tx_corrects = None \<rparr>] \<rparr>"

lemma supplier_spend_from_one_source_witness:
  "\<exists>items. get_spend_by_supplier example_spend = Inr items \<and> (\<forall>i\<in>set items. si_key i = 1 \<longrightarrow> si_amount i = 50)"
proof -
  have rows: "supplier_spend_rows example_spend = [(1, ''Acme'', 50), (2, ''Beta'', 20)]" by code_simp
  have one: "1 \<in> suppliers_with_invoice_data example_spend" "invoice_amounts example_spend 1 = [50]" by code_simp+
  have "amount x" if "(k, l, x) \<in> set (supplier_spend_rows example_spend)" for k l x
    using that by (auto simp: rows amount_def)
  moreover have "sum_bound (map snd (spend_pairs (supplier_spend_rows example_spend))) < 10 ^ 23"
    by (simp add: rows spend_pairs_def sum_bound_def)
  ultimately obtain items where "get_spend_by_supplier example_spend = Inr items" "\<forall>i\<in>set items. si_amount i =
    (if si_key i \<in> suppliers_with_invoice_data example_spend then sum_list (invoice_amounts example_spend (si_key i))
     else sum_list (transaction_amounts example_spend (si_key i)))" using supplier_spend_from_one_source [of example_spend] by blast
  then show ?thesis using one by (intro exI [of _ items]) simp
qed

lemma Min_merge: "finite S \<Longrightarrow> Min (insert a (insert m S)) = Min (insert (min a m) S)" for a m :: rat
  by (cases "S = {}") (simp_all add: min.assoc)

lemma Max_merge: "finite S \<Longrightarrow> Max (insert a (insert m S)) = Max (insert (max a m) S)" for a m :: rat
  by (cases "S = {}") (simp_all add: max.assoc)

lemma min_list'_Min: "min_list' m xs = Min (insert m (set xs))"
proof (induction xs arbitrary: m)
  case (Cons x xs)
  have "(if x < m then x else m) = min m x" by (simp add: min_def)
  then show ?case using Cons by (simp add: Min_merge del: Min_insert)
qed simp

lemma max_list'_Max: "max_list' m xs = Max (insert m (set xs))"
proof (induction xs arbitrary: m)
  case (Cons x xs)
  have "(if m < x then x else m) = max m x" by (simp add: max_def)
  then show ?case using Cons by (simp add: Max_merge del: Max_insert)
qed simp

text \<open>The price check depends on which prices were paid and how often, not on the order in which the
  database returns them.\<close>

lemma price_consistency_order:
  assumes "mset ps = mset qs" shows "calculate_price_consistency ps th = calculate_price_consistency qs th"
proof -
  have s: "set ps = set qs" "length ps = length qs" using assms mset_eq_setD mset_eq_length by blast+
  show ?thesis
  proof (cases ps)
    case (Cons x xs)
    then obtain y ys where q: "qs = y # ys" using s(2) by (cases qs) simp_all
    have "min_list' x xs = min_list' y ys" "max_list' x xs = max_list' y ys"
      using s(1) unfolding Cons q by (simp_all only: min_list'_Min max_list'_Max list.set)
    then show ?thesis using s(2) by (simp add: Cons q calculate_price_consistency_def)
  qed (use s(2) in simp)
qed

lemma price_consistency_order_witness:
  "calculate_price_consistency [3, 1, 2] (5 / 100) = calculate_price_consistency [1, 2, 3] (5 / 100)"
  by (rule price_consistency_order) simp

text \<open>The ranking of price increases puts lines without a known impact before every quantified one: when
  there are at least as many of them as the limit, the result holds no impact at all, however large
  the quantified ones are.\<close>

lemma unquantified_increases_first:
  assumes "limit \<le> length (filter (\<lambda>l. rl_movement_type l = ''price_increase'' \<and> rl_annual_impact l = None) lines)"
  shows "length (get_top_supplier_price_increases lines limit) = limit \<and>
    (\<forall>v\<in>set (get_top_supplier_price_increases lines limit). rv_annual_impact v = None)"
proof -
  let ?ls = "filter (\<lambda>l. rl_movement_type l = ''price_increase'') lines"
  have f: "filter (\<lambda>l. rl_annual_impact l = None) ?ls = filter (\<lambda>l. rl_movement_type l = ''price_increase'' \<and> rl_annual_impact l = None) lines"
    by (simp add: conj_commute)
  have t: "take limit (order_desc ?ls) = take limit (filter (\<lambda>l. rl_annual_impact l = None) ?ls)"
    using assms by (simp add: order_desc_def f del: filter_filter)
  have "rl_annual_impact l = None" if "l \<in> set (take limit (order_desc ?ls))" for l
    using that unfolding t by (auto dest: in_set_takeD)
  moreover have "length (take limit (order_desc ?ls)) = limit" unfolding t f using assms by simp
  ultimately show ?thesis by (auto simp: get_top_supplier_price_increases_def truthy_def)
qed

lemma unquantified_increases_first_witness:
  "\<exists>v. get_top_supplier_price_increases
     [\<lparr> rl_supplier_name = ''Acme'', rl_movement_type = ''price_increase'', rl_new_description = Some ''Rice'', rl_old_description = None,
        rl_percentage_change = Some 1, rl_annual_impact = Some 90000, rl_risk = None \<rparr>,
      \<lparr> rl_supplier_name = ''Beta'', rl_movement_type = ''price_increase'', rl_new_description = Some ''Salt'', rl_old_description = None,
        rl_percentage_change = Some 1, rl_annual_impact = None, rl_risk = None \<rparr>] 1 = [v] \<and> rv_annual_impact v = None"
  (is "\<exists>v. get_top_supplier_price_increases ?ls 1 = [v] \<and> _")
proof -
  have "length (get_top_supplier_price_increases ?ls 1) = 1 \<and> (\<forall>v\<in>set (get_top_supplier_price_increases ?ls 1). rv_annual_impact v = None)"
    by (rule unquantified_increases_first) simp
  then show ?thesis by (auto simp: length_Suc_conv)
qed

end
