(* ===== verification/SavingsRegister.thy ===== *)
theory SavingsRegister
  imports OpportunityService RebateService Grouping
begin

text \<open>
  The savings register: \<open>app/analytics/savings_register.py\<close> and the waterfall endpoint of
  \<open>app/api/v1/savings_register.py\<close>, which reads the opportunity register.  The query of the endpoint
  returns the opportunities of one organisation (row-level security); the register of the model is
  that of one organisation.
\<close>

section \<open>savings\_register.py\<close>

datatype savings_type = HARD_SAVING | COST_AVOIDANCE | WORKING_CAPITAL | MARGIN_PROTECTION | EFFICIENCY_SAVING

datatype baseline_methodology = HISTORIC_AVERAGE_PRICE | PRIOR_SUPPLIER_PRICE | BUDGET | CONTRACT_PRICE | APPROVED_QUOTATION

record savings_result =
  sv_type :: savings_type
  sv_amount :: rat
  sv_baseline :: "baseline_methodology option"
  is_one_time :: bool

definition savings_figure :: "savings_type \<Rightarrow> baseline_methodology option \<Rightarrow> bool \<Rightarrow> rat \<Rightarrow> savings_result res" where
  "savings_figure ty bm once x = bindR (round_currency x) (\<lambda>a.
     Inr \<lparr> sv_type = ty, sv_amount = a, sv_baseline = bm, is_one_time = once \<rparr>)"

definition calculate_hard_saving :: "rat \<Rightarrow> rat \<Rightarrow> rat \<Rightarrow> baseline_methodology \<Rightarrow> savings_result res" where
  "calculate_hard_saving baseline_unit_cost new_unit_cost annual_quantity bm =
     savings_figure HARD_SAVING (Some bm) False (dmul (dsub baseline_unit_cost new_unit_cost) annual_quantity)"

definition calculate_cost_avoidance :: "rat \<Rightarrow> rat \<Rightarrow> rat \<Rightarrow> savings_result res" where
  "calculate_cost_avoidance requested_price negotiated_or_target_price annual_quantity =
     savings_figure COST_AVOIDANCE None False (dmul (dsub requested_price negotiated_or_target_price) annual_quantity)"

definition calculate_working_capital_release :: "rat \<Rightarrow> int \<Rightarrow> int \<Rightarrow> savings_result res" where
  "calculate_working_capital_release daily_relevant_spend current_terms_days proposed_terms_days =
     savings_figure WORKING_CAPITAL None True (dmul daily_relevant_spend (of_int (proposed_terms_days - current_terms_days)))"

definition calculate_margin_protection :: "rat \<Rightarrow> rat \<Rightarrow> savings_result res" where
  "calculate_margin_protection margin_at_risk_pct protected_revenue =
     savings_figure MARGIN_PROTECTION None False (dmul margin_at_risk_pct protected_revenue)"

definition calculate_efficiency_saving :: "rat \<Rightarrow> rat \<Rightarrow> savings_result res" where
  "calculate_efficiency_saving hours_saved_annually fully_loaded_hourly_rate =
     savings_figure EFFICIENCY_SAVING None False (dmul hours_saved_annually fully_loaded_hourly_rate)"

record waterfall_totals =
  wt_identified :: rat
  wt_validated :: rat
  wt_approved :: rat
  wt_implementation :: rat
  wt_realised :: rat

definition stage_totals :: "(string \<times> rat \<times> bool) list \<Rightarrow> (string, rat) pydict" where
  "stage_totals opportunities = foldl (\<lambda>d (status, x, one_time).
     (case map_of d status of None \<Rightarrow> d | Some t \<Rightarrow> AList.update status (dadd t x) d))
     (map (\<lambda>stage. (stage, 0)) waterfall_order) opportunities"

definition calculate_savings_waterfall :: "(string \<times> rat \<times> bool) list \<Rightarrow> waterfall_totals res" where
  "calculate_savings_waterfall opportunities =
     (let d = stage_totals opportunities; t = (\<lambda>stage. round_currency (dict_get d stage 0)) in
      bindR (t ''identified'') (\<lambda>a. bindR (t ''validated'') (\<lambda>b. bindR (t ''approved'') (\<lambda>c.
      bindR (t ''implementation'') (\<lambda>e. bindR (t ''realised'') (\<lambda>f.
        Inr \<lparr> wt_identified = a, wt_validated = b, wt_approved = c, wt_implementation = e, wt_realised = f \<rparr>))))))"

section \<open>The waterfall endpoint\<close>

definition waterfall_step :: "(string \<times> rat \<times> bool) list \<times> nat \<times> nat \<Rightarrow> opp \<Rightarrow> ((string \<times> rat \<times> bool) list \<times> nat \<times> nat) res" where
  "waterfall_step s o' = (case s of (tuples, unknown, legacy) \<Rightarrow>
     let c = c_snap (if op_status o' = ''realised'' then op_rs o' else op_afi o');
         evidenced = (if op_status o' = ''realised'' then {Calculated, Confirmed} else {Estimated, Calculated}) in
     if s_status c \<notin> evidenced
     then Inr (if s_status c = Legacy_unverified then (tuples, unknown, legacy + 1) else (tuples, unknown + 1, legacy))
     else bindR (as_decimal (s_amount c)) (\<lambda>x.
       Inr (tuples @ [(op_status o', x, op_savings_type o' = Some ''working_capital'')], unknown, legacy)))"

definition get_savings_waterfall :: "ledger \<Rightarrow> (waterfall_totals \<times> nat \<times> nat) res" where
  "get_savings_waterfall l = bindR (foldR waterfall_step ([], 0, 0) (list_opportunities l None None)) (\<lambda>(tuples, unknown, legacy).
     bindR (calculate_savings_waterfall tuples) (\<lambda>t. Inr (t, unknown, legacy)))"

section \<open>Lemmas\<close>

definition stage_amounts :: "string \<Rightarrow> (string \<times> rat \<times> bool) list \<Rightarrow> rat list" where
  "stage_amounts stage ts = map (\<lambda>(s, x, w). x) (filter (\<lambda>(s, x, w). s = stage) ts)"

lemma stage_totals_snoc: "stage_totals (ts @ [(s, x, w)]) = (case map_of (stage_totals ts) s of None \<Rightarrow> stage_totals ts
    | Some t \<Rightarrow> AList.update s (dadd t x) (stage_totals ts))"
  by (simp add: stage_totals_def split: option.split)

lemma stage_totals_get:
  "map_of (stage_totals ts) stage = (if stage \<in> set waterfall_order then Some (dsum (stage_amounts stage ts)) else None)"
proof (induction ts rule: rev_induct)
  case Nil
  show ?case by (simp add: stage_totals_def stage_amounts_def waterfall_order_def)
next
  case (snoc r ts)
  obtain s x w where r: "r = (s, x, w)" by (cases r)
  show ?case using snoc by (auto simp: r stage_totals_snoc stage_amounts_def split: option.split)
qed

lemma calculate_savings_waterfall_total:
  assumes "\<And>s x w. (s, x, w) \<in> set ts \<Longrightarrow> amount x" "sum_bound (map (\<lambda>(s, x, w). x) ts) < 10 ^ 23"
  shows "calculate_savings_waterfall ts = Inr \<lparr> wt_identified = sum_list (stage_amounts ''identified'' ts),
    wt_validated = sum_list (stage_amounts ''validated'' ts), wt_approved = sum_list (stage_amounts ''approved'' ts),
    wt_implementation = sum_list (stage_amounts ''implementation'' ts), wt_realised = sum_list (stage_amounts ''realised'' ts) \<rparr>"
proof -
  have "round_currency (dict_get (stage_totals ts) st 0) = Inr (sum_list (stage_amounts st ts))" if "st \<in> set waterfall_order" for st
  proof -
    have g: "on_grid 4 x" if "x \<in> set (stage_amounts st ts)" for x
      using that assms(1) by (auto simp: stage_amounts_def amount_def)
    have "sum_bound (stage_amounts st ts) \<le> sum_bound (map (\<lambda>(s, x, w). x) ts)"
      unfolding stage_amounts_def by (induction ts) (auto simp: sum_bound_def)
    then have b: "sum_bound (stage_amounts st ts) < 10 ^ 23" using assms(2) by linarith
    then have b': "sum_bound (stage_amounts st ts) * 10 ^ 4 < 10 ^ prec" by (simp add: prec_def)
    have "\<bar>sum_list (stage_amounts st ts)\<bar> \<le> sum_bound (stage_amounts st ts)" by (simp add: sum_bound_def sum_list_abs)
    then have "\<bar>sum_list (stage_amounts st ts)\<bar> < 10 ^ 23" using b by linarith
    then have r: "round_currency (sum_list (stage_amounts st ts)) = Inr (sum_list (stage_amounts st ts))"
      by (intro cur.exact on_grid_sum_list g) (simp_all add: prec_def)
    have "dsum (stage_amounts st ts) = sum_list (stage_amounts st ts)" by (rule dsum_exact [OF g b'])
    then show ?thesis using that r by (simp add: dict_get_def stage_totals_get)
  qed
  then show ?thesis by (simp add: calculate_savings_waterfall_def waterfall_order_def)
qed

text \<open>The amount an opportunity brings into its stage, when its evidence status lets it count.\<close>

definition evidenced_amount :: "opp \<Rightarrow> rat option" where
  "evidenced_amount o' = (if op_status o' = ''realised''
     then (if s_status (c_snap (op_rs o')) \<in> {Calculated, Confirmed} then s_amount (c_snap (op_rs o')) else None)
     else (if s_status (c_snap (op_afi o')) \<in> {Estimated, Calculated} then s_amount (c_snap (op_afi o')) else None))"

definition register_tuples :: "opp list \<Rightarrow> (string \<times> rat \<times> bool) list" where
  "register_tuples os = map (\<lambda>o'. (op_status o', the (evidenced_amount o'), op_savings_type o' = Some ''working_capital''))
     (filter (\<lambda>o'. evidenced_amount o' \<noteq> None) os)"

lemma opp_amounts:
  assumes "opp_ok l (i, o')"
  shows "s_status (c_snap (op_rs o')) \<in> {Calculated, Confirmed} \<Longrightarrow> s_amount (c_snap (op_rs o')) \<noteq> None"
    "s_status (c_snap (op_afi o')) \<in> {Estimated, Calculated} \<Longrightarrow> s_amount (c_snap (op_afi o')) \<noteq> None"
  using assms by (auto simp: opp_ok_def cell_ok_def)

lemma waterfall_loop:
  assumes "\<And>o'. o' \<in> set os \<Longrightarrow> \<exists>i. opp_ok l (i, o')"
  shows "\<exists>u g. foldR waterfall_step (ts, m, n) os = Inr (ts @ register_tuples os, u, g) \<and>
    u + g + length (register_tuples os) = m + n + length os"
  using assms
proof (induction os arbitrary: ts m n)
  case (Cons o' os)
  obtain i where i: "opp_ok l (i, o')" using Cons.prems by auto
  note a = opp_amounts [OF i]
  have IH: "\<exists>u g. foldR waterfall_step (ts, m, n) os = Inr (ts @ register_tuples os, u, g) \<and>
    u + g + length (register_tuples os) = m + n + length os" for ts m n
    using Cons by simp
  show ?case
  proof (cases "evidenced_amount o'")
    case None
    then have r: "register_tuples (o' # os) = register_tuples os" by (simp add: register_tuples_def)
    have "waterfall_step (ts, m, n) o' = Inr (ts, m, Suc n) \<or> waterfall_step (ts, m, n) o' = Inr (ts, Suc m, n)"
      using None a by (auto simp: waterfall_step_def evidenced_amount_def Let_def split: if_splits)
    then show ?thesis
      using IH [of ts m "Suc n"] IH [of ts "Suc m" n] by (auto simp: r)
  next
    case (Some x)
    then have r: "register_tuples (o' # os) = (op_status o', x, op_savings_type o' = Some ''working_capital'') # register_tuples os"
      by (simp add: register_tuples_def)
    have "waterfall_step (ts, m, n) o' = Inr (ts @ [(op_status o', x, op_savings_type o' = Some ''working_capital'')], m, n)"
      using Some by (auto simp: waterfall_step_def evidenced_amount_def as_decimal_def Let_def split: if_splits)
    then show ?thesis using IH [of "ts @ [(op_status o', x, op_savings_type o' = Some ''working_capital'')]" m n] by (auto simp: r)
  qed
qed (simp add: register_tuples_def)

section \<open>Properties\<close>

text \<open>C20: On every register the database accepts, the waterfall is defined, each stage shows the exact sum of the
  evidenced amounts of the opportunities in it (the realised savings in the last stage, the annual
  impact in the others), and the opportunities without evidence are counted, not valued at zero.\<close>

lemma waterfall_of_register:
  assumes ok: "db_ok l" and a: "\<And>s x w. (s, x, w) \<in> set (register_tuples (map snd (opps l))) \<Longrightarrow> amount x"
    and b: "sum_bound (map (\<lambda>(s, x, w). x) (register_tuples (map snd (opps l)))) < 10 ^ 23"
  shows "\<exists>t u g. get_savings_waterfall l = Inr (t, u, g) \<and>
    u + g = length (filter (\<lambda>o'. evidenced_amount o' = None) (map snd (opps l))) \<and>
    wt_realised t = sum_list (stage_amounts ''realised'' (register_tuples (map snd (opps l)))) \<and>
    wt_identified t = sum_list (stage_amounts ''identified'' (register_tuples (map snd (opps l)))) \<and>
    wt_validated t = sum_list (stage_amounts ''validated'' (register_tuples (map snd (opps l)))) \<and>
    wt_approved t = sum_list (stage_amounts ''approved'' (register_tuples (map snd (opps l)))) \<and>
    wt_implementation t = sum_list (stage_amounts ''implementation'' (register_tuples (map snd (opps l))))"
proof -
  let ?os = "map snd (opps l)"
  have o: "\<exists>i. opp_ok l (i, o')" if "o' \<in> set ?os" for o'
    using that ok by (auto simp: db_ok_def list_all_iff)
  obtain u g where w: "foldR waterfall_step ([], 0, 0) ?os = Inr (register_tuples ?os, u, g)"
    and n: "u + g + length (register_tuples ?os) = length ?os"
    using waterfall_loop [of ?os l "[]" 0 0, OF o] by auto
  have "length (filter (\<lambda>o'. evidenced_amount o' \<noteq> None) ?os) + length (filter (\<lambda>o'. evidenced_amount o' = None) ?os) = length ?os"
    using sum_length_filter_compl [of "\<lambda>o'. evidenced_amount o' \<noteq> None" ?os] by simp
  then have "u + g = length (filter (\<lambda>o'. evidenced_amount o' = None) ?os)" using n by (simp add: register_tuples_def)
  moreover have "list_opportunities l None None = ?os" by (simp add: list_opportunities_def)
  ultimately show ?thesis using w calculate_savings_waterfall_total [OF a b] by (simp add: get_savings_waterfall_def)
qed

lemma waterfall_of_register_witness:
  "\<exists>t u g. get_savings_waterfall (example_register ''implementation'') = Inr (t, u, g) \<and> u + g = 1 \<and> wt_implementation t = 0"
proof -
  have os: "map snd (opps (example_register ''implementation'')) = [example_opp ''implementation'']" by (simp add: example_register_def)
  have n: "evidenced_amount (example_opp ''implementation'') = None"
    by (simp add: evidenced_amount_def example_opp_def plain_snap_def)
  then have r: "register_tuples [example_opp ''implementation''] = []" by (simp add: register_tuples_def)
  have "db_ok (example_register ''implementation'')" using example_register_ready by (simp add: ready_def)
  from waterfall_of_register [OF this, unfolded os r] show ?thesis by (auto simp: n sum_bound_def stage_amounts_def)
qed

text \<open>A stage total blends one-time cash releases with recurring savings: it is the sum of the working capital
  amounts of the stage and of all others, which the module says must never be added up.\<close>

lemma stage_total_blends_one_time:
  assumes "\<And>s x w. (s, x, w) \<in> set ts \<Longrightarrow> amount x" "sum_bound (map (\<lambda>(s, x, w). x) ts) < 10 ^ 23"
  shows "\<exists>t. calculate_savings_waterfall ts = Inr t \<and>
    wt_approved t = (\<Sum>(s, x, w)\<leftarrow>filter (\<lambda>(s, x, w). s = ''approved'' \<and> w) ts. x) +
      (\<Sum>(s, x, w)\<leftarrow>filter (\<lambda>(s, x, w). s = ''approved'' \<and> \<not> w) ts. x)"
proof -
  have "sum_list (stage_amounts st ts) = (\<Sum>(s, x, w)\<leftarrow>filter (\<lambda>(s, x, w). s = st \<and> w) ts. x) +
      (\<Sum>(s, x, w)\<leftarrow>filter (\<lambda>(s, x, w). s = st \<and> \<not> w) ts. x)" for st
    by (induction ts) (auto simp: stage_amounts_def)
  then show ?thesis using calculate_savings_waterfall_total [OF assms] by simp
qed

lemma stage_total_blends_one_time_witness:
  "\<exists>t. calculate_savings_waterfall [(''approved'', 100, True), (''approved'', 7, False)] = Inr t \<and> wt_approved t = 107"
proof -
  let ?ts = "[(''approved'', 100 :: rat, True), (''approved'', 7, False)]"
  have "amount x" if "(s, x, w) \<in> set ?ts" for s x w using that by (auto simp: amount_def)
  moreover have "sum_bound (map (\<lambda>(s, x, w). x) ?ts) < 10 ^ 23" by (simp add: sum_bound_def)
  ultimately show ?thesis using stage_total_blends_one_time [of ?ts] by auto
qed

end
