(* ===== verification/DuplicateDetection.thy ===== *)
theory DuplicateDetection
  imports SpendAnalytics Matching
begin

text \<open>
  Duplicate codes within a supplier and equal items across suppliers:
  \<open>app/services/duplicate_detection_service.py\<close>, with the review state machine and the graph of
  \<open>app/analytics/domain_graph.py\<close>.  Both scans share the interface \<open>flag_scan\<close>: what they report is what
  qualifies and is not flagged yet, from which follow that a scan repeated at once reports nothing and that
  afterwards everything that qualifies is flagged.
\<close>

section \<open>domain\_graph.py\<close>

datatype consolidation_action = MARK_UNDER_REVIEW | RECOMMEND_CONSOLIDATION | REJECT

fun action_target_status :: "consolidation_action \<Rightarrow> string" where
  "action_target_status MARK_UNDER_REVIEW = ''under_review''"
| "action_target_status RECOMMEND_CONSOLIDATION = ''consolidation_recommended''"
| "action_target_status REJECT = ''rejected''"

definition allowed_transitions :: "(string, string list) pydict" where
  "allowed_transitions = [(''flagged'', [''under_review'', ''consolidation_recommended'', ''rejected'']),
     (''under_review'', [''consolidation_recommended'', ''rejected'']),
     (''consolidation_recommended'', []), (''rejected'', [])]"

definition determine_consolidation_flag_transition :: "string \<Rightarrow> consolidation_action \<Rightarrow> string res" where
  "determine_consolidation_flag_transition current_status action = (case map_of allowed_transitions current_status of
     None \<Rightarrow> Inl (InvalidConsolidationTransitionError ''Unknown current status'')
   | Some targets \<Rightarrow> if action_target_status action \<notin> set targets
       then Inl (InvalidConsolidationTransitionError ''Cannot go'') else Inr (action_target_status action))"

record supplier_input =
  si_id :: int
  si_public_id :: string
  si_name :: string

record consolidation_flag =
  cf_a :: int
  cf_b :: int
  cf_description_a :: string
  cf_description_b :: string
  cf_similarity :: rat
  cf_combined_spend :: "rat option"
  cf_status :: string
  cf_method :: match_method

record graph_node =
  gn_id :: string
  gn_label :: string

record graph_edge =
  ge_source :: string
  ge_target :: string
  ge_weight :: rat
  ge_similarity :: rat
  ge_combined_spend :: "rat option"
  ge_method :: match_method
  ge_status :: string

definition add_node :: "(int, supplier_input) pydict \<Rightarrow> graph_node list \<times> int list \<Rightarrow> int \<Rightarrow> (graph_node list \<times> int list) res" where
  "add_node by_id s supplier_id = (case s of (nodes, seen) \<Rightarrow> (case map_of by_id supplier_id of
     None \<Rightarrow> Inl UnknownSupplierError
   | Some x \<Rightarrow> Inr (if supplier_id \<in> set seen then (nodes, seen)
       else (nodes @ [\<lparr> gn_id = si_public_id x, gn_label = si_name x \<rparr>], seen @ [supplier_id]))))"

definition flag_edge :: "(int, supplier_input) pydict \<Rightarrow> consolidation_flag \<Rightarrow> graph_edge res" where
  "flag_edge by_id f = (case (map_of by_id (cf_a f), map_of by_id (cf_b f)) of
     (Some a, Some b) \<Rightarrow> Inr \<lparr> ge_source = si_public_id a, ge_target = si_public_id b,
       ge_weight = (case cf_combined_spend f of Some c \<Rightarrow> c | None \<Rightarrow> cf_similarity f), ge_similarity = cf_similarity f,
       ge_combined_spend = cf_combined_spend f, ge_method = cf_method f, ge_status = cf_status f \<rparr>
   | _ \<Rightarrow> Inl KeyError)"

definition graph_step ::
    "(int, supplier_input) pydict \<Rightarrow> (graph_node list \<times> int list) \<times> graph_edge list \<Rightarrow> consolidation_flag \<Rightarrow>
     ((graph_node list \<times> int list) \<times> graph_edge list) res" where
  "graph_step by_id s f = (case s of (ns, es) \<Rightarrow> bindR (foldR (add_node by_id) ns [cf_a f, cf_b f]) (\<lambda>ns'.
     bindR (flag_edge by_id f) (\<lambda>e. Inr (ns', es @ [e]))))"

definition build_supplier_consolidation_graph ::
    "supplier_input list \<Rightarrow> consolidation_flag list \<Rightarrow> (graph_node list \<times> graph_edge list) res" where
  "build_supplier_consolidation_graph suppliers flags =
     (let suppliers_by_id = build_dict (map (\<lambda>s. (si_id s, s)) suppliers) in
      bindR (foldR (graph_step suppliers_by_id) (([], []), []) flags) (\<lambda>((nodes, seen), edges). Inr (nodes, edges)))"

section \<open>duplicate\_detection\_service.py\<close>

definition text_rows :: "(string option \<times> string option) list \<Rightarrow> (string option \<times> string) list" where
  "text_rows rows = List.map_filter (\<lambda>(sku, desc). case desc of Some (c # cs) \<Rightarrow> Some (sku, c # cs) | _ \<Rightarrow> None) (remdups rows)"

definition distinct_sku_descriptions :: "spend_db \<Rightarrow> int \<Rightarrow> (string option \<times> string) list" where
  "distinct_sku_descriptions db supplier_id =
     (let rows = text_rows (concat (map (\<lambda>v. map (\<lambda>l. (ln_sku l, ln_description l)) (iv_lines v))
            (filter (\<lambda>v. iv_supplier v = supplier_id) (sd_invoices db))))
      in if rows \<noteq> [] then rows
         else text_rows (map (\<lambda>t. (tx_sku t, tx_description t)) (filter (\<lambda>t. tx_supplier t = supplier_id) (sd_transactions db))))"

definition sku_item :: "string \<Rightarrow> string option \<times> string \<Rightarrow> candidate_item" where
  "sku_item key r = \<lparr> ci_key = key, ci_sku = fst r, ci_barcode = None, ci_description = snd r \<rparr>"

record duplicate_flag =
  df_supplier :: int
  df_sku_a :: "string option"
  df_description_a :: string
  df_sku_b :: "string option"
  df_description_b :: string
  df_similarity :: rat
  df_method :: match_method
  df_status :: string
  df_reviewed_by :: "int option"

fun index_pairs :: "'a list \<Rightarrow> ('a \<times> 'a) list" where
  "index_pairs [] = []"
| "index_pairs (x # xs) = map (Pair x) xs @ index_pairs xs"

text \<open>One pair of the inner loop; the key of an item is not read by \<open>score_pair\<close>.\<close>

definition duplicate_pair :: "int \<Rightarrow> (string option \<times> string) \<times> (string option \<times> string) \<Rightarrow> duplicate_flag option" where
  "duplicate_pair supplier_id p = (case p of (a, b) \<Rightarrow>
     if \<not> falsy (fst a) \<and> fst a = fst b then None
     else let (score, method) = score_pair (sku_item [] a) (sku_item [] b) in
       if score < review_recommended_threshold \<or> method = M_SKU then None
       else Some \<lparr> df_supplier = supplier_id, df_sku_a = fst a, df_description_a = snd a, df_sku_b = fst b,
         df_description_b = snd b, df_similarity = round_4 score, df_method = method, df_status = ''flagged'', df_reviewed_by = None \<rparr>)"

definition duplicate_key :: "duplicate_flag \<Rightarrow> string set" where
  "duplicate_key f = {df_description_a f, df_description_b f}"

definition new_flag :: "('f \<Rightarrow> 'k) \<Rightarrow> 'k list \<Rightarrow> 'f option \<Rightarrow> 'f list" where
  "new_flag key already_flagged x = (case x of None \<Rightarrow> [] | Some f \<Rightarrow> if key f \<in> set already_flagged then [] else [f])"

definition scan_supplier_for_duplicate_skus :: "spend_db \<Rightarrow> int \<Rightarrow> duplicate_flag list \<Rightarrow> duplicate_flag list" where
  "scan_supplier_for_duplicate_skus db supplier_id flags =
     (let items = distinct_sku_descriptions db supplier_id in
      if length items < 2 then []
      else let already_flagged = map duplicate_key (filter (\<lambda>f. df_supplier f = supplier_id) flags) in
        concat (map (\<lambda>p. new_flag duplicate_key already_flagged (duplicate_pair supplier_id p)) (index_pairs items)))"

definition review_duplicate_sku_flag :: "int \<Rightarrow> bool \<Rightarrow> duplicate_flag \<Rightarrow> duplicate_flag" where
  "review_duplicate_sku_flag user_id confirmed f =
     f\<lparr> df_status := (if confirmed then ''confirmed_duplicate'' else ''rejected''), df_reviewed_by := Some user_id \<rparr>"

definition consolidation_pair ::
    "int \<Rightarrow> int \<Rightarrow> string option \<times> string \<Rightarrow> string option \<times> string \<Rightarrow> consolidation_flag option" where
  "consolidation_pair supplier_a_id supplier_b_id a b = (let (score, method) = score_pair (sku_item ''a'' a) (sku_item ''b'' b) in
     if score < review_recommended_threshold then None
     else Some \<lparr> cf_a = supplier_a_id, cf_b = supplier_b_id, cf_description_a = snd a, cf_description_b = snd b,
       cf_similarity = round_4 score, cf_combined_spend = None, cf_status = ''flagged'', cf_method = method \<rparr>)"

definition consolidation_key :: "consolidation_flag \<Rightarrow> string set" where
  "consolidation_key f = {cf_description_a f, cf_description_b f}"

definition scan_for_supplier_consolidation :: "spend_db \<Rightarrow> consolidation_flag list \<Rightarrow> consolidation_flag list" where
  "scan_for_supplier_consolidation db flags =
     (if length (sd_suppliers db) < 2 then []
      else let already_flagged = map consolidation_key flags in
        concat (map (\<lambda>((i, _), (j, _)). concat (map (\<lambda>a. concat (map (\<lambda>b.
            new_flag consolidation_key already_flagged (consolidation_pair i j a b))
          (distinct_sku_descriptions db j))) (distinct_sku_descriptions db i))) (index_pairs (sd_suppliers db))))"

definition build_consolidation_graph_payload ::
    "supplier_input list \<Rightarrow> consolidation_flag list \<Rightarrow> (graph_node list \<times> (graph_edge \<times> string \<times> string) list) res" where
  "build_consolidation_graph_payload active_suppliers flags =
     bindR (build_supplier_consolidation_graph active_suppliers flags) (\<lambda>(nodes, edges).
       Inr (nodes, map (\<lambda>(f, e). (e, cf_description_a f, cf_description_b f)) (zip flags edges)))"

definition review_consolidation_flag :: "consolidation_action \<Rightarrow> consolidation_flag \<Rightarrow> consolidation_flag res" where
  "review_consolidation_flag action f = bindR (determine_consolidation_flag_transition (cf_status f) action)
     (\<lambda>new_status. Inr (f\<lparr> cf_status := new_status \<rparr>))"

section \<open>The scans\<close>

locale flag_scan =
  fixes scan :: "'f list \<Rightarrow> 'f list" and key :: "'f \<Rightarrow> 'k" and found :: "'f \<Rightarrow> bool"
  assumes reports: "f \<in> set (scan fs) \<longleftrightarrow> found f \<and> key f \<notin> key ` set fs"
begin

lemma rescan_empty: "scan (fs @ scan fs) = []"
proof -
  have "f \<notin> set (scan (fs @ scan fs))" for f
    using reports [of f "fs @ scan fs"] reports [of f fs] by auto
  then show ?thesis by (metis list.set_intros(1) neq_Nil_conv)
qed

lemma covered: "found f \<Longrightarrow> key f \<in> key ` set (fs @ scan fs)"
  using reports [of f fs] by auto

lemma fewer: "set fs \<subseteq> set gs \<Longrightarrow> set (scan gs) \<subseteq> set (scan fs)"
  using reports by blast

end

definition duplicate_found :: "spend_db \<Rightarrow> int \<Rightarrow> duplicate_flag \<Rightarrow> bool" where
  "duplicate_found db sid f = (\<exists>p\<in>set (index_pairs (distinct_sku_descriptions db sid)). duplicate_pair sid p = Some f)"

definition supplier_key :: "duplicate_flag \<Rightarrow> int \<times> string set" where
  "supplier_key f = (df_supplier f, duplicate_key f)"

definition consolidation_found :: "spend_db \<Rightarrow> consolidation_flag \<Rightarrow> bool" where
  "consolidation_found db f = (\<exists>((i, m), (j, n))\<in>set (index_pairs (sd_suppliers db)). \<exists>a\<in>set (distinct_sku_descriptions db i).
     \<exists>b\<in>set (distinct_sku_descriptions db j). consolidation_pair i j a b = Some f)"

lemma index_pairs_short: "length xs < 2 \<Longrightarrow> index_pairs xs = []"
  by (cases xs rule: index_pairs.cases) simp_all

lemma index_pairs_nth: "(a, b) \<in> set (index_pairs xs) \<longleftrightarrow> (\<exists>i j. i < j \<and> j < length xs \<and> a = xs ! i \<and> b = xs ! j)"
proof (induction xs)
  case (Cons x xs)
  show ?case
  proof
    assume "(a, b) \<in> set (index_pairs (x # xs))"
    then consider "a = x" "b \<in> set xs" | "(a, b) \<in> set (index_pairs xs)" by auto
    then show "\<exists>i j. i < j \<and> j < length (x # xs) \<and> a = (x # xs) ! i \<and> b = (x # xs) ! j"
    proof cases
      case 1
      then obtain k where "k < length xs" "b = xs ! k" by (metis in_set_conv_nth)
      then show ?thesis using 1 by (intro exI [of _ 0] exI [of _ "Suc k"]) simp
    next
      case 2
      then obtain i j where "i < j" "j < length xs" "a = xs ! i" "b = xs ! j" using Cons.IH by blast
      then show ?thesis by (intro exI [of _ "Suc i"] exI [of _ "Suc j"]) simp
    qed
  next
    assume "\<exists>i j. i < j \<and> j < length (x # xs) \<and> a = (x # xs) ! i \<and> b = (x # xs) ! j"
    then obtain i j where ij: "i < j" "j < length (x # xs)" "a = (x # xs) ! i" "b = (x # xs) ! j" by blast
    then obtain k where k: "j = Suc k" by (cases j) simp_all
    show "(a, b) \<in> set (index_pairs (x # xs))"
    proof (cases i)
      case 0
      then show ?thesis using ij k by simp
    next
      case (Suc h)
      then have "(a, b) \<in> set (index_pairs xs)" using ij k Cons.IH by auto
      then show ?thesis by simp
    qed
  qed
qed simp

lemma duplicate_pair_supplier: "duplicate_pair sid p = Some f \<Longrightarrow> df_supplier f = sid"
  by (auto simp: duplicate_pair_def Let_def split: prod.splits if_splits)

lemma set_new_flag [simp]: "f \<in> set (new_flag key already x) \<longleftrightarrow> x = Some f \<and> key f \<notin> set already"
  by (auto simp: new_flag_def split: option.split)

interpretation dup: flag_scan "scan_supplier_for_duplicate_skus db sid" supplier_key "duplicate_found db sid" for db sid
proof
  fix f fs
  let ?items = "distinct_sku_descriptions db sid"
  have key: "supplier_key f \<notin> supplier_key ` set fs \<longleftrightarrow> duplicate_key f \<notin> duplicate_key ` set (filter (\<lambda>f. df_supplier f = sid) fs)"
    if "df_supplier f = sid" using that by (force simp: supplier_key_def image_iff)
  have "f \<in> set (scan_supplier_for_duplicate_skus db sid fs) \<longleftrightarrow>
      (\<exists>p\<in>set (index_pairs ?items). duplicate_pair sid p = Some f \<and> duplicate_key f \<notin> duplicate_key ` set (filter (\<lambda>f. df_supplier f = sid) fs))"
    by (auto simp: scan_supplier_for_duplicate_skus_def Let_def index_pairs_short)
  also have "\<dots> \<longleftrightarrow> duplicate_found db sid f \<and> supplier_key f \<notin> supplier_key ` set fs"
    unfolding duplicate_found_def using key duplicate_pair_supplier by blast
  finally show "f \<in> set (scan_supplier_for_duplicate_skus db sid fs) \<longleftrightarrow> duplicate_found db sid f \<and> supplier_key f \<notin> supplier_key ` set fs" .
qed

interpretation cons: flag_scan "scan_for_supplier_consolidation db" consolidation_key "consolidation_found db" for db
proof
  fix f fs
  show "f \<in> set (scan_for_supplier_consolidation db fs) \<longleftrightarrow> consolidation_found db f \<and> consolidation_key f \<notin> consolidation_key ` set fs"
  proof (cases "length (sd_suppliers db) < 2")
    case True
    then show ?thesis by (simp add: scan_for_supplier_consolidation_def consolidation_found_def index_pairs_short)
  next
    case False
    then show ?thesis
      unfolding scan_for_supplier_consolidation_def consolidation_found_def Let_def
      by (simp add: case_prod_unfold)
  qed
qed

section \<open>The graph\<close>

definition node_of :: "(int, supplier_input) pydict \<Rightarrow> int \<Rightarrow> graph_node" where
  "node_of by_id i = (case map_of by_id i of Some x \<Rightarrow> \<lparr> gn_id = si_public_id x, gn_label = si_name x \<rparr>
     | None \<Rightarrow> \<lparr> gn_id = [], gn_label = [] \<rparr>)"

definition known :: "(int, supplier_input) pydict \<Rightarrow> consolidation_flag \<Rightarrow> bool" where
  "known by_id f = (map_of by_id (cf_a f) \<noteq> None \<and> map_of by_id (cf_b f) \<noteq> None)"

lemma add_nodes:
  assumes "foldR (add_node by_id) (ns, seen) ids = Inr (ns', seen')" "ns = map (node_of by_id) seen" "distinct seen"
  shows "ns' = map (node_of by_id) seen' \<and> distinct seen' \<and> set seen' = set seen \<union> set ids \<and> (\<forall>i\<in>set ids. map_of by_id i \<noteq> None)"
  using assms
proof (induction ids arbitrary: ns seen)
  case (Cons i ids)
  obtain ns1 seen1 where 1: "add_node by_id (ns, seen) i = Inr (ns1, seen1)" and 2: "foldR (add_node by_id) (ns1, seen1) ids = Inr (ns', seen')"
    using Cons.prems(1) by (auto simp: res_simps)
  have s: "ns1 = map (node_of by_id) seen1" "distinct seen1" "set seen1 = insert i (set seen)" "map_of by_id i \<noteq> None"
    using 1 Cons.prems(2,3) by (auto simp: add_node_def node_of_def split: option.splits if_splits)
  show ?case using Cons.IH [OF 2 s(1,2)] s(3,4) by auto
qed simp

lemma add_nodes_total: "(\<forall>i\<in>set ids. map_of by_id i \<noteq> None) \<Longrightarrow> is_ok (foldR (add_node by_id) s ids)"
  by (induction ids arbitrary: s) (auto simp: add_node_def split: prod.splits)

definition touched :: "consolidation_flag list \<Rightarrow> int set" where
  "touched flags = (\<Union>f\<in>set flags. {cf_a f, cf_b f})"

lemma graph_loop:
  assumes "foldR (graph_step by_id) ((ns, seen), es) flags = Inr ((ns', seen'), es')" "ns = map (node_of by_id) seen" "distinct seen"
  shows "ns' = map (node_of by_id) seen' \<and> distinct seen' \<and> set seen' = set seen \<union> touched flags \<and>
    (\<forall>f\<in>set flags. known by_id f) \<and> (\<exists>gs. es' = es @ gs \<and> list_all2 (\<lambda>f e. flag_edge by_id f = Inr e) flags gs)"
  using assms
proof (induction flags arbitrary: ns seen es)
  case (Cons f flags)
  obtain s where s: "graph_step by_id ((ns, seen), es) f = Inr s" and t: "foldR (graph_step by_id) s flags = Inr ((ns', seen'), es')"
    using Cons.prems(1) by (auto simp: res_simps)
  obtain m e where m: "foldR (add_node by_id) (ns, seen) [cf_a f, cf_b f] = Inr m" and e: "flag_edge by_id f = Inr e"
    and s': "s = (m, es @ [e])"
    using s unfolding graph_step_def by (auto simp: res_simps simp del: foldR.simps)
  obtain n1 s1 where m': "m = (n1, s1)" by (cases m)
  note 1 = m [unfolded m'] and 2 = t [unfolded s' m']
  note a = add_nodes [OF 1 Cons.prems(2,3)]
  have "known by_id f" using a by (simp add: known_def)
  with Cons.IH [OF 2] a e show ?case by (auto simp: touched_def)
qed (simp add: touched_def)

lemma graph_total:
  "(\<forall>f\<in>set flags. known by_id f) \<Longrightarrow> is_ok (foldR (graph_step by_id) s flags)"
proof (induction flags arbitrary: s)
  case (Cons f flags)
  obtain ns es where s: "s = (ns, es)" by (cases s)
  have k: "known by_id f" using Cons.prems by simp
  obtain m where m: "foldR (add_node by_id) ns [cf_a f, cf_b f] = Inr m"
    using add_nodes_total [of "[cf_a f, cf_b f]" by_id ns] k by (auto simp: known_def is_ok_iff)
  obtain e where "flag_edge by_id f = Inr e" using k by (auto simp: flag_edge_def known_def)
  then have "graph_step by_id s f = Inr (m, es @ [e])" using m by (simp add: graph_step_def s)
  then show ?case using Cons by simp
qed simp

section \<open>Properties\<close>

text \<open>C28: Repeating a scan at once reports nothing: neither the scan of a supplier nor the one across suppliers
  creates a second flag for a pair of descriptions it has just flagged.\<close>

lemma rescan_reports_nothing:
  "scan_supplier_for_duplicate_skus db sid (fs @ scan_supplier_for_duplicate_skus db sid fs) = [] \<and>
   scan_for_supplier_consolidation db (gs @ scan_for_supplier_consolidation db gs) = []"
  by (simp only: dup.rescan_empty cons.rescan_empty)

text \<open>A scan of a supplier misses nothing: two of its items with different codes, whose score reaches the review
  threshold by another way than the code, are flagged afterwards under their pair of descriptions.\<close>

lemma duplicates_all_flagged:
  assumes ij: "i < j" "j < length (distinct_sku_descriptions db sid)"
    and p: "a = distinct_sku_descriptions db sid ! i" "b = distinct_sku_descriptions db sid ! j"
    and "falsy (fst a) \<or> fst a \<noteq> fst b"
    and "score_pair (sku_item [] a) (sku_item [] b) = (score, method)" "80 / 100 \<le> score" "method \<noteq> M_SKU"
  shows "\<exists>f\<in>set (fs @ scan_supplier_for_duplicate_skus db sid fs). df_supplier f = sid \<and> duplicate_key f = {snd a, snd b}"
proof -
  obtain f where f: "duplicate_pair sid (a, b) = Some f" "df_supplier f = sid" "duplicate_key f = {snd a, snd b}"
    using assms by (simp add: duplicate_pair_def duplicate_key_def review_recommended_threshold_def)
  have "(a, b) \<in> set (index_pairs (distinct_sku_descriptions db sid))" using ij p by (auto simp: index_pairs_nth)
  then have "duplicate_found db sid f" using f(1) by (auto simp: duplicate_found_def)
  from dup.covered [OF this] obtain g where "g \<in> set (fs @ scan_supplier_for_duplicate_skus db sid fs)" "supplier_key g = supplier_key f"
    by (metis (no_types, lifting) imageE)
  then show ?thesis using f(2,3) by (intro bexI [of _ g]) (simp_all add: supplier_key_def)
qed

definition two_codes :: spend_db where
  "two_codes = \<lparr> sd_suppliers = [(1, ''Acme''), (2, ''Beta'')],
     sd_invoices = [\<lparr> iv_supplier = 1, iv_date = PyDate 2026 1 5, iv_corrects = None, iv_lines =
       [\<lparr> ln_sku = Some ''A1'', ln_description = Some ''Rice'', ln_unit_price = 5, ln_net_amount = 50 \<rparr>,
        \<lparr> ln_sku = Some ''B2'', ln_description = Some ''rice'', ln_unit_price = 5, ln_net_amount = 50 \<rparr>] \<rparr>],
     sd_transactions = [] \<rparr>"

lemma duplicates_all_flagged_witness:
  "\<exists>f\<in>set ([] @ scan_supplier_for_duplicate_skus two_codes 1 []). df_supplier f = 1 \<and> duplicate_key f = {''Rice'', ''rice''}"
proof -
  have items: "distinct_sku_descriptions two_codes 1 = [(Some ''A1'', ''Rice''), (Some ''B2'', ''rice'')]" by code_simp
  have n: "normalize_description ''Rice'' = ''rice''" "normalize_description ''rice'' = ''rice''" by code_simp+
  have "\<not> match_by_sku (Some ''A1'') (Some ''B2'')" by code_simp
  moreover have "match_by_exact_normalized_description ''Rice'' ''rice''" by (simp add: match_by_exact_normalized_description_def n)
  ultimately have "score_pair (sku_item [] (Some ''A1'', ''Rice'')) (sku_item [] (Some ''B2'', ''rice'')) = (98 / 100, M_EXACT_DESCRIPTION)"
    by (simp add: score_pair_def sku_item_def match_by_barcode_def falsy_def)
  from duplicates_all_flagged [where i = 0 and j = 1 and db = two_codes and sid = 1 and fs = "[]", unfolded items, OF _ _ _ _ _ this]
  show ?thesis by simp
qed

text \<open>The graph is well formed: it exists exactly when every flag names known suppliers, its nodes are those of the
  suppliers some flag touches, each once, every edge joins two nodes, and there is one edge per
  flag, in order, weighted by the combined spend where that is known and by the similarity otherwise.\<close>

lemma consolidation_graph_wf:
  assumes by_id: "by_id = build_dict (map (\<lambda>s. (si_id s, s)) suppliers)" and d: "distinct (map si_public_id suppliers)" "distinct (map si_id suppliers)"
  shows "(is_ok (build_supplier_consolidation_graph suppliers flags) \<longleftrightarrow> (\<forall>f\<in>set flags. known by_id f)) \<and>
    (\<forall>nodes edges. build_supplier_consolidation_graph suppliers flags = Inr (nodes, edges) \<longrightarrow>
      distinct (map gn_id nodes) \<and> set (map gn_id nodes) = si_public_id ` {s \<in> set suppliers. si_id s \<in> touched flags} \<and>
      (\<forall>e\<in>set edges. ge_source e \<in> gn_id ` set nodes \<and> ge_target e \<in> gn_id ` set nodes) \<and>
      list_all2 (\<lambda>f e. ge_status e = cf_status f \<and> ge_weight e = (case cf_combined_spend f of Some c \<Rightarrow> c | None \<Rightarrow> cf_similarity f)) flags edges)"
proof (intro conjI allI impI)
  have id: "by_id = map (\<lambda>s. (si_id s, s)) suppliers" unfolding by_id by (rule build_dict_id) (simp add: comp_def d(2))
  have lookup: "map_of by_id i = Some s \<longleftrightarrow> s \<in> set suppliers \<and> si_id s = i" for i s
  proof -
    have "distinct (map fst by_id)" by (simp add: id comp_def d(2))
    then show ?thesis by (auto simp: map_of_eq_Some_iff id)
  qed
  show "is_ok (build_supplier_consolidation_graph suppliers flags) \<longleftrightarrow> (\<forall>f\<in>set flags. known by_id f)"
  proof
    assume "is_ok (build_supplier_consolidation_graph suppliers flags)"
    then obtain ns seen es where "foldR (graph_step by_id) (([], []), []) flags = Inr ((ns, seen), es)"
      unfolding build_supplier_consolidation_graph_def Let_def by_id [symmetric] by (auto simp: is_ok_iff res_simps)
    from graph_loop [OF this] show "\<forall>f\<in>set flags. known by_id f" by simp
  next
    assume "\<forall>f\<in>set flags. known by_id f"
    from graph_total [OF this, of "(([], []), [])"] obtain ns seen es where "foldR (graph_step by_id) (([], []), []) flags = Inr ((ns, seen), es)"
      by (auto simp: is_ok_iff)
    then show "is_ok (build_supplier_consolidation_graph suppliers flags)"
      unfolding build_supplier_consolidation_graph_def Let_def by_id [symmetric] by simp
  qed
  fix nodes edges assume g: "build_supplier_consolidation_graph suppliers flags = Inr (nodes, edges)"
  then obtain seen where "foldR (graph_step by_id) (([], []), []) flags = Inr ((nodes, seen), edges)"
    unfolding build_supplier_consolidation_graph_def Let_def by_id [symmetric] by (auto simp: res_simps)
  from graph_loop [OF this] have l: "nodes = map (node_of by_id) seen" "distinct seen" "set seen = touched flags"
    "\<And>f. f \<in> set flags \<Longrightarrow> known by_id f" "list_all2 (\<lambda>f e. flag_edge by_id f = Inr e) flags edges" by auto
  have seen: "\<exists>s\<in>set suppliers. si_id s = i \<and> gn_id (node_of by_id i) = si_public_id s" if i: "i \<in> touched flags" for i
  proof -
    obtain f where f: "f \<in> set flags" "i = cf_a f \<or> i = cf_b f" using i by (auto simp: touched_def)
    then obtain s where "map_of by_id i = Some s" using l(4) [OF f(1)] by (auto simp: known_def)
    then show ?thesis using lookup [of i s] by (intro bexI [of _ s]) (simp_all add: node_of_def)
  qed
  have inj: "i = j" if ij: "i \<in> touched flags" "j \<in> touched flags" "gn_id (node_of by_id i) = gn_id (node_of by_id j)" for i j
  proof -
    obtain s where s: "s \<in> set suppliers" "si_id s = i" "gn_id (node_of by_id i) = si_public_id s" using seen [OF ij(1)] by blast
    obtain t where t: "t \<in> set suppliers" "si_id t = j" "gn_id (node_of by_id j) = si_public_id t" using seen [OF ij(2)] by blast
    have "inj_on si_public_id (set suppliers)" using d(1) by (simp add: distinct_map)
    then have "s = t" using s t ij(3) by (simp add: inj_on_eq_iff)
    then show ?thesis using s(2) t(2) by simp
  qed
  have "inj_on (gn_id \<circ> node_of by_id) (set seen)" using inj by (intro inj_onI) (simp add: l(3))
  then show "distinct (map gn_id nodes)" using l(2) by (simp add: l(1) distinct_map)
  show "set (map gn_id nodes) = si_public_id ` {s \<in> set suppliers. si_id s \<in> touched flags}"
  proof (intro set_eqI iffI)
    fix x assume "x \<in> set (map gn_id nodes)"
    then obtain i where "i \<in> touched flags" "x = gn_id (node_of by_id i)" using l(1,3) by auto
    then show "x \<in> si_public_id ` {s \<in> set suppliers. si_id s \<in> touched flags}" using seen [of i] by auto
  next
    fix x assume "x \<in> si_public_id ` {s \<in> set suppliers. si_id s \<in> touched flags}"
    then obtain s where s: "s \<in> set suppliers" "si_id s \<in> touched flags" "x = si_public_id s" by auto
    then have "gn_id (node_of by_id (si_id s)) = x" using lookup [of "si_id s" s] by (simp add: node_of_def)
    then show "x \<in> set (map gn_id nodes)" using s(2) l(1,3) by force
  qed
  have edge: "ge_source e = gn_id (node_of by_id (cf_a f)) \<and> ge_target e = gn_id (node_of by_id (cf_b f)) \<and> ge_status e = cf_status f \<and>
      ge_weight e = (case cf_combined_spend f of Some c \<Rightarrow> c | None \<Rightarrow> cf_similarity f)" if "flag_edge by_id f = Inr e" for f e
    using that by (auto simp: flag_edge_def node_of_def split: option.splits)
  show "list_all2 (\<lambda>f e. ge_status e = cf_status f \<and> ge_weight e = (case cf_combined_spend f of Some c \<Rightarrow> c | None \<Rightarrow> cf_similarity f)) flags edges"
    by (rule list_all2_mono [OF l(5)]) (simp add: edge)
  show "\<forall>e\<in>set edges. ge_source e \<in> gn_id ` set nodes \<and> ge_target e \<in> gn_id ` set nodes"
  proof
    fix e assume "e \<in> set edges"
    then obtain k where k: "k < length edges" "e = edges ! k" by (auto simp: in_set_conv_nth)
    define f where "f = flags ! k"
    have f: "f \<in> set flags" "flag_edge by_id f = Inr e"
      using l(5) k by (simp_all add: f_def list_all2_conv_all_nth)
    have "cf_a f \<in> touched flags" "cf_b f \<in> touched flags" unfolding touched_def using f(1) by (blast, blast)
    then have "cf_a f \<in> set seen" "cf_b f \<in> set seen" by (simp_all only: l(3))
    then have "node_of by_id (cf_a f) \<in> set nodes" "node_of by_id (cf_b f) \<in> set nodes" by (simp_all add: l(1))
    moreover have "ge_source e = gn_id (node_of by_id (cf_a f))" "ge_target e = gn_id (node_of by_id (cf_b f))"
      using edge [OF f(2)] by blast+
    ultimately show "ge_source e \<in> gn_id ` set nodes \<and> ge_target e \<in> gn_id ` set nodes" by (simp only: imageI)
  qed
qed

text \<open>A review ends after at most two decisions, only moves forward, and is never reopened: from a new flag no
  sequence of three actions succeeds, and once the consolidation is recommended or rejected every action is refused.\<close>

lemma review_is_final:
  assumes "foldR determine_consolidation_flag_transition ''flagged'' actions = Inr st"
  shows "length actions \<le> 2 \<and> (actions \<noteq> [] \<longrightarrow> st = action_target_status (last actions)) \<and>
    (st \<in> {''consolidation_recommended'', ''rejected''} \<longrightarrow> (\<forall>a. \<not> is_ok (determine_consolidation_flag_transition st a)))"
proof -
  have final: "\<not> is_ok (determine_consolidation_flag_transition st a)" if "st \<in> {''consolidation_recommended'', ''rejected''}" for st a
    using that by (auto simp: determine_consolidation_flag_transition_def allowed_transitions_def)
  have review: "determine_consolidation_flag_transition ''under_review'' a = Inr s \<Longrightarrow> s \<in> {''consolidation_recommended'', ''rejected''} \<and> s = action_target_status a" for a s
    by (cases a) (auto simp: determine_consolidation_flag_transition_def allowed_transitions_def)
  have start: "determine_consolidation_flag_transition ''flagged'' a = Inr s \<Longrightarrow> s = action_target_status a" for a s
    by (cases a) (auto simp: determine_consolidation_flag_transition_def allowed_transitions_def)
  have none: "as = [] \<and> s = t" if "t \<in> {''consolidation_recommended'', ''rejected''}" "foldR determine_consolidation_flag_transition t as = Inr s" for t as s
    using that final [OF that(1)] by (cases as) (auto simp: res_simps is_ok_iff)
  have one: "length as \<le> 1 \<and> (as \<noteq> [] \<longrightarrow> s = action_target_status (last as))"
    if "foldR determine_consolidation_flag_transition ''under_review'' as = Inr s" for as s
    using that review none by (cases as) (fastforce simp: res_simps)+
  have "length actions \<le> 2 \<and> (actions \<noteq> [] \<longrightarrow> st = action_target_status (last actions))"
  proof (cases actions)
    case (Cons a as)
    then obtain t where t: "determine_consolidation_flag_transition ''flagged'' a = Inr t" "foldR determine_consolidation_flag_transition t as = Inr st"
      using assms by (auto simp: res_simps)
    show ?thesis
    proof (cases "a = MARK_UNDER_REVIEW")
      case True
      then have "t = ''under_review''" using start [OF t(1)] by simp
      then show ?thesis using one [of as st] t(2) start [OF t(1)] Cons by (cases as) auto
    next
      case False
      then have "t \<in> {''consolidation_recommended'', ''rejected''}" using start [OF t(1)] by (cases a) simp_all
      then show ?thesis using none [OF _ t(2)] start [OF t(1)] Cons by simp
    qed
  qed simp
  then show ?thesis using final by blast
qed

lemma consolidation_graph_wf_witness:
  "\<exists>nodes edges. build_supplier_consolidation_graph
      [\<lparr> si_id = 1, si_public_id = ''a'', si_name = ''Acme'' \<rparr>, \<lparr> si_id = 2, si_public_id = ''b'', si_name = ''Beta'' \<rparr>]
      [\<lparr> cf_a = 1, cf_b = 2, cf_description_a = ''Rice'', cf_description_b = ''rice'', cf_similarity = 98 / 100,
         cf_combined_spend = None, cf_status = ''flagged'', cf_method = M_EXACT_DESCRIPTION \<rparr>] = Inr (nodes, edges) \<and>
    set (map gn_id nodes) = {''a'', ''b''}"
  (is "\<exists>nodes edges. build_supplier_consolidation_graph ?ss ?fs = _ \<and> _")
proof -
  define by_id where "by_id = build_dict (map (\<lambda>s. (si_id s, s)) ?ss)"
  note wf = consolidation_graph_wf [OF by_id_def, of ?fs]
  have "\<forall>f\<in>set ?fs. known by_id f" by (simp add: by_id_def known_def build_dict_def)
  then obtain nodes edges where g: "build_supplier_consolidation_graph ?ss ?fs = Inr (nodes, edges)"
    using wf by (auto simp: is_ok_iff)
  then have "set (map gn_id nodes) = si_public_id ` {s \<in> set ?ss. si_id s \<in> touched ?fs}" using wf by auto
  also have "{s \<in> set ?ss. si_id s \<in> touched ?fs} = set ?ss" by (auto simp: touched_def)
  also have "si_public_id ` set ?ss = {''a'', ''b''}" by simp
  finally show ?thesis using g by blast
qed

lemma review_is_final_witness:
  "foldR determine_consolidation_flag_transition ''flagged'' [MARK_UNDER_REVIEW, REJECT] = Inr ''rejected'' \<and>
   \<not> is_ok (determine_consolidation_flag_transition ''rejected'' RECOMMEND_CONSOLIDATION)"
proof -
  have "foldR determine_consolidation_flag_transition ''flagged'' [MARK_UNDER_REVIEW, REJECT] = Inr ''rejected''" by code_simp
  with review_is_final [OF this] show ?thesis by blast
qed

text \<open>Equal codes of two suppliers are flagged as the same item with full confidence whatever the items are called:
  the scan across suppliers does not set aside the match by code, although each supplier numbers its own list.\<close>

lemma equal_codes_across_suppliers:
  assumes "((i, m), (j, n)) \<in> set (index_pairs (sd_suppliers db))" "(Some sku, da) \<in> set (distinct_sku_descriptions db i)"
    "(Some sku, d) \<in> set (distinct_sku_descriptions db j)" "sku \<noteq> []" "{da, d} \<notin> consolidation_key ` set fs"
  shows "\<exists>f\<in>set (scan_for_supplier_consolidation db fs). cf_description_a f = da \<and> cf_description_b f = d \<and> cf_similarity f = 1 \<and> cf_method f = M_SKU"
proof -
  have "score_pair (sku_item ''a'' (Some sku, da)) (sku_item ''b'' (Some sku, d)) = (1, M_SKU)"
    using assms(4) by (simp add: score_pair_def sku_item_def match_by_sku_def falsy_def)
  then obtain f where f: "consolidation_pair i j (Some sku, da) (Some sku, d) = Some f"
    "cf_description_a f = da" "cf_description_b f = d" "cf_similarity f = 1" "cf_method f = M_SKU"
    using round_he_of_int [of 10000] by (simp add: consolidation_pair_def review_recommended_threshold_def round_4_def)
  have "consolidation_found db f" unfolding consolidation_found_def using assms(1-3) f(1) by blast
  then have "f \<in> set (scan_for_supplier_consolidation db fs)"
    using assms(5) f(2,3) by (simp add: cons.reports consolidation_key_def)
  then show ?thesis using f by blast
qed

lemma equal_codes_across_suppliers_witness:
  "\<exists>f\<in>set (scan_for_supplier_consolidation \<lparr> sd_suppliers = [(1, ''Acme''), (2, ''Beta'')],
     sd_invoices = [\<lparr> iv_supplier = 1, iv_date = PyDate 2026 1 5, iv_corrects = None, iv_lines =
       [\<lparr> ln_sku = Some ''1001'', ln_description = Some ''Rice'', ln_unit_price = 5, ln_net_amount = 50 \<rparr>] \<rparr>,
      \<lparr> iv_supplier = 2, iv_date = PyDate 2026 1 5, iv_corrects = None, iv_lines =
       [\<lparr> ln_sku = Some ''1001'', ln_description = Some ''Diesel'', ln_unit_price = 5, ln_net_amount = 50 \<rparr>] \<rparr>],
     sd_transactions = [] \<rparr> []). cf_description_a f = ''Rice'' \<and> cf_description_b f = ''Diesel'' \<and> cf_similarity f = 1 \<and> cf_method f = M_SKU"
  by (rule equal_codes_across_suppliers [where i = 1 and m = "''Acme''" and j = 2 and n = "''Beta''" and sku = "''1001''"]; code_simp)

end
