(* ===== verification/Snapshots.thy ===== *)
theory Snapshots
  imports ManagementAccounting Columns
begin

text \<open>
  Append-only snapshots with corrections: \<open>app/services/working_capital_service.py\<close>.  A table is the list
  of its rows in the order of insertion.  Both ingestion paths share the contract
  \<open>correctable_ledger\<close>: one active row per grain, a second submission refused unless it is marked as a
  correction, a correction appended with a reference to the active row.  Audit records are left out.
\<close>

section \<open>Queries\<close>

definition one_or_none :: "'a list \<Rightarrow> 'a option res" where
  "one_or_none xs = (case xs of [] \<Rightarrow> Inr None | [x] \<Rightarrow> Inr (Some x) | _ \<Rightarrow> Inl MultipleResultsFound)"

text \<open>The check both paths start with: the active row, refused without the correction flag.\<close>

definition check_locked :: "'a list \<Rightarrow> bool \<Rightarrow> 'a option res" where
  "check_locked active is_correction = bindR (one_or_none active) (\<lambda>existing.
     if existing \<noteq> None \<and> \<not> is_correction then Inl (ConflictError ''An active snapshot already exists'') else Inr existing)"

section \<open>Working capital snapshots\<close>

definition days_metric_storage_max_abs :: rat where "days_metric_storage_max_abs = 999999999 / 10"

definition out_of_range :: "rat option \<Rightarrow> bool" where
  "out_of_range v = (case v of None \<Rightarrow> False | Some x \<Rightarrow> days_metric_storage_max_abs < dabs x)"

definition apply_days_metric_storage_boundary :: "wc_metrics \<Rightarrow> wc_metrics \<times> string list" where
  "apply_days_metric_storage_boundary m =
     (let dso_oor = out_of_range (wc_dso m); dio_oor = out_of_range (wc_dio m); dpo_oor = out_of_range (wc_dpo m);
          d1 = (if dso_oor then [''dso_out_of_range''] else []) @ (if dio_oor then [''dio_out_of_range''] else [])
             @ (if dpo_oor then [''dpo_out_of_range''] else []);
          safe_dso = (if dso_oor then None else wc_dso m); safe_dio = (if dio_oor then None else wc_dio m);
          safe_dpo = (if dpo_oor then None else wc_dpo m);
          (safe_ccc, d2) = (if safe_dso \<noteq> None \<and> safe_dio \<noteq> None \<and> safe_dpo \<noteq> None
             then (if out_of_range (wc_ccc m) then (None, [''ccc_out_of_range'']) else (wc_ccc m, []))
             else (None, (if dso_oor then [''ccc_unavailable_dso_out_of_range''] else [])
               @ (if dio_oor then [''ccc_unavailable_dio_out_of_range''] else [])
               @ (if dpo_oor then [''ccc_unavailable_dpo_out_of_range''] else [])))
      in (m\<lparr> wc_dso := safe_dso, wc_dio := safe_dio, wc_dpo := safe_dpo, wc_ccc := safe_ccc \<rparr>, d1 @ d2))"

record wc_input =
  wi_as_of :: pydate
  wi_receivable :: rat
  wi_payable :: rat
  wi_inventory :: rat
  wi_cash :: "rat option"
  wi_revenue :: rat
  wi_cogs :: rat

record wc_snapshot =
  ws_id :: int
  ws_input :: wc_input
  ws_metrics :: wc_metrics
  ws_diagnostics :: "string list"
  ws_corrects :: "int option"

definition wc_row_fits :: "wc_snapshot \<Rightarrow> bool" where
  "wc_row_fits s = (let i = ws_input s; m = ws_metrics s in
     list_all (\<lambda>x. column_ok 18 4 (Some x)) [wi_receivable i, wi_payable i, wi_inventory i, wi_revenue i, wi_cogs i] \<and>
     column_ok 18 4 (wi_cash i) \<and> list_all (column_ok 9 1) [wc_dso m, wc_dio m, wc_dpo m, wc_ccc m] \<and>
     column_ok 9 2 (wc_working_capital_ratio m))"

definition wc_row_to_scale :: "wc_snapshot \<Rightarrow> wc_snapshot" where
  "wc_row_to_scale s = (let i = ws_input s; m = ws_metrics s; r1 = map_option (to_scale 1) in
     s\<lparr> ws_input := i\<lparr> wi_receivable := to_scale 4 (wi_receivable i), wi_payable := to_scale 4 (wi_payable i),
          wi_inventory := to_scale 4 (wi_inventory i), wi_cash := map_option (to_scale 4) (wi_cash i),
          wi_revenue := to_scale 4 (wi_revenue i), wi_cogs := to_scale 4 (wi_cogs i) \<rparr>,
        ws_metrics := m\<lparr> wc_dso := r1 (wc_dso m), wc_dio := r1 (wc_dio m), wc_dpo := r1 (wc_dpo m), wc_ccc := r1 (wc_ccc m),
          wc_working_capital_ratio := map_option (to_scale 2) (wc_working_capital_ratio m) \<rparr> \<rparr>)"

definition save_wc_row :: "wc_snapshot list \<Rightarrow> wc_snapshot \<Rightarrow> wc_snapshot list res" where
  "save_wc_row rows s = (if wc_row_fits s then Inr (rows @ [wc_row_to_scale s]) else Inl (DataError ''numeric field overflow''))"

definition active_wc :: "pydate \<Rightarrow> wc_snapshot list \<Rightarrow> wc_snapshot list" where
  "active_wc d rows = filter (\<lambda>s. wi_as_of (ws_input s) = d \<and> ws_corrects s = None) rows"

definition ingest_working_capital_snapshot :: "wc_snapshot list \<Rightarrow> wc_input \<Rightarrow> bool \<Rightarrow> wc_snapshot list res" where
  "ingest_working_capital_snapshot rows i is_correction =
     bindR (check_locked (active_wc (wi_as_of i) rows) is_correction) (\<lambda>existing.
     bindR (calculate_working_capital_metrics (wi_receivable i) (wi_payable i) (wi_inventory i) (wi_revenue i) (wi_cogs i) (wi_cash i)) (\<lambda>metrics.
     let (safe_metrics, diagnostics) = apply_days_metric_storage_boundary metrics in
     save_wc_row rows \<lparr> ws_id = next_id (map ws_id rows), ws_input = i, ws_metrics = safe_metrics, ws_diagnostics = diagnostics,
       ws_corrects = (if is_correction then map_option ws_id existing else None) \<rparr>))"

section \<open>Aging snapshots\<close>

record aging_input =
  ai_as_of :: pydate
  ai_ledger_type :: string
  ai_invoices :: "(rat \<times> int) list"

record aging_snapshot =
  as_id :: int
  as_as_of :: pydate
  as_ledger_type :: string
  as_buckets :: aging_buckets
  as_corrects :: "int option"

definition valid_ledger_types :: "string list" where
  "valid_ledger_types = [''debtors'', ''creditors'']"

definition active_aging :: "pydate \<times> string \<Rightarrow> aging_snapshot list \<Rightarrow> aging_snapshot list" where
  "active_aging g rows = filter (\<lambda>s. (as_as_of s, as_ledger_type s) = g \<and> as_corrects s = None) rows"

definition aging_row_fits :: "aging_buckets \<Rightarrow> bool" where
  "aging_row_fits b = list_all (\<lambda>x. column_ok 18 4 (Some x)) [ab_current b, ab_days_30 b, ab_days_60 b, ab_days_90 b, ab_days_120_plus b]"

definition ingest_aging_snapshot :: "aging_snapshot list \<Rightarrow> aging_input \<Rightarrow> bool \<Rightarrow> aging_snapshot list res" where
  "ingest_aging_snapshot rows i is_correction =
     (if ai_ledger_type i \<notin> set valid_ledger_types then Inl (ValidationFailedError ''Unrecognized ledger_type'')
      else bindR (check_locked (active_aging (ai_as_of i, ai_ledger_type i) rows) is_correction) (\<lambda>existing.
        bindR (classify_aging_buckets (ai_invoices i)) (\<lambda>buckets.
        if \<not> aging_row_fits buckets then Inl (DataError ''numeric field overflow'')
        else Inr (rows @ [\<lparr> as_id = next_id (map as_id rows), as_as_of = ai_as_of i, as_ledger_type = ai_ledger_type i,
          as_buckets = buckets, as_corrects = (if is_correction then map_option as_id existing else None) \<rparr>]))))"

section \<open>The contract of a correctable ledger\<close>

text \<open>A request that fails leaves the table as it was.\<close>

definition request :: "('s list \<Rightarrow> 'i \<Rightarrow> bool \<Rightarrow> 's list res) \<Rightarrow> 's list \<Rightarrow> 'i \<times> bool \<Rightarrow> 's list" where
  "request ingest rows r = (case ingest rows (fst r) (snd r) of Inl e \<Rightarrow> rows | Inr rows' \<Rightarrow> rows')"

locale correctable_ledger =
  fixes ingest :: "'s list \<Rightarrow> 'i \<Rightarrow> bool \<Rightarrow> 's list res" and active :: "'g \<Rightarrow> 's list \<Rightarrow> 's list"
    and grain :: "'s \<Rightarrow> 'g" and key :: "'i \<Rightarrow> 'g" and corrects :: "'s \<Rightarrow> int option"
  assumes active_filter: "active g rows = filter (\<lambda>s. grain s = g \<and> corrects s = None) rows"
    and appends: "ingest rows i c = Inr rows' \<Longrightarrow>
      \<exists>s. rows' = rows @ [s] \<and> grain s = key i \<and> (corrects s = None \<longleftrightarrow> active (key i) rows = [])"
    and locked: "active (key i) rows \<noteq> [] \<Longrightarrow> \<not> is_ok (ingest rows i False)"
begin

lemma request_cases:
  obtains "request ingest rows r = rows"
  | s where "request ingest rows r = rows @ [s]" "grain s = key (fst r)" "corrects s = None \<longleftrightarrow> active (key (fst r)) rows = []"
proof (cases "ingest rows (fst r) (snd r)")
  case (Inl e)
  then show ?thesis using that(1) by (simp add: request_def)
next
  case (Inr rows')
  then show ?thesis using appends [OF Inr] that(2) by (auto simp: request_def)
qed

lemma active_request:
  "active g (request ingest rows r) = active g rows \<or> active g rows = [] \<and> (\<exists>s. active g (request ingest rows r) = [s])"
  by (cases rule: request_cases [of rows r]) (auto simp: active_filter)

text \<open>Once a grain has an active row no sequence of requests changes which rows are active for it.\<close>

lemma active_forever: "active g rows \<noteq> [] \<Longrightarrow> active g (foldl (request ingest) rows rs) = active g rows"
proof (induction rs arbitrary: rows)
  case (Cons r rs)
  have "active g (request ingest rows r) = active g rows" using active_request [of g rows r] Cons.prems by auto
  then show ?case using Cons by simp
qed simp

lemma one_active: "(\<forall>g. length (active g rows) \<le> 1) \<Longrightarrow> length (active g (foldl (request ingest) rows rs)) \<le> 1"
proof (induction rs arbitrary: rows)
  case (Cons r rs)
  have "length (active g (request ingest rows r)) \<le> 1" for g
    using active_request [of g rows r] Cons.prems by auto
  then show ?case using Cons.IH [of "request ingest rows r"] by simp
qed simp

lemma one_active_empty: "length (active g (foldl (request ingest) [] rs)) \<le> 1"
  by (rule one_active) (simp add: active_filter)

end

lemma check_locked_InrD: "check_locked act c = Inr x \<Longrightarrow> (x = None \<longleftrightarrow> act = []) \<and> (act \<noteq> [] \<longrightarrow> c)"
  by (auto simp: check_locked_def one_or_none_def res_simps split: list.splits if_splits)

lemma check_locked_False: "act \<noteq> [] \<Longrightarrow> \<not> is_ok (check_locked act False)"
  by (auto simp: check_locked_def one_or_none_def split: list.splits)

lemma save_wc_row_InrD: "save_wc_row rows s = Inr rows' \<Longrightarrow> rows' = rows @ [wc_row_to_scale s]"
  by (simp add: save_wc_row_def split: if_splits)

lemma wc_row_to_scale_simps [simp]: "wi_as_of (ws_input (wc_row_to_scale s)) = wi_as_of (ws_input s)"
  "ws_corrects (wc_row_to_scale s) = ws_corrects s" "ws_diagnostics (wc_row_to_scale s) = ws_diagnostics s"
  by (simp_all add: wc_row_to_scale_def Let_def)

interpretation wc: correctable_ledger ingest_working_capital_snapshot active_wc "\<lambda>s. wi_as_of (ws_input s)" wi_as_of ws_corrects
proof
  fix g :: pydate and rows rows' :: "wc_snapshot list" and i :: wc_input and c
  show "active_wc g rows = filter (\<lambda>s. wi_as_of (ws_input s) = g \<and> ws_corrects s = None) rows" by (simp add: active_wc_def)
  show "\<exists>s. rows' = rows @ [s] \<and> wi_as_of (ws_input s) = wi_as_of i \<and> (ws_corrects s = None \<longleftrightarrow> active_wc (wi_as_of i) rows = [])"
    if "ingest_working_capital_snapshot rows i c = Inr rows'"
    using that by (auto simp: ingest_working_capital_snapshot_def res_simps case_prod_unfold Let_def
        dest!: check_locked_InrD save_wc_row_InrD)
  show "\<not> is_ok (ingest_working_capital_snapshot rows i False)" if "active_wc (wi_as_of i) rows \<noteq> []"
    using check_locked_False [OF that] by (auto simp: ingest_working_capital_snapshot_def is_ok_iff res_simps)
qed

interpretation aging: correctable_ledger ingest_aging_snapshot active_aging "\<lambda>s. (as_as_of s, as_ledger_type s)"
  "\<lambda>i. (ai_as_of i, ai_ledger_type i)" as_corrects
proof
  fix g :: "pydate \<times> string" and rows rows' :: "aging_snapshot list" and i :: aging_input and c
  show "active_aging g rows = filter (\<lambda>s. (as_as_of s, as_ledger_type s) = g \<and> as_corrects s = None) rows" by (simp add: active_aging_def)
  show "\<exists>s. rows' = rows @ [s] \<and> (as_as_of s, as_ledger_type s) = (ai_as_of i, ai_ledger_type i) \<and>
      (as_corrects s = None \<longleftrightarrow> active_aging (ai_as_of i, ai_ledger_type i) rows = [])"
    if "ingest_aging_snapshot rows i c = Inr rows'"
    using that by (auto simp: ingest_aging_snapshot_def res_simps split: if_splits dest!: check_locked_InrD)
  show "\<not> is_ok (ingest_aging_snapshot rows i False)" if "active_aging (ai_as_of i, ai_ledger_type i) rows \<noteq> []"
    using check_locked_False [OF that] by (auto simp: ingest_aging_snapshot_def is_ok_iff res_simps)
qed

section \<open>Properties\<close>

text \<open>C24: From empty tables no sequence of submissions and corrections, successful or not, ever leaves two active
  snapshots for one date, or for one date and ledger type; so the query for the active row never
  finds more than one.\<close>

lemma one_active_snapshot:
  "length (active_wc d (foldl (request ingest_working_capital_snapshot) [] rs)) \<le> 1 \<and>
   length (active_aging g (foldl (request ingest_aging_snapshot) [] qs)) \<le> 1"
  using wc.one_active_empty aging.one_active_empty by simp

text \<open>A correction never becomes visible: readers select the rows that correct nothing, and once a date has
  such a row, no later submission or correction changes which rows these are, so they keep the
  figures of the first submission.\<close>

lemma first_submission_stays_active:
  assumes "active_wc d rows \<noteq> []" "active_aging g ages \<noteq> []"
  shows "active_wc d (foldl (request ingest_working_capital_snapshot) rows rs) = active_wc d rows \<and>
    active_aging g (foldl (request ingest_aging_snapshot) ages qs) = active_aging g ages"
  by (intro conjI wc.active_forever aging.active_forever assms)

lemma in_range_fits:
  assumes "on_grid 1 x" "\<not> out_of_range (Some x)" shows "column_ok 9 1 (Some x)"
proof (rule ccontr)
  assume "\<not> column_ok 9 1 (Some x)"
  then have "10 ^ 8 \<le> \<bar>x\<bar>" using assms(1) by (simp add: column_ok_grid)
  then have "ctx (10 ^ 8) \<le> dabs x" by (simp only: dabs_def ctx_mono)
  moreover have "ctx (10 ^ 8) = 10 ^ 8" by (rule ctx_exact [of 0]) (simp add: fits_def prec_def)
  ultimately show False using assms(2) by (simp add: out_of_range_def days_metric_storage_max_abs_def)
qed

lemma metrics_grid:
  assumes "calculate_working_capital_metrics ar ap stock revenue cogs cash = Inr m"
  shows "\<forall>v\<in>{wc_dso m, wc_dio m, wc_dpo m, wc_ccc m}. \<forall>x. v = Some x \<longrightarrow> on_grid 1 x"
    "wc_ccc m = None \<longleftrightarrow> wc_dio m = None \<or> wc_dso m = None \<or> wc_dpo m = None"
    "wc_working_capital_ratio m = Some r \<Longrightarrow> on_grid 2 r"
proof -
  obtain s i p c where 1: "days_metric ar revenue = Inr s" "days_metric stock cogs = Inr i" "days_metric ap cogs = Inr p" "ccc_of i s p = Inr c"
    and 2: "wc_dso m = s" "wc_dio m = i" "wc_dpo m = p" "wc_ccc m = c"
    using assms by (auto simp: calculate_working_capital_metrics_def res_simps)
  have "on_grid 1 x" if "ccc_of i s p = Inr (Some x)" for x
    using that by (auto simp: ccc_of_def res_simps split: option.splits dest: days.on_grid)
  then show "\<forall>v\<in>{wc_dso m, wc_dio m, wc_dpo m, wc_ccc m}. \<forall>x. v = Some x \<longrightarrow> on_grid 1 x"
    using 1 2 days_metric_SomeD by auto
  show "wc_ccc m = None \<longleftrightarrow> wc_dio m = None \<or> wc_dso m = None \<or> wc_dpo m = None"
    using 1(4) ccc_None [of i s p] unfolding 2 by (cases c) auto
  show "on_grid 2 r" if "wc_working_capital_ratio m = Some r"
    using assms that by (auto simp: calculate_working_capital_metrics_def res_simps split: option.splits if_splits dest: ratio.on_grid)
qed

lemma storage_boundary_ratio: "apply_days_metric_storage_boundary m = (safe, ds) \<Longrightarrow> wc_working_capital_ratio safe = wc_working_capital_ratio m"
  by (auto simp: apply_days_metric_storage_boundary_def Let_def split: prod.splits if_splits)



text \<open>The ratio has no such boundary: small payables against ordinary balances give a ratio of ten million or more,
  and the whole snapshot is refused by the database although every days metric fits.\<close>

lemma ratio_overflow_refuses_snapshot:
  assumes n: "active_wc (wi_as_of i) rows = []"
    and m: "calculate_working_capital_metrics (wi_receivable i) (wi_payable i) (wi_inventory i) (wi_revenue i) (wi_cogs i) (wi_cash i) = Inr m"
    and r: "wc_working_capital_ratio m = Some r" "10 ^ 7 \<le> \<bar>r\<bar>"
  shows "ingest_working_capital_snapshot rows i c = Inl (DataError ''numeric field overflow'')"
proof -
  obtain safe ds where b: "apply_days_metric_storage_boundary m = (safe, ds)" by fastforce
  have "wc_working_capital_ratio safe = Some r" using storage_boundary_ratio [OF b] r(1) by simp
  moreover have "\<not> column_ok 9 2 (Some r)" using r(2) metrics_grid(3) [OF m r(1)] by (simp add: column_ok_grid)
  ultimately show ?thesis
    by (simp add: ingest_working_capital_snapshot_def n m b check_locked_def one_or_none_def save_wc_row_def wc_row_fits_def Let_def)
qed

definition small_payables :: wc_input where
  "small_payables = \<lparr> wi_as_of = PyDate 2026 6 30, wi_receivable = 100000, wi_payable = 1 / 100, wi_inventory = 0, wi_cash = Some 0,
     wi_revenue = 1000000, wi_cogs = 1000000 \<rparr>"

lemma ratio_overflow_refuses_snapshot_witness:
  "ingest_working_capital_snapshot [] small_payables False = Inl (DataError ''numeric field overflow'')"
proof (rule ratio_overflow_refuses_snapshot [where r = "10 ^ 7"])
  show "calculate_working_capital_metrics (wi_receivable small_payables) (wi_payable small_payables) (wi_inventory small_payables)
      (wi_revenue small_payables) (wi_cogs small_payables) (wi_cash small_payables) =
    Inr \<lparr> wc_dso = Some (365 / 10), wc_dio = Some 0, wc_dpo = Some 0, wc_ccc = Some (365 / 10), wc_working_capital_ratio = Some (10 ^ 7) \<rparr>"
    by (simp add: small_payables_def calculate_working_capital_metrics_def days_metric_def ccc_of_def dec_eval cong: bindR_weak_cong)
qed (simp_all add: active_wc_def)

definition balanced :: "rat \<Rightarrow> wc_input" where
  "balanced x = \<lparr> wi_as_of = PyDate 2026 6 30, wi_receivable = x, wi_payable = 10, wi_inventory = 0, wi_cash = None,
     wi_revenue = 1000, wi_cogs = 1000 \<rparr>"

lemma first_submission_stays_active_witness:
  "\<exists>s a. active_wc (PyDate 2026 6 30) [s] = [s] \<and>
     active_wc (PyDate 2026 6 30) (foldl (request ingest_working_capital_snapshot) [s] [(balanced 700, True), (balanced 900, True)]) = [s] \<and>
     active_aging (PyDate 2026 6 30, ''debtors'') (foldl (request ingest_aging_snapshot) [a] []) = [a]"
proof -
  let ?s = "\<lparr> ws_id = 1, ws_input = balanced 500, ws_metrics = \<lparr> wc_dso = None, wc_dio = None, wc_dpo = None, wc_ccc = None,
    wc_working_capital_ratio = None \<rparr>, ws_diagnostics = [], ws_corrects = None \<rparr>"
  let ?a = "\<lparr> as_id = 1, as_as_of = PyDate 2026 6 30, as_ledger_type = ''debtors'', as_buckets = aging_buckets.make 0 0 0 0 0, as_corrects = None \<rparr>"
  have "active_wc (PyDate 2026 6 30) [?s] = [?s]" "active_aging (PyDate 2026 6 30, ''debtors'') [?a] = [?a]"
    by (simp_all add: active_wc_def active_aging_def balanced_def)
  then show ?thesis
    using first_submission_stays_active [of "PyDate 2026 6 30" "[?s]" "(PyDate 2026 6 30, ''debtors'')" "[?a]"]
    by (intro exI [of _ ?s] exI [of _ ?a]) (simp del: foldl_Cons)
qed

end
