(* ===== verification/InventoryAnalytics.thy ===== *)
theory InventoryAnalytics
  imports Grouping Columns PyDate Snapshots
begin

text \<open>
  Inventory: \<open>app/analytics/inventory_calculations.py\<close>, \<open>inventory_valuation_aggregation.py\<close> and the
  ingestion of a valuation report, \<open>app/services/inventory_valuation_service.py\<close>.  The table of
  snapshots is the list of its rows in the order of insertion, which is also the order of the query
  for the active rows; another order only exchanges which active row a correction refers to.
\<close>

section \<open>inventory\_calculations.py\<close>

record snapshot_row =
  sr_description :: string
  sr_sku :: "string option"
  sr_location :: int
  sr_date :: pydate
  sr_index :: nat

type_synonym grain = "string \<times> string option \<times> int \<times> pydate"

definition snapshot_grain :: "snapshot_row \<Rightarrow> grain" where
  "snapshot_grain r = (sr_description r, sr_sku r, sr_location r, sr_date r)"

definition validate_snapshot_grain :: "snapshot_row list \<Rightarrow> (grain \<times> nat list) list" where
  "validate_snapshot_grain rows =
     filter (\<lambda>(key, indices). 1 < length indices) (group_rows (map (\<lambda>r. (snapshot_grain r, sr_index r)) rows))"

fun movement_loop :: "(pydate \<times> rat) list \<Rightarrow> pydate \<Rightarrow> nat \<Rightarrow> int" where
  "movement_loop snaps as_of 0 = days_between as_of (fst (snaps ! 0))"
| "movement_loop snaps as_of (Suc i) = (if snd (snaps ! Suc i) < snd (snaps ! i) then days_between as_of (fst (snaps ! Suc i))
     else movement_loop snaps as_of i)"

definition calculate_days_since_last_movement :: "(pydate \<times> rat) list \<Rightarrow> pydate \<Rightarrow> int option" where
  "calculate_days_since_last_movement ordered_snapshots as_of =
     (if length ordered_snapshots < 2 then None else Some (movement_loop ordered_snapshots as_of (length ordered_snapshots - 1)))"

definition calculate_excess_stock_value :: "rat \<Rightarrow> rat option \<Rightarrow> rat option \<Rightarrow> rat option res" where
  "calculate_excess_stock_value quantity_on_hand reorder_level unit_cost = (case (reorder_level, unit_cost) of
     (Some l, Some c) \<Rightarrow> bindR (round_currency (dmul (max 0 (dsub quantity_on_hand l)) c)) (\<lambda>v. Inr (Some v))
   | _ \<Rightarrow> Inr None)"

datatype expiry_risk = NO_EXPIRY_TRACKED | EXPIRED | EXPIRING_SOON | HEALTHY

definition classify_expiry_risk :: "pydate option \<Rightarrow> pydate \<Rightarrow> int \<Rightarrow> expiry_risk" where
  "classify_expiry_risk expiry_date as_of warning_window_days = (case expiry_date of
     None \<Rightarrow> NO_EXPIRY_TRACKED
   | Some d \<Rightarrow> if d < as_of then EXPIRED
       else if days_between d as_of \<le> warning_window_days then EXPIRING_SOON else HEALTHY)"

section \<open>inventory\_valuation\_aggregation.py\<close>

record valuation_record =
  vr_sku :: string
  vr_description :: "string option"
  vr_quantity :: "rat option"
  vr_unit_cost :: "rat option"

definition calculate_batch_asset_valuation :: "valuation_record list \<Rightarrow> rat" where
  "calculate_batch_asset_valuation records = foldl (\<lambda>t r. case (vr_quantity r, vr_unit_cost r) of
     (Some q, Some c) \<Rightarrow> dadd t (dmul q c) | _ \<Rightarrow> t) 0 records"

record audit_context =
  ac_record_count :: nat
  ac_total :: rat
  ac_date :: pydate
  ac_file_hash :: "string option"

definition build_reconciliation_audit_context :: "nat \<Rightarrow> rat \<Rightarrow> pydate \<Rightarrow> string option \<Rightarrow> audit_context" where
  "build_reconciliation_audit_context n t d h = \<lparr> ac_record_count = n, ac_total = t, ac_date = d, ac_file_hash = h \<rparr>"

section \<open>inventory\_valuation\_service.py\<close>

record inv_snapshot =
  st_id :: int
  st_location :: int
  st_date :: pydate
  st_sku :: "string option"
  st_description :: string
  st_quantity :: rat
  st_unit_cost :: "rat option"
  st_expiry :: "pydate option"
  st_corrects :: "int option"

definition active_stock :: "int \<times> pydate \<Rightarrow> inv_snapshot list \<Rightarrow> inv_snapshot list" where
  "active_stock g rows = filter (\<lambda>s. (st_location s, st_date s) = g \<and> st_corrects s = None) rows"

definition insert_record ::
    "int \<Rightarrow> pydate \<Rightarrow> bool \<Rightarrow> inv_snapshot list \<times> int list \<Rightarrow> valuation_record \<Rightarrow> (inv_snapshot list \<times> int list) res" where
  "insert_record loc d is_correction s r = (case s of (rows, pending) \<Rightarrow> (case vr_quantity r of
     None \<Rightarrow> Inl (IntegrityError ''null value in column quantity_on_hand'')
   | Some q \<Rightarrow> if \<not> (column_ok 18 4 (Some q) \<and> column_ok 18 4 (vr_unit_cost r)) then Inl (DataError ''numeric field overflow'')
       else Inr (rows @ [\<lparr> st_id = next_id (map st_id rows), st_location = loc, st_date = d, st_sku = Some (vr_sku r),
           st_description = (case vr_description r of Some (c # cs) \<Rightarrow> c # cs | _ \<Rightarrow> vr_sku r), st_quantity = to_scale 4 q,
           st_unit_cost = map_option (to_scale 4) (vr_unit_cost r), st_expiry = None,
           st_corrects = (if is_correction then (case pending of [] \<Rightarrow> None | i # is \<Rightarrow> Some i) else None) \<rparr>],
         if is_correction then tl pending else pending)))"

definition ingest_inventory_valuation ::
    "inv_snapshot list \<Rightarrow> int \<Rightarrow> pydate \<Rightarrow> valuation_record list \<Rightarrow> string option \<Rightarrow> bool \<Rightarrow> (inv_snapshot list \<times> audit_context) res" where
  "ingest_inventory_valuation rows loc d records file_hash is_correction =
     (let existing_ids = map st_id (active_stock (loc, d) rows) in
      if existing_ids \<noteq> [] \<and> \<not> is_correction then Inl (ConflictError ''Active inventory snapshots already exist'')
      else bindR (foldR (insert_record loc d is_correction) (rows, existing_ids) records) (\<lambda>(rows', pending).
        Inr (rows', build_reconciliation_audit_context (length records) (calculate_batch_asset_valuation records) d file_hash)))"

section \<open>Lemmas\<close>

lemma movement_append: "i < length snaps \<Longrightarrow> movement_loop (snaps @ later) as_of i = movement_loop snaps as_of i"
  by (induction i) (auto simp: nth_append)

lemma movement_last:
  assumes "i < length snaps"
  shows "(\<exists>k. 0 < k \<and> k \<le> i \<and> snd (snaps ! k) < snd (snaps ! (k - 1)) \<and> movement_loop snaps as_of i = days_between as_of (fst (snaps ! k)) \<and>
      (\<forall>j. k < j \<longrightarrow> j \<le> i \<longrightarrow> snd (snaps ! (j - 1)) \<le> snd (snaps ! j))) \<or>
    (\<forall>j. 0 < j \<longrightarrow> j \<le> i \<longrightarrow> snd (snaps ! (j - 1)) \<le> snd (snaps ! j)) \<and> movement_loop snaps as_of i = days_between as_of (fst (snaps ! 0))"
  using assms
proof (induction i)
  case (Suc i)
  show ?case
  proof (cases "snd (snaps ! Suc i) < snd (snaps ! i)")
    case True
    then show ?thesis by (intro disjI1 exI [of _ "Suc i"]) simp
  next
    case False
    have ext: "\<forall>j. k < j \<longrightarrow> j \<le> Suc i \<longrightarrow> snd (snaps ! (j - 1)) \<le> snd (snaps ! j)"
      if "\<forall>j. k < j \<longrightarrow> j \<le> i \<longrightarrow> snd (snaps ! (j - 1)) \<le> snd (snaps ! j)" for k
      using that False by (simp add: le_Suc_eq not_less)
    have "movement_loop snaps as_of (Suc i) = movement_loop snaps as_of i" using False by simp
    then have step: "movement_loop snaps as_of (Suc i) = x" if "movement_loop snaps as_of i = x" for x using that by simp
    have "i < length snaps" using Suc.prems by simp
    from Suc.IH [OF this] show ?thesis
    proof (elim disjE exE conjE)
      fix k assume k: "0 < k" "k \<le> i" "snd (snaps ! k) < snd (snaps ! (k - 1))" "movement_loop snaps as_of i = days_between as_of (fst (snaps ! k))"
        "\<forall>j. k < j \<longrightarrow> j \<le> i \<longrightarrow> snd (snaps ! (j - 1)) \<le> snd (snaps ! j)"
      from k(2) have "k \<le> Suc i" by simp
      then show ?thesis using k(1,3) step [OF k(4)] ext [OF k(5)] by (intro disjI1 exI [of _ k] conjI)
    next
      assume k: "\<forall>j. 0 < j \<longrightarrow> j \<le> i \<longrightarrow> snd (snaps ! (j - 1)) \<le> snd (snaps ! j)" "movement_loop snaps as_of i = days_between as_of (fst (snaps ! 0))"
      show ?thesis using step [OF k(2)] ext [OF k(1)] by (intro disjI2 conjI)
    qed
  qed
qed simp

lemma batch_valuation_eq:
  "calculate_batch_asset_valuation records = foldl dadd 0 (List.map_filter (\<lambda>r. case (vr_quantity r, vr_unit_cost r) of
     (Some q, Some c) \<Rightarrow> Some (dmul q c) | _ \<Rightarrow> None) records)"
proof -
  have "foldl (\<lambda>t r. case (vr_quantity r, vr_unit_cost r) of (Some q, Some c) \<Rightarrow> dadd t (dmul q c) | _ \<Rightarrow> t) a records =
    foldl dadd a (List.map_filter (\<lambda>r. case (vr_quantity r, vr_unit_cost r) of (Some q, Some c) \<Rightarrow> Some (dmul q c) | _ \<Rightarrow> None) records)" for a
    by (induction records arbitrary: a) (auto simp: map_filter_simps split: option.split)
  then show ?thesis by (simp add: calculate_batch_asset_valuation_def)
qed

lemma insert_records_InrD:
  assumes "foldR (insert_record loc d c) (rows, pending) records = Inr (rows', pending')"
  shows "\<exists>new. rows' = rows @ new \<and> length new = length records \<and>
    (\<forall>k<length new. st_location (new ! k) = loc \<and> st_date (new ! k) = d \<and>
       st_corrects (new ! k) = (if c \<and> k < length pending then Some (pending ! k) else None))"
  using assms
proof (induction records arbitrary: rows pending)
  case (Cons r records)
  obtain s where s: "insert_record loc d c (rows, pending) r = Inr s" and t: "foldR (insert_record loc d c) s records = Inr (rows', pending')"
    using Cons.prems by (auto simp: res_simps)
  obtain x where x: "s = (rows @ [x], if c then tl pending else pending)" "st_location x = loc" "st_date x = d"
    "st_corrects x = (if c then (case pending of [] \<Rightarrow> None | i # is \<Rightarrow> Some i) else None)"
    using s by (auto simp: insert_record_def split: option.splits if_splits)
  from Cons.IH [OF t [unfolded x(1)]] obtain new where new: "rows' = (rows @ [x]) @ new" "length new = length records"
    "\<forall>k<length new. st_location (new ! k) = loc \<and> st_date (new ! k) = d \<and>
       st_corrects (new ! k) = (if c \<and> k < length (if c then tl pending else pending) then Some ((if c then tl pending else pending) ! k) else None)"
    by auto
  have "st_corrects ((x # new) ! k) = (if c \<and> k < length pending then Some (pending ! k) else None)" if "k < length (x # new)" for k
    using that x(4) new(3) by (cases k; cases pending) auto
  then show ?case using new x(2,3) by (intro exI [of _ "x # new"]) (auto simp: nth_Cons split: nat.split)
qed simp

section \<open>Properties\<close>

text \<open>Days since the last movement are counted from the latest snapshot whose quantity fell below the one
  before it, or from the first snapshot when it never fell; a restock never resets the count.\<close>

lemma last_movement:
  assumes "calculate_days_since_last_movement snaps as_of = Some n"
  shows "((\<exists>k. 0 < k \<and> k < length snaps \<and> snd (snaps ! k) < snd (snaps ! (k - 1)) \<and> n = days_between as_of (fst (snaps ! k)) \<and>
      (\<forall>j. k < j \<longrightarrow> j < length snaps \<longrightarrow> snd (snaps ! (j - 1)) \<le> snd (snaps ! j))) \<or>
    (\<forall>j. 0 < j \<longrightarrow> j < length snaps \<longrightarrow> snd (snaps ! (j - 1)) \<le> snd (snaps ! j)) \<and> n = days_between as_of (fst (snaps ! 0))) \<and>
    (\<forall>d q. snd (last snaps) \<le> q \<longrightarrow> calculate_days_since_last_movement (snaps @ [(d, q)]) as_of = Some n)"
proof
  have l: "2 \<le> length snaps" and n: "n = movement_loop snaps as_of (length snaps - 1)"
    using assms by (auto simp: calculate_days_since_last_movement_def split: if_splits)
  have lt: "j \<le> length snaps - 1 \<longleftrightarrow> j < length snaps" for j using l by auto
  show "(\<exists>k. 0 < k \<and> k < length snaps \<and> snd (snaps ! k) < snd (snaps ! (k - 1)) \<and> n = days_between as_of (fst (snaps ! k)) \<and>
      (\<forall>j. k < j \<longrightarrow> j < length snaps \<longrightarrow> snd (snaps ! (j - 1)) \<le> snd (snaps ! j))) \<or>
    (\<forall>j. 0 < j \<longrightarrow> j < length snaps \<longrightarrow> snd (snaps ! (j - 1)) \<le> snd (snaps ! j)) \<and> n = days_between as_of (fst (snaps ! 0))"
    using movement_last [of "length snaps - 1" snaps as_of] l unfolding n lt by simp
  have "calculate_days_since_last_movement (snaps @ [(d, q)]) as_of = Some n" if "snd (last snaps) \<le> q" for d q
  proof -
    obtain m where m: "length snaps = Suc m" using l by (cases "length snaps") simp_all
    have "snaps \<noteq> []" using l by auto
    then have "snd (snaps ! m) \<le> q" using that m by (simp add: last_conv_nth)
    then show ?thesis using l m by (simp add: calculate_days_since_last_movement_def n nth_append movement_append)
  qed
  then show "\<forall>d q. snd (last snaps) \<le> q \<longrightarrow> calculate_days_since_last_movement (snaps @ [(d, q)]) as_of = Some n" by blast
qed

lemma last_movement_witness:
  "calculate_days_since_last_movement [(PyDate 2026 1 1, 10), (PyDate 2026 1 5, 7), (PyDate 2026 1 8, 20)] (PyDate 2026 1 10) = Some 5 \<and>
   calculate_days_since_last_movement ([(PyDate 2026 1 1, 10), (PyDate 2026 1 5, 7), (PyDate 2026 1 8, 20)] @ [(PyDate 2026 1 9, 30)]) (PyDate 2026 1 10) = Some 5"
proof -
  have e: "calculate_days_since_last_movement [(PyDate 2026 1 1, 10), (PyDate 2026 1 5, 7), (PyDate 2026 1 8, 20)] (PyDate 2026 1 10) = Some 5"
    by code_simp
  from last_movement [OF e] e show ?thesis by simp
qed

text \<open>The grain check reports exactly the keys borne by more than one row, each once, with the indices of all
  their rows in order.\<close>

lemma grain_violations:
  "distinct (map fst (validate_snapshot_grain rows)) \<and>
   ((key, indices) \<in> set (validate_snapshot_grain rows) \<longleftrightarrow>
     indices = map sr_index (filter (\<lambda>r. snapshot_grain r = key) rows) \<and> 1 < length indices)"
proof -
  have k: "of_key key (map (\<lambda>r. (snapshot_grain r, sr_index r)) rows) = map sr_index (filter (\<lambda>r. snapshot_grain r = key) rows)"
    by (simp add: of_key_def filter_map comp_def)
  have "distinct (map fst (validate_snapshot_grain rows))"
    unfolding validate_snapshot_grain_def by (rule distinct_map_filter) simp
  moreover have "key \<in> fst ` set (map (\<lambda>r. (snapshot_grain r, sr_index r)) rows)" if "1 < length (map sr_index (filter (\<lambda>r. snapshot_grain r = key) rows))"
    using that k of_key_empty_iff [of key "map (\<lambda>r. (snapshot_grain r, sr_index r)) rows"] by force
  ultimately show ?thesis by (auto simp: validate_snapshot_grain_def group_rows_entries k)
qed

text \<open>A correction of an inventory report leaves every superseded row active: the rows readers select for the
  location and date are afterwards the old ones, untouched, followed by the rows by which the new
  batch is longer; none of the corrected figures is among them.\<close>

lemma stock_correction_invisible:
  assumes "ingest_inventory_valuation rows loc d records h True = Inr (rows', audit)"
    and k: "k = length (active_stock (loc, d) rows)"
  shows "\<exists>new. rows' = rows @ new \<and> length new = length records \<and>
    active_stock (loc, d) rows' = active_stock (loc, d) rows @ drop k new"
proof -
  obtain p where p: "foldR (insert_record loc d True) (rows, map st_id (active_stock (loc, d) rows)) records = Inr (rows', p)"
    using assms(1) by (auto simp: ingest_inventory_valuation_def Let_def res_simps)
  from insert_records_InrD [OF p] obtain new where new: "rows' = rows @ new" "length new = length records"
    and c: "\<forall>j<length new. st_location (new ! j) = loc \<and> st_date (new ! j) = d \<and>
       st_corrects (new ! j) = (if True \<and> j < length (map st_id (active_stock (loc, d) rows)) then Some (map st_id (active_stock (loc, d) rows) ! j) else None)"
    by blast
  let ?P = "\<lambda>s. (st_location s, st_date s) = (loc, d) \<and> st_corrects s = None"
  have P: "?P (new ! j) \<longleftrightarrow> k \<le> j" if "j < length new" for j
    using c [rule_format, OF that] unfolding k by auto
  have "filter ?P (take k new) = []"
  proof (rule filter_False, rule ballI)
    fix s assume "s \<in> set (take k new)"
    then obtain j where "j < k" "j < length new" "s = new ! j" by (auto simp: in_set_conv_nth)
    then show "\<not> ?P s" using P [of j] by simp
  qed
  moreover have "filter ?P (drop k new) = drop k new"
  proof (rule filter_True, rule ballI)
    fix s assume "s \<in> set (drop k new)"
    then obtain j where j: "j < length (drop k new)" "s = drop k new ! j" by (auto simp only: in_set_conv_nth)
    then have "k + j < length new" "s = new ! (k + j)" by simp_all
    then show "?P s" using P [of "k + j"] by simp
  qed
  moreover have "filter ?P new = filter ?P (take k new) @ filter ?P (drop k new)"
    by (simp only: filter_append [symmetric] append_take_drop_id)
  ultimately have "filter ?P new = drop k new" by simp
  then show ?thesis using new by (intro exI [of _ new]) (simp add: active_stock_def)
qed

definition stock_row :: "rat \<Rightarrow> inv_snapshot" where
  "stock_row q = \<lparr> st_id = 1, st_location = 7, st_date = PyDate 2026 6 30, st_sku = Some ''A1'', st_description = ''Rice'',
     st_quantity = q, st_unit_cost = Some 2, st_expiry = None, st_corrects = None \<rparr>"

lemma stock_correction_invisible_witness:
  "\<exists>rows' audit. ingest_inventory_valuation [stock_row 5] 7 (PyDate 2026 6 30)
     [\<lparr> vr_sku = ''A1'', vr_description = Some ''Rice'', vr_quantity = Some 900, vr_unit_cost = Some 2 \<rparr>] None True = Inr (rows', audit) \<and>
     active_stock (7, PyDate 2026 6 30) rows' = [stock_row 5]"
proof -
  let ?r = "[\<lparr> vr_sku = ''A1'', vr_description = Some ''Rice'', vr_quantity = Some 900, vr_unit_cost = Some 2 \<rparr>]"
  have act: "active_stock (7, PyDate 2026 6 30) [stock_row 5] = [stock_row 5]" by (simp add: active_stock_def stock_row_def)
  have "is_ok (ingest_inventory_valuation [stock_row 5] 7 (PyDate 2026 6 30) ?r None True)"
    by (simp add: ingest_inventory_valuation_def act insert_record_def column_ok_grid Let_def)
  then obtain rows' audit where r: "ingest_inventory_valuation [stock_row 5] 7 (PyDate 2026 6 30) ?r None True = Inr (rows', audit)"
    by (auto simp: is_ok_iff)
  from stock_correction_invisible [OF r refl] act r show ?thesis by (intro exI [of _ rows'] exI [of _ audit]) auto
qed

end
