(* ===== verification/AccessControl.thy ===== *)
theory AccessControl
  imports PyText "HOL-Library.Countable"
begin

text \<open>
  Who may act in which organisation: the roles and permissions of \<open>app/core/constants.py\<close>, the check of
  \<open>app/core/permissions.py\<close>, the tokens of \<open>app/core/security.py\<close>, registration, login and organisation
  switch of \<open>app/services/auth_service.py\<close>, the membership routes of \<open>app/api/v1/users.py\<close> and
  \<open>auth.py\<close>, the sessions of \<open>app/db/session.py\<close>, and the row-level security of migrations 0001, 0004 and
  0022 on \<open>organisation_memberships\<close>.

  The JWT and password libraries are parameters (a record of functions); what the code relies on of
  them is stated where it is needed.  Time is seconds since the epoch.  Fresh identifiers that are random
  (token families, public ids) are arguments; audit records and display names are left out.
\<close>

section \<open>Roles and permissions\<close>

datatype role = OWNER | ADMIN | EXECUTIVE | FINANCE | PROCUREMENT_MANAGER | BUYER | OPERATIONS | ANALYST | CONSULTANT | VIEWER

fun role_value :: "role \<Rightarrow> string" where
  "role_value OWNER = ''owner''"
| "role_value ADMIN = ''admin''"
| "role_value EXECUTIVE = ''executive''"
| "role_value FINANCE = ''finance''"
| "role_value PROCUREMENT_MANAGER = ''procurement_manager''"
| "role_value BUYER = ''buyer''"
| "role_value OPERATIONS = ''operations''"
| "role_value ANALYST = ''analyst''"
| "role_value CONSULTANT = ''consultant''"
| "role_value VIEWER = ''viewer''"

definition all_roles :: "role list" where
  "all_roles = [OWNER, ADMIN, EXECUTIVE, FINANCE, PROCUREMENT_MANAGER, BUYER, OPERATIONS, ANALYST, CONSULTANT, VIEWER]"

definition role_of :: "string \<Rightarrow> role res" where
  "role_of s = (case map_of (map (\<lambda>r. (role_value r, r)) all_roles) s of None \<Rightarrow> Inl (ValueError ''not a valid Role'') | Some r \<Rightarrow> Inr r)"

datatype permission = UPLOAD_DATA | DELETE_DATASETS | VIEW_FINANCIALS | EDIT_SUPPLIERS | APPROVE_OPPORTUNITIES
  | CONFIGURE_INTEGRATIONS | VIEW_CONTRACTS | MANAGE_USERS | GENERATE_REPORTS | ACCESS_AI | EXPORT_DATA
  | APPROVE_PRICE_INCREASES | APPROVE_SAVINGS | MANAGE_ORGANISATION

definition all_permissions :: "permission list" where
  "all_permissions = [UPLOAD_DATA, DELETE_DATASETS, VIEW_FINANCIALS, EDIT_SUPPLIERS, APPROVE_OPPORTUNITIES,
     CONFIGURE_INTEGRATIONS, VIEW_CONTRACTS, MANAGE_USERS, GENERATE_REPORTS, ACCESS_AI, EXPORT_DATA,
     APPROVE_PRICE_INCREASES, APPROVE_SAVINGS, MANAGE_ORGANISATION]"

fun role_permissions :: "role \<Rightarrow> permission list" where
  "role_permissions OWNER = all_permissions"
| "role_permissions ADMIN = filter (\<lambda>p. p \<noteq> MANAGE_ORGANISATION) all_permissions"
| "role_permissions EXECUTIVE = [VIEW_FINANCIALS, VIEW_CONTRACTS, GENERATE_REPORTS, ACCESS_AI, APPROVE_OPPORTUNITIES, APPROVE_SAVINGS, EXPORT_DATA]"
| "role_permissions FINANCE = [VIEW_FINANCIALS, VIEW_CONTRACTS, GENERATE_REPORTS, ACCESS_AI, APPROVE_SAVINGS, EXPORT_DATA]"
| "role_permissions PROCUREMENT_MANAGER = [UPLOAD_DATA, VIEW_FINANCIALS, EDIT_SUPPLIERS, VIEW_CONTRACTS, GENERATE_REPORTS, ACCESS_AI,
     EXPORT_DATA, APPROVE_PRICE_INCREASES]"
| "role_permissions BUYER = [UPLOAD_DATA, ACCESS_AI, VIEW_FINANCIALS]"
| "role_permissions OPERATIONS = [VIEW_FINANCIALS, ACCESS_AI]"
| "role_permissions ANALYST = [VIEW_FINANCIALS, ACCESS_AI, GENERATE_REPORTS]"
| "role_permissions CONSULTANT = [VIEW_FINANCIALS, GENERATE_REPORTS, ACCESS_AI, EXPORT_DATA]"
| "role_permissions VIEWER = [VIEW_FINANCIALS]"

record access_token_claims =
  cl_user_id :: int
  cl_active_org_id :: int
  cl_role :: string
  cl_issued_at :: int
  cl_expires_at :: int

definition require_permission :: "permission \<Rightarrow> access_token_claims \<Rightarrow> access_token_claims res" where
  "require_permission p c = bindR (role_of (cl_role c)) (\<lambda>r.
     if p \<notin> set (role_permissions r) then Inl (PermissionDeniedError ''Role does not have permission'') else Inr c)"

section \<open>Tokens\<close>

text \<open>The payload of a token; a key the code leaves out is \<open>None\<close>.\<close>

record jwt_payload =
  jp_sub :: int
  jp_active_org_id :: "int option"
  jp_role :: "string option"
  jp_family_id :: "int option"
  jp_iat :: int
  jp_exp :: int
  jp_type :: string

datatype jwt_error = Expired_signature | Invalid_token

text \<open>The libraries and the settings: \<open>jwt.encode\<close> and \<open>jwt.decode\<close> under the configured key at a time,
  the password hasher (with the salt as its first argument) and its verification, SHA-256.\<close>

record env =
  jwt_encode :: "jwt_payload \<Rightarrow> string"
  jwt_decode :: "int \<Rightarrow> string \<Rightarrow> jwt_error + jwt_payload"
  argon2_hash :: "int \<Rightarrow> string \<Rightarrow> string"
  argon2_verify :: "string \<Rightarrow> string \<Rightarrow> bool"
  sha256 :: "string \<Rightarrow> string"
  access_token_expire_minutes :: int
  refresh_token_expire_days :: int
  allow_self_registration :: bool

definition access_payload :: "env \<Rightarrow> int \<Rightarrow> int \<Rightarrow> int \<Rightarrow> string \<Rightarrow> jwt_payload" where
  "access_payload e now user_id active_org_id r = \<lparr> jp_sub = user_id, jp_active_org_id = Some active_org_id, jp_role = Some r,
     jp_family_id = None, jp_iat = now, jp_exp = now + access_token_expire_minutes e * 60, jp_type = ''access'' \<rparr>"

definition create_access_token :: "env \<Rightarrow> int \<Rightarrow> int \<Rightarrow> int \<Rightarrow> string \<Rightarrow> string" where
  "create_access_token e now user_id active_org_id r = jwt_encode e (access_payload e now user_id active_org_id r)"

definition refresh_payload :: "env \<Rightarrow> int \<Rightarrow> int \<Rightarrow> int \<Rightarrow> jwt_payload" where
  "refresh_payload e now user_id family_id = \<lparr> jp_sub = user_id, jp_active_org_id = None, jp_role = None,
     jp_family_id = Some family_id, jp_iat = now, jp_exp = now + refresh_token_expire_days e * 86400, jp_type = ''refresh'' \<rparr>"

definition create_refresh_token :: "env \<Rightarrow> int \<Rightarrow> int \<Rightarrow> int \<Rightarrow> string" where
  "create_refresh_token e now user_id family_id = jwt_encode e (refresh_payload e now user_id family_id)"

definition decode_access_token :: "env \<Rightarrow> int \<Rightarrow> string \<Rightarrow> access_token_claims res" where
  "decode_access_token e now token = (case jwt_decode e now token of
     Inl Expired_signature \<Rightarrow> Inl (AuthenticationError ''Access token has expired'')
   | Inl Invalid_token \<Rightarrow> Inl (AuthenticationError ''Invalid access token'')
   | Inr p \<Rightarrow> if jp_type p \<noteq> ''access'' then Inl (AuthenticationError ''Wrong token type'')
       else (case (jp_active_org_id p, jp_role p) of
         (Some o', Some r) \<Rightarrow> Inr \<lparr> cl_user_id = jp_sub p, cl_active_org_id = o', cl_role = r, cl_issued_at = jp_iat p, cl_expires_at = jp_exp p \<rparr>
       | _ \<Rightarrow> Inl KeyError))"

definition get_current_claims :: "env \<Rightarrow> int \<Rightarrow> string option \<Rightarrow> access_token_claims res" where
  "get_current_claims e now authorization = (case authorization of
     None \<Rightarrow> Inl (AuthenticationError ''Missing or malformed Authorization header'')
   | Some h \<Rightarrow> if take 7 h \<noteq> ''Bearer '' then Inl (AuthenticationError ''Missing or malformed Authorization header'')
       else decode_access_token e now (strip (drop 7 h)))"

section \<open>Rows and row-level security\<close>

record user =
  us_id :: int
  us_email :: string
  us_password_hash :: string
  us_active :: bool
  us_verified :: bool
  us_last_login_at :: "int option"

record organisation =
  or_id :: int
  or_public_id :: int

record membership =
  mb_id :: int
  mb_public_id :: int
  mb_user_id :: int
  mb_organisation_id :: int
  mb_role :: string
  mb_status :: string
  mb_invited_by_user_id :: "int option"

record refresh_token_row =
  rt_user_id :: int
  rt_family_id :: int
  rt_token_hash :: string
  rt_revoked :: bool
  rt_expires_at :: int

record auth_db =
  users :: "user list"
  organisations :: "organisation list"
  memberships :: "membership list"
  refresh_tokens :: "refresh_token_row list"

text \<open>The two session variables the policies read; unset they deny.\<close>

record guc =
  current_org_id :: "int option"
  current_user_id :: "int option"

definition unauthenticated :: guc where
  "unauthenticated = \<lparr> current_org_id = None, current_user_id = None \<rparr>"

definition tenant_session :: "access_token_claims \<Rightarrow> guc" where
  "tenant_session c = \<lparr> current_org_id = Some (cl_active_org_id c), current_user_id = None \<rparr>"

definition tenant_isolation :: "guc \<Rightarrow> membership \<Rightarrow> bool" where
  "tenant_isolation g m = (current_org_id g = Some (mb_organisation_id m))"

definition self_membership_select :: "guc \<Rightarrow> membership \<Rightarrow> bool" where
  "self_membership_select g m = (current_user_id g = Some (mb_user_id m))"

definition select_memberships :: "guc \<Rightarrow> auth_db \<Rightarrow> membership list" where
  "select_memberships g db = filter (\<lambda>m. tenant_isolation g m \<or> self_membership_select g m) (memberships db)"

definition membership_columns_ok :: "membership \<Rightarrow> bool" where
  "membership_columns_ok m = (length (mb_role m) \<le> 32 \<and> length (mb_status m) \<le> 16)"

definition insert_membership :: "guc \<Rightarrow> auth_db \<Rightarrow> membership \<Rightarrow> auth_db res" where
  "insert_membership g db m =
     (if \<not> tenant_isolation g m then Inl InsufficientPrivilege
      else if \<not> membership_columns_ok m then Inl (DataError ''value too long'')
      else if mb_user_id m \<notin> set (map us_id (users db)) \<or> mb_organisation_id m \<notin> set (map or_id (organisations db)) \<or>
        set_option (mb_invited_by_user_id m) - set (map us_id (users db)) \<noteq> {} then Inl (IntegrityError ''foreign key'')
      else if \<exists>x\<in>set (memberships db). mb_user_id x = mb_user_id m \<and> mb_organisation_id x = mb_organisation_id m
      then Inl (IntegrityError ''uq_user_org'')
      else if mb_public_id m \<in> set (map mb_public_id (memberships db)) then Inl (IntegrityError ''public_id'')
      else Inr (db\<lparr> memberships := memberships db @ [m] \<rparr>))"

definition find_user :: "auth_db \<Rightarrow> string \<Rightarrow> user option" where
  "find_user db email = find (\<lambda>u. us_email u = email) (users db)"

section \<open>auth\_service.py\<close>

type_synonym token_pair = "string \<times> string"

definition issue_tokens :: "env \<Rightarrow> int \<Rightarrow> int \<Rightarrow> auth_db \<Rightarrow> int \<Rightarrow> int \<Rightarrow> string \<Rightarrow> (auth_db \<times> token_pair) res" where
  "issue_tokens e now family_id db user_id organisation_id r =
     (let access_token = create_access_token e now user_id organisation_id r;
          refresh_token = create_refresh_token e now user_id family_id;
          row = \<lparr> rt_user_id = user_id, rt_family_id = family_id, rt_token_hash = sha256 e refresh_token, rt_revoked = False,
            rt_expires_at = now + refresh_token_expire_days e * 86400 \<rparr>
      in if rt_token_hash row \<in> set (map rt_token_hash (refresh_tokens db)) then Inl (IntegrityError ''token_hash'')
         else Inr (db\<lparr> refresh_tokens := refresh_tokens db @ [row] \<rparr>, (access_token, refresh_token)))"

text \<open>The random values of a request: salt, token family and public ids.\<close>

record fresh =
  fr_salt :: int
  fr_family_id :: int
  fr_public_id :: int
  fr_org_public_id :: int

definition register :: "env \<Rightarrow> int \<Rightarrow> fresh \<Rightarrow> auth_db \<Rightarrow> string \<Rightarrow> string \<Rightarrow> (auth_db \<times> token_pair) res" where
  "register e now fr db email password =
     (if \<not> allow_self_registration e then Inl RegistrationDisabledError
      else if find_user db email \<noteq> None then Inl (ConflictError ''An account with this email already exists'')
      else if fr_org_public_id fr \<in> set (map or_public_id (organisations db)) then Inl (IntegrityError ''public_id'')
      else let uid = next_id (map us_id (users db));
          u = \<lparr> us_id = uid, us_email = email, us_password_hash = argon2_hash e (fr_salt fr) password, us_active = True,
            us_verified = False, us_last_login_at = None \<rparr>;
          oid = next_id (map or_id (organisations db));
          db1 = db\<lparr> users := users db @ [u], organisations := organisations db @ [\<lparr> or_id = oid, or_public_id = fr_org_public_id fr \<rparr>] \<rparr>;
          g = unauthenticated\<lparr> current_user_id := Some uid, current_org_id := Some oid \<rparr>;
          m = \<lparr> mb_id = next_id (map mb_id (memberships db)), mb_public_id = fr_public_id fr, mb_user_id = uid, mb_organisation_id = oid,
            mb_role = role_value OWNER, mb_status = ''active'', mb_invited_by_user_id = None \<rparr>
        in bindR (insert_membership g db1 m) (\<lambda>db2.
             issue_tokens e now (fr_family_id fr) db2 uid oid (role_value OWNER)))"

definition login :: "env \<Rightarrow> int \<Rightarrow> fresh \<Rightarrow> auth_db \<Rightarrow> string \<Rightarrow> string \<Rightarrow> (auth_db \<times> token_pair) res" where
  "login e now fr db email password = (case find_user db email of
     None \<Rightarrow> Inl (AuthenticationError ''Invalid email or password'')
   | Some u \<Rightarrow> if \<not> us_active u \<or> \<not> argon2_verify e (us_password_hash u) password then Inl (AuthenticationError ''Invalid email or password'')
       else let g = unauthenticated\<lparr> current_user_id := Some (us_id u) \<rparr> in
        (case filter (\<lambda>m. mb_user_id m = us_id u \<and> mb_status m = ''active'') (select_memberships g db) of
           [] \<Rightarrow> Inl (AuthenticationError ''No active organisation membership for this user'')
         | m # _ \<Rightarrow> issue_tokens e now (fr_family_id fr)
             (db\<lparr> users := map (\<lambda>v. if us_id v = us_id u then v\<lparr> us_last_login_at := Some now \<rparr> else v) (users db) \<rparr>)
             (us_id u) (mb_organisation_id m) (mb_role m)))"

definition switch_organisation :: "env \<Rightarrow> int \<Rightarrow> fresh \<Rightarrow> auth_db \<Rightarrow> int \<Rightarrow> int \<Rightarrow> (auth_db \<times> token_pair) res" where
  "switch_organisation e now fr db user_id target_organisation_public_id =
     (let g = unauthenticated\<lparr> current_user_id := Some user_id \<rparr> in
      case filter (\<lambda>(m, o'). mb_user_id m = user_id \<and> or_id o' = mb_organisation_id m \<and> or_public_id o' = target_organisation_public_id)
          (List.product (select_memberships g db) (organisations db)) of
        [] \<Rightarrow> Inl (PermissionDeniedError ''No membership found for the requested organisation'')
      | (m, o') # _ \<Rightarrow> if mb_status m \<noteq> ''active'' then Inl (PermissionDeniedError ''Membership is not active'')
          else issue_tokens e now (fr_family_id fr) db user_id (or_id o') (mb_role m))"

definition me :: "auth_db \<Rightarrow> access_token_claims \<Rightarrow> (user \<times> (organisation \<times> string \<times> string) list) res" where
  "me db c = (let g = unauthenticated\<lparr> current_user_id := Some (cl_user_id c) \<rparr> in
     case find (\<lambda>u. us_id u = cl_user_id c) (users db) of None \<Rightarrow> Inl NoResultFound
   | Some u \<Rightarrow> Inr (u, map (\<lambda>(m, o'). (o', mb_role m, mb_status m))
       (filter (\<lambda>(m, o'). or_id o' = mb_organisation_id m \<and> mb_user_id m = us_id u) (List.product (select_memberships g db) (organisations db)))))"

section \<open>users.py\<close>

definition list_users :: "auth_db \<Rightarrow> access_token_claims \<Rightarrow> (membership \<times> user) list res" where
  "list_users db c = bindR (require_permission MANAGE_USERS c) (\<lambda>c.
     Inr (filter (\<lambda>(m, u). us_id u = mb_user_id m \<and> mb_organisation_id m = cl_active_org_id c)
       (List.product (select_memberships (tenant_session c) db) (users db))))"

definition invite_user :: "env \<Rightarrow> fresh \<Rightarrow> auth_db \<Rightarrow> access_token_claims \<Rightarrow> string \<Rightarrow> string \<Rightarrow> string \<Rightarrow> (auth_db \<times> membership) res" where
  "invite_user e fr db c email placeholder r = bindR (require_permission MANAGE_USERS c) (\<lambda>c.
     let g = tenant_session c in
     bindR (case find_user db email of
        None \<Rightarrow> let u = \<lparr> us_id = next_id (map us_id (users db)), us_email = email, us_password_hash = argon2_hash e (fr_salt fr) placeholder,
              us_active = True, us_verified = False, us_last_login_at = None \<rparr>
            in Inr (db\<lparr> users := users db @ [u] \<rparr>, us_id u)
      | Some u \<Rightarrow> if filter (\<lambda>m. mb_user_id m = us_id u \<and> mb_organisation_id m = cl_active_org_id c) (select_memberships g db) \<noteq> []
            then Inl (ConflictError ''User is already a member of this organisation'') else Inr (db, us_id u)) (\<lambda>(db1, uid).
     let m = \<lparr> mb_id = next_id (map mb_id (memberships db)), mb_public_id = fr_public_id fr, mb_user_id = uid, mb_organisation_id = cl_active_org_id c,
         mb_role = r, mb_status = ''invited'', mb_invited_by_user_id = Some (cl_user_id c) \<rparr>
     in bindR (insert_membership g db1 m) (\<lambda>db2. Inr (db2, m))))"

text \<open>The fields of a request body: absent, or present and possibly null.\<close>

record membership_update =
  mu_role :: "string option option"
  mu_status :: "string option option"

definition set_field :: "string option option \<Rightarrow> string \<Rightarrow> string option" where
  "set_field f old = (case f of None \<Rightarrow> Some old | Some v \<Rightarrow> v)"

definition membership_rows :: "auth_db \<Rightarrow> access_token_claims \<Rightarrow> int \<Rightarrow> (membership \<times> user) list" where
  "membership_rows db c public_id =
     filter (\<lambda>(m, u). us_id u = mb_user_id m \<and> mb_public_id m = public_id \<and> mb_organisation_id m = cl_active_org_id c)
       (List.product (select_memberships (tenant_session c) db) (users db))"

definition update_membership :: "auth_db \<Rightarrow> access_token_claims \<Rightarrow> int \<Rightarrow> membership_update \<Rightarrow> (auth_db \<times> membership) res" where
  "update_membership db c public_id changes = bindR (require_permission MANAGE_USERS c) (\<lambda>c.
     case membership_rows db c public_id of
       [] \<Rightarrow> Inl (NotFoundError ''Membership not found'')
     | (m, _) # _ \<Rightarrow> (case (set_field (mu_role changes) (mb_role m), set_field (mu_status changes) (mb_status m)) of
         (Some r, Some s) \<Rightarrow> let m' = m\<lparr> mb_role := r, mb_status := s \<rparr> in
           if \<not> membership_columns_ok m' then Inl (DataError ''value too long'')
           else Inr (db\<lparr> memberships := map (\<lambda>x. if mb_id x = mb_id m then m' else x) (memberships db) \<rparr>, m')
       | _ \<Rightarrow> Inl (IntegrityError ''null value'')))"

section \<open>The running service\<close>

text \<open>A request that reaches the database: what a client can make the service do, with the token it shows.\<close>

inductive auth_step :: "env \<Rightarrow> auth_db \<Rightarrow> auth_db \<Rightarrow> bool" for e where
  step_register: "register e now fr db email password = Inr (db', ts) \<Longrightarrow> auth_step e db db'"
| step_login: "login e now fr db email password = Inr (db', ts) \<Longrightarrow> auth_step e db db'"
| step_switch: "get_current_claims e now h = Inr c \<Longrightarrow> switch_organisation e now fr db (cl_user_id c) target = Inr (db', ts) \<Longrightarrow> auth_step e db db'"
| step_invite: "get_current_claims e now h = Inr c \<Longrightarrow> invite_user e fr db c email placeholder r = Inr (db', m) \<Longrightarrow> auth_step e db db'"
| step_update: "get_current_claims e now h = Inr c \<Longrightarrow> update_membership db c public_id changes = Inr (db', m) \<Longrightarrow> auth_step e db db'"

definition empty_db :: auth_db where
  "empty_db = \<lparr> users = [], organisations = [], memberships = [], refresh_tokens = [] \<rparr>"

text \<open>What every reachable database satisfies: identifiers are unique, an address has one account, a user one
  membership per organisation, memberships refer to existing users and organisations and stay in
  their columns, every organisation has a membership, and no refresh token is ever revoked.\<close>

definition auth_inv :: "auth_db \<Rightarrow> bool" where
  "auth_inv db = (distinct (map us_id (users db)) \<and> distinct (map us_email (users db)) \<and> distinct (map or_id (organisations db)) \<and>
     distinct (map or_public_id (organisations db)) \<and> distinct (map mb_public_id (memberships db)) \<and>
     distinct (map mb_id (memberships db)) \<and> distinct (map (\<lambda>m. (mb_user_id m, mb_organisation_id m)) (memberships db)) \<and>
     mb_user_id ` set (memberships db) \<subseteq> us_id ` set (users db) \<and>
     or_id ` set (organisations db) = mb_organisation_id ` set (memberships db) \<and>
     list_all membership_columns_ok (memberships db) \<and>
     list_all (\<lambda>t. \<not> rt_revoked t) (refresh_tokens db) \<and> distinct (map rt_token_hash (refresh_tokens db)))"

section \<open>Lemmas\<close>

lemma find_user_Some: "find_user db email = Some u \<Longrightarrow> u \<in> set (users db) \<and> us_email u = email"
  by (auto simp: find_user_def find_Some_iff)

lemma find_user_None: "find_user db email = None \<longleftrightarrow> email \<notin> us_email ` set (users db)"
  by (auto simp: find_user_def find_None_iff)

lemma find_user_in: "distinct (map us_email (users db)) \<Longrightarrow> u \<in> set (users db) \<Longrightarrow> us_email u = email \<Longrightarrow> find_user db email = Some u"
proof (induction "users db" arbitrary: db)
  case (Cons v us)
  have "find_user (db\<lparr>users := us\<rparr>) email = Some u" if "u \<in> set us"
    by (rule Cons.hyps(1)) (use Cons.prems Cons.hyps(2) [symmetric] that in auto)
  then show ?case using Cons.prems Cons.hyps(2) [symmetric] by (auto simp: find_user_def split: if_splits)
qed simp

lemma insert_membership_InrD:
  assumes "insert_membership g db m = Inr db'"
  shows "db' = db\<lparr> memberships := memberships db @ [m] \<rparr> \<and> tenant_isolation g m \<and> membership_columns_ok m \<and>
    mb_user_id m \<in> us_id ` set (users db) \<and> mb_organisation_id m \<in> or_id ` set (organisations db) \<and>
    (mb_user_id m, mb_organisation_id m) \<notin> set (map (\<lambda>x. (mb_user_id x, mb_organisation_id x)) (memberships db)) \<and>
    mb_public_id m \<notin> set (map mb_public_id (memberships db))"
  using assms by (auto simp: insert_membership_def split: if_splits)

lemma issue_tokens_InrD:
  assumes "issue_tokens e now fam db uid oid r = Inr (db', access, refresh)"
  shows "access = create_access_token e now uid oid r \<and> refresh = create_refresh_token e now uid fam \<and>
    db' = db\<lparr> refresh_tokens := refresh_tokens db' \<rparr> \<and>
    (\<exists>t. refresh_tokens db' = refresh_tokens db @ [t] \<and> \<not> rt_revoked t \<and> rt_token_hash t \<notin> set (map rt_token_hash (refresh_tokens db)))"
  using assms by (auto simp: issue_tokens_def Let_def split: if_splits)

lemma issue_tokens_frame:
  assumes "issue_tokens e now fam db uid oid r = Inr (db', ts)"
  shows "users db' = users db" "memberships db' = memberships db" "organisations db' = organisations db"
  using assms by (auto simp: issue_tokens_def Let_def split: if_splits)

lemma issue_tokens_ok:
  "is_ok (issue_tokens e now fam db uid oid r) \<longleftrightarrow>
     sha256 e (create_refresh_token e now uid fam) \<notin> set (map rt_token_hash (refresh_tokens db))"
  by (simp add: issue_tokens_def Let_def is_ok_def)

lemma map_replace_fields:
  assumes "distinct (map f xs)" "x \<in> set xs" "\<And>y. g (h y) = g y"
  shows "map g (map (\<lambda>y. if f y = f x then h x else y) xs) = map g xs"
  using assms by (auto intro!: map_cong simp: distinct_map inj_on_def)

lemma next_id_image [simp]: "next_id (map f xs) \<notin> f ` set xs" "x \<in> set xs \<Longrightarrow> next_id (map f xs) \<noteq> f x"
  using next_id_new [of "map f xs"] by auto

lemma inv_issue:
  assumes "auth_inv db" "issue_tokens e now fam db uid oid r = Inr (db', ts)"
  shows "auth_inv db'"
proof -
  obtain a b where ts: "ts = (a, b)" by (cases ts)
  from issue_tokens_InrD [OF assms(2) [unfolded ts]] obtain t where t: "refresh_tokens db' = refresh_tokens db @ [t]" "\<not> rt_revoked t"
    "rt_token_hash t \<notin> set (map rt_token_hash (refresh_tokens db))" and d: "db' = db\<lparr> refresh_tokens := refresh_tokens db' \<rparr>" by blast
  have "users db' = users db" "organisations db' = organisations db" "memberships db' = memberships db"
    by (subst d; simp)+
  then show ?thesis using assms(1) t by (simp add: auth_inv_def)
qed

lemma no_membership_yet: "auth_inv db \<Longrightarrow> x \<in> set (memberships db) \<Longrightarrow> mb_user_id x \<noteq> next_id (map us_id (users db))"
proof -
  assume "auth_inv db" "x \<in> set (memberships db)"
  then have "mb_user_id x \<in> us_id ` set (users db)" by (auto simp: auth_inv_def)
  then show ?thesis by (metis next_id_image(1))
qed

lemma inv_touch: "auth_inv db \<Longrightarrow> auth_inv (db\<lparr> users := map (\<lambda>v. if P v then v\<lparr> us_last_login_at := t \<rparr> else v) (users db) \<rparr>)"
proof -
  have "map us_id (map (\<lambda>v. if P v then v\<lparr> us_last_login_at := t \<rparr> else v) us) = map us_id us"
    "map us_email (map (\<lambda>v. if P v then v\<lparr> us_last_login_at := t \<rparr> else v) us) = map us_email us" for us by auto
  moreover from this(1) have "us_id ` set (map (\<lambda>v. if P v then v\<lparr> us_last_login_at := t \<rparr> else v) us) = us_id ` set us" for us
    by (metis set_map)
  ultimately show "auth_inv db \<Longrightarrow> ?thesis" by (simp add: auth_inv_def del: map_map set_map)
qed

lemma inv_login: "auth_inv db \<Longrightarrow> login e now fr db email password = Inr (db', ts) \<Longrightarrow> auth_inv db'"
  by (auto simp: login_def Let_def split: option.splits if_splits list.splits dest!: inv_issue [rotated] intro: inv_touch)

lemma inv_switch: "auth_inv db \<Longrightarrow> switch_organisation e now fr db uid target = Inr (db', ts) \<Longrightarrow> auth_inv db'"
  by (auto simp: switch_organisation_def Let_def split: list.splits if_splits prod.splits dest!: inv_issue [rotated])

lemma require_permission_InrD: "require_permission p c = Inr c' \<Longrightarrow> c' = c"
  by (auto simp: require_permission_def res_simps split: if_splits)

lemma membership_rows_in: "(m, u) \<in> set (membership_rows db c pid) \<longleftrightarrow> m \<in> set (memberships db) \<and> u \<in> set (users db) \<and>
    us_id u = mb_user_id m \<and> mb_public_id m = pid \<and> mb_organisation_id m = cl_active_org_id c"
  by (auto simp: membership_rows_def select_memberships_def tenant_isolation_def tenant_session_def)

lemma update_membership_InrD:
  assumes "update_membership db c pid changes = Inr (db', m')"
  shows "\<exists>m v rest r s. membership_rows db c pid = (m, v) # rest \<and> m' = m\<lparr> mb_role := r, mb_status := s \<rparr> \<and> membership_columns_ok m' \<and>
    db' = db\<lparr> memberships := map (\<lambda>x. if mb_id x = mb_id m then m' else x) (memberships db) \<rparr>"
proof -
  obtain c' where c': "require_permission MANAGE_USERS c = Inr c'" using assms by (auto simp: update_membership_def res_simps)
  note e = assms [unfolded update_membership_def c' require_permission_InrD [OF c'] bindR_Inr]
  show ?thesis
  proof (cases "membership_rows db c pid")
    case (Cons mv rest)
    then show ?thesis using e by (cases mv) (auto simp: Let_def split: option.splits if_splits)
  qed (use e in simp)
qed

lemma inv_update: "auth_inv db \<Longrightarrow> update_membership db c pid changes = Inr (db', m') \<Longrightarrow> auth_inv db'"
proof -
  assume inv: "auth_inv db" and u: "update_membership db c pid changes = Inr (db', m')"
  from update_membership_InrD [OF u] obtain m v rest r s where m: "membership_rows db c pid = (m, v) # rest"
    and m': "m' = m\<lparr> mb_role := r, mb_status := s \<rparr>" "membership_columns_ok m'"
    and db': "db' = db\<lparr> memberships := map (\<lambda>x. if mb_id x = mb_id m then m' else x) (memberships db) \<rparr>"
    by blast
  have "(m, v) \<in> set (membership_rows db c pid)" by (simp add: m)
  then have "m \<in> set (memberships db)" by (simp add: membership_rows_in)
  moreover have "distinct (map mb_id (memberships db))" using inv by (simp add: auth_inv_def)
  ultimately have keep: "map g (memberships db') = map g (memberships db)" if "\<And>y. g (y\<lparr> mb_role := r, mb_status := s \<rparr>) = g y" for g
    using that m'(1) unfolding db' by (auto simp: distinct_map inj_on_def)
  have images: "g ` set (memberships db') = g ` set (memberships db)" if "\<And>y. g (y\<lparr> mb_role := r, mb_status := s \<rparr>) = g y" for g
    using keep [of g, OF that] by (metis set_map)
  have "list_all membership_columns_ok (memberships db')" using inv m'(2) by (auto simp: auth_inv_def db' list_all_iff)
  moreover have "users db' = users db" "organisations db' = organisations db" "refresh_tokens db' = refresh_tokens db"
    by (simp_all add: db')
  moreover have "map mb_id (memberships db') = map mb_id (memberships db)" "map mb_public_id (memberships db') = map mb_public_id (memberships db)"
    "map (\<lambda>m. (mb_user_id m, mb_organisation_id m)) (memberships db') = map (\<lambda>m. (mb_user_id m, mb_organisation_id m)) (memberships db)"
    "mb_user_id ` set (memberships db') = mb_user_id ` set (memberships db)"
    "mb_organisation_id ` set (memberships db') = mb_organisation_id ` set (memberships db)"
    by (rule keep images; simp)+
  ultimately show ?thesis using inv by (simp only: auth_inv_def)
qed

lemma inv_members:
  assumes "auth_inv db" and "m = \<lparr> mb_id = next_id (map mb_id (memberships db)), mb_public_id = p, mb_user_id = uid, mb_organisation_id = oid,
      mb_role = r, mb_status = st, mb_invited_by_user_id = by \<rparr>"
    and "insert_membership g (db\<lparr> users := users db @ us, organisations := organisations db @ os \<rparr>) m = Inr db'"
    and "distinct (map us_id (users db @ us))" "distinct (map us_email (users db @ us))" "distinct (map or_id (organisations db @ os))"
    "distinct (map or_public_id (organisations db @ os))" "set (map or_id os) \<subseteq> {oid}"
  shows "auth_inv db'"
proof -
  note i = insert_membership_InrD [OF assms(3)]
  show ?thesis using assms i by (auto simp: auth_inv_def)
qed

lemma inv_register: "auth_inv db \<Longrightarrow> register e now fr db email password = Inr (db', ts) \<Longrightarrow> auth_inv db'"
proof -
  assume inv: "auth_inv db" and r: "register e now fr db email password = Inr (db', ts)"
  let ?uid = "next_id (map us_id (users db))" and ?oid = "next_id (map or_id (organisations db))"
  let ?u = "\<lparr> us_id = ?uid, us_email = email, us_password_hash = argon2_hash e (fr_salt fr) password, us_active = True,
            us_verified = False, us_last_login_at = None \<rparr>" and ?o = "\<lparr> or_id = ?oid, or_public_id = fr_org_public_id fr \<rparr>"
  let ?m = "\<lparr> mb_id = next_id (map mb_id (memberships db)), mb_public_id = fr_public_id fr, mb_user_id = ?uid, mb_organisation_id = ?oid,
            mb_role = role_value OWNER, mb_status = ''active'', mb_invited_by_user_id = None \<rparr>"
  have f: "email \<notin> us_email ` set (users db)" "fr_org_public_id fr \<notin> set (map or_public_id (organisations db))"
    using r by (auto simp: register_def find_user_None [symmetric] split: if_splits)
  obtain g db2 where i: "insert_membership g (db\<lparr> users := users db @ [?u], organisations := organisations db @ [?o] \<rparr>) ?m = Inr db2"
    and t: "issue_tokens e now (fr_family_id fr) db2 ?uid ?oid (role_value OWNER) = Inr (db', ts)"
    using r by (auto simp: register_def Let_def res_simps split: if_splits)
  have "auth_inv db2" by (rule inv_members [OF inv refl i])
      (use inv f next_id_image(1) [of or_id "organisations db"] in \<open>simp_all add: auth_inv_def\<close>)
  then show ?thesis using t by (rule inv_issue)
qed

lemma invite_user_InrD:
  assumes "invite_user e fr db c email placeholder r = Inr (db', m)"
  shows "\<exists>us uid. m = \<lparr> mb_id = next_id (map mb_id (memberships db)), mb_public_id = fr_public_id fr, mb_user_id = uid,
        mb_organisation_id = cl_active_org_id c, mb_role = r, mb_status = ''invited'', mb_invited_by_user_id = Some (cl_user_id c) \<rparr> \<and>
     insert_membership (tenant_session c) (db\<lparr> users := users db @ us \<rparr>) m = Inr db' \<and>
     (us = [] \<and> uid \<in> us_id ` set (users db) \<or>
      (\<exists>u. us = [u] \<and> us_id u = uid \<and> us_email u = email \<and> uid = next_id (map us_id (users db)) \<and> email \<notin> us_email ` set (users db)))"
proof -
  obtain c' where c': "require_permission MANAGE_USERS c = Inr c'" using assms by (auto simp: invite_user_def res_simps)
  note e = assms [unfolded invite_user_def c' require_permission_InrD [OF c'] bindR_Inr]
  show ?thesis
  proof (cases "find_user db email")
    case None
    then have "email \<notin> us_email ` set (users db)" by (simp add: find_user_None)
    let ?u = "\<lparr> us_id = next_id (map us_id (users db)), us_email = email, us_password_hash = argon2_hash e (fr_salt fr) placeholder,
              us_active = True, us_verified = False, us_last_login_at = None \<rparr>"
    show ?thesis using e None \<open>email \<notin> us_email ` set (users db)\<close>
      by (intro exI [of _ "[?u]"] exI [of _ "next_id (map us_id (users db))"]) (auto simp: Let_def res_simps)
  next
    case (Some u)
    then have "us_id u \<in> us_id ` set (users db)" using find_user_Some [OF Some] by simp
    then show ?thesis using e Some by (intro exI [of _ "[]"] exI [of _ "us_id u"]) (auto simp: Let_def res_simps split: if_splits)
  qed
qed

lemma inv_invite: "auth_inv db \<Longrightarrow> invite_user e fr db c email placeholder r = Inr (db', m) \<Longrightarrow> auth_inv db'"
proof -
  assume inv: "auth_inv db" and r: "invite_user e fr db c email placeholder r = Inr (db', m)"
  from invite_user_InrD [OF r] obtain us uid where m: "m = \<lparr> mb_id = next_id (map mb_id (memberships db)), mb_public_id = fr_public_id fr, mb_user_id = uid,
        mb_organisation_id = cl_active_org_id c, mb_role = r, mb_status = ''invited'', mb_invited_by_user_id = Some (cl_user_id c) \<rparr>"
    and i: "insert_membership (tenant_session c) (db\<lparr> users := users db @ us \<rparr>) m = Inr db'"
    and us: "us = [] \<and> uid \<in> us_id ` set (users db) \<or>
      (\<exists>u. us = [u] \<and> us_id u = uid \<and> us_email u = email \<and> uid = next_id (map us_id (users db)) \<and> email \<notin> us_email ` set (users db))" by blast
  have i': "insert_membership (tenant_session c) (db\<lparr> users := users db @ us, organisations := organisations db @ [] \<rparr>) m = Inr db'"
    using i by simp
  have d: "distinct (map us_id (users db @ us)) \<and> distinct (map us_email (users db @ us))"
    using us inv next_id_image(1) [of us_id "users db"] by (elim disjE exE conjE) (simp_all add: auth_inv_def)
  show ?thesis by (rule inv_members [OF inv m i']) (use inv d in \<open>simp_all add: auth_inv_def\<close>)
qed

text \<open>What the code relies on of the token library: a token decodes to its payload until it expires, an expired one
  is refused as expired, and tokens have no white space at their ends; of the hasher: a password
  matches its own hash.\<close>

definition jwt_faithful :: "env \<Rightarrow> bool" where
  "jwt_faithful e = ((\<forall>p t. jp_iat p \<le> t \<longrightarrow> jwt_decode e t (jwt_encode e p) = (if t < jp_exp p then Inr p else Inl Expired_signature)) \<and>
     (\<forall>p. strip (jwt_encode e p) = jwt_encode e p))"

definition argon2_faithful :: "env \<Rightarrow> bool" where
  "argon2_faithful e = (\<forall>salt p. argon2_verify e (argon2_hash e salt p) p)"

definition lifetime :: "env \<Rightarrow> int" where
  "lifetime e = access_token_expire_minutes e * 60"

definition granted :: "env \<Rightarrow> int \<Rightarrow> membership \<Rightarrow> access_token_claims" where
  "granted e now m = \<lparr> cl_user_id = mb_user_id m, cl_active_org_id = mb_organisation_id m, cl_role = mb_role m,
     cl_issued_at = now, cl_expires_at = now + lifetime e \<rparr>"

lemma access_token_claims_at:
  assumes "jwt_faithful e" "now \<le> t"
  shows "get_current_claims e t (Some (''Bearer '' @ create_access_token e now uid oid r)) =
    (if t < now + lifetime e then Inr \<lparr> cl_user_id = uid, cl_active_org_id = oid, cl_role = r, cl_issued_at = now, cl_expires_at = now + lifetime e \<rparr>
     else Inl (AuthenticationError ''Access token has expired''))"
  using assms by (simp add: get_current_claims_def create_access_token_def decode_access_token_def jwt_faithful_def access_payload_def lifetime_def)

lemma refresh_token_is_no_access:
  assumes "jwt_faithful e" "now \<le> t"
  shows "\<not> is_ok (get_current_claims e t (Some (''Bearer '' @ create_refresh_token e now uid fam)))"
  using assms by (simp add: get_current_claims_def create_refresh_token_def decode_access_token_def jwt_faithful_def refresh_payload_def is_ok_def)

lemma login_InrD:
  assumes "login e now fr db email password = Inr (db', ts)"
  shows "\<exists>u m. u \<in> set (users db) \<and> us_email u = email \<and> us_active u \<and> argon2_verify e (us_password_hash u) password \<and>
    m \<in> set (memberships db) \<and> mb_user_id m = us_id u \<and> mb_status m = ''active'' \<and>
    issue_tokens e now (fr_family_id fr) (db\<lparr> users := map (\<lambda>v. if us_id v = us_id u then v\<lparr> us_last_login_at := Some now \<rparr> else v) (users db) \<rparr>)
      (mb_user_id m) (mb_organisation_id m) (mb_role m) = Inr (db', ts)"
proof -
  obtain u where u: "find_user db email = Some u" "us_active u" "argon2_verify e (us_password_hash u) password"
    using assms by (auto simp: login_def split: option.splits if_splits)
  let ?ms = "filter (\<lambda>m. mb_user_id m = us_id u \<and> mb_status m = ''active'') (select_memberships (unauthenticated\<lparr> current_user_id := Some (us_id u) \<rparr>) db)"
  obtain m rest where m: "?ms = m # rest" using assms u by (cases ?ms) (auto simp: login_def Let_def)
  then have "m \<in> set ?ms" by simp
  then have "m \<in> set (memberships db)" "mb_user_id m = us_id u" "mb_status m = ''active''" by (auto simp: select_memberships_def)
  moreover have "issue_tokens e now (fr_family_id fr) (db\<lparr> users := map (\<lambda>v. if us_id v = us_id u then v\<lparr> us_last_login_at := Some now \<rparr> else v) (users db) \<rparr>)
      (mb_user_id m) (mb_organisation_id m) (mb_role m) = Inr (db', ts)"
    using assms u m \<open>mb_user_id m = us_id u\<close> by (simp add: login_def Let_def)
  ultimately show ?thesis using find_user_Some [OF u(1)] u(2,3) by blast
qed

lemma switch_InrD:
  assumes "switch_organisation e now fr db uid target = Inr (db', ts)"
  shows "\<exists>m. m \<in> set (memberships db) \<and> mb_user_id m = uid \<and> mb_status m = ''active'' \<and>
    issue_tokens e now (fr_family_id fr) db uid (mb_organisation_id m) (mb_role m) = Inr (db', ts)"
proof -
  let ?rows = "filter (\<lambda>(m, o'). mb_user_id m = uid \<and> or_id o' = mb_organisation_id m \<and> or_public_id o' = target)
          (List.product (select_memberships (unauthenticated\<lparr> current_user_id := Some uid \<rparr>) db) (organisations db))"
  obtain m o' rest where r: "?rows = (m, o') # rest"
    using assms by (cases ?rows) (auto simp: switch_organisation_def Let_def)
  then have "(m, o') \<in> set ?rows" by simp
  then have "m \<in> set (memberships db)" "mb_user_id m = uid" "or_id o' = mb_organisation_id m" by (auto simp: select_memberships_def)
  then show ?thesis using assms r by (intro exI [of _ m]) (auto simp: switch_organisation_def Let_def split: if_splits)
qed

lemma register_InrD:
  assumes "register e now fr db email password = Inr (db', ts)"
  shows "\<exists>u m o' db1. users db1 = users db @ [u] \<and> organisations db1 = organisations db @ [o'] \<and> memberships db1 = memberships db @ [m] \<and>
    refresh_tokens db1 = refresh_tokens db \<and>
    us_email u = email \<and> us_active u \<and> us_password_hash u = argon2_hash e (fr_salt fr) password \<and> us_id u = next_id (map us_id (users db)) \<and>
    mb_user_id m = us_id u \<and> mb_organisation_id m = or_id o' \<and> mb_role m = ''owner'' \<and> mb_status m = ''active'' \<and>
    email \<notin> us_email ` set (users db) \<and> or_id o' = next_id (map or_id (organisations db)) \<and>
    issue_tokens e now (fr_family_id fr) db1 (us_id u) (or_id o') ''owner'' = Inr (db', ts)"
proof -
  let ?uid = "next_id (map us_id (users db))" and ?oid = "next_id (map or_id (organisations db))"
  let ?u = "\<lparr> us_id = ?uid, us_email = email, us_password_hash = argon2_hash e (fr_salt fr) password, us_active = True,
            us_verified = False, us_last_login_at = None \<rparr>" and ?o = "\<lparr> or_id = ?oid, or_public_id = fr_org_public_id fr \<rparr>"
  let ?m = "\<lparr> mb_id = next_id (map mb_id (memberships db)), mb_public_id = fr_public_id fr, mb_user_id = ?uid, mb_organisation_id = ?oid,
            mb_role = ''owner'', mb_status = ''active'', mb_invited_by_user_id = None \<rparr>"
  have f: "email \<notin> us_email ` set (users db)"
    using assms by (auto simp: register_def find_user_None [symmetric] split: if_splits)
  obtain g db2 where i: "insert_membership g (db\<lparr> users := users db @ [?u], organisations := organisations db @ [?o] \<rparr>) ?m = Inr db2"
    and t: "issue_tokens e now (fr_family_id fr) db2 ?uid ?oid ''owner'' = Inr (db', ts)"
    using assms by (auto simp: register_def Let_def res_simps split: if_splits)
  from insert_membership_InrD [OF i] t f show ?thesis
    by (intro exI [of _ ?u] exI [of _ ?m] exI [of _ ?o] exI [of _ db2]) simp
qed

section \<open>Properties\<close>

text \<open>C5: From an empty database no sequence of requests, whatever tokens, bodies and random values they carry, breaks
  the consistency of accounts and memberships: identifiers and addresses stay unique, a user has at most
  one membership per organisation, memberships point to existing users and organisations, no
  organisation is without a membership; and no refresh token is ever revoked, since nothing in the
  service rotates them.\<close>

lemma access_invariant:
  assumes "(auth_step e)\<^sup>*\<^sup>* empty_db db" shows "auth_inv db"
  using assms
proof (induction rule: rtranclp_induct)
  case base
  show ?case by (simp add: auth_inv_def empty_db_def)
next
  case (step db db')
  from step.hyps(2) step.IH show ?case
    by cases (auto intro: inv_register inv_login inv_switch inv_invite inv_update)
qed

text \<open>C6: A token pair comes only from an active membership: whatever path issued it, the access token is accepted
  exactly until it expires, as the user, organisation and role of a membership that was active when it
  was issued, and the refresh token is never accepted in its place.\<close>

lemma tokens_speak_for_memberships:
  assumes "jwt_faithful e"
    and "register e now fr db email password = Inr (db', access, refresh) \<or> login e now fr db email password = Inr (db', access, refresh) \<or>
      switch_organisation e now fr db uid target = Inr (db', access, refresh)"
  shows "\<exists>m\<in>set (memberships db'). mb_status m = ''active'' \<and>
    (\<forall>t\<ge>now. get_current_claims e t (Some (''Bearer '' @ access)) =
       (if t < now + lifetime e then Inr (granted e now m) else Inl (AuthenticationError ''Access token has expired''))) \<and>
    (\<forall>t\<ge>now. \<not> is_ok (get_current_claims e t (Some (''Bearer '' @ refresh))))"
proof -
  obtain fam db1 m where m: "m \<in> set (memberships db1)" "mb_status m = ''active''"
    and i: "issue_tokens e now fam db1 (mb_user_id m) (mb_organisation_id m) (mb_role m) = Inr (db', access, refresh)"
    using assms(2)
  proof (elim disjE)
    assume "register e now fr db email password = Inr (db', access, refresh)"
    from register_InrD [OF this] that show thesis by (metis last_in_set last_snoc snoc_eq_iff_butlast)
  next
    assume "login e now fr db email password = Inr (db', access, refresh)"
    from login_InrD [OF this] show thesis
      by (elim exE conjE) (rule that [rotated 2], assumption, simp_all)
  next
    assume "switch_organisation e now fr db uid target = Inr (db', access, refresh)"
    from switch_InrD [OF this] that show thesis by metis
  qed
  note d = issue_tokens_InrD [OF i]
  have "memberships db' = memberships db1" by (rule issue_tokens_frame [OF i])
  then show ?thesis using m d access_token_claims_at [OF assms(1)] refresh_token_is_no_access [OF assms(1)]
    by (intro bexI [of _ m]) (simp_all add: granted_def)
qed

definition auth_fresh :: "env \<Rightarrow> int \<Rightarrow> int \<Rightarrow> fresh \<Rightarrow> auth_db \<Rightarrow> bool" where
  "auth_fresh e now uid fr db = (sha256 e (create_refresh_token e now uid (fr_family_id fr)) \<notin> set (map rt_token_hash (refresh_tokens db)))"

lemma update_membership_ok:
  assumes inv: "auth_inv db" and m: "m \<in> set (memberships db)" "mb_organisation_id m = cl_active_org_id c"
    and p: "require_permission MANAGE_USERS c = Inr c" and l: "length r \<le> 32" "length s \<le> 16"
  shows "update_membership db c (mb_public_id m) \<lparr> mu_role = Some (Some r), mu_status = Some (Some s) \<rparr> =
    Inr (db\<lparr> memberships := map (\<lambda>x. if mb_id x = mb_id m then m\<lparr> mb_role := r, mb_status := s \<rparr> else x) (memberships db) \<rparr>,
      m\<lparr> mb_role := r, mb_status := s \<rparr>)"
proof -
  obtain u where "u \<in> set (users db)" "us_id u = mb_user_id m" using inv m(1) by (force simp: auth_inv_def)
  then have "(m, u) \<in> set (membership_rows db c (mb_public_id m))" using m by (simp add: membership_rows_in)
  then obtain n v rest where n: "membership_rows db c (mb_public_id m) = (n, v) # rest"
    by (cases "membership_rows db c (mb_public_id m)") auto
  then have "(n, v) \<in> set (membership_rows db c (mb_public_id m))" by simp
  then have "n \<in> set (memberships db)" "mb_public_id n = mb_public_id m" by (simp_all add: membership_rows_in)
  then have "n = m" using inv m(1) by (auto simp: auth_inv_def distinct_map inj_on_def)
  then show ?thesis using n l by (simp add: update_membership_def p set_field_def Let_def membership_columns_ok_def)
qed

lemma switch_ok:
  assumes inv: "auth_inv db" and m: "m \<in> set (memberships db)" "mb_status m = ''active''" and o: "o' \<in> set (organisations db)" "or_id o' = mb_organisation_id m"
  shows "switch_organisation e now fr db (mb_user_id m) (or_public_id o') =
    issue_tokens e now (fr_family_id fr) db (mb_user_id m) (mb_organisation_id m) (mb_role m)"
proof -
  let ?rows = "filter (\<lambda>(n, q). mb_user_id n = mb_user_id m \<and> or_id q = mb_organisation_id n \<and> or_public_id q = or_public_id o')
          (List.product (select_memberships (unauthenticated\<lparr> current_user_id := Some (mb_user_id m) \<rparr>) db) (organisations db))"
  have "(m, o') \<in> set ?rows" using m o by (simp add: select_memberships_def self_membership_select_def)
  then obtain n q rest where n: "?rows = (n, q) # rest" by (cases ?rows) auto
  then have "(n, q) \<in> set ?rows" by simp
  then have nq: "n \<in> set (memberships db)" "mb_user_id n = mb_user_id m" "or_id q = mb_organisation_id n" "q \<in> set (organisations db)"
    "or_public_id q = or_public_id o'" by (auto simp: select_memberships_def)
  then have "q = o'" using inv o(1) by (auto simp: auth_inv_def distinct_map inj_on_def)
  then have "n = m" using inv m nq o(2) by (auto simp: auth_inv_def distinct_map inj_on_def)
  then show ?thesis using n m o \<open>q = o'\<close> by (simp add: switch_organisation_def Let_def)
qed

text \<open>C8: Whoever may manage users can make himself an active owner: with a token that allows \<open>manage_users\<close>, whatever
  his role and even when his membership has been suspended or removed since, he patches his own
  membership and exchanges the token for one that passes every permission check.\<close>

lemma manager_becomes_owner:
  assumes inv: "auth_inv db" and j: "jwt_faithful e" and p: "require_permission MANAGE_USERS c = Inr c"
    and m: "m \<in> set (memberships db)" "mb_user_id m = cl_user_id c" "mb_organisation_id m = cl_active_org_id c"
    and o: "o' \<in> set (organisations db)" "or_id o' = cl_active_org_id c" and f: "auth_fresh e now (cl_user_id c) fr db"
  shows "\<exists>db1 m1 db2 access refresh.
    update_membership db c (mb_public_id m) \<lparr> mu_role = Some (Some ''owner''), mu_status = Some (Some ''active'') \<rparr> = Inr (db1, m1) \<and>
    switch_organisation e now fr db1 (cl_user_id c) (or_public_id o') = Inr (db2, access, refresh) \<and>
    (\<forall>t. now \<le> t \<and> t < now + lifetime e \<longrightarrow> (\<exists>c'. get_current_claims e t (Some (''Bearer '' @ access)) = Inr c' \<and>
       (\<forall>q. require_permission q c' = Inr c')))"
proof -
  let ?m1 = "m\<lparr> mb_role := ''owner'', mb_status := ''active'' \<rparr>"
  let ?db1 = "db\<lparr> memberships := map (\<lambda>x. if mb_id x = mb_id m then ?m1 else x) (memberships db) \<rparr>"
  have u: "update_membership db c (mb_public_id m) \<lparr> mu_role = Some (Some ''owner''), mu_status = Some (Some ''active'') \<rparr> = Inr (?db1, ?m1)"
    by (rule update_membership_ok [OF inv m(1,3) p]) simp_all
  have inv1: "auth_inv ?db1" by (rule inv_update [OF inv u])
  have "?m1 \<in> set (memberships ?db1)" using m(1) by force
  from switch_ok [OF inv1 this, of o' e now fr] m o
  have s: "switch_organisation e now fr ?db1 (cl_user_id c) (or_public_id o') =
    issue_tokens e now (fr_family_id fr) ?db1 (cl_user_id c) (cl_active_org_id c) ''owner''" by simp
  have "is_ok (issue_tokens e now (fr_family_id fr) ?db1 (cl_user_id c) (cl_active_org_id c) ''owner'')"
    using f by (simp add: issue_tokens_ok auth_fresh_def)
  then obtain db2 access refresh where t: "issue_tokens e now (fr_family_id fr) ?db1 (cl_user_id c) (cl_active_org_id c) ''owner'' = Inr (db2, access, refresh)"
    by (auto simp: is_ok_iff)
  have all: "q \<in> set all_permissions" for q by (cases q) (simp_all add: all_permissions_def)
  have "\<exists>c'. get_current_claims e t (Some (''Bearer '' @ access)) = Inr c' \<and> (\<forall>q. require_permission q c' = Inr c')"
    if "now \<le> t" "t < now + lifetime e" for t
    using issue_tokens_InrD [OF t] access_token_claims_at [OF j that(1)] that(2) all
    by (simp add: require_permission_def role_of_def all_roles_def)
  then show ?thesis using u s t by (intro exI [of _ ?db1] exI [of _ ?m1] exI [of _ db2] exI [of _ access] exI [of _ refresh]) simp
qed

text \<open>C9: Organisations are separated: managing members under a token of one organisation leaves the memberships of
  every other one and all existing accounts as they were, lists only its own members, and the profile of a
  user shows only his own memberships.\<close>

lemma organisations_separated:
  assumes "auth_inv db"
  shows "(update_membership db c pid changes = Inr (db', m') \<or> invite_user e fr db c email placeholder r = Inr (db', m') \<longrightarrow>
      filter (\<lambda>m. mb_organisation_id m \<noteq> cl_active_org_id c) (memberships db') =
      filter (\<lambda>m. mb_organisation_id m \<noteq> cl_active_org_id c) (memberships db) \<and> set (users db) \<subseteq> set (users db') \<and> organisations db' = organisations db) \<and>
    (list_users db c = Inr rows \<longrightarrow> set (map fst rows) \<subseteq> {m \<in> set (memberships db). mb_organisation_id m = cl_active_org_id c}) \<and>
    (me db c = Inr (u, mine) \<longrightarrow> (\<forall>(o', r, s)\<in>set mine. \<exists>m\<in>set (memberships db). mb_user_id m = cl_user_id c \<and> mb_organisation_id m = or_id o' \<and>
       mb_role m = r \<and> mb_status m = s))"
proof (rule conjI [OF impI conjI [OF impI impI]])
  assume "update_membership db c pid changes = Inr (db', m') \<or> invite_user e fr db c email placeholder r = Inr (db', m')"
  then show "filter (\<lambda>m. mb_organisation_id m \<noteq> cl_active_org_id c) (memberships db') =
      filter (\<lambda>m. mb_organisation_id m \<noteq> cl_active_org_id c) (memberships db) \<and> set (users db) \<subseteq> set (users db') \<and> organisations db' = organisations db"
  proof (elim disjE)
    assume u: "update_membership db c pid changes = Inr (db', m')"
    from update_membership_InrD [OF u] obtain m v rest r s where m: "membership_rows db c pid = (m, v) # rest"
      and m': "m' = m\<lparr> mb_role := r, mb_status := s \<rparr>"
      and db': "db' = db\<lparr> memberships := map (\<lambda>x. if mb_id x = mb_id m then m' else x) (memberships db) \<rparr>" by blast
    have "(m, v) \<in> set (membership_rows db c pid)" by (simp add: m)
    then have mm: "m \<in> set (memberships db)" "mb_organisation_id m = cl_active_org_id c" by (simp_all add: membership_rows_in)
    have same: "mb_id x = mb_id m \<Longrightarrow> x = m" if "x \<in> set (memberships db)" for x
      using assms that mm(1) by (auto simp: auth_inv_def distinct_map inj_on_def)
    have "filter (\<lambda>m. mb_organisation_id m \<noteq> cl_active_org_id c) (map (\<lambda>x. if mb_id x = mb_id m then m' else x) xs) =
      filter (\<lambda>m. mb_organisation_id m \<noteq> cl_active_org_id c) xs" if "set xs \<subseteq> set (memberships db)" for xs
      using that by (induction xs) (use mm m' same in auto)
    then show ?thesis by (simp add: db')
  next
    assume i: "invite_user e fr db c email placeholder r = Inr (db', m')"
    from invite_user_InrD [OF i] obtain us uid where m: "mb_organisation_id m' = cl_active_org_id c"
      and i: "insert_membership (tenant_session c) (db\<lparr> users := users db @ us \<rparr>) m' = Inr db'"
      by (metis membership.select_convs(4))
    from insert_membership_InrD [OF i] m show ?thesis by auto
  qed
next
  assume "list_users db c = Inr rows"
  then show "set (map fst rows) \<subseteq> {m \<in> set (memberships db). mb_organisation_id m = cl_active_org_id c}"
    by (auto simp: list_users_def res_simps select_memberships_def dest!: require_permission_InrD)
next
  assume "me db c = Inr (u, mine)"
  then show "\<forall>(o', r, s)\<in>set mine. \<exists>m\<in>set (memberships db). mb_user_id m = cl_user_id c \<and> mb_organisation_id m = or_id o' \<and>
       mb_role m = r \<and> mb_status m = s"
    by (auto simp: me_def Let_def select_memberships_def find_Some_iff split: option.splits) metis+
qed


text \<open>The role of a membership is free text: an invitation with any name that fits the column is accepted, and a
  token with a name that is no role makes every permission check raise instead of refusing.\<close>

lemma unknown_role_accepted:
  assumes inv: "auth_inv db" and p: "require_permission MANAGE_USERS c = Inr c" and o: "cl_active_org_id c \<in> or_id ` set (organisations db)"
    and u: "cl_user_id c \<in> us_id ` set (users db)" "email \<notin> us_email ` set (users db)"
    and r: "length r \<le> 32" "r \<notin> role_value ` set all_roles" and f: "fr_public_id fr \<notin> set (map mb_public_id (memberships db))"
  shows "\<exists>db' m. invite_user e fr db c email placeholder r = Inr (db', m) \<and> m \<in> set (memberships db') \<and> mb_role m = r \<and>
    (\<forall>q now. require_permission q (granted e now m) = Inl (ValueError ''not a valid Role''))"
proof -
  let ?uid = "next_id (map us_id (users db))"
  have n: "find_user db email = None" using u(2) by (simp add: find_user_None)
  have none: "mb_user_id x \<noteq> ?uid" if "x \<in> set (memberships db)" for x
    by (rule no_membership_yet [OF inv that])
  have "map_of (map (\<lambda>r. (role_value r, r)) all_roles) r = None" using r(2) by (auto simp: map_of_eq_None_iff)
  then have "require_permission q (granted e now m) = Inl (ValueError ''not a valid Role'')" if "mb_role m = r" for q now m
    using that by (simp add: require_permission_def granted_def role_of_def)
  moreover
  let ?u = "\<lparr> us_id = ?uid, us_email = email, us_password_hash = argon2_hash e (fr_salt fr) placeholder,
              us_active = True, us_verified = False, us_last_login_at = None \<rparr>"
  let ?m = "\<lparr> mb_id = next_id (map mb_id (memberships db)), mb_public_id = fr_public_id fr, mb_user_id = ?uid, mb_organisation_id = cl_active_org_id c,
         mb_role = r, mb_status = ''invited'', mb_invited_by_user_id = Some (cl_user_id c) \<rparr>"
  have "\<not> (\<exists>x\<in>set (memberships db). mb_user_id x = ?uid \<and> mb_organisation_id x = cl_active_org_id c)" using none by blast
  then have "insert_membership (tenant_session c) (db\<lparr> users := users db @ [?u] \<rparr>) ?m =
      Inr (db\<lparr> users := users db @ [?u], memberships := memberships db @ [?m] \<rparr>)"
    using o u(1) f r(1)
    by (simp add: insert_membership_def tenant_isolation_def tenant_session_def membership_columns_ok_def)
  then have "invite_user e fr db c email placeholder r = Inr (db\<lparr> users := users db @ [?u], memberships := memberships db @ [?m] \<rparr>, ?m)"
    by (simp add: invite_user_def p n Let_def)
  ultimately show ?thesis by (intro exI conjI) (assumption | simp)+
qed

section \<open>Instances\<close>

text \<open>A token library that satisfies the assumptions: a payload is written as a number in unary.\<close>

definition option_code :: "nat option \<Rightarrow> nat" where
  "option_code x = (case x of None \<Rightarrow> 0 | Some n \<Rightarrow> Suc n)"

definition code_option :: "nat \<Rightarrow> nat option" where
  "code_option n = (case n of 0 \<Rightarrow> None | Suc m \<Rightarrow> Some m)"

definition string_code :: "string \<Rightarrow> nat" where
  "string_code s = list_encode (map of_char s)"

definition code_string :: "nat \<Rightarrow> string" where
  "code_string n = map char_of (list_decode n)"

lemma string_code_inverse [simp]: "code_string (string_code s) = s"
  by (simp add: code_string_def string_code_def comp_def)

lemma option_code_inverse [simp]: "code_option (option_code x) = x"
  by (cases x) (simp_all add: code_option_def option_code_def)

definition demo_encode :: "jwt_payload \<Rightarrow> string" where
  "demo_encode p = replicate (list_encode [int_encode (jp_sub p), option_code (map_option int_encode (jp_active_org_id p)),
     option_code (map_option string_code (jp_role p)), option_code (map_option int_encode (jp_family_id p)), int_encode (jp_iat p),
     int_encode (jp_exp p), string_code (jp_type p)]) CHR ''x''"

definition demo_payload :: "nat list \<Rightarrow> jwt_payload" where
  "demo_payload l = \<lparr> jp_sub = int_decode (l ! 0), jp_active_org_id = map_option int_decode (code_option (l ! 1)),
     jp_role = map_option code_string (code_option (l ! 2)), jp_family_id = map_option int_decode (code_option (l ! 3)),
     jp_iat = int_decode (l ! 4), jp_exp = int_decode (l ! 5), jp_type = code_string (l ! 6) \<rparr>"

definition demo_env :: env where
  "demo_env = \<lparr> jwt_encode = demo_encode,
     jwt_decode = (\<lambda>t s. let p = demo_payload (list_decode (length s)) in
       if \<not> t < jp_exp p then Inl Expired_signature else if t < jp_iat p then Inl Invalid_token else Inr p),
     argon2_hash = (\<lambda>salt p. p), argon2_verify = (\<lambda>h p. h = p), sha256 = id,
     access_token_expire_minutes = 15, refresh_token_expire_days = 14, allow_self_registration = True \<rparr>"

lemma demo_decode: "demo_payload (list_decode (length (demo_encode p))) = p"
  by (cases p) (simp add: demo_encode_def demo_payload_def option.map_comp comp_def option.map_ident del: list_encode.simps)

lemma strip_replicate: "strip (replicate n CHR ''x'') = replicate n CHR ''x''"
  by (simp add: strip_def is_space_def space_chars_def)

lemma demo_faithful: "jwt_faithful demo_env" "argon2_faithful demo_env"
proof -
  have "strip (demo_encode p) = demo_encode p" for p unfolding demo_encode_def by (rule strip_replicate)
  then show "jwt_faithful demo_env" by (simp add: jwt_faithful_def demo_env_def demo_decode Let_def)
  show "argon2_faithful demo_env" by (simp add: argon2_faithful_def demo_env_def)
qed

definition demo_fresh :: "int \<Rightarrow> fresh" where
  "demo_fresh n = \<lparr> fr_salt = n, fr_family_id = n, fr_public_id = n, fr_org_public_id = n \<rparr>"

text \<open>One organisation with an owner and an administrator whose membership has been removed.\<close>

definition demo_members :: "string \<Rightarrow> auth_db" where
  "demo_members st = \<lparr> users = [\<lparr> us_id = 1, us_email = ''a@x.co'', us_password_hash = ''first'', us_active = True, us_verified = True, us_last_login_at = None \<rparr>,
       \<lparr> us_id = 2, us_email = ''b@x.co'', us_password_hash = ''second'', us_active = True, us_verified = True, us_last_login_at = None \<rparr>],
     organisations = [\<lparr> or_id = 1, or_public_id = 11 \<rparr>],
     memberships = [\<lparr> mb_id = 1, mb_public_id = 21, mb_user_id = 1, mb_organisation_id = 1, mb_role = ''owner'', mb_status = ''active'', mb_invited_by_user_id = None \<rparr>,
       \<lparr> mb_id = 2, mb_public_id = 22, mb_user_id = 2, mb_organisation_id = 1, mb_role = ''admin'', mb_status = st, mb_invited_by_user_id = Some 1 \<rparr>],
     refresh_tokens = [] \<rparr>"

definition admin_claims :: access_token_claims where
  "admin_claims = \<lparr> cl_user_id = 2, cl_active_org_id = 1, cl_role = ''admin'', cl_issued_at = 0, cl_expires_at = 900 \<rparr>"

lemma demo_members_inv: "length st \<le> 16 \<Longrightarrow> auth_inv (demo_members st)"
  by (auto simp: auth_inv_def demo_members_def membership_columns_ok_def)

lemma admin_allowed: "require_permission MANAGE_USERS admin_claims = Inr admin_claims"
  "require_permission MANAGE_ORGANISATION admin_claims = Inl (PermissionDeniedError ''Role does not have permission'')"
  by (simp_all add: require_permission_def role_of_def all_roles_def admin_claims_def all_permissions_def)

lemma demo_register: "\<exists>db' access refresh. register demo_env 0 (demo_fresh 1) empty_db ''c@x.co'' ''secret password'' = Inr (db', access, refresh)"
  by (simp add: register_def find_user_def empty_db_def demo_env_def insert_membership_def tenant_isolation_def unauthenticated_def
      membership_columns_ok_def issue_tokens_def Let_def)

lemma access_invariant_witness: "\<exists>db. db \<noteq> empty_db \<and> auth_inv db"
proof -
  obtain db' a r where r: "register demo_env 0 (demo_fresh 1) empty_db ''c@x.co'' ''secret password'' = Inr (db', a, r)"
    using demo_register by blast
  then have "(auth_step demo_env)\<^sup>*\<^sup>* empty_db db'" by (blast intro: step_register)
  then have "auth_inv db'" by (rule access_invariant)
  moreover have "users db' \<noteq> []" using register_InrD [OF r] by (metis Nil_is_append_conv issue_tokens_frame(1) list.distinct(1))
  then have "db' \<noteq> empty_db" by (auto simp: empty_db_def)
  ultimately show ?thesis by blast
qed

lemma tokens_speak_for_memberships_witness:
  "\<exists>db' access refresh. register demo_env 0 (demo_fresh 1) empty_db ''c@x.co'' ''secret password'' = Inr (db', access, refresh) \<and>
     (\<exists>m\<in>set (memberships db'). get_current_claims demo_env 100 (Some (''Bearer '' @ access)) = Inr (granted demo_env 0 m)) \<and>
     \<not> is_ok (get_current_claims demo_env 900 (Some (''Bearer '' @ access))) \<and>
     \<not> is_ok (get_current_claims demo_env 100 (Some (''Bearer '' @ refresh)))"
proof -
  obtain db' a r where r: "register demo_env 0 (demo_fresh 1) empty_db ''c@x.co'' ''secret password'' = Inr (db', a, r)"
    using demo_register by blast
  have l: "lifetime demo_env = 900" by (simp add: lifetime_def demo_env_def)
  from tokens_speak_for_memberships [OF demo_faithful(1) disjI1 [OF r]] obtain m where m: "m \<in> set (memberships db')"
    "\<forall>t\<ge>0. get_current_claims demo_env t (Some (''Bearer '' @ a)) =
       (if t < 0 + lifetime demo_env then Inr (granted demo_env 0 m) else Inl (AuthenticationError ''Access token has expired''))"
    "\<forall>t\<ge>0. \<not> is_ok (get_current_claims demo_env t (Some (''Bearer '' @ r)))" by blast
  show ?thesis using m(1) m(2) [rule_format, of 100] m(2) [rule_format, of 900] m(3) [rule_format, of 100] r l
    by (intro exI [of _ db'] exI [of _ a] exI [of _ r] conjI bexI [of _ m]) (simp_all add: is_ok_def)
qed

lemma manager_becomes_owner_witness:
  "\<not> is_ok (require_permission MANAGE_ORGANISATION admin_claims) \<and>
   (\<exists>db1 m1 db2 access refresh.
      update_membership (demo_members ''removed'') admin_claims 22 \<lparr> mu_role = Some (Some ''owner''), mu_status = Some (Some ''active'') \<rparr> = Inr (db1, m1) \<and>
      switch_organisation demo_env 100 (demo_fresh 5) db1 2 11 = Inr (db2, access, refresh) \<and>
      (\<exists>c. get_current_claims demo_env 101 (Some (''Bearer '' @ access)) = Inr c \<and> is_ok (require_permission MANAGE_ORGANISATION c)))"
proof -
  let ?m = "\<lparr> mb_id = 2, mb_public_id = 22, mb_user_id = 2, mb_organisation_id = 1, mb_role = ''admin'', mb_status = ''removed'', mb_invited_by_user_id = Some 1 \<rparr>"
  have "auth_inv (demo_members ''removed'')" by (rule demo_members_inv) simp
  from manager_becomes_owner [OF this demo_faithful(1) admin_allowed(1), of ?m "\<lparr> or_id = 1, or_public_id = 11 \<rparr>" 100 "demo_fresh 5"]
  obtain db1 m1 db2 a r where *: "update_membership (demo_members ''removed'') admin_claims 22 \<lparr> mu_role = Some (Some ''owner''), mu_status = Some (Some ''active'') \<rparr> = Inr (db1, m1)"
    "switch_organisation demo_env 100 (demo_fresh 5) db1 2 11 = Inr (db2, a, r)"
    "\<forall>t. 100 \<le> t \<and> t < 100 + lifetime demo_env \<longrightarrow> (\<exists>c'. get_current_claims demo_env t (Some (''Bearer '' @ a)) = Inr c' \<and> (\<forall>q. require_permission q c' = Inr c'))"
    by (auto simp: demo_members_def admin_claims_def auth_fresh_def)
  moreover have "lifetime demo_env = 900" by (simp add: lifetime_def demo_env_def)
  ultimately have "\<exists>c'. get_current_claims demo_env 101 (Some (''Bearer '' @ a)) = Inr c' \<and> (\<forall>q. require_permission q c' = Inr c')" by simp
  then show ?thesis using * admin_allowed(2) by (auto simp: is_ok_def)
qed

lemma organisations_separated_witness:
  "\<exists>db' m. update_membership (demo_members ''active'') admin_claims 21 \<lparr> mu_role = Some (Some ''viewer''), mu_status = Some (Some ''active'') \<rparr> = Inr (db', m) \<and>
     organisations db' = organisations (demo_members ''active'')"
proof -
  let ?m = "\<lparr> mb_id = 1, mb_public_id = 21, mb_user_id = 1, mb_organisation_id = 1, mb_role = ''owner'', mb_status = ''active'', mb_invited_by_user_id = None \<rparr>"
  have inv: "auth_inv (demo_members ''active'')" by (rule demo_members_inv) simp
  have "?m \<in> set (memberships (demo_members ''active''))" "mb_organisation_id ?m = cl_active_org_id admin_claims"
    by (simp_all add: demo_members_def admin_claims_def)
  from update_membership_ok [OF inv this admin_allowed(1), of "''viewer''" "''active''"]
  obtain db' m' where u: "update_membership (demo_members ''active'') admin_claims 21 \<lparr> mu_role = Some (Some ''viewer''), mu_status = Some (Some ''active'') \<rparr> = Inr (db', m')"
    by simp
  from organisations_separated [OF inv] u show ?thesis by blast
qed


lemma unknown_role_accepted_witness:
  "\<exists>db' m. invite_user demo_env (demo_fresh 5) (demo_members ''active'') admin_claims ''new@x.co'' ''placeholder'' ''superuser'' = Inr (db', m) \<and>
     require_permission VIEW_FINANCIALS (granted demo_env 0 m) = Inl (ValueError ''not a valid Role'')"
proof -
  have "auth_inv (demo_members ''active'')" by (rule demo_members_inv) simp
  from unknown_role_accepted [OF this admin_allowed(1), of "''new@x.co''" "''superuser''" "demo_fresh 5" demo_env "''placeholder''"]
  show ?thesis by (force simp: demo_members_def admin_claims_def all_roles_def demo_fresh_def)
qed

text \<open>The organisation switch does not look at the account: a token of a deactivated account, which \<open>login\<close>
  refuses, keeps being exchanged for new ones.\<close>

lemma switch_ignores_account:
  "(\<exists>db'. switch_organisation e now fr (db\<lparr> users := us \<rparr>) uid target = Inr (db', ts)) \<longleftrightarrow>
   (\<exists>db'. switch_organisation e now fr db uid target = Inr (db', ts))"
  by (simp add: switch_organisation_def select_memberships_def issue_tokens_def Let_def split: list.split)

end
