(* ===== verification/CanvasLens.thy ===== *)
theory CanvasLens
  imports InventoryAnalytics SpendAnalytics EvidenceState
begin

text \<open>
  The management canvas: the three graph builders of \<open>app/analytics/canvas_lens.py\<close>, the queries of
  \<open>app/services/canvas_service.py\<close> that feed them, and the failure boundary of
  \<open>app/analytics/canvas_payload.py\<close>.  The tables are those of the components that write them; the rows
  of one organisation are given.  A value in the details of a node is kept as a value, not as the text
  the code prints it to.
\<close>

section \<open>canvas\_lens.py\<close>

datatype node_status = POSITIVE | WARNING | CRITICAL

datatype detail = D_text string | D_int int | D_decimal rat | D_date pydate | D_none

record canvas_node =
  cn_id :: string
  cn_type :: string
  cn_label :: string
  cn_metric_value :: rat
  cn_status :: node_status
  cn_details :: "(string \<times> detail) list"

record canvas_edge =
  ce_source :: string
  ce_target :: string
  ce_status :: node_status

type_synonym canvas_graph = "canvas_node list \<times> canvas_edge list"

definition plain_node :: "string \<Rightarrow> string \<Rightarrow> string \<Rightarrow> rat \<Rightarrow> canvas_node" where
  "plain_node i ty label x = \<lparr> cn_id = i, cn_type = ty, cn_label = label, cn_metric_value = x, cn_status = POSITIVE, cn_details = [] \<rparr>"

definition edge :: "string \<Rightarrow> string \<Rightarrow> node_status \<Rightarrow> canvas_edge" where
  "edge a b s = \<lparr> ce_source = a, ce_target = b, ce_status = s \<rparr>"

subsection \<open>Procurement\<close>

record supplier_spend_input =
  ss_id :: int
  ss_public_id :: string
  ss_name :: string
  ss_category :: "string option"
  ss_total_spend :: rat

record contract_renewal_input =
  cr_contract_public_id :: string
  cr_supplier_id :: int
  cr_title :: string
  cr_expiry_date :: pydate
  cr_status :: string

definition category_key :: "supplier_spend_input \<Rightarrow> string" where
  "category_key s = (case ss_category s of Some (c # cs) \<Rightarrow> c # cs | _ \<Rightarrow> ''Uncategorised'')"

definition category_id :: "string \<Rightarrow> string" where
  "category_id k = ''category:'' @ k"

definition category_totals :: "supplier_spend_input list \<Rightarrow> (string, rat) pydict" where
  "category_totals suppliers = accumulate (map (\<lambda>s. (category_key s, ss_total_spend s)) suppliers)"

definition supplier_node :: "supplier_spend_input \<Rightarrow> canvas_node" where
  "supplier_node s = (plain_node (ss_public_id s) ''supplier'' (ss_name s) (ss_total_spend s))
     \<lparr> cn_details := [(''category'', D_text (category_key s))] \<rparr>"

definition renewal_id :: "contract_renewal_input \<Rightarrow> string" where
  "renewal_id r = ''contract:'' @ cr_contract_public_id r"

definition renewal_node :: "contract_renewal_input \<Rightarrow> canvas_node" where
  "renewal_node r = \<lparr> cn_id = renewal_id r, cn_type = ''contract_renewal'', cn_label = cr_title r, cn_metric_value = 0,
     cn_status = (if cr_status r = ''notice_period_open'' then CRITICAL else WARNING),
     cn_details = [(''expiry_date'', D_date (cr_expiry_date r)), (''status'', D_text (cr_status r))] \<rparr>"

definition placed_renewals ::
    "supplier_spend_input list \<Rightarrow> contract_renewal_input list \<Rightarrow> (supplier_spend_input \<times> contract_renewal_input) list" where
  "placed_renewals suppliers contract_renewals =
     (let supplier_by_id = build_dict (map (\<lambda>s. (ss_id s, s)) suppliers) in
      List.map_filter (\<lambda>r. map_option (\<lambda>s. (s, r)) (map_of supplier_by_id (cr_supplier_id r))) contract_renewals)"

definition build_procurement_lens_graph ::
    "supplier_spend_input list \<Rightarrow> rat \<Rightarrow> contract_renewal_input list \<Rightarrow> canvas_graph" where
  "build_procurement_lens_graph suppliers aggregate_leakage contract_renewals =
     (if suppliers = [] then ([], [])
      else let totals = category_totals suppliers; placed = placed_renewals suppliers contract_renewals in
       (map supplier_node suppliers
          @ map (\<lambda>(k, total). plain_node (category_id k) ''category'' k total) totals
          @ [(plain_node ''rebate_leakage'' ''rebate_leakage'' ''Rebate Leakage'' aggregate_leakage)
               \<lparr> cn_status := (if 0 < aggregate_leakage then CRITICAL else POSITIVE) \<rparr>]
          @ map (renewal_node \<circ> snd) placed,
        map (\<lambda>s. edge (ss_public_id s) (category_id (category_key s)) POSITIVE) suppliers
          @ map (\<lambda>(k, _). edge (category_id k) ''rebate_leakage'' POSITIVE) totals
          @ map (\<lambda>(s, r). edge (ss_public_id s) (renewal_id r) WARNING) placed))"

subsection \<open>Warehouse and inventory\<close>

record location_input =
  li_id :: int
  li_public_id :: string
  li_name :: string

record inventory_summary_input =
  is_location_id :: int
  is_description :: string
  is_expiry_status :: expiry_risk
  is_last_movement_days :: "int option"

definition is_stale :: "int \<Rightarrow> inventory_summary_input \<Rightarrow> bool" where
  "is_stale stale_threshold_days r = (case is_last_movement_days r of None \<Rightarrow> False | Some d \<Rightarrow> stale_threshold_days < d)"

definition count_if :: "('a \<Rightarrow> bool) \<Rightarrow> 'a list \<Rightarrow> nat" where
  "count_if P xs = length (filter P xs)"

definition aging_id :: "location_input \<Rightarrow> string" where
  "aging_id l = ''aging:'' @ li_public_id l"

definition aging_node :: "int \<Rightarrow> location_input \<Rightarrow> inventory_summary_input list \<Rightarrow> canvas_node" where
  "aging_node stale_threshold_days l location_rows =
     (let expired_count = count_if (\<lambda>r. is_expiry_status r = EXPIRED) location_rows;
          expiring_soon_count = count_if (\<lambda>r. is_expiry_status r = EXPIRING_SOON) location_rows;
          stale_count = count_if (is_stale stale_threshold_days) location_rows
      in \<lparr> cn_id = aging_id l, cn_type = ''inventory_aging'', cn_label = li_name l @ '' - Aging'',
           cn_metric_value = of_nat (expired_count + expiring_soon_count + stale_count),
           cn_status = (if 0 < expired_count then CRITICAL else if 0 < expiring_soon_count \<or> 0 < stale_count then WARNING else POSITIVE),
           cn_details = [(''expired'', D_int (int expired_count)), (''expiring_soon'', D_int (int expiring_soon_count)),
             (''stale'', D_int (int stale_count))] \<rparr>)"

definition location_part :: "int \<Rightarrow> (int, inventory_summary_input list) pydict \<Rightarrow> location_input \<Rightarrow> canvas_graph" where
  "location_part stale_threshold_days summaries_by_location l =
     (let location_rows = dict_get summaries_by_location (li_id l) [];
          node = plain_node (li_public_id l) ''location'' (li_name l) (of_nat (length location_rows))
      in if location_rows = [] then ([node], [])
         else let aging = aging_node stale_threshold_days l location_rows in
           ([node, aging], [edge (li_public_id l) (aging_id l) (cn_status aging)]))"

definition build_inventory_lens_graph :: "location_input list \<Rightarrow> inventory_summary_input list \<Rightarrow> int \<Rightarrow> canvas_graph" where
  "build_inventory_lens_graph locations summaries stale_threshold_days =
     (let summaries_by_location = group_rows (map (\<lambda>r. (is_location_id r, r)) summaries);
          parts = map (location_part stale_threshold_days summaries_by_location) locations
      in (concat (map fst parts), concat (map snd parts)))"

subsection \<open>Management accounting\<close>

record management_summary_input =
  ms_gross_revenue :: rat
  ms_cogs :: rat
  ms_warehouse_abc_cost :: rat
  ms_logistics_cost :: rat
  ms_net_margin :: rat
  ms_dso :: "rat option"
  ms_dio :: "rat option"
  ms_dpo :: "rat option"
  ms_ccc :: "rat option"
  ms_dso_variance :: "rat option"
  ms_dio_variance :: "rat option"
  ms_dpo_variance :: "rat option"

definition wc_formulas :: "(string, string) pydict" where
  "wc_formulas = [(''node-dso'', ''(Accounts Receivable / Annual Revenue) x 365''),
     (''node-dio'', ''(Inventory Value / Annual COGS) x 365''), (''node-dpo'', ''(Accounts Payable / Annual COGS) x 365'')]"

definition days_status :: "rat option \<Rightarrow> node_status" where
  "days_status v = (case v of None \<Rightarrow> POSITIVE | Some x \<Rightarrow> if x \<le> 60 then POSITIVE else if x \<le> 90 then WARNING else CRITICAL)"

definition or_zero :: "rat option \<Rightarrow> rat" where
  "or_zero v = (case v of None \<Rightarrow> 0 | Some x \<Rightarrow> x)"

definition decimal_detail :: "rat option \<Rightarrow> detail" where
  "decimal_detail v = (case v of None \<Rightarrow> D_none | Some x \<Rightarrow> D_decimal x)"

definition wc_node :: "string \<Rightarrow> string \<Rightarrow> rat option \<Rightarrow> rat option \<Rightarrow> canvas_node" where
  "wc_node node_id label v variance = \<lparr> cn_id = node_id, cn_type = ''working_capital_metric'', cn_label = label,
     cn_metric_value = or_zero v, cn_status = days_status v,
     cn_details = [(''value_days'', decimal_detail v),
       (''formula'', case map_of wc_formulas node_id of None \<Rightarrow> D_none | Some f \<Rightarrow> D_text f),
       (''variance_vs_prior'', decimal_detail variance)] \<rparr>"

definition management_chain :: "string list" where
  "management_chain = [''gross_revenue'', ''cogs'', ''warehouse_abc'', ''logistics_cts'', ''net_profitability'', ''working_capital_summary'']"

definition build_management_lens_graph :: "management_summary_input \<Rightarrow> canvas_graph" where
  "build_management_lens_graph s =
     ([plain_node ''gross_revenue'' ''revenue'' ''Gross Revenue'' (ms_gross_revenue s),
       plain_node ''cogs'' ''cogs'' ''COGS & Direct Materials'' (ms_cogs s),
       plain_node ''warehouse_abc'' ''warehouse_abc_cost'' ''Warehouse ABC Costs'' (ms_warehouse_abc_cost s),
       plain_node ''logistics_cts'' ''logistics_cost'' ''Logistics & CTS'' (ms_logistics_cost s),
       (plain_node ''net_profitability'' ''net_margin'' ''Net Customer Profitability'' (ms_net_margin s))
         \<lparr> cn_status := (if ms_net_margin s < 0 then CRITICAL else POSITIVE) \<rparr>,
       plain_node ''working_capital_summary'' ''working_capital_summary'' ''Working Capital Summary'' 0,
       wc_node ''node-dso'' ''Days Sales Outstanding'' (ms_dso s) (ms_dso_variance s),
       wc_node ''node-dio'' ''Days Inventory Outstanding'' (ms_dio s) (ms_dio_variance s),
       wc_node ''node-dpo'' ''Days Payables Outstanding'' (ms_dpo s) (ms_dpo_variance s),
       \<lparr> cn_id = ''node-ccc'', cn_type = ''cash_conversion_cycle'', cn_label = ''Cash Conversion Cycle'',
         cn_metric_value = or_zero (ms_ccc s), cn_status = days_status (ms_ccc s),
         cn_details = [(''total_ccc_days'', decimal_detail (ms_ccc s))] \<rparr>],
      map (\<lambda>(a, b). edge a b POSITIVE) (zip management_chain (tl management_chain))
      @ [edge ''working_capital_summary'' ''node-dso'' POSITIVE, edge ''working_capital_summary'' ''node-dio'' POSITIVE,
         edge ''working_capital_summary'' ''node-dpo'' POSITIVE, edge ''node-dio'' ''node-ccc'' WARNING,
         edge ''node-dso'' ''node-ccc'' WARNING, edge ''node-dpo'' ''node-ccc'' WARNING])"

section \<open>canvas\_service.py\<close>

record canvas_supplier =
  cs_id :: int
  cs_public_id :: string
  cs_name :: string
  cs_category :: "string option"
  cs_deleted :: bool

definition spend_input :: "int spend_item list \<Rightarrow> canvas_supplier \<Rightarrow> supplier_spend_input" where
  "spend_input spend_items s = \<lparr> ss_id = cs_id s, ss_public_id = cs_public_id s, ss_name = cs_name s, ss_category = cs_category s,
     ss_total_spend = dict_get (build_dict (map (\<lambda>i. (si_key i, si_amount i)) spend_items)) (cs_id s) 0 \<rparr>"

definition leakage_pairs :: "rpa list \<Rightarrow> (rat \<times> rat option) list" where
  "leakage_pairs rows = List.map_filter (\<lambda>r. let s = c_snap (rp_expected r) in
     if s_status s \<in> {Estimated, Calculated, Confirmed} then map_option (\<lambda>x. (x, rp_received r)) (s_amount s) else None) rows"

definition build_procurement_lens ::
    "canvas_supplier list \<Rightarrow> spend_db \<Rightarrow> rpa list \<Rightarrow> contract_renewal_input list \<Rightarrow> canvas_graph res" where
  "build_procurement_lens all_suppliers db periods contracts =
     (let suppliers = filter (\<lambda>s. \<not> cs_deleted s) all_suppliers in
      if suppliers = [] then Inr ([], [])
      else bindR (get_spend_by_supplier db) (\<lambda>spend_items.
        bindR (calculate_aggregate_rebate_leakage (leakage_pairs periods)) (\<lambda>aggregate_leakage.
        Inr (build_procurement_lens_graph (map (spend_input spend_items) suppliers) aggregate_leakage
          (filter (\<lambda>c. cr_status c \<in> {''expiring_soon'', ''notice_period_open''}) contracts)))))"

definition active_snapshots :: "inv_snapshot list \<Rightarrow> inv_snapshot list" where
  "active_snapshots rows = filter (\<lambda>s. st_corrects s = None) rows"

definition summary_of :: "pydate \<Rightarrow> (int \<times> string \<times> string option) \<times> (pydate \<times> rat \<times> pydate option) list \<Rightarrow> inventory_summary_input" where
  "summary_of as_of g = (case g of ((location_id, description, _), unsorted) \<Rightarrow>
     let history = sort_key fst unsorted in
     \<lparr> is_location_id = location_id, is_description = description,
       is_expiry_status = classify_expiry_risk (snd (snd (last history))) as_of 30,
       is_last_movement_days = calculate_days_since_last_movement (map (\<lambda>(d, q, _). (d, q)) history) as_of \<rparr>)"

definition build_inventory_lens :: "location_input list \<Rightarrow> inv_snapshot list \<Rightarrow> pydate \<Rightarrow> int \<Rightarrow> canvas_graph" where
  "build_inventory_lens locations rows as_of stale_threshold_days =
     (if locations = [] then ([], [])
      else let grouped = group_rows (map (\<lambda>s. ((st_location s, st_description s, st_sku s), (st_date s, st_quantity s, st_expiry s)))
             (active_snapshots rows))
        in build_inventory_lens_graph locations (map (summary_of as_of) grouped) stale_threshold_days)"

record cost_to_serve =
  ct_net_revenue :: rat
  ct_cogs :: rat
  ct_logistics :: rat
  ct_warehouse :: rat
  ct_net_margin :: rat
  ct_corrects :: "int option"

definition latest_two :: "wc_snapshot list \<Rightarrow> wc_snapshot list" where
  "latest_two rows = take 2 (rev (sort_key (wi_as_of \<circ> ws_input) (filter (\<lambda>s. ws_corrects s = None) rows)))"

definition management_summary :: "cost_to_serve list \<Rightarrow> wc_metrics \<Rightarrow> wc_metrics option \<Rightarrow> management_summary_input" where
  "management_summary ledger_rows m prior =
     (let total = (\<lambda>f. sum_list (map f (filter (\<lambda>r. ct_corrects r = None) ledger_rows)));
          before = (\<lambda>f. case prior of None \<Rightarrow> None | Some p \<Rightarrow> f p)
      in \<lparr> ms_gross_revenue = total ct_net_revenue, ms_cogs = total ct_cogs, ms_warehouse_abc_cost = total ct_warehouse,
           ms_logistics_cost = total ct_logistics, ms_net_margin = total ct_net_margin,
           ms_dso = wc_dso m, ms_dio = wc_dio m, ms_dpo = wc_dpo m, ms_ccc = wc_ccc m,
           ms_dso_variance = calculate_variance_vs_prior (wc_dso m) (before wc_dso),
           ms_dio_variance = calculate_variance_vs_prior (wc_dio m) (before wc_dio),
           ms_dpo_variance = calculate_variance_vs_prior (wc_dpo m) (before wc_dpo) \<rparr>)"

definition build_management_lens :: "wc_snapshot list \<Rightarrow> cost_to_serve list \<Rightarrow> canvas_graph" where
  "build_management_lens snapshots ledger_rows = (case latest_two snapshots of
     [] \<Rightarrow> ([], [])
   | current # rest \<Rightarrow> build_management_lens_graph (management_summary ledger_rows (ws_metrics current)
       (case rest of [] \<Rightarrow> None | prior # _ \<Rightarrow> Some (ws_metrics prior))))"

section \<open>canvas\_payload.py\<close>

datatype 'a widget = Widget_ok 'a | Widget_diagnostic pyerr

text \<open>A layer function without arguments is its outcome.\<close>

fun build_widget_result :: "'a res \<Rightarrow> 'a widget res" where
  "build_widget_result (Inr x) = Inr (Widget_ok x)"
| "build_widget_result (Inl (ValueError m)) = Inr (Widget_diagnostic (ValueError m))"
| "build_widget_result (Inl (TypeError m)) = Inr (Widget_diagnostic (TypeError m))"
| "build_widget_result (Inl e) = Inl e"

definition build_management_canvas_payload ::
    "'a res \<Rightarrow> 'b res \<Rightarrow> 'c res \<Rightarrow> 'd res \<Rightarrow> ('a widget \<times> 'b widget \<times> 'c widget \<times> 'd widget) res" where
  "build_management_canvas_payload revenue_layer operations_layer liquidity_layer risk_layer =
     bindR (build_widget_result revenue_layer) (\<lambda>a. bindR (build_widget_result operations_layer) (\<lambda>b.
     bindR (build_widget_result liquidity_layer) (\<lambda>c. bindR (build_widget_result risk_layer) (\<lambda>d. Inr (a, b, c, d)))))"

section \<open>Lemmas\<close>

context correctable_ledger
begin

text \<open>Readers that select the rows without a correction reference see none of the requests that follow the first
  submission of a grain.\<close>

lemma readers_see_nothing:
  assumes "\<forall>r\<in>set rs. active (key (fst r)) rows \<noteq> []"
  shows "filter (\<lambda>s. corrects s = None) (foldl (request ingest) rows rs) = filter (\<lambda>s. corrects s = None) rows"
  using assms
proof (induction rs arbitrary: rows)
  case (Cons r rs)
  have r: "active (key (fst r)) rows \<noteq> []" using Cons.prems by simp
  have step: "filter (\<lambda>s. corrects s = None) (request ingest rows r) = filter (\<lambda>s. corrects s = None) rows"
    by (cases rule: request_cases [of rows r]) (use r in auto)
  have "active g (request ingest rows r) = active g rows" if "active g rows \<noteq> []" for g
    using active_request [of g rows r] that by auto
  then have "\<forall>q\<in>set rs. active (key (fst q)) (request ingest rows r) \<noteq> []" using Cons.prems by auto
  from Cons.IH [OF this] step show ?case by simp
qed simp

end

lemma uuid_char: "set s \<subseteq> set ''0123456789abcdef-'' \<Longrightarrow> s \<noteq> ''category:'' @ k \<and> s \<noteq> ''contract:'' @ k \<and> s \<noteq> ''rebate_leakage'' \<and> s \<noteq> ''aging:'' @ k"
  by auto

lemma plain_node_simps [simp]: "cn_id (plain_node i ty l x) = i" "cn_type (plain_node i ty l x) = ty" "cn_metric_value (plain_node i ty l x) = x"
  "cn_status (plain_node i ty l x) = POSITIVE"
  by (simp_all add: plain_node_def)

lemma edge_simps [simp]: "ce_source (edge a b s) = a" "ce_target (edge a b s) = b"
  by (simp_all add: edge_def)

lemma node_ids [simp]: "cn_id (supplier_node s) = ss_public_id s" "cn_id (renewal_node r) = renewal_id r"
  "cn_type (supplier_node s) = ''supplier''" "cn_type (renewal_node r) = ''contract_renewal''"
  by (simp_all add: supplier_node_def renewal_node_def)

lemma placed_renewals_in: "(s, r) \<in> set (placed_renewals suppliers renewals) \<Longrightarrow> s \<in> set suppliers \<and> r \<in> set renewals \<and> ss_id s = cr_supplier_id r"
proof -
  assume "(s, r) \<in> set (placed_renewals suppliers renewals)"
  then obtain q where q: "q \<in> set renewals" "map_option (\<lambda>s. (s, q)) (map_of (build_dict (map (\<lambda>s. (ss_id s, s)) suppliers)) (cr_supplier_id q)) = Some (s, r)"
    unfolding placed_renewals_def Let_def map_filter_def by (auto simp del: map_of_eq_Some_iff)
  then have "r = q" "map_of (build_dict (map (\<lambda>s. (ss_id s, s)) suppliers)) (cr_supplier_id q) = Some s"
    by (cases "map_of (build_dict (map (\<lambda>s. (ss_id s, s)) suppliers)) (cr_supplier_id q)"; simp)+
  with q(1) build_dict_in [OF this(2)] show ?thesis by auto
qed

lemma distinct_map_map_filter: "distinct (map f xs) \<Longrightarrow> (\<And>x y. g x = Some y \<Longrightarrow> h y = f x) \<Longrightarrow> distinct (map h (List.map_filter g xs))"
proof (induction xs)
  case (Cons x xs)
  show ?case
  proof (cases "g x")
    case None
    then show ?thesis using Cons by (simp add: map_filter_simps)
  next
    case (Some y)
    have "h y \<notin> h ` set (List.map_filter g xs)"
    proof
      assume "h y \<in> h ` set (List.map_filter g xs)"
      then obtain z w where "z \<in> set xs" "g z = Some w" "h w = h y" by (auto simp: map_filter_def image_iff)
      then have "f z = f x" using Cons.prems(2) [of z w] Cons.prems(2) [OF Some] by simp
      then show False using Cons.prems(1) \<open>z \<in> set xs\<close> by (metis distinct.simps(2) image_eqI list.simps(9) set_map)
    qed
    then show ?thesis using Cons by (simp add: Some map_filter_simps)
  qed
qed (simp add: map_filter_simps)

lemma distinct_renewals: "distinct (map cr_contract_public_id renewals) \<Longrightarrow> distinct (map (renewal_id \<circ> snd) (placed_renewals suppliers renewals))"
  unfolding placed_renewals_def Let_def
  by (rule distinct_map_map_filter [where f = renewal_id]) (auto simp: distinct_map inj_on_def renewal_id_def)

section \<open>Properties\<close>

text \<open>The procurement lens is a well-formed graph: with UUIDs as public ids no two nodes share an id, every edge
  joins two different nodes of the graph, each supplier leads to exactly the node of its category, and the
  value of a category is the sum of its suppliers' spend.\<close>

lemma procurement_graph:
  assumes s: "distinct (map ss_public_id suppliers)" and c: "distinct (map cr_contract_public_id renewals)"
    and u: "\<And>s. s \<in> set suppliers \<Longrightarrow> set (ss_public_id s) \<subseteq> set ''0123456789abcdef-''"
    and g: "build_procurement_lens_graph suppliers leakage renewals = (nodes, edges)"
  shows "distinct (map cn_id nodes) \<and>
    (\<forall>e\<in>set edges. ce_source e \<in> cn_id ` set nodes \<and> ce_target e \<in> cn_id ` set nodes \<and> ce_source e \<noteq> ce_target e) \<and>
    (\<forall>n\<in>set nodes. cn_type n = ''category'' \<longrightarrow>
       cn_metric_value n = dsum (map ss_total_spend (filter (\<lambda>s. category_id (category_key s) = cn_id n) suppliers)))"
proof (cases "suppliers = []")
  case True
  then show ?thesis using g by (simp add: build_procurement_lens_graph_def)
next
  case False
  let ?t = "category_totals suppliers" and ?p = "placed_renewals suppliers renewals"
  have nodes: "nodes = map supplier_node suppliers @ map (\<lambda>(k, total). plain_node (category_id k) ''category'' k total) ?t
      @ [(plain_node ''rebate_leakage'' ''rebate_leakage'' ''Rebate Leakage'' leakage) \<lparr> cn_status := (if 0 < leakage then CRITICAL else POSITIVE) \<rparr>]
      @ map (renewal_node \<circ> snd) ?p"
    and edges: "edges = map (\<lambda>s. edge (ss_public_id s) (category_id (category_key s)) POSITIVE) suppliers
      @ map (\<lambda>(k, _). edge (category_id k) ''rebate_leakage'' POSITIVE) ?t @ map (\<lambda>(s, r). edge (ss_public_id s) (renewal_id r) WARNING) ?p"
    using g False by (auto simp: build_procurement_lens_graph_def Let_def)
  have ids: "map cn_id nodes = map ss_public_id suppliers @ map (category_id \<circ> fst) ?t @ [''rebate_leakage''] @ map (renewal_id \<circ> snd) ?p"
    by (simp add: nodes comp_def case_prod_unfold)
  have keys: "fst ` set ?t = category_key ` set suppliers" by (simp add: category_totals_def image_image)
  have nid: "ss_public_id s \<noteq> category_id k \<and> ss_public_id s \<noteq> ''contract:'' @ k \<and> ss_public_id s \<noteq> ''rebate_leakage'' \<and>
      category_id k \<noteq> ss_public_id s \<and> ''contract:'' @ k \<noteq> ss_public_id s \<and> ''rebate_leakage'' \<noteq> ss_public_id s"
    if "s \<in> set suppliers" for s k using uuid_char [OF u [OF that], of k] unfolding category_id_def by metis
  have "distinct (map fst ?t)" by (simp add: category_totals_def)
  then have "distinct (map (category_id \<circ> fst) ?t)" by (auto simp: distinct_map inj_on_def category_id_def)
  moreover note distinct_renewals [OF c, of suppliers] s
  moreover have "set (map ss_public_id suppliers) \<inter> (set (map (category_id \<circ> fst) ?t) \<union> {''rebate_leakage''} \<union> set (map (renewal_id \<circ> snd) ?p)) = {}"
    using nid by (auto simp: renewal_id_def)
  moreover have "set (map (category_id \<circ> fst) ?t) \<inter> ({''rebate_leakage''} \<union> set (map (renewal_id \<circ> snd) ?p)) = {}"
    "''rebate_leakage'' \<notin> set (map (renewal_id \<circ> snd) ?p)"
    by (auto simp: category_id_def renewal_id_def)
  ultimately have d: "distinct (map cn_id nodes)" unfolding ids by auto
  have set_ids: "cn_id ` set nodes = set (map cn_id nodes)" by simp
  have e: "ce_source e \<in> cn_id ` set nodes \<and> ce_target e \<in> cn_id ` set nodes \<and> ce_source e \<noteq> ce_target e" if "e \<in> set edges" for e
  proof -
    from that consider (cat) s where "s \<in> set suppliers" "e = edge (ss_public_id s) (category_id (category_key s)) POSITIVE"
      | (leak) k x where "(k, x) \<in> set ?t" "e = edge (category_id k) ''rebate_leakage'' POSITIVE"
      | (ren) s r where "(s, r) \<in> set ?p" "e = edge (ss_public_id s) (renewal_id r) WARNING"
      by (auto simp: edges)
    then show ?thesis
    proof cases
      case cat
      have "category_key s \<in> fst ` set ?t" using cat(1) by (simp add: keys)
      then show ?thesis using cat uuid_char [OF u [OF cat(1)], of "category_key s"] unfolding set_ids ids by (auto simp: category_id_def)
    next
      case leak
      then show ?thesis unfolding set_ids ids by (force simp: category_id_def)
    next
      case ren
      have s: "s \<in> set suppliers" using placed_renewals_in [OF ren(1)] by simp
      then show ?thesis using ren uuid_char [OF u [OF s], of "cr_contract_public_id r"] unfolding set_ids ids by (force simp: renewal_id_def)
    qed
  qed
  have v: "cn_metric_value n = dsum (map ss_total_spend (filter (\<lambda>s. category_id (category_key s) = cn_id n) suppliers))"
    if "n \<in> set nodes" "cn_type n = ''category''" for n
  proof -
    from that obtain k x where kx: "(k, x) \<in> set ?t" "n = plain_node (category_id k) ''category'' k x"
      by (auto simp: nodes)
    then have "x = dsum (of_key k (map (\<lambda>s. (category_key s, ss_total_spend s)) suppliers))"
      by (simp add: category_totals_def accumulate_entries)
    then show ?thesis by (simp add: kx(2) of_key_def filter_map comp_def category_id_def)
  qed
  show ?thesis using d e v by blast
qed

definition one_supplier :: "string \<Rightarrow> rat \<Rightarrow> supplier_spend_input" where
  "one_supplier u x = \<lparr> ss_id = 1, ss_public_id = u, ss_name = ''Acme'', ss_category = Some ''Dairy'', ss_total_spend = x \<rparr>"

lemma procurement_graph_witness:
  "distinct (map cn_id (fst (build_procurement_lens_graph [one_supplier ''0a1b-2c'' 5] 0
     [\<lparr> cr_contract_public_id = ''77-f'', cr_supplier_id = 1, cr_title = ''Milk'', cr_expiry_date = PyDate 2026 9 1, cr_status = ''expiring_soon'' \<rparr>])))"
  using procurement_graph [of "[one_supplier ''0a1b-2c'' 5]"
      "[\<lparr> cr_contract_public_id = ''77-f'', cr_supplier_id = 1, cr_title = ''Milk'', cr_expiry_date = PyDate 2026 9 1, cr_status = ''expiring_soon'' \<rparr>]",
      OF _ _ _ prod.collapse [symmetric]]
  by (simp add: one_supplier_def)

text \<open>The aging node of a location is critical exactly when a stock item there has expired and positive exactly
  when none is flagged; but its figure counts an item twice that has not moved and is expired or about to
  expire.\<close>

lemma aging_counts_twice:
  "let risky = (\<lambda>r. is_expiry_status r = EXPIRED \<or> is_expiry_status r = EXPIRING_SOON); stale = is_stale k; n = aging_node k l rows in
     cn_metric_value n = of_nat (count_if (\<lambda>r. risky r \<or> stale r) rows + count_if (\<lambda>r. risky r \<and> stale r) rows) \<and>
     (cn_status n = CRITICAL \<longleftrightarrow> (\<exists>r\<in>set rows. is_expiry_status r = EXPIRED)) \<and>
     (cn_status n = POSITIVE \<longleftrightarrow> \<not> (\<exists>r\<in>set rows. risky r \<or> stale r))"
proof -
  let ?e = "\<lambda>r. is_expiry_status r = EXPIRED" and ?s = "\<lambda>r. is_expiry_status r = EXPIRING_SOON" and ?t = "is_stale k"
  have c: "count_if ?e rows + count_if ?s rows + count_if ?t rows =
    count_if (\<lambda>r. (?e r \<or> ?s r) \<or> ?t r) rows + count_if (\<lambda>r. (?e r \<or> ?s r) \<and> ?t r) rows"
    by (induction rows) (auto simp: count_if_def)
  have pos: "0 < count_if P rows \<longleftrightarrow> (\<exists>r\<in>set rows. P r)" for P
    by (auto simp: count_if_def filter_empty_conv)
  show ?thesis unfolding Let_def aging_node_def by (simp add: pos c del: of_nat_add) blast
qed

text \<open>Once a date has a snapshot, no correction of it changes the management lens: whatever sequence of
  requests about such dates follows, successful or not, the graph stays the one of the first submissions.\<close>

lemma management_lens_ignores_corrections:
  assumes "\<forall>r\<in>set rs. active_wc (wi_as_of (fst r)) snapshots \<noteq> []"
  shows "build_management_lens (foldl (request ingest_working_capital_snapshot) snapshots rs) costs = build_management_lens snapshots costs"
  using wc.readers_see_nothing [OF assms] by (simp add: build_management_lens_def latest_two_def)

lemma management_lens_ignores_corrections_witness:
  "\<exists>s. active_wc (PyDate 2026 6 30) [s] = [s] \<and> build_management_lens (foldl (request ingest_working_capital_snapshot) [s]
     [(balanced 700, True), (balanced 900, True)]) [] = build_management_lens [s] []"
proof -
  let ?s = "\<lparr> ws_id = 1, ws_input = balanced 500, ws_metrics = \<lparr> wc_dso = None, wc_dio = None, wc_dpo = None, wc_ccc = None,
    wc_working_capital_ratio = None \<rparr>, ws_diagnostics = [], ws_corrects = None \<rparr>"
  have "active_wc (PyDate 2026 6 30) [?s] = [?s]" by (simp add: active_wc_def balanced_def)
  moreover have "wi_as_of (balanced x) = PyDate 2026 6 30" for x by (simp add: balanced_def)
  ultimately show ?thesis using management_lens_ignores_corrections [of "[(balanced 700, True), (balanced 900, True)]" "[?s]" "[]"]
    by (intro exI [of _ ?s]) (simp del: foldl_Cons)
qed

text \<open>A correcting inventory report of at most as many rows as the report it corrects leaves the inventory lens
  as it was, at every date and threshold.\<close>

lemma inventory_lens_ignores_corrections:
  assumes "ingest_inventory_valuation rows loc d records h True = Inr (rows', audit)"
    and l: "length records \<le> length (active_stock (loc, d) rows)"
  shows "build_inventory_lens locations rows' as_of k = build_inventory_lens locations rows as_of k"
proof -
  obtain p where p: "foldR (insert_record loc d True) (rows, map st_id (active_stock (loc, d) rows)) records = Inr (rows', p)"
    using assms(1) by (auto simp: ingest_inventory_valuation_def Let_def res_simps)
  from insert_records_InrD [OF p] l obtain new where new: "rows' = rows @ new"
    and c: "\<forall>j<length new. st_corrects (new ! j) \<noteq> None" by auto
  have "st_corrects s \<noteq> None" if "s \<in> set new" for s using that c by (metis in_set_conv_nth)
  then have "active_snapshots rows' = active_snapshots rows" by (simp add: active_snapshots_def new)
  then show ?thesis by (simp add: build_inventory_lens_def)
qed

lemma inventory_lens_ignores_corrections_witness:
  "\<exists>rows' audit. ingest_inventory_valuation [stock_row 5] 7 (PyDate 2026 6 30)
     [\<lparr> vr_sku = ''A1'', vr_description = Some ''Rice'', vr_quantity = Some 900, vr_unit_cost = Some 2 \<rparr>] None True = Inr (rows', audit) \<and>
     (\<forall>locations as_of k. build_inventory_lens locations rows' as_of k = build_inventory_lens locations [stock_row 5] as_of k)"
proof -
  let ?r = "[\<lparr> vr_sku = ''A1'', vr_description = Some ''Rice'', vr_quantity = Some 900, vr_unit_cost = Some 2 \<rparr>]"
  have act: "active_stock (7, PyDate 2026 6 30) [stock_row 5] = [stock_row 5]" by (simp add: active_stock_def stock_row_def)
  have "is_ok (ingest_inventory_valuation [stock_row 5] 7 (PyDate 2026 6 30) ?r None True)"
    by (simp add: ingest_inventory_valuation_def act insert_record_def column_ok_grid Let_def)
  then obtain rows' audit where r: "ingest_inventory_valuation [stock_row 5] 7 (PyDate 2026 6 30) ?r None True = Inr (rows', audit)"
    by (auto simp: is_ok_iff)
  from inventory_lens_ignores_corrections [OF r] r show ?thesis
    by (intro exI [of _ rows'] exI [of _ audit]) (simp add: act)
qed

text \<open>The four layers of the canvas payload are isolated: the payload is produced unless a layer fails with
  something else than a value or type error, each layer then shows its own result or its own reason, and a
  layer that fails some other way, such as a division by zero in the cash model, takes the whole payload down.\<close>

lemma payload_isolates_layers:
  "let caught = (\<lambda>e. \<exists>m. e = ValueError m \<or> e = TypeError m) in
   (is_ok (build_management_canvas_payload a b c d) \<longleftrightarrow>
     (\<forall>e. a = Inl e \<longrightarrow> caught e) \<and> (\<forall>e. b = Inl e \<longrightarrow> caught e) \<and> (\<forall>e. c = Inl e \<longrightarrow> caught e) \<and> (\<forall>e. d = Inl e \<longrightarrow> caught e)) \<and>
   (\<forall>w x y z. build_management_canvas_payload a b c d = Inr (w, x, y, z) \<longrightarrow>
     build_widget_result a = Inr w \<and> build_widget_result b = Inr x \<and> build_widget_result c = Inr y \<and> build_widget_result d = Inr z)"
proof -
  have ok: "is_ok (build_widget_result r) \<longleftrightarrow> (\<forall>e. r = Inl e \<longrightarrow> (\<exists>m. e = ValueError m \<or> e = TypeError m))" for r :: "'x res"
    by (cases r rule: build_widget_result.cases) (auto simp: is_ok_def)
  have "is_ok (build_management_canvas_payload a b c d) \<longleftrightarrow>
    is_ok (build_widget_result a) \<and> is_ok (build_widget_result b) \<and> is_ok (build_widget_result c) \<and> is_ok (build_widget_result d)"
    by (auto simp: build_management_canvas_payload_def is_ok_iff res_simps)
  then show ?thesis unfolding Let_def by (auto simp: ok build_management_canvas_payload_def res_simps)
qed

lemma payload_isolates_layers_witness:
  "build_management_canvas_payload (Inr 1) (Inl (ValueError ''rate'')) (Inl (TypeError ''week'')) (Inr 4) =
     Inr (Widget_ok (1 :: int), (Widget_diagnostic (ValueError ''rate'') :: int widget), (Widget_diagnostic (TypeError ''week'') :: int widget), Widget_ok (4 :: int)) \<and>
   \<not> is_ok (build_management_canvas_payload (Inr (1 :: int)) (Inr (2 :: int)) (Inl DivisionByZero :: int res) (Inr (4 :: int)))"
  using payload_isolates_layers [of "Inr (1 :: int)" "Inr (2 :: int)" "Inl DivisionByZero :: int res" "Inr (4 :: int)"]
  by (simp add: build_management_canvas_payload_def)

end
