(* ===== verification/Copilot.thy ===== *)
theory Copilot
  imports AccessControl CanvasLens RebateService PriceReviewService
begin

text \<open>
  The question-answering pipeline: the router of \<open>app/ai/intent_router.py\<close>, its handlers and the
  pipeline of \<open>app/ai/copilot_service.py\<close>, and the two context builders of
  \<open>app/services/negotiation_brief_service.py\<close>.  The language model is a parameter: a classification step
  that returns any text with any entities, and a summary step.  Figures in a result are kept as
  values, not as the text they are printed to.
\<close>

section \<open>intent\_router.py\<close>

datatype intent = SPEND_BY_SUPPLIER | SPEND_BY_SKU | ABC_CLASSIFICATION | PARETO_CONTRIBUTORS | PRICE_VARIANCE_CHECK
  | REBATE_STATUS | CONTRACT_EXPIRY_CHECK | UNSUPPORTED

fun intent_value :: "intent \<Rightarrow> string" where
  "intent_value SPEND_BY_SUPPLIER = ''spend_by_supplier''"
| "intent_value SPEND_BY_SKU = ''spend_by_sku''"
| "intent_value ABC_CLASSIFICATION = ''abc_classification''"
| "intent_value PARETO_CONTRIBUTORS = ''pareto_contributors''"
| "intent_value PRICE_VARIANCE_CHECK = ''price_variance_check''"
| "intent_value REBATE_STATUS = ''rebate_status''"
| "intent_value CONTRACT_EXPIRY_CHECK = ''contract_expiry_check''"
| "intent_value UNSUPPORTED = ''unsupported''"

definition all_intents :: "intent list" where
  "all_intents = [SPEND_BY_SUPPLIER, SPEND_BY_SKU, ABC_CLASSIFICATION, PARETO_CONTRIBUTORS, PRICE_VARIANCE_CHECK, REBATE_STATUS,
     CONTRACT_EXPIRY_CHECK, UNSUPPORTED]"

definition intent_of :: "string \<Rightarrow> intent option" where
  "intent_of s = map_of (map (\<lambda>i. (intent_value i, i)) all_intents) s"

record 'h intent_handler_entry =
  ie_required_permission :: permission
  ie_handler :: 'h
  ie_description :: string

type_synonym 'h registry = "(intent, 'h intent_handler_entry) pydict"

definition register_intent :: "'h registry \<Rightarrow> intent \<times> permission \<times> 'h \<times> string \<Rightarrow> 'h registry res" where
  "register_intent r q = (case q of (i, p, h, d) \<Rightarrow>
     if i = UNSUPPORTED then Inl (ValueError ''UNSUPPORTED cannot be registered'')
     else Inr (AList.update i \<lparr> ie_required_permission = p, ie_handler = h, ie_description = d \<rparr> r))"

definition is_registered :: "'h registry \<Rightarrow> intent \<Rightarrow> bool" where
  "is_registered r i = (map_of r i \<noteq> None)"

definition get_entry :: "'h registry \<Rightarrow> intent \<Rightarrow> 'h intent_handler_entry res" where
  "get_entry r i = (case map_of r i of None \<Rightarrow> Inl (UnsupportedIntentError ''Intent has no registered handler'') | Some x \<Rightarrow> Inr x)"

definition resolve_classification :: "'h registry \<Rightarrow> string \<Rightarrow> intent res" where
  "resolve_classification r raw_intent = (case intent_of raw_intent of
     None \<Rightarrow> Inl (UnsupportedIntentError ''not a recognized intent'')
   | Some i \<Rightarrow> if \<not> is_registered r i then Inl (UnsupportedIntentError ''Intent has no registered handler'') else Inr i)"

definition available_intents_for_prompt :: "'h registry \<Rightarrow> (string \<times> string) list" where
  "available_intents_for_prompt r = map (\<lambda>(i, x). (intent_value i, ie_description x)) r"

section \<open>copilot\_service.py\<close>

text \<open>\<open>ILIKE\<close> on text in lower case: \<open>%\<close> stands for any text, an underscore for any character, a backslash
  quotes the next character.\<close>

fun like :: "string \<Rightarrow> string \<Rightarrow> bool" where
  "like [] s = (s = [])"
| "like (p # ps) [] = (p = CHR ''%'' \<and> like ps [])"
| "like (p # ps) (c # cs) = (if p = CHR ''%'' then like ps (c # cs) \<or> like (p # ps) cs
     else if p = CHR ''_'' then like ps cs
     else if p = CHR 0x5C then (case ps of [] \<Rightarrow> False | q # qs \<Rightarrow> q = c \<and> like qs cs)
     else p = c \<and> like ps cs)"

definition resolve_supplier_id :: "(int, string) pydict \<Rightarrow> string \<Rightarrow> int option" where
  "resolve_supplier_id suppliers name = (case filter (\<lambda>(_, legal_name). like (''%'' @ lower name @ ''%'') (lower legal_name)) suppliers of
     [] \<Rightarrow> None | (i, _) # _ \<Rightarrow> Some i)"

record copilot_db =
  co_spend :: spend_db
  co_rebates :: rebate_db
  co_contracts :: "contract_renewal_input list"
  co_sla_terms :: "(int \<times> string option) list"

type_synonym entities = "(string, string) pydict"

datatype structured_result =
    Spend_items "(string \<times> rat) list"
  | Classification "(string \<times> rat \<times> abc_class \<times> rat) list"
  | Pareto nat nat rat "(string \<times> rat) list"
  | Price_check price_consistency
  | Open_periods "(int \<times> rat option \<times> rebate_status) list"
  | Expiring_contracts "(string \<times> string \<times> pydate \<times> string) list"
  | Copilot_error string

type_synonym handler = "copilot_db \<Rightarrow> entities \<Rightarrow> structured_result res"

definition handle_spend_by_supplier :: handler where
  "handle_spend_by_supplier db ents = bindR (get_spend_by_supplier (co_spend db)) (\<lambda>items.
     Inr (Spend_items (map (\<lambda>i. (si_label i, si_amount i)) (take 20 items))))"

definition handle_spend_by_sku :: handler where
  "handle_spend_by_sku db ents =
     (let supplier_id = (case map_of ents ''supplier'' of None \<Rightarrow> None | Some n \<Rightarrow> resolve_supplier_id (sd_suppliers (co_spend db)) n)
      in bindR (get_spend_by_sku (co_spend db) supplier_id) (\<lambda>items.
        Inr (Spend_items (map (\<lambda>i. (si_label i, si_amount i)) (take 20 items)))))"

definition handle_abc_classification :: handler where
  "handle_abc_classification db ents = bindR (get_abc_classification (co_spend db)) (\<lambda>rs.
     Inr (Classification (map (\<lambda>r. (si_label (ar_item r), si_amount (ar_item r), ar_classification r, ar_cumulative_pct r)) rs)))"

definition handle_pareto_contributors :: handler where
  "handle_pareto_contributors db ents = bindR (get_pareto_contributors (co_spend db)) (\<lambda>r.
     Inr (Pareto (contributor_count r) (total_item_count r) (cumulative_pct_covered r) (map (\<lambda>i. (si_label i, si_amount i)) (contributors r))))"

definition handle_price_variance_check :: handler where
  "handle_price_variance_check db ents = (case (map_of ents ''supplier'', map_of ents ''sku'') of
     (Some n, Some sku) \<Rightarrow> (case resolve_supplier_id (sd_suppliers (co_spend db)) n of
         None \<Rightarrow> Inr (Copilot_error ''No supplier found matching'')
       | Some i \<Rightarrow> bindR (check_price_consistency (co_spend db) i sku) (\<lambda>r.
           Inr (Price_check (r\<lparr> spread_pct := truthy (spread_pct r) \<rparr>))))
   | _ \<Rightarrow> Inr (Copilot_error ''Both a supplier and an item are needed to check price consistency''))"

definition handle_rebate_status :: handler where
  "handle_rebate_status db ents = (case map_of ents ''supplier'' of
     None \<Rightarrow> Inr (Copilot_error ''A supplier name is needed to check rebate status'')
   | Some n \<Rightarrow> (case resolve_supplier_id (sd_suppliers (co_spend db)) n of
         None \<Rightarrow> Inr (Copilot_error ''No supplier found matching'')
       | Some i \<Rightarrow> Inr (Open_periods (List.map_filter (\<lambda>(_, p). case map_of (agreements (co_rebates db)) (rp_agreement p) of
             None \<Rightarrow> None
           | Some a \<Rightarrow> if ag_supplier a = i \<and> rp_earned p = None
               then Some (rp_agreement p, truthy (s_amount (c_snap (rp_expected p))), rp_status p) else None) (rpas (led (co_rebates db)))))))"

definition handle_contract_expiry_check :: handler where
  "handle_contract_expiry_check db ents = Inr (Expiring_contracts (List.map_filter (\<lambda>c.
     if cr_status c \<in> {''expiring_soon'', ''notice_period_open''}
     then map_option (\<lambda>name. (name, cr_title c, cr_expiry_date c, cr_status c)) (map_of (sd_suppliers (co_spend db)) (cr_supplier_id c))
     else None) (co_contracts db)))"

definition registrations :: "(intent \<times> permission \<times> handler \<times> string) list" where
  "registrations =
     [(SPEND_BY_SUPPLIER, VIEW_FINANCIALS, handle_spend_by_supplier, ''Total spend grouped by supplier''),
      (SPEND_BY_SKU, VIEW_FINANCIALS, handle_spend_by_sku, ''Total spend grouped by product/SKU, optionally filtered by supplier''),
      (ABC_CLASSIFICATION, VIEW_FINANCIALS, handle_abc_classification, ''ABC classification of suppliers by cumulative spend''),
      (PARETO_CONTRIBUTORS, VIEW_FINANCIALS, handle_pareto_contributors, ''Minimum suppliers accounting for 80% of spend''),
      (PRICE_VARIANCE_CHECK, VIEW_FINANCIALS, handle_price_variance_check,
        ''Whether a specific item has been purchased at inconsistent prices from one supplier''),
      (REBATE_STATUS, VIEW_FINANCIALS, handle_rebate_status, ''Open rebate periods and expected amounts for a supplier''),
      (CONTRACT_EXPIRY_CHECK, VIEW_CONTRACTS, handle_contract_expiry_check, ''Contracts expiring soon or in their notice period'')]"

definition router :: "handler registry res" where
  "router = foldR register_intent [] registrations"

definition check_permission :: "string \<Rightarrow> permission \<Rightarrow> unit res" where
  "check_permission r p = bindR (role_of r) (\<lambda>x.
     if p \<notin> set (role_permissions x) then Inl (PermissionDeniedError ''Role does not have permission for this query'') else Inr ())"

text \<open>The language model: given the intents and the question, a text and entities; given a question and
  a result, a summary.\<close>

record provider =
  classify :: "(string \<times> string) list \<Rightarrow> string \<Rightarrow> (string \<times> entities) res"
  summarise :: "string \<Rightarrow> structured_result \<Rightarrow> string res"

definition answer_query :: "handler registry \<Rightarrow> provider \<Rightarrow> copilot_db \<Rightarrow> string \<Rightarrow> string \<Rightarrow> (intent \<times> structured_result \<times> string) res" where
  "answer_query r pr db role question = bindR (classify pr (available_intents_for_prompt r) question) (\<lambda>(raw, ents).
     bindR (resolve_classification r raw) (\<lambda>i. bindR (get_entry r i) (\<lambda>entry.
     bindR (check_permission role (ie_required_permission entry)) (\<lambda>_.
     bindR (ie_handler entry db ents) (\<lambda>structured_result.
     bindR (summarise pr question structured_result) (\<lambda>summary. Inr (i, structured_result, summary)))))))"

text \<open>The route \<open>/ai/query\<close> checks \<open>access_ai\<close> before.\<close>

definition query_copilot :: "handler registry \<Rightarrow> provider \<Rightarrow> copilot_db \<Rightarrow> access_token_claims \<Rightarrow> string \<Rightarrow> (intent \<times> structured_result \<times> string) res" where
  "query_copilot r pr db c question = bindR (require_permission ACCESS_AI c) (\<lambda>c. answer_query r pr db (cl_role c) question)"

section \<open>negotiation\_brief\_service.py\<close>

datatype performance_note = No_performance_data | No_contract | Contract_terms "string option"
  | Price_range string rat rat rat nat

record negotiation_brief_context =
  bc_supplier_name :: string
  bc_annual_spend :: rat
  bc_weighted_increase_pct :: "rat option"
  bc_total_annual_impact :: rat
  bc_top_sku_impacts :: "(string \<times> rat) list"
  bc_negotiation_targets :: "(string \<times> rat) list"
  bc_supplier_performance_note :: "performance_note list"

definition line_name :: "review_line \<Rightarrow> string" where
  "line_name l = or_text (pl_new_description l) (pl_old_description l) ''Unknown''"

definition build_negotiation_brief_context :: "string \<Rightarrow> review_line list \<Rightarrow> rat option \<Rightarrow> negotiation_brief_context" where
  "build_negotiation_brief_context legal_name lines weighted_increase_pct =
     (let impacted = List.map_filter (\<lambda>l. map_option (\<lambda>x. (l, x)) (pl_annual_impact l)) lines;
          annual_spend = dsum (map snd impacted);
          top_impacts = take 10 (sort_key (\<lambda>(_, x). dneg (dabs x)) impacted)
      in \<lparr> bc_supplier_name = legal_name, bc_annual_spend = annual_spend, bc_weighted_increase_pct = weighted_increase_pct,
           bc_total_annual_impact = annual_spend, bc_top_sku_impacts = map (\<lambda>(l, x). (line_name l, x)) top_impacts,
           bc_negotiation_targets = List.map_filter (\<lambda>l. map_option (\<lambda>x. (line_name l, x)) (pl_target_price l)) lines,
           bc_supplier_performance_note = [No_performance_data] \<rparr>)"

fun variance_notes :: "spend_db \<Rightarrow> int \<Rightarrow> string spend_item list \<Rightarrow> performance_note list res" where
  "variance_notes db supplier_id [] = Inr []"
| "variance_notes db supplier_id (i # is) = (case check_price_consistency db supplier_id (si_key i) of
     Inl (ValueError _) \<Rightarrow> variance_notes db supplier_id is
   | Inl e \<Rightarrow> Inl e
   | Inr v \<Rightarrow> bindR (variance_notes db supplier_id is) (\<lambda>ns. Inr ((case spread_pct v of
       Some p \<Rightarrow> if is_significant v then [Price_range (si_label i) (min_price v) (max_price v) p (observation_count v)] else []
     | None \<Rightarrow> []) @ ns)))"

definition build_negotiation_brief_context_from_spend :: "copilot_db \<Rightarrow> int \<Rightarrow> string \<Rightarrow> negotiation_brief_context res" where
  "build_negotiation_brief_context_from_spend db supplier_id legal_name = bindR (get_spend_by_sku (co_spend db) (Some supplier_id)) (\<lambda>items.
     let top_items = take 10 items; annual_spend = dsum (map si_amount items);
         contract_note = (case filter (\<lambda>(s, _). s = supplier_id) (co_sla_terms db) of [] \<Rightarrow> No_contract | (_, t) # _ \<Rightarrow> Contract_terms t)
     in bindR (variance_notes (co_spend db) supplier_id (take 5 top_items)) (\<lambda>notes.
       Inr \<lparr> bc_supplier_name = legal_name, bc_annual_spend = annual_spend, bc_weighted_increase_pct = None,
         bc_total_annual_impact = annual_spend, bc_top_sku_impacts = map (\<lambda>i. (si_label i, si_amount i)) top_items,
         bc_negotiation_targets = [], bc_supplier_performance_note = contract_note # notes \<rparr>))"

text \<open>The route \<open>/ai/negotiation-brief\<close> up to the call of the language model.\<close>

definition general_negotiation_brief :: "copilot_db \<Rightarrow> access_token_claims \<Rightarrow> int \<Rightarrow> string \<Rightarrow> negotiation_brief_context res" where
  "general_negotiation_brief db c supplier_id legal_name = bindR (require_permission ACCESS_AI c) (\<lambda>_.
     build_negotiation_brief_context_from_spend db supplier_id legal_name)"

section \<open>Lemmas\<close>

lemma like_percents: "0 < n \<Longrightarrow> like (replicate n CHR ''%'') s"
proof (induction s arbitrary: n)
  case Nil
  show ?case by (induction n) simp_all
next
  case (Cons c s)
  then obtain m where "n = Suc m" by (cases n) simp_all
  with Cons.IH [OF Cons.prems] show ?case by simp
qed

lemma lower_percents: "lower (replicate n CHR ''%'') = replicate n CHR ''%''"
  by (simp add: lower_def lower_char_def lower_letters_def upper_letters_def)

definition the_router :: "handler registry" where
  "the_router = map (\<lambda>(i, p, h, d). (i, \<lparr> ie_required_permission = p, ie_handler = h, ie_description = d \<rparr>)) registrations"

lemma router_eq: "router = Inr the_router"
  by (simp add: router_def registrations_def register_intent_def the_router_def)

lemma intent_of_value: "intent_of raw = Some i \<longleftrightarrow> raw = intent_value i"
proof
  assume "intent_of raw = Some i"
  then have "(raw, i) \<in> set (map (\<lambda>i. (intent_value i, i)) all_intents)" unfolding intent_of_def by (rule map_of_SomeD)
  then show "raw = intent_value i" by auto
next
  assume "raw = intent_value i"
  then show "intent_of raw = Some i" by (cases i) (simp_all add: intent_of_def all_intents_def)
qed

lemma map_of_router: "map_of the_router i = Some x \<longleftrightarrow>
    (\<exists>p h d. (i, p, h, d) \<in> set registrations \<and> x = \<lparr> ie_required_permission = p, ie_handler = h, ie_description = d \<rparr>)"
proof -
  have "distinct (map fst the_router)" by (simp add: the_router_def registrations_def)
  from map_of_eq_Some_iff [OF this, of i x] show ?thesis by (fastforce simp: the_router_def image_iff)
qed

lemma unsupported_not_registered: "(UNSUPPORTED, p, h, d) \<notin> set registrations"
  by (simp add: registrations_def)

section \<open>Properties\<close>


text \<open>A supplier the copilot does not find widens the question instead of refusing it: the spend by item asked for
  one supplier is then the spend by item of all of them.\<close>

lemma unknown_supplier_widens:
  assumes "resolve_supplier_id (sd_suppliers (co_spend db)) name = None"
  shows "handle_spend_by_sku db [(''supplier'', name)] = handle_spend_by_sku db [] \<and>
    handle_rebate_status db [(''supplier'', name)] = Inr (Copilot_error ''No supplier found matching'')"
  using assms by (simp add: handle_spend_by_sku_def handle_rebate_status_def)

text \<open>The name the language model extracts is a search pattern: an empty name, or one of percent signs only,
  resolves to the first supplier of the query.\<close>

lemma pattern_matches_any_supplier:
  "resolve_supplier_id ((i, legal_name) # suppliers) (replicate n CHR ''%'') = Some i"
proof -
  have "''%'' @ lower (replicate n CHR ''%'') @ ''%'' = replicate (Suc (Suc n)) CHR ''%''"
    unfolding lower_percents by (simp add: replicate_append_same)
  then have "like (''%'' @ lower (replicate n CHR ''%'') @ ''%'') (lower legal_name)"
    by (simp only: like_percents zero_less_Suc)
  then show ?thesis by (simp add: resolve_supplier_id_def)
qed

text \<open>The general negotiation brief shows contract terms to roles that may not view contracts: buyers,
  operations, analysts and consultants get the same brief as the owner, although the copilot refuses them
  every question about contracts.\<close>

lemma brief_bypasses_contract_permission:
  assumes "cl_role c \<in> role_value ` {BUYER, OPERATIONS, ANALYST, CONSULTANT}"
  shows "general_negotiation_brief db c supplier_id legal_name = build_negotiation_brief_context_from_spend db supplier_id legal_name \<and>
    (\<exists>m. check_permission (cl_role c) VIEW_CONTRACTS = Inl (PermissionDeniedError m)) \<and>
    (\<forall>b t ts. build_negotiation_brief_context_from_spend db supplier_id legal_name = Inr b \<longrightarrow>
       filter (\<lambda>(s, _). s = supplier_id) (co_sla_terms db) = t # ts \<longrightarrow> Contract_terms (snd t) \<in> set (bc_supplier_performance_note b))"
proof -
  have "require_permission ACCESS_AI c = Inr c \<and> (\<exists>m. check_permission (cl_role c) VIEW_CONTRACTS = Inl (PermissionDeniedError m))"
    using assms by (auto simp: require_permission_def check_permission_def role_of_def all_roles_def)
  then show ?thesis
    by (auto simp: general_negotiation_brief_def build_negotiation_brief_context_from_spend_def Let_def res_simps split: list.splits)
qed

text \<open>In the brief of a price review the figure named annual spend is not a spend: it is the sum of the annual
  impacts, the same as the total impact, so for a review of price decreases it is not positive, whatever is
  bought; at most ten items are listed.\<close>

lemma brief_spend_is_impact:
  assumes b: "build_negotiation_brief_context legal_name lines pct = b" and f: "\<And>l x. l \<in> set lines \<Longrightarrow> pl_annual_impact l = Some x \<Longrightarrow> amount x"
    and s: "sum_bound (List.map_filter pl_annual_impact lines) < 10 ^ 23"
  shows "bc_annual_spend b = sum_list (List.map_filter pl_annual_impact lines) \<and> bc_total_annual_impact b = bc_annual_spend b \<and>
    length (bc_top_sku_impacts b) \<le> 10 \<and>
    ((\<forall>l\<in>set lines. \<forall>x. pl_annual_impact l = Some x \<longrightarrow> x \<le> 0) \<longrightarrow> bc_annual_spend b \<le> 0)"
proof -
  have snd: "map snd (List.map_filter (\<lambda>l. map_option (\<lambda>x. (l, x)) (pl_annual_impact l)) lines) = List.map_filter pl_annual_impact lines"
    by (induction lines) (auto simp: map_filter_simps split: option.split)
  have "dsum (List.map_filter pl_annual_impact lines) = sum_list (List.map_filter pl_annual_impact lines)"
    by (rule dsum_exact [of _ 4]) (use f s in \<open>auto simp: map_filter_def amount_def fits_def prec_def split: option.splits\<close>)
  moreover have "sum_list (List.map_filter pl_annual_impact lines) \<le> 0" if "\<forall>l\<in>set lines. \<forall>x. pl_annual_impact l = Some x \<longrightarrow> x \<le> 0"
    using that by (induction lines) (auto simp: map_filter_simps add_nonpos_nonpos split: option.split)
  ultimately show ?thesis by (auto simp: b [symmetric] build_negotiation_brief_context_def Let_def snd)
qed

section \<open>Instances\<close>

definition small_db :: copilot_db where
  "small_db = \<lparr> co_spend = \<lparr> sd_suppliers = [(1, ''Acme'')], sd_invoices = [], sd_transactions = [] \<rparr>, co_rebates = example_db \<lparr> events = [], evidence = [], rpas = [], opps = [] \<rparr>,
     co_contracts = [], co_sla_terms = [(1, Some ''next day'')] \<rparr>"

definition says :: "string \<Rightarrow> provider" where
  "says raw = \<lparr> classify = (\<lambda>_ _. Inr (raw, [])), summarise = (\<lambda>_ _. Inr ''done'') \<rparr>"

definition finance_claims :: access_token_claims where
  "finance_claims = \<lparr> cl_user_id = 2, cl_active_org_id = 1, cl_role = ''finance'', cl_issued_at = 0, cl_expires_at = 900 \<rparr>"

lemma finance_allowed: "require_permission ACCESS_AI finance_claims = Inr finance_claims"
  by (simp add: require_permission_def role_of_def all_roles_def finance_claims_def)


lemma unknown_supplier_widens_witness:
  "resolve_supplier_id (sd_suppliers (co_spend small_db)) ''Zed'' = None \<and>
   handle_spend_by_sku small_db [(''supplier'', ''Zed'')] = handle_spend_by_sku small_db []"
proof -
  have "resolve_supplier_id (sd_suppliers (co_spend small_db)) ''Zed'' = None"
    by (simp add: small_db_def resolve_supplier_id_def lower_def lower_char_def lower_letters_def upper_letters_def)
  from unknown_supplier_widens [OF this] this show ?thesis by simp
qed

lemma brief_bypasses_contract_permission_witness:
  "\<exists>b. general_negotiation_brief small_db (finance_claims\<lparr> cl_role := ''buyer'' \<rparr>) 1 ''Acme'' = Inr b \<and>
     Contract_terms (Some ''next day'') \<in> set (bc_supplier_performance_note b)"
proof -
  have b: "is_ok (build_negotiation_brief_context_from_spend small_db 1 ''Acme'')"
    by (simp add: build_negotiation_brief_context_from_spend_def small_db_def get_spend_by_sku_def active_invoices_def active_transactions_def
        aggregate_spend_def accumulate_def Let_def is_ok_def)
  have r: "cl_role (finance_claims\<lparr> cl_role := ''buyer'' \<rparr>) \<in> role_value ` {BUYER, OPERATIONS, ANALYST, CONSULTANT}" by simp
  have t: "filter (\<lambda>(s, _). s = 1) (co_sla_terms small_db) = [(1, Some ''next day'')]" by (simp add: small_db_def)
  from brief_bypasses_contract_permission [OF r, of small_db 1 "''Acme''"] b t show ?thesis by (auto simp: is_ok_iff)
qed

lemma brief_spend_is_impact_witness:
  "bc_annual_spend (build_negotiation_brief_context ''Acme'' [(blank_line REVIEW_REQUIRED [])\<lparr> pl_annual_impact := Some (- 250) \<rparr>] None) = - 250"
  using brief_spend_is_impact [OF refl, of "[(blank_line REVIEW_REQUIRED [])\<lparr> pl_annual_impact := Some (- 250) \<rparr>]" "''Acme''" None]
  by (simp add: map_filter_simps amount_def sum_bound_def)

end
