(* ===== verification/CsvReader.thy ===== *)
theory CsvReader
  imports Grouping
begin

text \<open>
  \<open>app/ingestion/csv_reader.py\<close>: \<open>csv.DictReader\<close> over a text, with the default dialect.  The reader is the
  state machine of the \<open>csv\<close> module: it takes the lines of the text one at a time, each followed by an
  end-of-line mark, and a record ends when the mark leaves it in the start state.  Properties: a table
  written with quoted fields is read back, whatever the fields contain.
\<close>

section \<open>The reader of records\<close>

datatype csv_state = START_RECORD | START_FIELD | IN_FIELD | IN_QUOTED_FIELD | QUOTE_IN_QUOTED_FIELD | EAT_CRNL

text \<open>The state, the field being read and the fields of the record so far.\<close>

record parser =
  ps_state :: csv_state
  ps_field :: string
  ps_fields :: "string list"

definition parse_reset :: parser where
  "parse_reset = \<lparr> ps_state = START_RECORD, ps_field = [], ps_fields = [] \<rparr>"

definition newline :: char where "newline = CHR 0x0A"
definition return_char :: char where "return_char = CHR 0x0D"
definition quotechar :: char where "quotechar = CHR 0x22"
definition delimiter :: char where "delimiter = CHR '',''"
definition field_limit :: nat where "field_limit = 131072"

definition add_char :: "csv_state \<Rightarrow> char \<Rightarrow> parser \<Rightarrow> parser res" where
  "add_char st c p = (if field_limit \<le> length (ps_field p) then Inl (CsvError ''field larger than field limit'')
     else Inr (p\<lparr> ps_state := st, ps_field := ps_field p @ [c] \<rparr>))"

definition save_field :: "csv_state \<Rightarrow> parser \<Rightarrow> parser" where
  "save_field st p = p\<lparr> ps_state := st, ps_field := [], ps_fields := ps_fields p @ [ps_field p] \<rparr>"

definition is_break :: "char option \<Rightarrow> bool" where
  "is_break c = (c \<in> {None, Some newline, Some return_char})"

definition after_break :: "char option \<Rightarrow> csv_state" where
  "after_break c = (if c = None then START_RECORD else EAT_CRNL)"

definition start_field :: "char option \<Rightarrow> parser \<Rightarrow> parser res" where
  "start_field c p =
     (if is_break c then Inr (save_field (after_break c) p)
      else if c = Some quotechar then Inr (p\<lparr> ps_state := IN_QUOTED_FIELD \<rparr>)
      else if c = Some delimiter then Inr (save_field START_FIELD p)
      else add_char IN_FIELD (the c) p)"

text \<open>One character, or the end-of-line mark \<open>None\<close>.\<close>

definition parse_process_char :: "char option \<Rightarrow> parser \<Rightarrow> parser res" where
  "parse_process_char c p = (case ps_state p of
     START_RECORD \<Rightarrow> if c = None then Inr p
       else if is_break c then Inr (p\<lparr> ps_state := EAT_CRNL \<rparr>)
       else start_field c p
   | START_FIELD \<Rightarrow> start_field c p
   | IN_FIELD \<Rightarrow> if is_break c then Inr (save_field (after_break c) p)
       else if c = Some delimiter then Inr (save_field START_FIELD p)
       else add_char IN_FIELD (the c) p
   | IN_QUOTED_FIELD \<Rightarrow> (case c of None \<Rightarrow> Inr p
       | Some x \<Rightarrow> if x = quotechar then Inr (p\<lparr> ps_state := QUOTE_IN_QUOTED_FIELD \<rparr>) else add_char IN_QUOTED_FIELD x p)
   | QUOTE_IN_QUOTED_FIELD \<Rightarrow> if c = Some quotechar then add_char IN_QUOTED_FIELD quotechar p
       else if c = Some delimiter then Inr (save_field START_FIELD p)
       else if is_break c then Inr (save_field (after_break c) p)
       else add_char IN_FIELD (the c) p
   | EAT_CRNL \<Rightarrow> if c = None then Inr (p\<lparr> ps_state := START_RECORD \<rparr>)
       else if is_break c then Inr p
       else Inl (CsvError ''new-line character seen in unquoted field''))"

fun parse_line :: "parser \<Rightarrow> string \<Rightarrow> parser res" where
  "parse_line p [] = parse_process_char None p"
| "parse_line p (c # cs) = bindR (parse_process_char (Some c) p) (\<lambda>p'. parse_line p' cs)"

fun read_records :: "parser \<Rightarrow> string list \<Rightarrow> string list list res" where
  "read_records p [] = Inr (if ps_field p \<noteq> [] \<or> ps_state p = IN_QUOTED_FIELD then [ps_fields p @ [ps_field p]] else [])"
| "read_records p (l # ls) = bindR (parse_line p l) (\<lambda>p'.
     if ps_state p' = START_RECORD then bindR (read_records parse_reset ls) (\<lambda>rs. Inr (ps_fields p' # rs))
     else read_records p' ls)"

text \<open>The lines of a \<open>StringIO\<close>, which ends a line at every newline and nowhere else.\<close>

fun split_lines :: "string \<Rightarrow> string list" where
  "split_lines [] = []"
| "split_lines (c # s) = (if c = newline then [c] # split_lines s
     else case split_lines s of [] \<Rightarrow> [[c]] | l # ls \<Rightarrow> (c # l) # ls)"

section \<open>Rows as dictionaries\<close>

text \<open>A row has the keys of the header; the fields beyond the header are a list under the key \<open>None\<close>, and a
  missing field is \<open>None\<close>.\<close>

datatype csv_value = Val string | No_value | Rest "string list"

type_synonym csv_row = "(string option, csv_value) pydict"

definition dict_row :: "string list \<Rightarrow> string list \<Rightarrow> csv_row" where
  "dict_row fieldnames row =
     (let d = build_dict (zip (map Some fieldnames) (map Val row)) in
      if length fieldnames < length row then AList.update None (Rest (drop (length fieldnames) row)) d
      else foldl (\<lambda>d k. AList.update (Some k) No_value d) d (drop (length row) fieldnames))"

definition read_csv_rows :: "string \<Rightarrow> csv_row list res" where
  "read_csv_rows content = bindR (read_records parse_reset (split_lines content)) (\<lambda>rs.
     Inr (case rs of [] \<Rightarrow> [] | fieldnames # rows \<Rightarrow> map (dict_row fieldnames) (filter (\<lambda>r. r \<noteq> []) rows)))"

text \<open>What \<open>row.get(column)\<close> finds in such a row: only fields.\<close>

definition row_fields :: "csv_row \<Rightarrow> (string, string) pydict" where
  "row_fields r = List.map_filter (\<lambda>(k, v). case (k, v) of (Some k, Val s) \<Rightarrow> Some (k, s) | _ \<Rightarrow> None) r"

section \<open>Writing\<close>

text \<open>A table written the way spreadsheet programs do when every field is quoted.\<close>

definition quote_field :: "string \<Rightarrow> string" where
  "quote_field f = quotechar # concat (map (\<lambda>c. if c = quotechar then [quotechar, quotechar] else [c]) f) @ [quotechar]"

fun write_row :: "string list \<Rightarrow> string" where
  "write_row [] = [newline]"
| "write_row [f] = quote_field f @ [newline]"
| "write_row (f # g # fs) = quote_field f @ [delimiter] @ write_row (g # fs)"

definition write_csv :: "string list list \<Rightarrow> string" where
  "write_csv rows = concat (map write_row rows)"

section \<open>Lemmas\<close>

lemmas csv_chars = newline_def return_char_def quotechar_def delimiter_def

lemma split_lines_Cons: "c \<noteq> newline \<Longrightarrow> s \<noteq> [] \<Longrightarrow> \<exists>l ls. split_lines s = l # ls \<and> split_lines (c # s) = (c # l) # ls"
  by (cases s) (auto split: list.splits)

text \<open>A character that is not a newline, in front of a text that is not empty.\<close>

lemma read_char:
  assumes "parse_process_char (Some c) p = Inr p'" "c \<noteq> newline" "s \<noteq> []"
  shows "read_records p (split_lines (c # s)) = read_records p' (split_lines s)"
  using split_lines_Cons [OF assms(2,3)] assms(1) by auto

lemma read_quoted_char:
  assumes "ps_state p = IN_QUOTED_FIELD" "length (ps_field p) < field_limit" "c \<noteq> quotechar" "s \<noteq> []"
  shows "read_records p (split_lines (c # s)) = read_records (p\<lparr> ps_field := ps_field p @ [c] \<rparr>) (split_lines s)"
proof -
  have e: "parse_process_char (Some c) p = Inr (p\<lparr> ps_field := ps_field p @ [c] \<rparr>)"
    using assms by (cases p) (simp add: parse_process_char_def add_char_def)
  show ?thesis
  proof (cases "c = newline")
    case True
    then show ?thesis using e assms(1) by (simp add: parse_process_char_def [of None])
  qed (use read_char [OF e _ assms(4)] in simp)
qed

lemma read_quoted:
  assumes "ps_state p = IN_QUOTED_FIELD" "length (ps_field p) + length f \<le> field_limit" "s \<noteq> []"
  shows "read_records p (split_lines (concat (map (\<lambda>c. if c = quotechar then [quotechar, quotechar] else [c]) f) @ s)) =
    read_records (p\<lparr> ps_field := ps_field p @ f \<rparr>) (split_lines s)"
  using assms
proof (induction f arbitrary: p)
  case (Cons c f)
  let ?p = "p\<lparr> ps_field := ps_field p @ [c] \<rparr>" and ?t = "concat (map (\<lambda>c. if c = quotechar then [quotechar, quotechar] else [c]) f) @ s"
  have t: "?t \<noteq> []" using Cons.prems by simp
  have "read_records p (split_lines ((if c = quotechar then [quotechar, quotechar] else [c]) @ ?t)) = read_records ?p (split_lines ?t)"
  proof (cases "c = quotechar")
    case True
    have "read_records p (split_lines (quotechar # quotechar # ?t)) =
        read_records (p\<lparr> ps_state := QUOTE_IN_QUOTED_FIELD \<rparr>) (split_lines (quotechar # ?t))"
      by (rule read_char) (simp_all add: parse_process_char_def Cons.prems csv_chars)
    also have "\<dots> = read_records ?p (split_lines ?t)"
      by (rule read_char) (use Cons.prems t True in \<open>cases p, simp_all add: parse_process_char_def add_char_def csv_chars\<close>)
    finally show ?thesis using True by simp
  qed (use read_quoted_char [OF Cons.prems(1) _ _ t] Cons.prems in simp)
  also have "\<dots> = read_records (?p\<lparr> ps_field := ps_field ?p @ f \<rparr>) (split_lines s)"
    by (rule Cons.IH) (use Cons.prems in simp_all)
  finally show ?case by simp
qed simp

text \<open>A quoted field and what follows it: a delimiter or the end of the line.\<close>

lemma read_quote_field:
  assumes "ps_state p \<in> {START_RECORD, START_FIELD}" "ps_field p = []" "length f \<le> field_limit" "s \<noteq> []"
  shows "read_records p (split_lines (quote_field f @ s)) =
    read_records (p\<lparr> ps_state := QUOTE_IN_QUOTED_FIELD, ps_field := f \<rparr>) (split_lines s)"
proof -
  let ?e = "concat (map (\<lambda>c. if c = quotechar then [quotechar, quotechar] else [c]) f)"
  have "read_records p (split_lines (quotechar # ?e @ quotechar # s)) =
      read_records (p\<lparr> ps_state := IN_QUOTED_FIELD \<rparr>) (split_lines (?e @ quotechar # s))"
    by (rule read_char) (use assms in \<open>auto simp: parse_process_char_def start_field_def is_break_def csv_chars\<close>)
  also have "\<dots> = read_records (p\<lparr> ps_state := IN_QUOTED_FIELD, ps_field := f \<rparr>) (split_lines (quotechar # s))"
    using read_quoted [of "p\<lparr> ps_state := IN_QUOTED_FIELD \<rparr>" f "quotechar # s"] assms by simp
  also have "\<dots> = read_records (p\<lparr> ps_state := QUOTE_IN_QUOTED_FIELD, ps_field := f \<rparr>) (split_lines s)"
    by (rule read_char) (use assms in \<open>simp_all add: parse_process_char_def csv_chars\<close>)
  finally show ?thesis by (simp add: quote_field_def)
qed

lemma read_row:
  assumes "fs \<noteq> []" "list_all (\<lambda>f. length f \<le> field_limit) fs" "ps_state p \<in> {START_RECORD, START_FIELD}" "ps_field p = []"
  shows "read_records p (split_lines (write_row fs @ s)) =
    bindR (read_records parse_reset (split_lines s)) (\<lambda>rs. Inr ((ps_fields p @ fs) # rs))"
  using assms
proof (induction fs arbitrary: p rule: write_row.induct)
  case (2 f)
  let ?p = "p\<lparr> ps_state := QUOTE_IN_QUOTED_FIELD, ps_field := f \<rparr>"
  have "read_records p (split_lines (write_row [f] @ s)) = read_records ?p (split_lines (newline # s))"
    using read_quote_field [of p f "newline # s"] 2 by simp
  also have "\<dots> = bindR (read_records parse_reset (split_lines s)) (\<lambda>rs. Inr ((ps_fields p @ [f]) # rs))"
    by (simp add: parse_process_char_def save_field_def is_break_def after_break_def csv_chars)
  finally show ?case .
next
  case (3 f g fs)
  let ?q = "p\<lparr> ps_state := QUOTE_IN_QUOTED_FIELD, ps_field := f \<rparr>" and ?p = "p\<lparr> ps_state := START_FIELD, ps_field := [], ps_fields := ps_fields p @ [f] \<rparr>"
  have ne: "write_row (g # fs) @ s \<noteq> []" by (cases fs) (simp_all add: quote_field_def)
  have "read_records p (split_lines (write_row (f # g # fs) @ s)) = read_records ?q (split_lines (delimiter # write_row (g # fs) @ s))"
    using read_quote_field [of p f "delimiter # write_row (g # fs) @ s"] 3(2-) by simp
  also have "\<dots> = read_records ?p (split_lines (write_row (g # fs) @ s))"
    by (rule read_char [OF _ _ ne]) (simp_all add: parse_process_char_def save_field_def csv_chars)
  also have "\<dots> = bindR (read_records parse_reset (split_lines s)) (\<lambda>rs. Inr ((ps_fields ?p @ g # fs) # rs))"
    by (rule 3(1)) (use 3(2-) in simp_all)
  finally show ?case by simp
qed simp

lemma read_table:
  assumes "list_all (\<lambda>r. r \<noteq> [] \<and> list_all (\<lambda>f. length f \<le> field_limit) r) rows"
  shows "read_records parse_reset (split_lines (write_csv rows)) = Inr rows"
  using assms
proof (induction rows)
  case (Cons r rows)
  have "read_records parse_reset (split_lines (write_row r @ write_csv rows)) =
      bindR (read_records parse_reset (split_lines (write_csv rows))) (\<lambda>rs. Inr ((ps_fields parse_reset @ r) # rs))"
    by (rule read_row) (use Cons.prems in \<open>simp_all add: parse_reset_def\<close>)
  then show ?case using Cons by (simp add: write_csv_def parse_reset_def)
qed (simp add: write_csv_def parse_reset_def)

lemma dict_row_full: "distinct h \<Longrightarrow> length r = length h \<Longrightarrow> dict_row h r = zip (map Some h) (map Val r)"
  by (simp add: dict_row_def build_dict_id distinct_map)

section \<open>Properties\<close>

text \<open>C33: A table with a header of distinct names and rows as long as the header, written with quoted fields, is
  read back exactly, whatever characters the fields hold (commas, quotes, line breaks), as long as no
  field exceeds the limit of the reader.\<close>

lemma csv_roundtrip:
  assumes "h \<noteq> []" "distinct h" "\<And>r. r \<in> set rows \<Longrightarrow> length r = length h"
    and "\<And>r f. r \<in> set (h # rows) \<Longrightarrow> f \<in> set r \<Longrightarrow> length f \<le> field_limit"
  shows "read_csv_rows (write_csv (h # rows)) = Inr (map (\<lambda>r. zip (map Some h) (map Val r)) rows)"
proof -
  have ne: "r \<noteq> []" if "r \<in> set rows" for r using assms(1,3) that by force
  have "read_records parse_reset (split_lines (write_csv (h # rows))) = Inr (h # rows)"
    by (rule read_table) (use assms ne in \<open>auto simp: list_all_iff\<close>)
  moreover have "filter (\<lambda>r. r \<noteq> []) rows = rows" using ne by (simp add: filter_id_conv)
  ultimately show ?thesis using assms(2,3) by (simp add: read_csv_rows_def dict_row_full)
qed

lemma csv_roundtrip_witness:
  "read_csv_rows (write_csv [[''Item'', ''Price''], [''A,1'', [quotechar, newline]]]) =
     Inr [[(Some ''Item'', Val ''A,1''), (Some ''Price'', Val [quotechar, newline])]]"
proof -
  have "read_csv_rows (write_csv ([''Item'', ''Price''] # [[''A,1'', [quotechar, newline]]])) =
      Inr (map (\<lambda>r. zip (map Some [''Item'', ''Price'']) (map Val r)) [[''A,1'', [quotechar, newline]]])"
    by (rule csv_roundtrip) (auto simp: field_limit_def)
  then show ?thesis by simp
qed

text \<open>A row with more fields than the header keeps them under the key \<open>None\<close>.\<close>

lemma long_row_key: "length h < length r \<Longrightarrow> None \<in> fst ` set (dict_row h r)"
  by (simp add: dict_row_def Let_def update_keys dom_update image_iff) 

end
