(* ===== verification/PriceReviewFlow.thy ===== *)
theory PriceReviewFlow
  imports PriceReviewService AccessControl CsvReader "HOL-Library.Multiset"
begin

text \<open>
  Price reviews from the outside: the routes of \<open>app/api/v1/price_reviews.py\<close> over the operations of
  \<open>PriceReviewService\<close> and \<open>Ingestion\<close>, with the rows they keep.  Rows are found by one identifier that
  stands for the key and the public identifier; row level security shows a review only to its own
  organisation, and its files and lines are reached through it.  A stored file keeps the bytes that were put
  into the object store.  The digest of the bytes, their decoding to text and
  the sheet that \<open>openpyxl\<close> finds in them are parameters.  A query without an order returns its rows in an order chosen by the
  database: the routes take that order as an argument.
\<close>

section \<open>State\<close>

record price_review =
  rv_id :: int
  rv_org :: int
  rv_supplier :: int
  rv_status :: string
  rv_price_basis :: string

record stored_file =
  fl_id :: int
  fl_review :: int
  fl_type :: string
  fl_extension :: string
  fl_bytes :: string
  fl_checksum :: string
  fl_processing_status :: string
  fl_row_count :: "nat option"
  fl_mapping :: "mapped_row option"
  fl_staged :: "mapped_row list option"

record line_row =
  ln_id :: int
  ln_review :: int
  ln_line :: review_line

record review_db =
  db_suppliers :: "(int \<times> int) list"
  db_reviews :: "price_review list"
  db_files :: "stored_file list"
  db_lines :: "line_row list"
  db_templates :: "(int \<times> int \<times> string \<times> mapped_row) list"

text \<open>What the routes use of the libraries: the digest of the bytes, their text and the active sheet of a
  workbook, if it has one.\<close>

record file_io =
  io_digest :: "string \<Rightarrow> string"
  io_decode :: "string \<Rightarrow> string res"
  io_sheet :: "string \<Rightarrow> sheet_cell list list option res"

text \<open>The rows of a file, by its extension.\<close>

definition read_sheet :: "sheet_cell list list option \<Rightarrow> csv_row list res" where
  "read_sheet sheet = bindR (read_workbook sheet) (\<lambda>rows. Inr (map (map (\<lambda>(k, v). (Some k, Val v))) rows))"

definition read_file :: "file_io \<Rightarrow> string \<Rightarrow> string \<Rightarrow> csv_row list res" where
  "read_file io extension file_bytes =
     (if lower extension = ''csv'' then bindR (io_decode io file_bytes) read_csv_rows
      else bindR (io_sheet io file_bytes) read_sheet)"

definition review_files :: "review_db \<Rightarrow> int \<Rightarrow> stored_file list" where
  "review_files db r = filter (\<lambda>f. fl_review f = r) (db_files db)"

definition review_lines :: "review_db \<Rightarrow> int \<Rightarrow> review_line list" where
  "review_lines db r = map ln_line (filter (\<lambda>l. ln_review l = r) (db_lines db))"

section \<open>Finding a row\<close>

definition get_review :: "review_db \<Rightarrow> access_token_claims \<Rightarrow> int \<Rightarrow> price_review res" where
  "get_review db c r = (case find (\<lambda>v. rv_id v = r \<and> rv_org v = cl_active_org_id c) (db_reviews db) of
     None \<Rightarrow> Inl (NotFoundError ''Price review not found'') | Some v \<Rightarrow> Inr v)"

definition get_line :: "review_db \<Rightarrow> int \<Rightarrow> int \<Rightarrow> line_row res" where
  "get_line db review_id l = (case find (\<lambda>x. ln_id x = l \<and> ln_review x = review_id) (db_lines db) of
     None \<Rightarrow> Inl (NotFoundError ''Price review line not found'') | Some x \<Rightarrow> Inr x)"

section \<open>Creating a review\<close>

definition create_review :: "review_db \<Rightarrow> int \<Rightarrow> int \<Rightarrow> string \<Rightarrow> (review_db \<times> price_review) res" where
  "create_review db organisation_id supplier_public_id price_basis =
     (if (supplier_public_id, organisation_id) \<notin> set (db_suppliers db) then Inl (NotFoundError ''Supplier not found'')
      else let v = \<lparr> rv_id = next_id (map rv_id (db_reviews db)), rv_org = organisation_id, rv_supplier = supplier_public_id,
             rv_status = ''draft'', rv_price_basis = price_basis \<rparr>
      in Inr (db\<lparr> db_reviews := db_reviews db @ [v] \<rparr>, v))"

definition create_price_review :: "review_db \<Rightarrow> access_token_claims \<Rightarrow> int \<Rightarrow> string \<Rightarrow> (review_db \<times> price_review) res" where
  "create_price_review db c supplier_public_id price_basis = bindR (require_permission UPLOAD_DATA c) (\<lambda>c.
     if price_basis \<notin> {''tax_inclusive'', ''tax_exclusive''} then Inl (ValidationFailedError ''price_basis'')
     else create_review db (cl_active_org_id c) supplier_public_id price_basis)"

section \<open>Uploading a file\<close>

text \<open>The service compares the digest with the files of the review.\<close>

definition as_review_file :: "stored_file \<Rightarrow> review_file" where
  "as_review_file f = \<lparr> rf_type = fl_type f, rf_checksum = fl_checksum f, rf_status = fl_processing_status f \<rparr>"

definition add_file :: "file_io \<Rightarrow> review_db \<Rightarrow> int \<Rightarrow> string \<Rightarrow> string \<Rightarrow> string \<Rightarrow> (review_db \<times> stored_file) res" where
  "add_file io db review_id file_type extension file_bytes =
     bindR (register_uploaded_file (map as_review_file (review_files db review_id)) file_type (io_digest io file_bytes)) (\<lambda>_.
     let f = \<lparr> fl_id = next_id (map fl_id (db_files db)), fl_review = review_id, fl_type = file_type, fl_extension = extension,
           fl_bytes = file_bytes, fl_checksum = io_digest io file_bytes, fl_processing_status = ''uploaded'',
           fl_row_count = None, fl_mapping = None, fl_staged = None \<rparr>
     in Inr (db\<lparr> db_files := db_files db @ [f] \<rparr>, f))"

text \<open>The file is committed before its rows are read: the answer may be an error and the row stay.\<close>

record upload_answer =
  ur_file :: int
  ur_row_count :: nat
  ur_suggested_mapping :: mapped_row
  ur_source_columns :: "string list"

text \<open>The columns are the keys of the first row; the key \<open>None\<close> is no text that could be stripped.\<close>

definition upload_response :: "file_io \<Rightarrow> stored_file \<Rightarrow> upload_answer res" where
  "upload_response io f = bindR (read_file io (fl_extension f) (fl_bytes f)) (\<lambda>rows.
     let columns = (case rows of [] \<Rightarrow> [] | r # _ \<Rightarrow> map fst r) in
     if None \<in> set columns then Inl AttributeError
     else Inr \<lparr> ur_file = fl_id f, ur_row_count = length rows,
       ur_suggested_mapping = (if rows = [] then [] else suggest_mapping (map the columns) canonical_fields aliases),
       ur_source_columns = map the columns \<rparr>)"

definition upload_price_list_file ::
    "file_io \<Rightarrow> review_db \<Rightarrow> access_token_claims \<Rightarrow> int \<Rightarrow> string \<Rightarrow> string \<Rightarrow> string \<Rightarrow> review_db \<times> upload_answer res" where
  "upload_price_list_file io db c r file_type extension file_bytes =
     (case bindR (require_permission UPLOAD_DATA c) (\<lambda>c.
         if file_type \<notin> {''previous'', ''new''} then Inl (ValidationFailedError ''file_type must be'')
         else bindR (get_review db c r) (\<lambda>v. add_file io db (rv_id v) file_type extension file_bytes)) of
       Inl e \<Rightarrow> (db, Inl e)
     | Inr (db', f) \<Rightarrow> (db', upload_response io f))"

section \<open>Confirming a mapping\<close>

definition stage :: "mapped_row \<Rightarrow> mapped_row list \<Rightarrow> nat \<Rightarrow> stored_file \<Rightarrow> stored_file" where
  "stage column_mapping rows n f = f\<lparr> fl_mapping := Some column_mapping, fl_staged := Some rows, fl_row_count := Some n, fl_processing_status := ''validated'' \<rparr>"

definition confirm_column_mapping ::
    "file_io \<Rightarrow> review_db \<Rightarrow> access_token_claims \<Rightarrow> int \<Rightarrow> int \<Rightarrow> mapped_row \<Rightarrow> string option \<Rightarrow> (review_db \<times> issue_summary) res" where
  "confirm_column_mapping io db c r file_public_id column_mapping save_as_template_name =
     bindR (require_permission UPLOAD_DATA c) (\<lambda>c. bindR (get_review db c r) (\<lambda>v.
     case find (\<lambda>f. fl_id f = file_public_id \<and> fl_review f = rv_id v) (db_files db) of
       None \<Rightarrow> Inl (NotFoundError ''Price review file not found'')
     | Some file_record \<Rightarrow> bindR (read_file io (fl_extension file_record) (fl_bytes file_record)) (\<lambda>raw_rows.
         let mapped_rows = map (\<lambda>row. apply_mapping (row_fields row) column_mapping) raw_rows in
         bindR (validate_rows mapped_rows) (\<lambda>validated. bindR (staged_rows mapped_rows) (\<lambda>staged. Inr
           (db\<lparr> db_files := map (\<lambda>f. if fl_id f = fl_id file_record then stage column_mapping staged (length raw_rows) f else f)
                  (db_files db),
                db_templates := db_templates db @ (case save_as_template_name of None \<Rightarrow> []
                  | Some n \<Rightarrow> if n = [] then [] else [(cl_active_org_id c, rv_supplier v, n, column_mapping)]) \<rparr>,
            summarize_issues validated))))))"

section \<open>Matching\<close>

definition number_lines :: "int list \<Rightarrow> int \<Rightarrow> review_line list \<Rightarrow> line_row list" where
  "number_lines used review_id ls =
     map (\<lambda>(k, l). \<lparr> ln_id = next_id used + int k, ln_review = review_id, ln_line = l \<rparr>) (enumerate 0 ls)"

definition set_status :: "int \<Rightarrow> string \<Rightarrow> price_review list \<Rightarrow> price_review list" where
  "set_status r s = map (\<lambda>v. if rv_id v = r then v\<lparr> rv_status := s \<rparr> else v)"

definition status_after :: "review_line list \<Rightarrow> string" where
  "status_after ls = (if list_ex (\<lambda>l. pl_match_status l = REVIEW_REQUIRED) ls then ''review_required'' else ''analysing'')"

text \<open>The rows of the two lists: of several files of one type the one the database returns last.\<close>

definition lists_to_match :: "stored_file list \<Rightarrow> (mapped_row list \<times> mapped_row list) res" where
  "lists_to_match scanned = (let files = build_dict (map (\<lambda>f. (fl_type f, f)) scanned) in
     case (map_of files ''previous'', map_of files ''new'') of
       (Some p, Some n) \<Rightarrow> (case (fl_staged p, fl_staged n) of
           (Some old_rows, Some new_rows) \<Rightarrow> Inr (old_rows, new_rows)
         | _ \<Rightarrow> Inl (ValidationFailedError ''Both files must have a confirmed column mapping before matching''))
     | _ \<Rightarrow> Inl (ValidationFailedError ''Both''))"

definition run_product_matching ::
    "(stored_file list \<Rightarrow> stored_file list) \<Rightarrow> review_db \<Rightarrow> access_token_claims \<Rightarrow> int \<Rightarrow> (review_db \<times> string \<times> nat) res" where
  "run_product_matching scan db c r = bindR (require_permission UPLOAD_DATA c) (\<lambda>c. bindR (get_review db c r) (\<lambda>v.
     bindR (lists_to_match (scan (review_files db (rv_id v)))) (\<lambda>(old_rows, new_rows).
     bindR (run_matching old_rows new_rows) (\<lambda>ls.
     Inr (db\<lparr> db_lines := db_lines db @ number_lines (map ln_id (db_lines db)) (rv_id v) ls,
              db_reviews := set_status (rv_id v) (status_after ls) (db_reviews db) \<rparr>, status_after ls, length ls)))))"

section \<open>Decisions on a line\<close>

definition update_line :: "review_db \<Rightarrow> line_row \<Rightarrow> review_line \<Rightarrow> review_db \<times> review_line" where
  "update_line db x l = (db\<lparr> db_lines := map (\<lambda>y. if ln_id y = ln_id x then y\<lparr> ln_line := l \<rparr> else y) (db_lines db) \<rparr>, l)"

definition resolve_match_decision ::
    "review_db \<Rightarrow> access_token_claims \<Rightarrow> int \<Rightarrow> int \<Rightarrow> match_action \<Rightarrow> int option \<Rightarrow> (review_db \<times> review_line) res" where
  "resolve_match_decision db c r l act chosen = bindR (require_permission UPLOAD_DATA c) (\<lambda>c. bindR (get_review db c r) (\<lambda>v.
     bindR (get_line db (rv_id v) l) (\<lambda>x.
     bindR (case chosen of Some k \<Rightarrow> if act = Choose_different then bindR (get_line db (rv_id v) k) (\<lambda>y. Inr (Some (ln_line y)))
         else Inr None | None \<Rightarrow> Inr None) (\<lambda>candidate.
     bindR (resolve_match (cl_user_id c) act candidate (ln_line x)) (\<lambda>l'. Inr (update_line db x l'))))))"

definition change_line ::
    "permission \<Rightarrow> (review_line \<Rightarrow> review_line res) \<Rightarrow> review_db \<Rightarrow> access_token_claims \<Rightarrow> int \<Rightarrow> int \<Rightarrow> (review_db \<times> review_line) res" where
  "change_line p op db c r l = bindR (require_permission p c) (\<lambda>c. bindR (get_review db c r) (\<lambda>v.
     bindR (get_line db (rv_id v) l) (\<lambda>x. bindR (op (ln_line x)) (\<lambda>l'. Inr (update_line db x l')))))"

definition set_line_manual_quantity ::
    "rat \<Rightarrow> rat option \<Rightarrow> review_db \<Rightarrow> access_token_claims \<Rightarrow> int \<Rightarrow> int \<Rightarrow> (review_db \<times> review_line) res" where
  "set_line_manual_quantity q sell = change_line UPLOAD_DATA (set_manual_quantity q sell)"

definition buyer_decisions :: "string list" where
  "buyer_decisions = [''accept'', ''challenge'', ''negotiate'', ''investigate'', ''ignore'']"

definition set_line_buyer_decision ::
    "string \<Rightarrow> review_db \<Rightarrow> access_token_claims \<Rightarrow> int \<Rightarrow> int \<Rightarrow> (review_db \<times> review_line) res" where
  "set_line_buyer_decision d = change_line APPROVE_PRICE_INCREASES (\<lambda>l.
     if d \<notin> set buyer_decisions then Inl (ValidationFailedError ''decision'') else set_buyer_decision d l)"

definition set_line_negotiation_target ::
    "rat \<Rightarrow> review_db \<Rightarrow> access_token_claims \<Rightarrow> int \<Rightarrow> int \<Rightarrow> (review_db \<times> review_line) res" where
  "set_line_negotiation_target t = change_line APPROVE_PRICE_INCREASES (set_negotiation_target t)"

definition record_line_negotiation_outcome ::
    "rat \<Rightarrow> review_db \<Rightarrow> access_token_claims \<Rightarrow> int \<Rightarrow> int \<Rightarrow> (review_db \<times> review_line) res" where
  "record_line_negotiation_outcome t = change_line APPROVE_PRICE_INCREASES (record_negotiation_outcome t)"

section \<open>Reading\<close>

definition list_price_review_lines :: "review_db \<Rightarrow> access_token_claims \<Rightarrow> int \<Rightarrow> review_line list res" where
  "list_price_review_lines db c r = bindR (require_permission VIEW_FINANCIALS c) (\<lambda>c. bindR (get_review db c r) (\<lambda>v.
     Inr (review_lines db (rv_id v))))"

definition get_price_review_summary :: "review_db \<Rightarrow> access_token_claims \<Rightarrow> int \<Rightarrow> supplier_summary res" where
  "get_price_review_summary db c r = bindR (require_permission VIEW_FINANCIALS c) (\<lambda>c. bindR (get_review db c r) (\<lambda>v.
     get_summary (review_lines db (rv_id v))))"

section \<open>Histories\<close>

inductive review_step :: "file_io \<Rightarrow> review_db \<Rightarrow> review_db \<Rightarrow> bool" for io where
  Step_create: "create_price_review db c s b = Inr (db', v) \<Longrightarrow> review_step io db db'"
| Step_upload: "upload_price_list_file io db c r ty ext bytes = (db', resp) \<Longrightarrow> review_step io db db'"
| Step_map: "confirm_column_mapping io db c r f m tpl = Inr (db', s) \<Longrightarrow> review_step io db db'"
| Step_match: "(\<And>fs. mset (scan fs) = mset fs) \<Longrightarrow> run_product_matching scan db c r = Inr (db', st, n) \<Longrightarrow> review_step io db db'"
| Step_resolve: "resolve_match_decision db c r l act chosen = Inr (db', x) \<Longrightarrow> review_step io db db'"
| Step_quantity: "set_line_manual_quantity q sell db c r l = Inr (db', x) \<Longrightarrow> review_step io db db'"
| Step_decision: "set_line_buyer_decision d db c r l = Inr (db', x) \<Longrightarrow> review_step io db db'"
| Step_target: "set_line_negotiation_target t db c r l = Inr (db', x) \<Longrightarrow> review_step io db db'"
| Step_outcome: "record_line_negotiation_outcome t db c r l = Inr (db', x) \<Longrightarrow> review_step io db db'"

definition no_reviews :: "(int \<times> int) list \<Rightarrow> review_db" where
  "no_reviews suppliers = \<lparr> db_suppliers = suppliers, db_reviews = [], db_files = [], db_lines = [], db_templates = [] \<rparr>"

section \<open>The invariant\<close>

definition staged_ok :: "mapped_row list \<Rightarrow> bool" where
  "staged_ok rows = (list_all (\<lambda>r. price_row_ok r \<and> text_or_none (cell r ''supplier_sku'') \<noteq> None) rows \<and>
     distinct (map (\<lambda>r. text_or_none (cell r ''supplier_sku'')) rows))"

definition file_ok :: "file_io \<Rightarrow> stored_file \<Rightarrow> bool" where
  "file_ok io f = (fl_type f \<in> {''previous'', ''new''} \<and> fl_checksum f = io_digest io (fl_bytes f) \<and>
     (case fl_staged f of None \<Rightarrow> fl_processing_status f = ''uploaded''
      | Some rows \<Rightarrow> fl_processing_status f = ''validated'' \<and> staged_ok rows))"

definition ready :: "review_db \<Rightarrow> int \<Rightarrow> bool" where
  "ready db r = (\<forall>ty\<in>{''previous'', ''new''}. \<exists>f\<in>set (review_files db r). fl_type f = ty \<and> fl_staged f \<noteq> None)"

definition review_inv :: "file_io \<Rightarrow> review_db \<Rightarrow> bool" where
  "review_inv io db =
     (distinct (map rv_id (db_reviews db)) \<and> distinct (map fl_id (db_files db)) \<and> distinct (map ln_id (db_lines db)) \<and>
      (\<forall>f\<in>set (db_files db). file_ok io f \<and> fl_review f \<in> rv_id ` set (db_reviews db)) \<and>
      distinct (map (\<lambda>f. (fl_review f, fl_checksum f)) (db_files db)) \<and>
      (\<forall>v\<in>set (db_reviews db). (rv_supplier v, rv_org v) \<in> set (db_suppliers db) \<and>
         (rv_status v = ''draft'' \<or> rv_status v \<in> {''analysing'', ''review_required''} \<and> ready db (rv_id v))) \<and>
      (\<forall>x\<in>set (db_lines db). line_to_scale (ln_line x) = ln_line x \<and>
         (\<exists>v\<in>set (db_reviews db). rv_id v = ln_review x \<and> rv_status v \<noteq> ''draft'')))"

section \<open>Lemmas\<close>

lemma staged_from:
  assumes "validate_from idx seen rows = Inr vs"
  defines "st \<equiv> map fst (filter (\<lambda>(r, v). is_valid v) (zip rows vs))"
  shows "(\<forall>r\<in>set st. price_row_ok r \<and> (\<exists>s. text_or_none (cell r ''supplier_sku'') = Some s \<and> map_of seen s = None)) \<and>
    distinct (map (\<lambda>r. text_or_none (cell r ''supplier_sku'')) st)"
  using assms(1) unfolding st_def
proof (induction idx seen rows arbitrary: vs rule: validate_from.induct)
  case (2 idx seen row rows)
  obtain r rs where r: "validate_price_row idx seen row = Inr r" "vs = r # rs"
    "validate_from (idx + 1) (see seen (vr_supplier_sku r) idx) rows = Inr rs"
    using 2(2) by (auto simp: res_simps)
  note v = validate_price_row_valid [OF r(1)]
  note ih = 2(1) [OF r(1) r(3), unfolded see_None]
  show ?case using ih v by (fastforce simp: r(2))
qed simp

lemma staged_rows_ok: "staged_rows rows = Inr st \<Longrightarrow> staged_ok st"
  using staged_from [of 1 "[]" rows] by (fastforce simp: staged_rows_def validate_rows_def staged_ok_def list_all_iff res_simps)

lemma staged_rows_in: "staged_rows rows = Inr st \<Longrightarrow> row \<in> set st \<Longrightarrow> row \<in> set rows"
  by (auto simp: staged_rows_def bindR_eq_Inr dest!: set_zip_leftD)

lemma apply_mapping_price: "map_of m f \<in> {None, Some None} \<Longrightarrow> cell (apply_mapping row m) f = None"
proof -
  assume "map_of m f \<in> {None, Some None}"
  then have "map_of (apply_mapping row m) f \<in> {None, Some None}"
    unfolding apply_mapping_def by (induction m) auto
  then show ?thesis by (auto simp: cell_def dict_get_def)
qed

lemma to_scale_idem: "to_scale s (to_scale s x) = to_scale s x"
  by (rule to_scale_grid) (simp add: to_scale_def)

lemma line_to_scale_idem: "line_to_scale (line_to_scale l) = line_to_scale l"
  by (simp add: line_to_scale_def Let_def option.map_comp comp_def to_scale_idem)

lemma saved_line: "save_line l = Inr l' \<Longrightarrow> line_to_scale l' = l'"
  by (auto dest: save_line_InrD simp: line_to_scale_idem)

lemma run_matching_saved: "run_matching olds news = Inr ls \<Longrightarrow> l \<in> set ls \<Longrightarrow> line_to_scale l = l"
  by (auto simp: run_matching_def Let_def bindR_eq_Inr line_to_scale_idem dest!: saved_lines)

lemma operations_saved:
  "resolve_match u act k l = Inr l' \<Longrightarrow> line_to_scale l' = l'"
  "set_manual_quantity q sell l = Inr l' \<Longrightarrow> line_to_scale l' = l'"
  "set_buyer_decision d l = Inr l' \<Longrightarrow> line_to_scale l' = l'"
  "set_negotiation_target t l = Inr l' \<Longrightarrow> line_to_scale l' = l'"
  "record_negotiation_outcome t l = Inr l' \<Longrightarrow> line_to_scale l' = l'"
  by (auto simp: resolve_match_def set_manual_quantity_def set_buyer_decision_def set_negotiation_target_def
      record_negotiation_outcome_def res_simps Let_def dest!: saved_line split: if_splits)

lemma get_review_InrD: "get_review db c r = Inr v \<Longrightarrow> v \<in> set (db_reviews db) \<and> rv_id v = r \<and> rv_org v = cl_active_org_id c"
  by (auto simp: get_review_def find_Some_iff split: option.splits)

lemma get_line_InrD: "get_line db r l = Inr x \<Longrightarrow> x \<in> set (db_lines db) \<and> ln_id x = l \<and> ln_review x = r"
  by (auto simp: get_line_def find_Some_iff split: option.splits)

text \<open>Every operation either adds rows or changes one column of one row.\<close>

lemma distinct_snoc: "distinct (map f (xs @ [x])) \<longleftrightarrow> distinct (map f xs) \<and> f x \<notin> f ` set xs"
  by auto

lemma ready_mono: "set (db_files db) \<subseteq> set (db_files db') \<Longrightarrow> ready db r \<Longrightarrow> ready db' r"
  by (fastforce simp: ready_def review_files_def)

lemma create_review_inv:
  assumes "review_inv io db" "create_review db org s b = Inr (db', v)"
  shows "review_inv io db'"
proof -
  have db': "db' = db\<lparr> db_reviews := db_reviews db @ [v] \<rparr>" and v: "rv_id v = next_id (map rv_id (db_reviews db))"
    "rv_status v = ''draft''" "(rv_supplier v, rv_org v) \<in> set (db_suppliers db)"
    using assms(2) by (auto simp: create_review_def Let_def split: if_splits)
  have new: "rv_id v \<notin> rv_id ` set (db_reviews db)" unfolding v(1) using next_id_new [of "map rv_id (db_reviews db)"] by simp
  have rd: "ready db' r = ready db r" for r by (simp add: ready_def review_files_def db')
  show ?thesis using assms(1) new v(2,3) unfolding review_inv_def rd by (auto simp: db')
qed

lemma add_file_inv:
  assumes inv: "review_inv io db" and a: "add_file io db r ty ext bytes = Inr (db', f)"
    and r: "r \<in> rv_id ` set (db_reviews db)" and ty: "ty \<in> {''previous'', ''new''}"
  shows "review_inv io db'"
proof -
  have fresh: "io_digest io bytes \<notin> set (map fl_checksum (review_files db r))"
    using a by (auto simp: add_file_def res_simps register_uploaded_file_def as_review_file_def list_ex_iff split: if_splits)
  have db': "db' = db\<lparr> db_files := db_files db @ [f] \<rparr>" and f: "fl_id f = next_id (map fl_id (db_files db))" "fl_review f = r"
    "file_ok io f" "fl_checksum f = io_digest io bytes"
    using a ty by (auto simp: add_file_def res_simps Let_def file_ok_def)
  have new: "fl_id f \<notin> fl_id ` set (db_files db)" unfolding f(1) using next_id_new [of "map fl_id (db_files db)"] by simp
  have key: "(fl_review f, fl_checksum f) \<notin> (\<lambda>f. (fl_review f, fl_checksum f)) ` set (db_files db)"
    using fresh by (auto simp: f(2,4) review_files_def)
  have rd: "ready db r' \<Longrightarrow> ready db' r'" for r' by (rule ready_mono) (auto simp: db')
  show ?thesis using inv new key f(2,3) r rd unfolding review_inv_def distinct_snoc
    by (auto simp: db')
qed

text \<open>Replacing the columns of a row that its identity does not depend on.\<close>

lemma map_at: "(\<And>x. P x \<Longrightarrow> f (g x) = f x) \<Longrightarrow> map f (map (\<lambda>x. if P x then g x else x) xs) = map f xs"
  by simp

lemma stage_simps [simp]: "fl_id (stage m rows n f) = fl_id f" "fl_review (stage m rows n f) = fl_review f"
  "fl_type (stage m rows n f) = fl_type f" "fl_extension (stage m rows n f) = fl_extension f" "fl_checksum (stage m rows n f) = fl_checksum f" "fl_bytes (stage m rows n f) = fl_bytes f"
  "fl_staged (stage m rows n f) = Some rows" "fl_processing_status (stage m rows n f) = ''validated''"
  by (simp_all add: stage_def)

lemma confirm_rows:
  assumes "confirm_column_mapping io db c r k m tpl = Inr (db', s)"
  obtains raw n tpls staged where "staged_rows (map (\<lambda>row. apply_mapping (row_fields row) m) raw) = Inr staged"
    "db' = db\<lparr> db_files := map (\<lambda>f. if fl_id f = k then stage m staged n f else f) (db_files db), db_templates := tpls \<rparr>"
    "\<exists>f\<in>set (db_files db). fl_id f = k \<and> read_file io (fl_extension f) (fl_bytes f) = Inr raw"
proof -
  obtain f where f: "find (\<lambda>f. fl_id f = k \<and> fl_review f = r) (db_files db) = Some f"
    using assms by (auto simp: confirm_column_mapping_def res_simps split: option.splits dest!: get_review_InrD)
  then have id: "fl_id f = k" and inside: "f \<in> set (db_files db)" by (auto simp: find_Some_iff)
  obtain rows where rows: "read_file io (fl_extension f) (fl_bytes f) = Inr rows"
    using assms f by (auto simp: confirm_column_mapping_def res_simps dest!: get_review_InrD)
  obtain staged where st: "staged_rows (map (\<lambda>row. apply_mapping (row_fields row) m) rows) = Inr staged"
    using assms f rows by (auto simp: confirm_column_mapping_def res_simps Let_def dest!: get_review_InrD)
  have "\<exists>f\<in>set (db_files db). fl_id f = k \<and> read_file io (fl_extension f) (fl_bytes f) = Inr rows"
    using id inside rows by blast
  then show ?thesis
    using assms f rows st id that [OF st]
    by (auto simp: confirm_column_mapping_def res_simps Let_def dest!: get_review_InrD)
qed

lemma confirm_InrD:
  assumes "confirm_column_mapping io db c r k m tpl = Inr (db', s)"
  obtains staged n tpls where "staged_ok staged"
    "db' = db\<lparr> db_files := map (\<lambda>f. if fl_id f = k then stage m staged n f else f) (db_files db), db_templates := tpls \<rparr>"
  using assms by (rule confirm_rows) (rule that, erule staged_rows_ok)

lemma confirm_inv:
  assumes inv: "review_inv io db" and c: "confirm_column_mapping io db c r k m tpl = Inr (db', s)"
  shows "review_inv io db'"
proof -
  obtain staged n tpls where st: "staged_ok staged"
    and db': "db' = db\<lparr> db_files := map (\<lambda>f. if fl_id f = k then stage m staged n f else f) (db_files db), db_templates := tpls \<rparr>"
    using c by (rule confirm_InrD)
  have ids: "map fl_id (db_files db') = map fl_id (db_files db)"
    "map (\<lambda>f. (fl_review f, fl_checksum f)) (db_files db') = map (\<lambda>f. (fl_review f, fl_checksum f)) (db_files db)"
    by (simp_all add: db')
  have files: "\<forall>f\<in>set (db_files db'). file_ok io f \<and> fl_review f \<in> rv_id ` set (db_reviews db)"
    using inv st by (auto simp: db' review_inv_def file_ok_def)
  have rd: "ready db' r'" if "ready db r'" for r'
    unfolding ready_def
  proof
    fix ty assume "ty \<in> {''previous'', ''new''}"
    then obtain f where "f \<in> set (review_files db r')" "fl_type f = ty" "fl_staged f \<noteq> None"
      using \<open>ready db r'\<close> by (auto simp: ready_def)
    then show "\<exists>f\<in>set (review_files db' r'). fl_type f = ty \<and> fl_staged f \<noteq> None"
      by (intro bexI [of _ "if fl_id f = k then stage m staged n f else f"]) (auto simp: review_files_def db')
  qed
  have same: "db_reviews db' = db_reviews db" "db_lines db' = db_lines db" "db_suppliers db' = db_suppliers db" by (simp_all add: db')
  show ?thesis using inv files rd unfolding review_inv_def ids same by blast
qed

lemma number_lines_ids:
  "ln_id ` set (number_lines used r ls) \<inter> set used = {}" "distinct (map ln_id (number_lines used r ls))"
  "map ln_line (number_lines used r ls) = ls" "x \<in> set (number_lines used r ls) \<Longrightarrow> ln_review x = r"
proof -
  have "i < next_id used" if "i \<in> set used" for i using that by (rule next_id_greater)
  then show "ln_id ` set (number_lines used r ls) \<inter> set used = {}" by (force simp: number_lines_def)
  have "map ln_id (number_lines used r ls) = map (\<lambda>k. next_id used + int k) (map fst (enumerate 0 ls))"
    by (simp add: number_lines_def case_prod_unfold comp_def del: map_fst_enumerate)
  then show "distinct (map ln_id (number_lines used r ls))" by (simp add: distinct_map inj_on_def del: map_map)
  show "map ln_line (number_lines used r ls) = ls" by (simp add: number_lines_def case_prod_unfold comp_def map_snd_enumerate)
  show "x \<in> set (number_lines used r ls) \<Longrightarrow> ln_review x = r" by (auto simp: number_lines_def)
qed

lemma match_InrD:
  assumes "run_product_matching scan db c r = Inr (db', st, n)"
  obtains olds news ls where "lists_to_match (scan (review_files db r)) = Inr (olds, news)" "run_matching olds news = Inr ls"
    "r \<in> rv_id ` set (db_reviews db)" "st = status_after ls" "n = length ls"
    "db' = db\<lparr> db_lines := db_lines db @ number_lines (map ln_id (db_lines db)) r ls, db_reviews := set_status r st (db_reviews db) \<rparr>"
  using assms that by (force simp: run_product_matching_def res_simps dest!: get_review_InrD)

lemma lists_to_match_InrD:
  assumes "lists_to_match fs = Inr (olds, news)"
  obtains p n where "p \<in> set fs" "fl_type p = ''previous''" "fl_staged p = Some olds"
    "n \<in> set fs" "fl_type n = ''new''" "fl_staged n = Some news"
proof -
  let ?d = "build_dict (map (\<lambda>f. (fl_type f, f)) fs)"
  obtain p n where "map_of ?d ''previous'' = Some p" "map_of ?d ''new'' = Some n" "fl_staged p = Some olds" "fl_staged n = Some news"
    using assms by (auto simp: lists_to_match_def Let_def split: option.splits)
  moreover have in_scan: "x \<in> set fs \<and> fl_type x = ty" if "map_of ?d ty = Some x" for x ty
    using build_dict_in [OF that] by auto
  ultimately show ?thesis using that in_scan by blast
qed

lemma status_after_cases: "status_after ls \<in> {''analysing'', ''review_required''}"
  by (simp add: status_after_def)

lemma set_status_ids [simp]: "map rv_id (set_status r s vs) = map rv_id vs"
  by (simp add: set_status_def)

lemma match_inv:
  assumes inv: "review_inv io db" and scan: "\<And>fs. mset (scan fs) = mset fs"
    and m: "run_product_matching scan db c r = Inr (db', st, n)"
  shows "review_inv io db'"
proof -
  obtain olds news ls where l: "lists_to_match (scan (review_files db r)) = Inr (olds, news)" "run_matching olds news = Inr ls"
    "r \<in> rv_id ` set (db_reviews db)" "st = status_after ls"
    and db': "db' = db\<lparr> db_lines := db_lines db @ number_lines (map ln_id (db_lines db)) r ls, db_reviews := set_status r st (db_reviews db) \<rparr>"
    using m by (rule match_InrD)
  have set: "set (scan (review_files db r)) = set (review_files db r)" by (rule mset_eq_setD) (rule scan)
  have rd: "ready db' r' = ready db r'" for r' by (simp add: ready_def review_files_def db')
  have "ready db r" using l(1) unfolding ready_def by (rule lists_to_match_InrD) (auto simp: set)
  moreover have st: "st \<in> {''analysing'', ''review_required''}" unfolding l(4) by (rule status_after_cases)
  ultimately have reviews: "\<forall>v\<in>set (db_reviews db'). (rv_supplier v, rv_org v) \<in> set (db_suppliers db) \<and>
      (rv_status v = ''draft'' \<or> rv_status v \<in> {''analysing'', ''review_required''} \<and> ready db (rv_id v))"
    using inv by (auto simp: db' set_status_def review_inv_def)
  have ids: "map rv_id (db_reviews db') = map rv_id (db_reviews db)" by (simp add: db')
  then have "rv_id ` set (db_reviews db') = rv_id ` set (db_reviews db)" by (metis set_map)
  note ids = ids this
  note nl = number_lines_ids [where used = "map ln_id (db_lines db)" and r = r and ls = ls]
  have dist: "distinct (map ln_id (db_lines db'))" using inv nl(1,2) by (auto simp: db' review_inv_def)
  have drafted: "\<exists>v\<in>set (db_reviews db'). rv_id v = i \<and> rv_status v \<noteq> ''draft''"
    if i: "i = r \<or> (\<exists>v\<in>set (db_reviews db). rv_id v = i \<and> rv_status v \<noteq> ''draft'')" for i
  proof -
    obtain v where v: "v \<in> set (db_reviews db)" "rv_id v = i" "i = r \<or> rv_status v \<noteq> ''draft''" using i l(3) by auto
    then have "(if i = r then v\<lparr> rv_status := st \<rparr> else v) \<in> set (db_reviews db')" by (auto simp: db' set_status_def)
    then show ?thesis using v st by (intro bexI) (auto split: if_splits)
  qed
  have scaled: "line_to_scale (ln_line x) = ln_line x" if "x \<in> set (number_lines (map ln_id (db_lines db)) r ls)" for x
    using that nl(3) run_matching_saved [OF l(2)] by (metis image_eqI set_map)
  have lines: "\<forall>x\<in>set (db_lines db'). line_to_scale (ln_line x) = ln_line x \<and>
      (\<exists>v\<in>set (db_reviews db'). rv_id v = ln_review x \<and> rv_status v \<noteq> ''draft'')"
    using inv scaled nl(4) by (auto simp: db'(1) review_inv_def intro!: drafted [unfolded db', simplified])
  show ?thesis using inv reviews dist lines unfolding review_inv_def ids rd by (simp add: db')
qed

lemma update_line_inv:
  assumes inv: "review_inv io db" and u: "update_line db x l = (db', l')" and l: "line_to_scale l = l"
  shows "review_inv io db'"
proof -
  have ids: "map ln_id (db_lines db') = map ln_id (db_lines db)" using u by (auto simp: update_line_def)
  have same: "db_reviews db' = db_reviews db" "db_files db' = db_files db" "db_suppliers db' = db_suppliers db"
    using u by (auto simp: update_line_def)
  have rd: "ready db' r = ready db r" for r by (simp add: ready_def review_files_def same)
  have "\<forall>y\<in>set (db_lines db'). line_to_scale (ln_line y) = ln_line y \<and>
      (\<exists>v\<in>set (db_reviews db). rv_id v = ln_review y \<and> rv_status v \<noteq> ''draft'')"
    using u inv l by (auto simp: update_line_def review_inv_def)
  then show ?thesis using inv unfolding review_inv_def ids same rd by blast
qed

lemma change_line_InrD:
  assumes "change_line p op db c r l = Inr (db', l')"
  obtains x where "x \<in> set (db_lines db)" "op (ln_line x) = Inr l'" "update_line db x l' = (db', l')"
  using assms by (auto simp: change_line_def res_simps update_line_def dest!: get_line_InrD)

lemmas line_routes = set_line_manual_quantity_def set_line_buyer_decision_def set_line_negotiation_target_def
  record_line_negotiation_outcome_def

lemma change_line_inv:
  assumes "change_line p op db c r l = Inr (db', l')" "review_inv io db"
    and "\<And>x y. op x = Inr y \<Longrightarrow> line_to_scale y = y"
  shows "review_inv io db'"
  using assms(1) by (rule change_line_InrD) (rule update_line_inv [OF assms(2)], assumption, rule assms(3))

lemma step_inv: "review_step io db db' \<Longrightarrow> review_inv io db \<Longrightarrow> review_inv io db'"
proof (induction rule: review_step.induct)
  case (Step_create db c s b db' v)
  then show ?case by (auto simp: create_price_review_def res_simps split: if_splits intro: create_review_inv)
next
  case (Step_upload db c r ty ext bytes db' resp)
  then show ?case
    by (fastforce simp: upload_price_list_file_def res_simps split: sum.splits if_splits prod.splits dest!: get_review_InrD intro: add_file_inv)
next
  case (Step_map db c r f m tpl db' s)
  then show ?case by (blast intro: confirm_inv)
next
  case (Step_match scan db c r db' st n)
  then show ?case by (blast intro: match_inv)
next
  case (Step_resolve db c r l act chosen db' x)
  then show ?case
    by (auto simp: resolve_match_decision_def bindR_eq_Inr update_line_def [abs_def] intro: update_line_inv [unfolded update_line_def] operations_saved)
qed ((unfold line_routes; erule (1) change_line_inv; auto intro: operations_saved split: if_splits)+)


section \<open>Matching a second time\<close>

text \<open>A line that matching has just made carries no percentage change.\<close>

lemma side_frame:
  "old_side row l = Inr l' \<Longrightarrow> pl_percentage_change l' = pl_percentage_change l"
  "new_side row l = Inr l' \<Longrightarrow> pl_percentage_change l' = pl_percentage_change l"
  by (auto simp: old_side_def new_side_def bindR_eq_Inr)

lemma match_old_row_no_change: "match_old_row cs d row = Inr p \<Longrightarrow> pl_percentage_change (fst p) = None"
  by (auto simp: match_old_row_def bindR_eq_Inr Let_def blank_line_def dest!: side_frame split: option.splits if_splits)

lemma new_product_line_no_change: "new_product_line row = Inr l \<Longrightarrow> pl_percentage_change l = None"
  by (auto simp: new_product_line_def blank_line_def dest!: side_frame)

lemma run_matching_no_change:
  assumes "run_matching olds news = Inr ls" "l \<in> set ls"
  shows "pl_percentage_change l = None"
proof -
  define d where "d = build_dict (map (\<lambda>r. (cell r ''supplier_sku'', r)) news)"
  obtain pairs fresh where p: "mapR (match_old_row (map row_candidate news) d) olds = Inr pairs"
    and f: "mapR (\<lambda>(sku, r). new_product_line r) (filter (\<lambda>(sku, r). sku = None \<or> sku \<notin> set (map snd pairs)) d) = Inr fresh"
    and l: "mapR save_line (map fst pairs @ fresh) = Inr ls"
    using assms(1) by (auto simp: run_matching_def Let_def d_def res_simps)
  have "pl_percentage_change (fst q) = None" if "q \<in> set pairs" for q
    using list_all2_left [OF p [unfolded mapR_eq_Inr] that] by (auto intro: match_old_row_no_change)
  moreover have "pl_percentage_change q = None" if "q \<in> set fresh" for q
    using list_all2_left [OF f [unfolded mapR_eq_Inr] that] by (auto intro: new_product_line_no_change)
  ultimately show ?thesis using assms(2) saved_lines [OF l] by auto
qed

lemma no_change_summary:
  assumes "\<And>l. l \<in> set ls \<Longrightarrow> pl_percentage_change l = None"
  obtains s where "get_summary ls = Inr s" "total_previous_skus s = int (length (filter (\<lambda>l. pl_old_sku l \<noteq> None) ls))"
    "total_new_skus s = int (length (filter (\<lambda>l. pl_new_sku l \<noteq> None) ls))"
    "products_requiring_manual_review s = int (length (filter (\<lambda>l. pl_match_status l = REVIEW_REQUIRED) ls))"
proof -
  have "wavg_loop 0 0 (map line_for_summary ls) = (0, 0)"
    using assms by (induction ls) (auto simp: wavg_pair_def line_for_summary_def)
  then have w: "weighted_average_increase (map line_for_summary ls) = Inr None" by (simp add: weighted_average_increase_def)
  have r: "sl_requires_review \<circ> line_for_summary = (\<lambda>l. pl_match_status l = REVIEW_REQUIRED)" by (auto simp: line_for_summary_def)
  have "\<exists>s. get_summary ls = Inr s \<and> total_previous_skus s = int (length (filter (\<lambda>l. pl_old_sku l \<noteq> None) ls)) \<and>
    total_new_skus s = int (length (filter (\<lambda>l. pl_new_sku l \<noteq> None) ls)) \<and>
    products_requiring_manual_review s = int (length (filter (\<lambda>l. pl_match_status l = REVIEW_REQUIRED) ls))"
    by (simp add: get_summary_def summarize_def Let_def w count_lines_def filter_map r)
  then show ?thesis using that by blast
qed

lemma review_lines_number: "review_lines (db\<lparr> db_lines := db_lines db @ number_lines used r ls, db_reviews := vs \<rparr>) r = review_lines db r @ ls"
proof -
  have "filter (\<lambda>l. ln_review l = r) (number_lines used r ls) = number_lines used r ls"
    by (rule filter_True) (auto simp: number_lines_ids(4))
  then show ?thesis by (simp add: review_lines_def number_lines_ids(3))
qed

lemma get_review_set_status:
  assumes "get_review db c r = Inr v" "db_reviews db' = set_status r s (db_reviews db)"
  shows "get_review db' c r = Inr (v\<lparr> rv_status := s \<rparr>)"
proof -
  have "find P (map f xs) = map_option f (find P xs)" if "\<And>x. P (f x) = P x" for P and f :: "price_review \<Rightarrow> price_review" and xs
    by (induction xs) (auto simp: that)
  from this [of "\<lambda>v. rv_id v = r \<and> rv_org v = cl_active_org_id c"] show ?thesis
    using assms get_review_InrD [OF assms(1)] by (auto simp: get_review_def set_status_def split: option.splits)
qed

lemma match_exec:
  assumes "require_permission UPLOAD_DATA c = Inr c" "get_review db c r = Inr v"
    "lists_to_match (scan (review_files db r)) = Inr (olds, news)" "run_matching olds news = Inr ls"
  shows "run_product_matching scan db c r = Inr (db\<lparr> db_lines := db_lines db @ number_lines (map ln_id (db_lines db)) r ls,
    db_reviews := set_status r (status_after ls) (db_reviews db) \<rparr>, status_after ls, length ls)"
  using assms get_review_InrD [OF assms(2)] by (simp add: run_product_matching_def)

text \<open>C30: Running the matching of a review again does not replace its lines: the second run succeeds and adds
  every line once more, so the review that had no lines before shows each product twice, and the counts
  of the summary double.\<close>

lemma matching_again_duplicates:
  assumes m: "run_product_matching scan db c r = Inr (db1, st, n)" and empty: "review_lines db r = []"
  shows "\<exists>db2 s1 s2. run_product_matching scan db1 c r = Inr (db2, st, n) \<and> length (review_lines db1 r) = n \<and>
    review_lines db2 r = review_lines db1 r @ review_lines db1 r \<and>
    get_summary (review_lines db1 r) = Inr s1 \<and> get_summary (review_lines db2 r) = Inr s2 \<and>
    total_previous_skus s2 = 2 * total_previous_skus s1 \<and> total_new_skus s2 = 2 * total_new_skus s1 \<and>
    products_requiring_manual_review s2 = 2 * products_requiring_manual_review s1"
proof -
  obtain olds news ls where l: "lists_to_match (scan (review_files db r)) = Inr (olds, news)" "run_matching olds news = Inr ls"
    "r \<in> rv_id ` set (db_reviews db)" "st = status_after ls" "n = length ls"
    and db1: "db1 = db\<lparr> db_lines := db_lines db @ number_lines (map ln_id (db_lines db)) r ls, db_reviews := set_status r st (db_reviews db) \<rparr>"
    using m by (rule match_InrD)
  obtain v where v: "require_permission UPLOAD_DATA c = Inr c" "get_review db c r = Inr v"
    using m by (auto simp: run_product_matching_def bindR_eq_Inr dest: require_permission_InrD)
  have files: "review_files db1 r = review_files db r" by (simp add: db1 review_files_def)
  have lines1: "review_lines db1 r = ls" by (simp add: db1 review_lines_number empty)
  define db2 where "db2 = db1\<lparr> db_lines := db_lines db1 @ number_lines (map ln_id (db_lines db1)) r ls,
    db_reviews := set_status r (status_after ls) (db_reviews db1) \<rparr>"
  have run: "run_product_matching scan db1 c r = Inr (db2, st, n)"
    using match_exec [of c db1 r _ scan, OF v(1) get_review_set_status [OF v(2)] l(1) [folded files] l(2)]
    by (simp add: db1 db2_def l(4,5))
  have lines2: "review_lines db2 r = ls @ ls" by (simp add: db2_def review_lines_number lines1)
  have none: "pl_percentage_change x = None" if "x \<in> set ls" for x using run_matching_no_change [OF l(2) that] .
  obtain s1 where s1: "get_summary ls = Inr s1" "total_previous_skus s1 = int (length (filter (\<lambda>l. pl_old_sku l \<noteq> None) ls))"
    "total_new_skus s1 = int (length (filter (\<lambda>l. pl_new_sku l \<noteq> None) ls))"
    "products_requiring_manual_review s1 = int (length (filter (\<lambda>l. pl_match_status l = REVIEW_REQUIRED) ls))"
    using none by (rule no_change_summary)
  obtain s2 where s2: "get_summary (ls @ ls) = Inr s2" "total_previous_skus s2 = int (length (filter (\<lambda>l. pl_old_sku l \<noteq> None) (ls @ ls)))"
    "total_new_skus s2 = int (length (filter (\<lambda>l. pl_new_sku l \<noteq> None) (ls @ ls)))"
    "products_requiring_manual_review s2 = int (length (filter (\<lambda>l. pl_match_status l = REVIEW_REQUIRED) (ls @ ls)))"
    by (rule no_change_summary [of "ls @ ls"]) (use none in auto)
  show ?thesis using run s1 s2 by (simp add: lines1 lines2 l(5))
qed

text \<open>A small review: one product on the old list, nothing on the new one.\<close>

definition buyer_claims :: access_token_claims where
  "buyer_claims = \<lparr> cl_user_id = 7, cl_active_org_id = 1, cl_role = ''procurement_manager'', cl_issued_at = 0, cl_expires_at = 900 \<rparr>"

definition staged_file :: "int \<Rightarrow> string \<Rightarrow> string \<Rightarrow> mapped_row list \<Rightarrow> stored_file" where
  "staged_file i ty bytes rows = \<lparr> fl_id = i, fl_review = 1, fl_type = ty, fl_extension = ''csv'', fl_bytes = bytes, fl_checksum = bytes,
     fl_processing_status = ''validated'', fl_row_count = Some (length rows), fl_mapping = Some [], fl_staged = Some rows \<rparr>"

definition rice :: mapped_row where "rice = price_row ''A1'' ''Rice'' (show_nat 12)"

definition small_review :: "stored_file list \<Rightarrow> review_db" where
  "small_review files = \<lparr> db_suppliers = [(3, 1)],
     db_reviews = [\<lparr> rv_id = 1, rv_org = 1, rv_supplier = 3, rv_status = ''draft'', rv_price_basis = ''tax_exclusive'' \<rparr>],
     db_files = files, db_lines = [], db_templates = [] \<rparr>"

lemma buyer_allowed: "require_permission UPLOAD_DATA buyer_claims = Inr buyer_claims"
  by (simp add: require_permission_def role_of_def all_roles_def buyer_claims_def)

lemma small_review_found: "get_review (small_review fs) buyer_claims 1 =
    Inr \<lparr> rv_id = 1, rv_org = 1, rv_supplier = 3, rv_status = ''draft'', rv_price_basis = ''tax_exclusive'' \<rparr>"
  by (simp add: get_review_def small_review_def buyer_claims_def)

lemma no_candidates: "mr_new_key (find_best_match x []) = None"
  by (simp add: find_best_match_def)

text \<open>Against an empty new list every product is discontinued.\<close>

lemma run_matching_no_new:
  assumes "run_matching olds [] = Inr ls"
  shows "length ls = length olds \<and> (\<forall>l\<in>set ls. pl_match_status l = DISCONTINUED)"
proof -
  obtain pairs where p: "mapR (match_old_row [] []) olds = Inr pairs" and l: "mapR save_line (map fst pairs) = Inr ls"
    using assms by (auto simp: run_matching_def build_dict_def Let_def bindR_eq_Inr)
  have "pl_match_status (fst q) = DISCONTINUED" if q: "q \<in> set pairs" for q
    using list_all2_left [OF p [unfolded mapR_eq_Inr] q]
    by (auto simp: match_old_row_def no_candidates bindR_eq_Inr dest!: side_InrD(1))
  then show ?thesis using saved_lines [OF l] list_all2_lengthD [OF p [unfolded mapR_eq_Inr]] by simp
qed

lemma match_rice: "\<exists>l. run_matching [rice] [] = Inr [l] \<and> pl_match_status l = DISCONTINUED"
proof -
  obtain l where l: "run_matching [rice] [] = Inr [l]"
    by (simp add: run_matching_def build_dict_def match_old_row_def no_candidates old_side_def rice_def
        row_price_def normalize_price_def save_line_def line_fits_def column_ok_def to_scale_grid blank_line_def Let_def)
  show ?thesis using run_matching_no_new [OF l] l by simp
qed

lemma matching_again_duplicates_witness:
  "\<exists>db1 db2. run_product_matching id (small_review [staged_file 1 ''previous'' ''p'' [rice], staged_file 2 ''new'' ''n'' []]) buyer_claims 1 = Inr (db1, ''analysing'', 1) \<and>
     run_product_matching id db1 buyer_claims 1 = Inr (db2, ''analysing'', 1) \<and> length (review_lines db2 1) = 2"
proof -
  let ?db = "small_review [staged_file 1 ''previous'' ''p'' [rice], staged_file 2 ''new'' ''n'' []]"
  obtain l where l: "run_matching [rice] [] = Inr [l]" "pl_match_status l = DISCONTINUED" using match_rice by blast
  have s: "lists_to_match (id (review_files ?db 1)) = Inr ([rice], [])"
    by (simp add: lists_to_match_def review_files_def small_review_def build_dict_def staged_file_def)
  have st: "status_after [l] = ''analysing''" by (simp add: status_after_def l(2))
  obtain db1 where m: "run_product_matching id ?db buyer_claims 1 = Inr (db1, ''analysing'', 1)"
    using match_exec [of buyer_claims ?db 1 _ id, OF buyer_allowed small_review_found s l(1)] st by auto
  have "review_lines ?db 1 = []" by (simp add: review_lines_def small_review_def)
  from matching_again_duplicates [OF m this] show ?thesis using m by (elim exE conjE) (intro exI conjI, assumption+, simp)
qed

section \<open>Files\<close>

definition ascii_io :: file_io where
  "ascii_io = \<lparr> io_digest = id, io_decode = Inr, io_sheet = (\<lambda>_. Inr None) \<rparr>"

lemma staged_without_price:
  assumes st: "staged_rows (map (\<lambda>row. apply_mapping (row_fields row) m) raw) = Inr staged" and price: "map_of m ''price'' \<in> {None, Some None}"
  shows "staged = []"
proof (rule ccontr)
  assume "staged \<noteq> []"
  then obtain row where row: "row \<in> set staged" by (cases staged) auto
  have "cell row ''price'' = None"
    using staged_rows_in [OF st row] price by (auto simp: apply_mapping_price)
  moreover have "price_row_ok row" using staged_rows_ok [OF st] row by (simp add: staged_ok_def list_all_iff)
  ultimately show False by (simp add: price_row_ok_iff parse_price_def missing_def)
qed

text \<open>A confirmed mapping that leaves the price out rejects every row of the file and is still accepted:
  when the file is the only new list, matching then declares every product of the old list
  discontinued and the review goes on as analysed.\<close>

lemma mapping_without_price_discontinues_all:
  assumes c: "confirm_column_mapping io db c r k m tpl = Inr (db1, s)" and price: "map_of m ''price'' \<in> {None, Some None}"
    and only: "\<And>f. f \<in> set (review_files db r) \<Longrightarrow> fl_type f = ''new'' \<Longrightarrow> fl_id f = k"
    and scan: "\<And>fs. mset (scan fs) = mset fs" and run: "run_product_matching scan db1 c r = Inr (db2, st, n)"
  shows "st = ''analysing'' \<and> (\<exists>fresh. review_lines db2 r = review_lines db1 r @ fresh \<and> length fresh = n \<and>
    (\<forall>l\<in>set fresh. pl_match_status l = DISCONTINUED))"
proof -
  obtain raw n' tpls staged where st: "staged_rows (map (\<lambda>row. apply_mapping (row_fields row) m) raw) = Inr staged"
    and db1: "db1 = db\<lparr> db_files := map (\<lambda>f. if fl_id f = k then stage m staged n' f else f) (db_files db), db_templates := tpls \<rparr>"
    using c by (rule confirm_rows)
  have "staged = []" using st price by (rule staged_without_price)
  obtain olds news ls where l: "lists_to_match (scan (review_files db1 r)) = Inr (olds, news)" "run_matching olds news = Inr ls"
    "r \<in> rv_id ` set (db_reviews db1)" "st = status_after ls" "n = length ls"
    and db2: "db2 = db1\<lparr> db_lines := db_lines db1 @ number_lines (map ln_id (db_lines db1)) r ls, db_reviews := set_status r st (db_reviews db1) \<rparr>"
    using run by (rule match_InrD)
  obtain f where f: "f \<in> set (scan (review_files db1 r))" "fl_type f = ''new''" "fl_staged f = Some news"
    using l(1) by (rule lists_to_match_InrD) (rule that)
  have "set (scan (review_files db1 r)) = set (review_files db1 r)" by (rule mset_eq_setD) (rule scan)
  with f(1) have "f \<in> set (review_files db1 r)" by simp
  then obtain g where "g \<in> set (review_files db r)" "f = (if fl_id g = k then stage m staged n' g else g)"
    by (auto simp: review_files_def db1 split: if_splits)
  then have "news = []" using only [of g] f(2,3) \<open>staged = []\<close> by (auto split: if_splits)
  then show ?thesis using run_matching_no_new [of olds ls] l(2,4,5)
    by (auto simp: db2 review_lines_number status_after_def list_ex_iff)
qed

definition item_table :: string where "item_table = write_csv [[''Item''], [''A1'']]"

lemma read_item_table: "read_file ascii_io ''csv'' item_table = Inr [[(Some ''Item'', Val ''A1'')]]"
proof -
  have "read_records parse_reset (split_lines item_table) = Inr [[''Item''], [''A1'']]"
    unfolding item_table_def by (rule read_table) (simp add: field_limit_def)
  moreover have "lower ''csv'' = ''csv''" by code_simp
  ultimately show ?thesis by (simp add: read_file_def ascii_io_def read_csv_rows_def dict_row_def build_dict_def)
qed

lemma confirm_item_table:
  assumes "f = staged_file 2 ''new'' item_table []"
  shows "\<exists>db1 s. confirm_column_mapping ascii_io (small_review [staged_file 1 ''previous'' ''p'' [rice], f]) buyer_claims 1 2
    [(''supplier_sku'', Some ''Item'')] None = Inr (db1, s)"
proof -
  have r: "row_fields [(Some ''Item'', Val ''A1'')] = [(''Item'', ''A1'')]" by (simp add: row_fields_def List.map_filter_simps)
  have "is_ok (validate_rows [[(''supplier_sku'', Some ''A1'')]])"
    by (simp add: validate_rows_def validate_price_row_def Let_def price_issues_def cell_def dict_get_def missing_def)
  then obtain vs where "validate_rows [[(''supplier_sku'', Some ''A1'')]] = Inr vs" by (auto simp: is_ok_iff)
  then show ?thesis
    by (simp add: confirm_column_mapping_def buyer_allowed small_review_found assms)
      (simp add: small_review_def staged_file_def read_item_table r apply_mapping_def staged_rows_def)
qed

lemma mapping_without_price_discontinues_all_witness:
  "\<exists>db1 s db2 fresh. confirm_column_mapping ascii_io
       (small_review [staged_file 1 ''previous'' ''p'' [rice], staged_file 2 ''new'' item_table []]) buyer_claims 1 2
       [(''supplier_sku'', Some ''Item'')] None = Inr (db1, s) \<and>
     run_product_matching id db1 buyer_claims 1 = Inr (db2, ''analysing'', 1) \<and> review_lines db2 1 = fresh \<and> length fresh = 1 \<and>
     (\<forall>l\<in>set fresh. pl_match_status l = DISCONTINUED)"
proof -
  let ?db = "small_review [staged_file 1 ''previous'' ''p'' [rice], staged_file 2 ''new'' item_table []]"
  obtain db1 s where c: "confirm_column_mapping ascii_io ?db buyer_claims 1 2 [(''supplier_sku'', Some ''Item'')] None = Inr (db1, s)"
    using confirm_item_table by blast
  from c obtain raw n' tpls staged where st: "staged_rows (map (\<lambda>row. apply_mapping (row_fields row) [(''supplier_sku'', Some ''Item'')]) raw) = Inr staged"
    and db1: "db1 = ?db\<lparr> db_files := map (\<lambda>f. if fl_id f = 2 then stage [(''supplier_sku'', Some ''Item'')] staged n' f else f) (db_files ?db), db_templates := tpls \<rparr>"
    by (rule confirm_rows)
  have none: "staged = []" using st by (rule staged_without_price) simp
  obtain l where l: "run_matching [rice] [] = Inr [l]" "pl_match_status l = DISCONTINUED" using match_rice by blast
  have v: "get_review db1 buyer_claims 1 = get_review ?db buyer_claims 1" by (simp add: get_review_def db1)
  have s: "lists_to_match (id (review_files db1 1)) = Inr ([rice], [])"
    by (simp add: lists_to_match_def review_files_def db1 small_review_def build_dict_def staged_file_def stage_def none)
  obtain db2 where m: "run_product_matching id db1 buyer_claims 1 = Inr (db2, ''analysing'', 1)"
    using match_exec [of buyer_claims db1 1 _ id, OF buyer_allowed v [unfolded small_review_found] s l(1)] l(2) by (auto simp: status_after_def)
  have e: "review_lines db1 1 = []" by (simp add: review_lines_def db1 small_review_def)
  have only: "fl_id f = 2" if "f \<in> set (review_files ?db 1)" "fl_type f = ''new''" for f
    using that by (auto simp: review_files_def small_review_def staged_file_def)
  have "\<exists>fresh. review_lines db2 1 = review_lines db1 1 @ fresh \<and> length fresh = 1 \<and> (\<forall>l\<in>set fresh. pl_match_status l = DISCONTINUED)"
    by (rule conjunct2 [OF mapping_without_price_discontinues_all [OF c _ only _ m]]) simp_all
  then show ?thesis using c m e by auto
qed

text \<open>Every step keeps the files and the reviews; a file that cannot be read is never staged.\<close>

lemma step_files:
  assumes "review_step io db db'" "review_inv io db" "f \<in> set (db_files db)"
  shows "\<exists>f'\<in>set (db_files db'). fl_review f' = fl_review f \<and> fl_type f' = fl_type f \<and> fl_extension f' = fl_extension f \<and>
    fl_bytes f' = fl_bytes f \<and> fl_checksum f' = fl_checksum f \<and>
    (\<forall>e. read_file io (fl_extension f) (fl_bytes f) = Inl e \<longrightarrow> fl_staged f' = fl_staged f)"
  using assms
proof (induction rule: review_step.induct)
  case (Step_map db c r k m tpl db' s)
  from Step_map(1) obtain raw n tpls staged where
    db': "db' = db\<lparr> db_files := map (\<lambda>f. if fl_id f = k then stage m staged n f else f) (db_files db), db_templates := tpls \<rparr>"
    and k: "\<exists>f\<in>set (db_files db). fl_id f = k \<and> read_file io (fl_extension f) (fl_bytes f) = Inr raw" by (rule confirm_rows)
  have "distinct (map fl_id (db_files db))" using Step_map(2) by (simp add: review_inv_def)
  then have readable: "read_file io (fl_extension f) (fl_bytes f) = Inr raw" if "fl_id f = k"
    using k that Step_map(3) by (metis (full_types) distinct_map inj_onD)
  show ?case
    by (rule bexI [of _ "if fl_id f = k then stage m staged n f else f"]) (use Step_map(3) readable in \<open>auto simp: db'\<close>)
qed (force simp: create_price_review_def create_review_def upload_price_list_file_def add_file_def bindR_eq_Inr Let_def
    run_product_matching_def resolve_match_decision_def line_routes change_line_def update_line_def
    split: if_splits sum.splits)+

lemma get_review_ok_iff:
  "(\<exists>v. get_review db c r = Inr v) \<longleftrightarrow> (\<exists>v\<in>set (db_reviews db). rv_id v = r \<and> rv_org v = cl_active_org_id c)"
proof (cases "find (\<lambda>v. rv_id v = r \<and> rv_org v = cl_active_org_id c) (db_reviews db)")
  case None
  then have "\<And>v. get_review db c r \<noteq> Inr v" by (simp add: get_review_def)
  then show ?thesis using None unfolding find_None_iff by blast
next
  case (Some v)
  then have g: "get_review db c r = Inr v" by (simp add: get_review_def)
  then show ?thesis using get_review_InrD [OF g] by blast
qed

lemma step_reviews:
  assumes "review_step io db db'" "v \<in> set (db_reviews db)"
  shows "\<exists>v'\<in>set (db_reviews db'). rv_id v' = rv_id v \<and> rv_org v' = rv_org v"
  using assms
proof (induction rule: review_step.induct)
  case (Step_match scan db c r db' st n)
  from Step_match(2) obtain ls where
    "db' = db\<lparr> db_lines := db_lines db @ number_lines (map ln_id (db_lines db)) r ls, db_reviews := set_status r st (db_reviews db) \<rparr>"
    by (rule match_InrD)
  then have "(if rv_id v = r then v\<lparr> rv_status := st \<rparr> else v) \<in> set (db_reviews db')" using Step_match(3) by (auto simp: set_status_def)
  then show ?case by (intro bexI) auto
qed (force simp: create_price_review_def create_review_def upload_price_list_file_def add_file_def bindR_eq_Inr Let_def
    confirm_column_mapping_def resolve_match_decision_def line_routes change_line_def update_line_def
    split: if_splits sum.splits option.splits)+

lemma steps_keep:
  assumes "(review_step io)\<^sup>*\<^sup>* db db'" "review_inv io db" "f \<in> set (db_files db)" "get_review db c r = Inr v"
  shows "review_inv io db' \<and> (\<exists>v'. get_review db' c r = Inr v') \<and> (\<exists>f'\<in>set (db_files db'). fl_review f' = fl_review f \<and> fl_type f' = fl_type f \<and>
    fl_extension f' = fl_extension f \<and> fl_bytes f' = fl_bytes f \<and> fl_checksum f' = fl_checksum f \<and>
    (\<forall>e. read_file io (fl_extension f) (fl_bytes f) = Inl e \<longrightarrow> fl_staged f' = fl_staged f))"
  using assms
proof (induction rule: rtranclp_induct)
  case (step y z)
  then obtain g where inv: "review_inv io y" and v: "\<exists>v'. get_review y c r = Inr v'"
    and g: "g \<in> set (db_files y)" "fl_review g = fl_review f" "fl_type g = fl_type f" "fl_extension g = fl_extension f"
      "fl_bytes g = fl_bytes f" "fl_checksum g = fl_checksum f"
      "\<forall>e. read_file io (fl_extension f) (fl_bytes f) = Inl e \<longrightarrow> fl_staged g = fl_staged f" by blast
  have "\<exists>v'. get_review z c r = Inr v'"
    using v step_reviews [OF step(2)] unfolding get_review_ok_iff by metis
  moreover have "review_inv io z" using step_inv [OF step(2) inv] .
  ultimately show ?case using step_files [OF step(2) inv g(1)] g(2-) by metis
qed blast

lemma last_file_counts: "map_of (build_dict (map (\<lambda>f. (fl_type f, f)) (fs @ [f]))) (fl_type f) = Some f"
  by (simp add: build_dict_def update_conv')

lemma unstaged_last: "fl_type f \<in> {''previous'', ''new''} \<Longrightarrow> fl_staged f = None \<Longrightarrow> \<exists>m. lists_to_match (fs @ [f]) = Inl (ValidationFailedError m)"
  using last_file_counts [of fs f] by (auto simp: lists_to_match_def Let_def split: option.splits simp del: map_of_eq_Some_iff)

lemma add_file_InrD:
  assumes "add_file io db r ty ext bytes = Inr (db', f)"
  shows "db' = db\<lparr> db_files := db_files db @ [f] \<rparr> \<and> fl_review f = r \<and> fl_type f = ty \<and> fl_extension f = ext \<and> fl_bytes f = bytes \<and>
    fl_checksum f = io_digest io bytes \<and> fl_staged f = None"
  using assms by (auto simp: add_file_def bindR_eq_Inr Let_def)

lemma add_file_again:
  assumes "f \<in> set (db_files db)" "fl_review f = r" "fl_checksum f = io_digest io bytes"
  shows "add_file io db r ty ext bytes = Inl (ConflictError ''This exact file has already been uploaded to this review'')"
proof -
  have "list_ex (\<lambda>g. rf_checksum g = io_digest io bytes) (map as_review_file (review_files db r))"
    using assms by (auto simp: list_ex_iff review_files_def as_review_file_def intro!: bexI [of _ f])
  then show ?thesis by (simp add: add_file_def register_uploaded_file_def)
qed

text \<open>C31: An upload whose answer is an error may still have registered the file, and nothing ever removes it:
  in every later state the same content is refused as a duplicate; and if the file cannot be read, it is never
  staged, so matching is refused whenever the database returns it last.\<close>

lemma failed_upload_stays:
  assumes inv: "review_inv io db" and up: "upload_price_list_file io db c r ty ext bytes = (db1, Inl e)" and kept: "db1 \<noteq> db"
    and later: "(review_step io)\<^sup>*\<^sup>* db1 db2"
  shows "(\<forall>ty' ext'. ty' \<in> {''previous'', ''new''} \<longrightarrow> upload_price_list_file io db2 c r ty' ext' bytes =
      (db2, Inl (ConflictError ''This exact file has already been uploaded to this review''))) \<and>
    (read_file io ext bytes = Inl e \<longrightarrow> (\<exists>f\<in>set (review_files db2 r). fl_type f = ty \<and> fl_bytes f = bytes \<and> fl_staged f = None \<and>
      (\<forall>others. \<exists>m. lists_to_match (others @ [f]) = Inl (ValidationFailedError m))))"
proof -
  obtain v f where p: "require_permission UPLOAD_DATA c = Inr c" and ty: "ty \<in> {''previous'', ''new''}" and v: "get_review db c r = Inr v"
    and a: "add_file io db (rv_id v) ty ext bytes = Inr (db1, f)"
    using up kept by (auto simp: upload_price_list_file_def bindR_eq_Inr bindR_eq_Inl split: sum.splits if_splits
        dest: require_permission_InrD)
  have r: "rv_id v = r" using get_review_InrD [OF v] by simp
  note f = add_file_InrD [OF a, unfolded r]
  have inv1: "review_inv io db1" using step_inv [OF Step_upload [OF up] inv] .
  have "get_review db1 c r = Inr v" using v f by (simp add: get_review_def)
  with steps_keep [OF later inv1 _ this, of f] f obtain v' f' where v': "get_review db2 c r = Inr v'"
    and f': "f' \<in> set (db_files db2)" "fl_review f' = r" "fl_type f' = ty" "fl_bytes f' = bytes" "fl_checksum f' = io_digest io bytes"
      "\<forall>e. read_file io ext bytes = Inl e \<longrightarrow> fl_staged f' = None" by auto
  have r': "rv_id v' = r" using get_review_InrD [OF v'] by simp
  have "upload_price_list_file io db2 c r ty' ext' bytes = (db2, Inl (ConflictError ''This exact file has already been uploaded to this review''))"
    if "ty' \<in> {''previous'', ''new''}" for ty' ext'
    using that add_file_again [OF f'(1,2,5)] by (auto simp: upload_price_list_file_def p v' r')
  moreover have "\<exists>m. lists_to_match (others @ [f']) = Inl (ValidationFailedError m)" if "read_file io ext bytes = Inl e" for others
    using unstaged_last [of f'] ty f'(3,6) that by blast
  ultimately show ?thesis using f' by (auto simp: review_files_def)
qed

text \<open>A line with one field too many in the first row of a text file.\<close>

lemma failed_upload_stays_witness:
  "\<exists>db1. upload_price_list_file ascii_io (small_review []) buyer_claims 1 ''new'' ''csv'' (write_csv [[''Item''], [''A1'', ''9'']]) = (db1, Inl AttributeError) \<and>
     upload_price_list_file ascii_io db1 buyer_claims 1 ''new'' ''csv'' (write_csv [[''Item''], [''A1'', ''9'']]) =
       (db1, Inl (ConflictError ''This exact file has already been uploaded to this review''))"
proof -
  let ?t = "write_csv [[''Item''], [''A1'', ''9'']]"
  have "read_records parse_reset (split_lines ?t) = Inr [[''Item''], [''A1'', ''9'']]"
    by (rule read_table) (simp add: field_limit_def)
  moreover have "lower ''csv'' = ''csv''" by code_simp
  ultimately have rd: "read_file ascii_io ''csv'' ?t = Inr [[(Some ''Item'', Val ''A1''), (None, Rest [''9''])]]"
    by (simp add: read_file_def ascii_io_def read_csv_rows_def dict_row_def build_dict_def)
  obtain db1 f where a: "add_file ascii_io (small_review []) 1 ''new'' ''csv'' ?t = Inr (db1, f)"
    by (simp add: add_file_def register_uploaded_file_def review_files_def small_review_def Let_def)
  have f: "fl_extension f = ''csv''" "fl_bytes f = ?t" using add_file_InrD [OF a] by simp_all
  have up: "upload_price_list_file ascii_io (small_review []) buyer_claims 1 ''new'' ''csv'' ?t = (db1, Inl AttributeError)"
    by (simp add: upload_price_list_file_def buyer_allowed small_review_found a upload_response_def f rd)
  have kept: "db1 \<noteq> small_review []" using add_file_InrD [OF a] by (auto simp: small_review_def)
  have inv: "review_inv ascii_io (small_review [])" by (simp add: review_inv_def small_review_def)
  have "(review_step ascii_io)\<^sup>*\<^sup>* db1 db1" by simp
  from failed_upload_stays [OF inv up kept this] show ?thesis using up by simp
qed

section \<open>The workflow\<close>

text \<open>C29: In every state the workflow can reach, identifiers are distinct, no review holds the same content twice, every
  staged row was accepted by the validator and no product code is staged twice in a file, every stored amount is on
  the scale of its column, only a review with a mapped file of either type has lines, and its status is one of
  the three the routes write.\<close>

lemma review_workflow_invariant:
  assumes "(review_step io)\<^sup>*\<^sup>* (no_reviews suppliers) db"
  shows "review_inv io db"
  using assms
proof (induction rule: rtranclp_induct)
  case base
  show ?case by (simp add: review_inv_def no_reviews_def)
next
  case (step y z)
  then show ?case by (blast intro: step_inv)
qed

lemma review_workflow_invariant_witness:
  "\<exists>db v. create_price_review (no_reviews [(3, 1)]) buyer_claims 3 ''tax_exclusive'' = Inr (db, v) \<and> review_inv ascii_io db"
proof -
  obtain db v where c: "create_price_review (no_reviews [(3, 1)]) buyer_claims 3 ''tax_exclusive'' = Inr (db, v)"
    by (simp add: create_price_review_def buyer_allowed create_review_def no_reviews_def) (simp add: buyer_claims_def Let_def)
  have "(review_step ascii_io)\<^sup>*\<^sup>* (no_reviews [(3, 1)]) db" by (rule r_into_rtranclp) (rule Step_create [OF c])
  from review_workflow_invariant [OF this] show ?thesis using c by blast
qed

end
