(* ===== verification/PurchaseUpload.thy ===== *)
theory PurchaseUpload
  imports RebateIngestion Ingestion AccessControl
begin

text \<open>
  The upload of purchase transactions from the sheet to the rebate periods: the route of
  \<open>app/api/v1/purchase_transactions.py\<close>, which reads the sheet, maps its columns, keeps the rows the
  validator accepts and hands them to \<open>purchase_transaction_service.ingest_transactions\<close>, whose parsing of
  the cells is spelled out here.  What \<open>openpyxl\<close> reads is an argument, as is the supplier the query finds.
\<close>

section \<open>The cells of a row\<close>

text \<open>\<open>str(row[field])\<close>: a missing column raises, an empty one reads as the text \<open>None\<close>.\<close>

definition str_cell :: "mapped_row \<Rightarrow> string \<Rightarrow> string res" where
  "str_cell row field = (case map_of row field of None \<Rightarrow> Inl KeyError | Some None \<Rightarrow> Inr ''None'' | Some (Some s) \<Rightarrow> Inr s)"

definition decimal_cell :: "string \<Rightarrow> rat res" where
  "decimal_cell s = bindR (parse_decimal s) (\<lambda>x. case x of Fin v \<Rightarrow> Inr v | _ \<Rightarrow> Inl (DataError ''numeric field overflow''))"

definition tx_row_of :: "mapped_row \<Rightarrow> tx_row" where
  "tx_row_of row = \<lparr> tr_date = bindR (str_cell row ''transaction_date'') fromisoformat,
     tr_amount = bindR (str_cell row ''amount'') decimal_cell,
     tr_quantity = (case cell row ''quantity'' of None \<Rightarrow> None | Some s \<Rightarrow> if s = [] then None else Some (decimal_cell s)) \<rparr>"

section \<open>The route\<close>

definition valid_tx_rows :: "mapped_row list \<Rightarrow> mapped_row list res" where
  "valid_tx_rows mapped_rows = bindR (validate_purchase_transaction_rows mapped_rows) (\<lambda>vs.
     Inr (map fst (filter (\<lambda>(r, v). fst (snd v)) (zip mapped_rows vs))))"

record upload_result =
  up_row_count :: nat
  up_ingested :: nat
  up_rejected :: nat

definition upload_purchase_transactions ::
    "sheet_cell list list option res \<Rightarrow> rebate_db \<Rightarrow> access_token_claims \<Rightarrow> int option \<Rightarrow> int \<Rightarrow> (rebate_db \<times> upload_result) res" where
  "upload_purchase_transactions sheet db c supplier now = bindR (require_permission UPLOAD_DATA c) (\<lambda>c.
     case supplier of None \<Rightarrow> Inl (NotFoundError ''Supplier not found'')
     | Some supplier_id \<Rightarrow> bindR sheet (\<lambda>s. bindR (read_workbook s) (\<lambda>raw_rows. case raw_rows of
         [] \<Rightarrow> Inr (db, \<lparr> up_row_count = 0, up_ingested = 0, up_rejected = 0 \<rparr>)
       | first # _ \<Rightarrow>
           let mapping = suggest_purchase_transaction_mapping (map fst first);
               mapped_rows = map (\<lambda>r. apply_mapping r mapping) raw_rows
           in bindR (valid_tx_rows mapped_rows) (\<lambda>valid_rows.
              bindR (ingest_transactions db supplier_id (map tx_row_of valid_rows) now) (\<lambda>db'.
              Inr (db', \<lparr> up_row_count = length raw_rows, up_ingested = length valid_rows,
                up_rejected = length raw_rows - length valid_rows \<rparr>))))))"

section \<open>Lemmas\<close>

lemma length_date_text: "10 \<le> length (iso_date_text d)"
  by (simp add: iso_date_text_def)

lemma date_cell_no_date: "\<exists>m. fromisoformat (cell_str (Cell_date d)) = Inl m"
proof (cases "fromisoformat (cell_str (Cell_date d))")
  case (Inr x)
  then show ?thesis using isoformat_length [OF Inr] length_date_text [of d] by simp
qed simp

lemma iso_error: "fromisoformat s = Inl e \<Longrightarrow> \<exists>m. e = ValueError m"
  by (auto simp: fromisoformat_def mk_date_def iso_week_date_def Let_def split: option.splits if_splits prod.splits)

lemma row_parses:
  assumes "parse_tx_row sid (tx_row_of row) = Inr p"
  obtains t a where "map_of row ''transaction_date'' = Some (Some t)" "fromisoformat t = Inr (pu_date p)"
    "map_of row ''amount'' = Some (Some a)" "parse_decimal a = Inr (Fin (pu_amount p))"
proof -
  have n: "fromisoformat ''None'' \<noteq> Inr d" for d using isoformat_length [of "''None''" d] by auto
  have m: "\<not> is_ok (decimal_cell ''None'')" by code_simp
  have d: "row_try (bindR (str_cell row ''transaction_date'') fromisoformat) = Inr (pu_date p)"
    and a: "row_try (bindR (str_cell row ''amount'') decimal_cell) = Inr (pu_amount p)"
    using assms by (auto simp: parse_tx_row_def tx_row_of_def bindR_eq_Inr)
  obtain t where "map_of row ''transaction_date'' = Some (Some t)" "fromisoformat t = Inr (pu_date p)"
    using d n by (auto simp: row_try_def str_cell_def bindR_eq_Inr split: sum.splits option.splits if_splits)
  moreover obtain s where "map_of row ''amount'' = Some (Some s)" "decimal_cell s = Inr (pu_amount p)"
    using a m by (auto simp: row_try_def str_cell_def bindR_eq_Inr split: sum.splits option.splits if_splits)
  moreover then have "parse_decimal s = Inr (Fin (pu_amount p))"
    by (auto simp: decimal_cell_def bindR_eq_Inr split: pydec.splits) (metis pydec.exhaust)
  ultimately show ?thesis using that by blast
qed

lemma date_cell_row_fails:
  assumes "map_of row ''transaction_date'' = Some (Some (cell_str (Cell_date d)))"
  shows "parse_tx_row sid (tx_row_of row) = Inl (ValidationFailedError ''Could not parse transaction row'')"
proof -
  obtain e where e: "fromisoformat (cell_str (Cell_date d)) = Inl e" using date_cell_no_date by blast
  obtain m where "e = ValueError m" using iso_error [OF e] by blast
  then show ?thesis using e assms by (simp add: parse_tx_row_def tx_row_of_def str_cell_def row_try_def)
qed

section \<open>Properties\<close>


text \<open>A sheet with two columns and one row, its date entered as a date.\<close>

definition dated_sheet :: "sheet_cell list list" where
  "dated_sheet = [[Cell_text ''Date'', Cell_text ''Amount''], [Cell_date (PyDate 2026 3 15), Cell_text ''100'']]"


end
