(* ===== verification/TransactionSnapshots.thy ===== *)
theory TransactionSnapshots
  imports CashFlow Logistics Columns PyNumber AccessControl
begin

text \<open>
  Facts computed once and stored: \<open>app/services/treasury_service.py\<close> and
  \<open>app/services/route_profitability_service.py\<close> with their tables, the two routes that call them
  (\<open>app/api/v1/treasury.py\<close>, \<open>app/api/v1/logistics.py\<close>), the audit record they write
  (\<open>app/services/audit_service.py\<close>) and the status a failing request answers with
  (\<open>app/core/exceptions.py\<close>, \<open>app/main.py\<close>).  Rows are append only; a commit rounds every amount to the
  scale of its column and refuses one that does not fit.
\<close>

section \<open>What a client sees of an exception\<close>

text \<open>The status and code of the subclasses of \<open>ProcureIQError\<close>; any other exception is an internal error
  without a code.\<close>

fun error_response :: "pyerr \<Rightarrow> nat \<times> string option" where
  "error_response (NotFoundError _) = (404, Some ''not_found'')"
| "error_response (ValidationFailedError _) = (422, Some ''validation_failed'')"
| "error_response (AuthenticationError _) = (401, Some ''authentication_failed'')"
| "error_response (PermissionDeniedError _) = (403, Some ''permission_denied'')"
| "error_response (ConflictError _) = (409, Some ''conflict'')"
| "error_response (EvidenceRequiredError _) = (422, Some ''evidence_required'')"
| "error_response RegistrationDisabledError = (403, Some ''registration_disabled'')"
| "error_response (InvalidAuditIdentifierError _) = (500, Some ''invalid_audit_identifier'')"
| "error_response UnknownSupplierError = (500, Some ''unknown_supplier_in_consolidation_flag'')"
| "error_response (InvalidConsolidationTransitionError _) = (409, Some ''invalid_consolidation_flag_transition'')"
| "error_response (UnsupportedIntentError _) = (422, Some ''unsupported_copilot_intent'')"
| "error_response (LLMOutputParsingError _) = (502, Some ''llm_output_parsing_failed'')"
| "error_response (LLMProviderUnavailableError _) = (503, Some ''ai_provider_unavailable'')"
| "error_response (InvalidBusinessTimezoneError _) = (500, Some ''invalid_business_timezone'')"
| "error_response _ = (500, None)"

section \<open>The audit record\<close>

datatype entity_id = Id_none | Id_bool bool | Id_int int | Id_str string | Id_uuid string | Id_other

definition show_int :: "int \<Rightarrow> string" where
  "show_int i = (if i < 0 then CHR ''-'' # show_nat (nat (- i)) else show_nat (nat i))"

definition canonicalize_entity_id :: "entity_id \<Rightarrow> string option res" where
  "canonicalize_entity_id e = (case e of
     Id_none \<Rightarrow> Inr None
   | Id_bool _ \<Rightarrow> Inl (InvalidAuditIdentifierError ''Unsupported audit entity_id type'')
   | Id_int i \<Rightarrow> Inr (Some (show_int i))
   | Id_str s \<Rightarrow> Inr (Some s)
   | Id_uuid s \<Rightarrow> Inr (Some s)
   | Id_other \<Rightarrow> Inl (InvalidAuditIdentifierError ''Unsupported audit entity_id type''))"

record audit_log =
  al_organisation_id :: "int option"
  al_user_id :: "int option"
  al_action :: string
  al_entity_type :: string
  al_entity_id :: "string option"

definition audit_columns_ok :: "audit_log \<Rightarrow> bool" where
  "audit_columns_ok a = (length (al_action a) \<le> 128 \<and> length (al_entity_type a) \<le> 64 \<and>
     (case al_entity_id a of None \<Rightarrow> True | Some s \<Rightarrow> length s \<le> 64))"

text \<open>The row is added to the session; the caller's commit writes it.\<close>

definition record_audit :: "audit_log list \<Rightarrow> int option \<Rightarrow> int option \<Rightarrow> string \<Rightarrow> string \<Rightarrow> entity_id \<Rightarrow> audit_log list res" where
  "record_audit logs org user act entity_type i = bindR (canonicalize_entity_id i) (\<lambda>s.
     let a = \<lparr> al_organisation_id = org, al_user_id = user, al_action = act, al_entity_type = entity_type, al_entity_id = s \<rparr> in
     if audit_columns_ok a then Inr (logs @ [a]) else Inl (DataError ''value too long for type character varying''))"

section \<open>Foreign currency transactions\<close>

record fx_snapshot =
  fs_id :: int
  fs_org :: int
  fs_transaction_date :: pydate
  fs_reporting_date :: pydate
  fs_currency_code :: string
  fs_amount :: rat
  fs_transaction_rate :: rat
  fs_reporting_rate :: rat
  fs_fec_rate :: "rat option"
  fs_is_hedged :: bool
  fs_unrealized_variance :: "rat option"
  fs_hedging_gain_loss :: "rat option"
  fs_corrects_id :: "int option"

definition fx_row_fits :: "fx_snapshot \<Rightarrow> bool" where
  "fx_row_fits s = (list_all (column_ok 18 4) [Some (fs_amount s), fs_unrealized_variance s, fs_hedging_gain_loss s] \<and>
     list_all (column_ok 12 6) [Some (fs_transaction_rate s), Some (fs_reporting_rate s), fs_fec_rate s] \<and>
     length (fs_currency_code s) \<le> 3)"

definition fx_row_to_scale :: "fx_snapshot \<Rightarrow> fx_snapshot" where
  "fx_row_to_scale s = s\<lparr> fs_amount := to_scale 4 (fs_amount s), fs_transaction_rate := to_scale 6 (fs_transaction_rate s),
     fs_reporting_rate := to_scale 6 (fs_reporting_rate s), fs_fec_rate := map_option (to_scale 6) (fs_fec_rate s),
     fs_unrealized_variance := map_option (to_scale 4) (fs_unrealized_variance s),
     fs_hedging_gain_loss := map_option (to_scale 4) (fs_hedging_gain_loss s) \<rparr>"

text \<open>The check constraint of the table.\<close>

definition mutually_exclusive_variance :: "fx_snapshot \<Rightarrow> bool" where
  "mutually_exclusive_variance s =
     ((fs_is_hedged s \<and> fs_hedging_gain_loss s \<noteq> None \<and> fs_unrealized_variance s = None) \<or>
      (\<not> fs_is_hedged s \<and> fs_unrealized_variance s \<noteq> None \<and> fs_hedging_gain_loss s = None))"

record treasury_db =
  td_snapshots :: "fx_snapshot list"
  td_audit :: "audit_log list"

definition insert_fx_snapshot :: "fx_snapshot list \<Rightarrow> fx_snapshot \<Rightarrow> fx_snapshot list res" where
  "insert_fx_snapshot rows s =
     (if \<not> fx_row_fits s then Inl (DataError ''numeric field overflow'')
      else if \<not> mutually_exclusive_variance s then Inl (IntegrityError ''ck_fx_transaction_snapshots_mutually_exclusive_variance'')
      else if fs_corrects_id s \<noteq> None \<and> the (fs_corrects_id s) \<notin> fs_id ` set rows then Inl (IntegrityError ''corrects_id'')
      else Inr (rows @ [fx_row_to_scale s]))"

record fx_request =
  fr_transaction_date :: pydate
  fr_reporting_date :: pydate
  fr_currency_code :: string
  fr_foreign_currency_amount :: rat
  fr_transaction_date_spot_rate :: rat
  fr_reporting_date_spot_rate :: rat
  fr_fec_contract_rate :: "rat option"

definition ingest_fx_transaction ::
    "treasury_db \<Rightarrow> int \<Rightarrow> int \<Rightarrow> fx_request \<Rightarrow> int option \<Rightarrow> (treasury_db \<times> int \<times> fx_exposure) res" where
  "ingest_fx_transaction db organisation_id user_id r corrects_id =
     bindR (calculate_fx_transaction_exposure (fr_foreign_currency_amount r) (fr_transaction_date_spot_rate r)
       (fr_reporting_date_spot_rate r) (fr_fec_contract_rate r)) (\<lambda>result.
     let i = next_id (map fs_id (td_snapshots db));
         snapshot = \<lparr> fs_id = i, fs_org = organisation_id, fs_transaction_date = fr_transaction_date r,
           fs_reporting_date = fr_reporting_date r, fs_currency_code = fr_currency_code r,
           fs_amount = fr_foreign_currency_amount r, fs_transaction_rate = fr_transaction_date_spot_rate r,
           fs_reporting_rate = fr_reporting_date_spot_rate r, fs_fec_rate = fx_fec_contract_rate result,
           fs_is_hedged = fx_is_hedged result, fs_unrealized_variance = fx_unrealized_variance result,
           fs_hedging_gain_loss = fx_hedging_gain_loss result, fs_corrects_id = corrects_id \<rparr>
     in bindR (insert_fx_snapshot (td_snapshots db) snapshot) (\<lambda>rows.
        bindR (record_audit (td_audit db) (Some organisation_id) (Some user_id)
          (if corrects_id \<notin> {None, Some 0} then ''fx_transaction_corrected'' else ''fx_transaction_ingested'')
          ''fx_transaction_snapshot'' (Id_int i)) (\<lambda>logs.
        Inr (\<lparr> td_snapshots = rows, td_audit = logs \<rparr>, i, result))))"

text \<open>The \<open>except (ValueError, TypeError)\<close> of the route.\<close>

definition as_validation_error :: "string \<Rightarrow> 'a res \<Rightarrow> 'a res" where
  "as_validation_error message m = (case m of
       Inl e \<Rightarrow> Inl (case e of ValueError _ \<Rightarrow> ValidationFailedError message | TypeError _ \<Rightarrow> ValidationFailedError message | _ \<Rightarrow> e)
     | Inr x \<Rightarrow> Inr x)"

definition calculate_exposure :: "treasury_db \<Rightarrow> access_token_claims \<Rightarrow> fx_request \<Rightarrow> (treasury_db \<times> int \<times> fx_exposure) res" where
  "calculate_exposure db c payload = bindR (require_permission UPLOAD_DATA c) (\<lambda>c.
     as_validation_error ''FX exposure calculation failed validation''
       (ingest_fx_transaction db (cl_active_org_id c) (cl_user_id c) payload None))"

section \<open>Route profitability\<close>

record route_snapshot =
  rs_id :: int
  rs_org :: int
  rs_trip_date :: pydate
  rs_revenue :: rat
  rs_cogs :: rat
  rs_trade_spend :: rat
  rs_revenue_basis :: string
  rs_trip_fixed_costs :: rat
  rs_distance_variable_costs :: rat
  rs_activity_time_costs :: rat
  rs_net_net_profit :: rat
  rs_is_net_revenue_negative :: bool
  rs_corrects_id :: "int option"

definition route_amounts :: "route_snapshot \<Rightarrow> rat list" where
  "route_amounts s = [rs_revenue s, rs_cogs s, rs_trade_spend s, rs_trip_fixed_costs s, rs_distance_variable_costs s,
     rs_activity_time_costs s, rs_net_net_profit s]"

definition route_row_to_scale :: "route_snapshot \<Rightarrow> route_snapshot" where
  "route_row_to_scale s = s\<lparr> rs_revenue := to_scale 4 (rs_revenue s), rs_cogs := to_scale 4 (rs_cogs s),
     rs_trade_spend := to_scale 4 (rs_trade_spend s), rs_trip_fixed_costs := to_scale 4 (rs_trip_fixed_costs s),
     rs_distance_variable_costs := to_scale 4 (rs_distance_variable_costs s),
     rs_activity_time_costs := to_scale 4 (rs_activity_time_costs s), rs_net_net_profit := to_scale 4 (rs_net_net_profit s) \<rparr>"

definition insert_route_snapshot :: "route_snapshot list \<Rightarrow> route_snapshot \<Rightarrow> route_snapshot list res" where
  "insert_route_snapshot rows s =
     (if \<not> list_all (\<lambda>x. column_ok 18 4 (Some x)) (route_amounts s) then Inl (DataError ''numeric field overflow'')
      else if 16 < length (rs_revenue_basis s) then Inl (DataError ''value too long for type character varying'')
      else if rs_corrects_id s \<noteq> None \<and> the (rs_corrects_id s) \<notin> rs_id ` set rows then Inl (IntegrityError ''corrects_id'')
      else Inr (rows @ [route_row_to_scale s]))"

record route_request =
  rq_trip_date :: pydate
  rq_revenue :: rat
  rq_cogs :: rat
  rq_trade_spend :: rat
  rq_revenue_basis :: string

definition ingest_route_profitability ::
    "route_snapshot list \<Rightarrow> audit_log list \<Rightarrow> int \<Rightarrow> int \<Rightarrow> route_request \<Rightarrow> rat \<Rightarrow> rat \<Rightarrow> rat \<Rightarrow> int option \<Rightarrow>
     (route_snapshot list \<times> audit_log list \<times> route_profit) res" where
  "ingest_route_profitability rows logs organisation_id user_id r trip_fixed_costs distance_variable_costs activity_time_costs corrects_id =
     bindR (calculate_true_route_profitability (rq_revenue r) (rq_cogs r) (rq_trade_spend r) (rq_revenue_basis r)
       trip_fixed_costs distance_variable_costs activity_time_costs) (\<lambda>result.
     let i = next_id (map rs_id rows);
         snapshot = \<lparr> rs_id = i, rs_org = organisation_id, rs_trip_date = rq_trip_date r, rs_revenue = rq_revenue r,
           rs_cogs = rq_cogs r, rs_trade_spend = rq_trade_spend r, rs_revenue_basis = rq_revenue_basis r,
           rs_trip_fixed_costs = trip_fixed_costs, rs_distance_variable_costs = distance_variable_costs,
           rs_activity_time_costs = activity_time_costs, rs_net_net_profit = rp_net_net_profit result,
           rs_is_net_revenue_negative = rp_is_net_revenue_negative result, rs_corrects_id = corrects_id \<rparr>
     in bindR (insert_route_snapshot rows snapshot) (\<lambda>rows'.
        bindR (record_audit logs (Some organisation_id) (Some user_id)
          (if corrects_id \<notin> {None, Some 0} then ''route_profitability_corrected'' else ''route_profitability_ingested'')
          ''route_profitability_snapshot'' (Id_int i)) (\<lambda>logs'. Inr (rows', logs', result))))"

text \<open>The route refuses every request before it computes anything; what follows the \<open>raise\<close> is unreachable.\<close>

definition create_route_profitability :: "access_token_claims \<Rightarrow> 'request \<Rightarrow> 'response res" where
  "create_route_profitability c payload = bindR (require_permission UPLOAD_DATA c) (\<lambda>_.
     Inl (EvidenceRequiredError ''Route profitability requires evidenced, reconciled source facts''))"

section \<open>Lemmas\<close>

lemma to_scale_on_grid [simp]: "on_grid s (to_scale s x)"
  by (simp add: to_scale_def)

lemma round_currency_grid: "round_currency x = Inr y \<Longrightarrow> on_grid 4 y"
  by (rule cur.on_grid)

lemma exposure_grid:
  assumes "calculate_fx_transaction_exposure a t r fec = Inr x"
  shows "map_option (to_scale 4) (fx_unrealized_variance x) = fx_unrealized_variance x"
    "map_option (to_scale 4) (fx_hedging_gain_loss x) = fx_hedging_gain_loss x" "fx_fec_contract_rate x = fec"
  using assms by (auto simp: calculate_fx_transaction_exposure_def bindR_eq_Inr round_currency_grid [THEN to_scale_grid]
      split: if_splits option.splits)

lemma ingest_fx_InrD:
  assumes "ingest_fx_transaction db org user r k = Inr (db', i, x)"
  obtains s where "td_snapshots db' = td_snapshots db @ [s]" "fs_id s = i" "i = next_id (map fs_id (td_snapshots db))" "fs_org s = org"
    "calculate_fx_transaction_exposure (fr_foreign_currency_amount r) (fr_transaction_date_spot_rate r)
       (fr_reporting_date_spot_rate r) (fr_fec_contract_rate r) = Inr x"
    "fs_amount s = to_scale 4 (fr_foreign_currency_amount r)" "fs_transaction_rate s = to_scale 6 (fr_transaction_date_spot_rate r)"
    "fs_reporting_rate s = to_scale 6 (fr_reporting_date_spot_rate r)" "fs_fec_rate s = map_option (to_scale 6) (fr_fec_contract_rate r)"
    "fs_is_hedged s = fx_is_hedged x" "fs_unrealized_variance s = fx_unrealized_variance x" "fs_hedging_gain_loss s = fx_hedging_gain_loss x"
    "mutually_exclusive_variance s" "fs_corrects_id s = k" "k \<noteq> None \<longrightarrow> the k \<in> fs_id ` set (td_snapshots db)"
    "\<exists>a. td_audit db' = td_audit db @ [a] \<and> al_entity_id a = Some (show_int i) \<and> al_organisation_id a = Some org \<and> al_user_id a = Some user"
proof -
  obtain x' where x': "calculate_fx_transaction_exposure (fr_foreign_currency_amount r) (fr_transaction_date_spot_rate r)
       (fr_reporting_date_spot_rate r) (fr_fec_contract_rate r) = Inr x'"
    using assms by (auto simp: ingest_fx_transaction_def bindR_eq_Inr)
  let ?i = "next_id (map fs_id (td_snapshots db))"
  define s where "s = \<lparr> fs_id = ?i, fs_org = org, fs_transaction_date = fr_transaction_date r,
           fs_reporting_date = fr_reporting_date r, fs_currency_code = fr_currency_code r,
           fs_amount = fr_foreign_currency_amount r, fs_transaction_rate = fr_transaction_date_spot_rate r,
           fs_reporting_rate = fr_reporting_date_spot_rate r, fs_fec_rate = fx_fec_contract_rate x',
           fs_is_hedged = fx_is_hedged x', fs_unrealized_variance = fx_unrealized_variance x',
           fs_hedging_gain_loss = fx_hedging_gain_loss x', fs_corrects_id = k \<rparr>"
  obtain rows logs where rows: "insert_fx_snapshot (td_snapshots db) s = Inr rows"
    and logs: "record_audit (td_audit db) (Some org) (Some user)
          (if k \<notin> {None, Some 0} then ''fx_transaction_corrected'' else ''fx_transaction_ingested'')
          ''fx_transaction_snapshot'' (Id_int ?i) = Inr logs"
    and d: "db' = \<lparr> td_snapshots = rows, td_audit = logs \<rparr>" "i = ?i" "x = x'"
    using assms by (auto simp: ingest_fx_transaction_def x' Let_def s_def bindR_eq_Inr)
  have ins: "rows = td_snapshots db @ [fx_row_to_scale s]" "mutually_exclusive_variance s"
    "k \<noteq> None \<longrightarrow> the k \<in> fs_id ` set (td_snapshots db)"
    using rows by (auto simp: insert_fx_snapshot_def s_def split: if_splits)
  note e = exposure_grid [OF x']
  show ?thesis
  proof (rule that [of "fx_row_to_scale s"])
    show "mutually_exclusive_variance (fx_row_to_scale s)"
      using ins(2) by (simp add: mutually_exclusive_variance_def fx_row_to_scale_def)
    show "\<exists>a. td_audit db' = td_audit db @ [a] \<and> al_entity_id a = Some (show_int i) \<and> al_organisation_id a = Some org \<and> al_user_id a = Some user"
      using logs d by (auto simp: record_audit_def canonicalize_entity_id_def Let_def split: if_splits)
  qed (use d ins x' e in \<open>simp_all add: fx_row_to_scale_def s_def\<close>)
qed

text \<open>The steps of the treasury ledger: an ingestion for some organisation and user.\<close>

inductive fx_step :: "treasury_db \<Rightarrow> treasury_db \<Rightarrow> bool" where
  fx_step: "ingest_fx_transaction db org user r k = Inr (db', i, x) \<Longrightarrow> fx_step db db'"

definition fx_inv :: "treasury_db \<Rightarrow> bool" where
  "fx_inv db = (distinct (map fs_id (td_snapshots db)) \<and>
     list_all (\<lambda>s. mutually_exclusive_variance s \<and> (fs_is_hedged s \<longleftrightarrow> fs_fec_rate s \<noteq> None) \<and> fx_row_to_scale s = s) (td_snapshots db) \<and>
     (\<forall>k<length (td_snapshots db). case fs_corrects_id (td_snapshots db ! k) of None \<Rightarrow> True
        | Some j \<Rightarrow> j \<in> fs_id ` set (take k (td_snapshots db))) \<and>
     map al_entity_id (td_audit db) = map (\<lambda>s. Some (show_int (fs_id s))) (td_snapshots db))"

lemma to_scale_twice [simp]: "to_scale s (to_scale s x) = to_scale s x"
  by (rule to_scale_grid) simp

lemma fx_step_inv:
  assumes st: "fx_step db db'" and inv: "fx_inv db"
  shows "fx_inv db' \<and> (\<exists>s. td_snapshots db' = td_snapshots db @ [s])"
  using st
proof (cases rule: fx_step.cases)
  case (fx_step org user r k i x)
  from fx_step(1) obtain s where s: "td_snapshots db' = td_snapshots db @ [s]" "fs_id s = i" "i = next_id (map fs_id (td_snapshots db))"
    "calculate_fx_transaction_exposure (fr_foreign_currency_amount r) (fr_transaction_date_spot_rate r)
       (fr_reporting_date_spot_rate r) (fr_fec_contract_rate r) = Inr x"
    "fs_amount s = to_scale 4 (fr_foreign_currency_amount r)" "fs_transaction_rate s = to_scale 6 (fr_transaction_date_spot_rate r)"
    "fs_reporting_rate s = to_scale 6 (fr_reporting_date_spot_rate r)" "fs_fec_rate s = map_option (to_scale 6) (fr_fec_contract_rate r)"
    "fs_is_hedged s = fx_is_hedged x" "fs_unrealized_variance s = fx_unrealized_variance x" "fs_hedging_gain_loss s = fx_hedging_gain_loss x"
    "mutually_exclusive_variance s" "fs_corrects_id s = k" "k \<noteq> None \<longrightarrow> the k \<in> fs_id ` set (td_snapshots db)"
    "\<exists>a. td_audit db' = td_audit db @ [a] \<and> al_entity_id a = Some (show_int i) \<and> al_organisation_id a = Some org \<and> al_user_id a = Some user"
    by (rule ingest_fx_InrD)
  have new: "fs_id s \<notin> fs_id ` set (td_snapshots db)" using next_id_new [of "map fs_id (td_snapshots db)"] s(2,3) by simp
  have scaled: "fx_row_to_scale s = s"
    using s(5-8,10,11) exposure_grid [OF s(4)] by (cases s) (simp add: fx_row_to_scale_def option.map_comp comp_def)
  have hedged: "fs_is_hedged s \<longleftrightarrow> fs_fec_rate s \<noteq> None" using s(8,9) fx_sides [OF s(4)] by simp
  have old: "case fs_corrects_id (td_snapshots db ! k) of None \<Rightarrow> True | Some j \<Rightarrow> j \<in> fs_id ` set (take k (td_snapshots db))"
    if "k < length (td_snapshots db)" for k
    using inv that by (simp add: fx_inv_def)
  have "case fs_corrects_id (td_snapshots db' ! m) of None \<Rightarrow> True | Some j \<Rightarrow> j \<in> fs_id ` set (take m (td_snapshots db'))"
    if "m < length (td_snapshots db')" for m
  proof (cases "m = length (td_snapshots db)")
    case True
    then show ?thesis using s(13,14) by (auto simp: s(1) split: option.split)
  next
    case False
    then show ?thesis using old [of m] that by (simp add: s(1) nth_append split: option.splits)
  qed
  then show ?thesis using inv new scaled hedged s(1,2,12,15) by (auto simp: fx_inv_def)
qed

text \<open>A request whose rates are on the scale of their columns.\<close>

definition plain_rate_request :: fx_request where
  "plain_rate_request = \<lparr> fr_transaction_date = PyDate 2026 1 5, fr_reporting_date = PyDate 2026 1 31, fr_currency_code = ''USD'',
     fr_foreign_currency_amount = 1000, fr_transaction_date_spot_rate = 18, fr_reporting_date_spot_rate = 19,
     fr_fec_contract_rate = Some 20 \<rparr>"

lemma plain_rate_ingested:
  "\<exists>db'. ingest_fx_transaction \<lparr> td_snapshots = [], td_audit = [] \<rparr> 1 7 plain_rate_request None = Inr (db', 1,
     \<lparr> fx_is_hedged = True, fx_hedging_gain_loss = Some (-1000), fx_unrealized_variance = None, fx_fec_contract_rate = Some 20 \<rparr>)"
proof -
  have n: "next_id [] = 1" by (simp add: next_id_def)
  have sn: "length (show_nat (Suc 0)) = 1" by (subst show_nat.simps) simp
  have x: "calculate_fx_transaction_exposure 1000 18 19 (Some 20) =
    Inr \<lparr> fx_is_hedged = True, fx_hedging_gain_loss = Some (-1000), fx_unrealized_variance = None, fx_fec_contract_rate = Some 20 \<rparr>"
    by (simp add: calculate_fx_transaction_exposure_def dec_eval cong: bindR_weak_cong)
  show ?thesis
    by (simp add: ingest_fx_transaction_def plain_rate_request_def x n insert_fx_snapshot_def fx_row_fits_def column_ok_def
        mutually_exclusive_variance_def record_audit_def canonicalize_entity_id_def audit_columns_ok_def show_int_def sn
        Let_def to_scale_grid)
qed

section \<open>Properties\<close>

text \<open>C17: In every state the treasury ledger can reach, each row holds exactly one of the two results, the hedging one
  exactly when it has a contract rate, every amount is on the scale of its column, a correction points to an
  earlier row, identifiers are distinct, the audit trail names the rows one to one in the order they were
  written; and rows are only ever added.\<close>

lemma treasury_ledger_invariant:
  assumes "fx_step\<^sup>*\<^sup>* \<lparr> td_snapshots = [], td_audit = [] \<rparr> db" "fx_step\<^sup>*\<^sup>* db db'"
  shows "fx_inv db \<and> fx_inv db' \<and> (\<exists>new. td_snapshots db' = td_snapshots db @ new)"
proof -
  have inv: "fx_inv db"
    using assms(1)
  proof (induction rule: rtranclp_induct)
    case (step y z)
    then show ?case using fx_step_inv by blast
  qed (simp add: fx_inv_def)
  show ?thesis
    using assms(2)
  proof (induction rule: rtranclp_induct)
    case (step y z)
    then show ?case using fx_step_inv [of y z] by auto
  qed (simp add: inv)
qed

lemma treasury_ledger_invariant_witness:
  "\<exists>db. fx_inv db \<and> length (td_snapshots db) = 1"
proof -
  obtain db x where i: "ingest_fx_transaction \<lparr> td_snapshots = [], td_audit = [] \<rparr> 1 7 plain_rate_request None = Inr (db, 1, x)"
    using plain_rate_ingested by blast
  then have "fx_step \<lparr> td_snapshots = [], td_audit = [] \<rparr> db" by (rule fx_step)
  then have s: "fx_step\<^sup>*\<^sup>* \<lparr> td_snapshots = [], td_audit = [] \<rparr> db" by blast
  obtain r where "td_snapshots db = [] @ [r]" using i by (rule ingest_fx_InrD) simp
  then show ?thesis using treasury_ledger_invariant [OF s rtranclp.rtrancl_refl] by auto
qed

text \<open>A stored row can be checked against its own columns when its inputs were on the scale of the columns:
  recomputing the exposure from the row gives the result the row holds.\<close>

lemma fx_row_reproducible:
  assumes i: "ingest_fx_transaction db org user r k = Inr (db', i, x)"
    and g: "on_grid 4 (fr_foreign_currency_amount r)" "on_grid 6 (fr_transaction_date_spot_rate r)"
      "on_grid 6 (fr_reporting_date_spot_rate r)" "\<And>f. fr_fec_contract_rate r = Some f \<Longrightarrow> on_grid 6 f"
  shows "\<exists>s. td_snapshots db' = td_snapshots db @ [s] \<and>
    calculate_fx_transaction_exposure (fs_amount s) (fs_transaction_rate s) (fs_reporting_rate s) (fs_fec_rate s) =
      Inr \<lparr> fx_is_hedged = fs_is_hedged s, fx_hedging_gain_loss = fs_hedging_gain_loss s,
        fx_unrealized_variance = fs_unrealized_variance s, fx_fec_contract_rate = fs_fec_rate s \<rparr>"
proof -
  from i obtain s where s: "td_snapshots db' = td_snapshots db @ [s]"
    "calculate_fx_transaction_exposure (fr_foreign_currency_amount r) (fr_transaction_date_spot_rate r)
       (fr_reporting_date_spot_rate r) (fr_fec_contract_rate r) = Inr x"
    "fs_amount s = to_scale 4 (fr_foreign_currency_amount r)" "fs_transaction_rate s = to_scale 6 (fr_transaction_date_spot_rate r)"
    "fs_reporting_rate s = to_scale 6 (fr_reporting_date_spot_rate r)" "fs_fec_rate s = map_option (to_scale 6) (fr_fec_contract_rate r)"
    "fs_is_hedged s = fx_is_hedged x" "fs_unrealized_variance s = fx_unrealized_variance x" "fs_hedging_gain_loss s = fx_hedging_gain_loss x"
    by (rule ingest_fx_InrD)
  have "map_option (to_scale 6) (fr_fec_contract_rate r) = fr_fec_contract_rate r"
    using g(4) by (cases "fr_fec_contract_rate r") (simp_all add: to_scale_grid)
  then show ?thesis using s g(1-3) exposure_grid(3) [OF s(2)] by (intro exI [of _ s]) (simp add: to_scale_grid)
qed

lemma fx_row_reproducible_witness:
  "\<exists>s :: fx_snapshot. calculate_fx_transaction_exposure (fs_amount s) (fs_transaction_rate s) (fs_reporting_rate s) (fs_fec_rate s) =
     Inr \<lparr> fx_is_hedged = fs_is_hedged s, fx_hedging_gain_loss = fs_hedging_gain_loss s,
       fx_unrealized_variance = fs_unrealized_variance s, fx_fec_contract_rate = fs_fec_rate s \<rparr>"
proof -
  obtain db x where i: "ingest_fx_transaction \<lparr> td_snapshots = [], td_audit = [] \<rparr> 1 7 plain_rate_request None = Inr (db, 1, x)"
    using plain_rate_ingested by blast
  have g: "on_grid 4 (fr_foreign_currency_amount plain_rate_request)" "on_grid 6 (fr_transaction_date_spot_rate plain_rate_request)"
    "on_grid 6 (fr_reporting_date_spot_rate plain_rate_request)" "fr_fec_contract_rate plain_rate_request = Some f \<Longrightarrow> on_grid 6 f" for f
    by (auto simp: plain_rate_request_def)
  show ?thesis using fx_row_reproducible [OF i g] by blast
qed

text \<open>Without that it need not: rates beyond six decimals are used in full and stored rounded.\<close>

definition fine_rate_request :: fx_request where
  "fine_rate_request = \<lparr> fr_transaction_date = PyDate 2026 1 5, fr_reporting_date = PyDate 2026 1 31, fr_currency_code = ''USD'',
     fr_foreign_currency_amount = 1000000, fr_transaction_date_spot_rate = 18, fr_reporting_date_spot_rate = 18 + 4 / 10000000,
     fr_fec_contract_rate = None \<rparr>"

lemma fx_row_not_reproducible:
  "\<exists>db' i x s. ingest_fx_transaction \<lparr> td_snapshots = [], td_audit = [] \<rparr> 1 7 fine_rate_request None = Inr (db', i, x) \<and>
     td_snapshots db' = [s] \<and> fs_unrealized_variance s = Some (2/5) \<and>
     calculate_fx_transaction_exposure (fs_amount s) (fs_transaction_rate s) (fs_reporting_rate s) (fs_fec_rate s) =
       Inr \<lparr> fx_is_hedged = False, fx_hedging_gain_loss = None, fx_unrealized_variance = Some 0, fx_fec_contract_rate = None \<rparr>"
proof -
  let ?r = fine_rate_request
  have x: "calculate_fx_transaction_exposure (fr_foreign_currency_amount ?r) (fr_transaction_date_spot_rate ?r)
      (fr_reporting_date_spot_rate ?r) (fr_fec_contract_rate ?r) =
    Inr \<lparr> fx_is_hedged = False, fx_hedging_gain_loss = None, fx_unrealized_variance = Some (2/5), fx_fec_contract_rate = None \<rparr>"
    by (simp add: fine_rate_request_def calculate_fx_transaction_exposure_def dec_eval cong: bindR_weak_cong)
  have y: "calculate_fx_transaction_exposure 1000000 18 18 None =
    Inr \<lparr> fx_is_hedged = False, fx_hedging_gain_loss = None, fx_unrealized_variance = Some 0, fx_fec_contract_rate = None \<rparr>"
    by (simp add: calculate_fx_transaction_exposure_def dec_eval cong: bindR_weak_cong)
  have h: "to_scale 6 (45000001 / 2500000) = 18" "to_scale 4 (2/5) = 2/5"
    by (simp_all add: to_scale_def half_away_def)
  have g: "to_scale 4 1000000 = 1000000" "to_scale 6 18 = 18" by (simp_all add: to_scale_grid)
  note r = h g
  define s where "s = \<lparr> fs_id = 1, fs_org = 1, fs_transaction_date = PyDate 2026 1 5, fs_reporting_date = PyDate 2026 1 31,
    fs_currency_code = ''USD'', fs_amount = 1000000, fs_transaction_rate = 18, fs_reporting_rate = 18, fs_fec_rate = None,
    fs_is_hedged = False, fs_unrealized_variance = Some (2/5 :: rat), fs_hedging_gain_loss = None, fs_corrects_id = None \<rparr>"
  have n: "next_id [] = 1" by (simp add: next_id_def)
  have sn: "length (show_nat (Suc 0)) = 1" by (subst show_nat.simps) simp
  obtain db' where "ingest_fx_transaction \<lparr> td_snapshots = [], td_audit = [] \<rparr> 1 7 ?r None = Inr (db', 1,
      \<lparr> fx_is_hedged = False, fx_hedging_gain_loss = None, fx_unrealized_variance = Some (2/5), fx_fec_contract_rate = None \<rparr>)"
    "td_snapshots db' = [s]"
    by (simp add: ingest_fx_transaction_def x n insert_fx_snapshot_def fx_row_fits_def column_ok_def mutually_exclusive_variance_def
        record_audit_def canonicalize_entity_id_def audit_columns_ok_def show_int_def sn fx_row_to_scale_def s_def)
      (simp add: fine_rate_request_def Let_def fx_row_to_scale_def mutually_exclusive_variance_def r)
  then show ?thesis by (intro exI [of _ db'] exI [of _ s] exI conjI) (assumption | simp add: s_def y)+
qed

text \<open>C40: What a client sees of a failing exposure request: 422 exactly when the user may upload and a rate that is used or
  checked is not positive; a missing permission is 403; everything else, an amount too large for the
  decimal context or for its column among it, is an internal error without a code.\<close>

lemma exposure_errors:
  assumes "calculate_exposure db c r = Inl e"
  shows "error_response e \<in> {(403, Some ''permission_denied''), (422, Some ''validation_failed''), (500, None)} \<and>
    (fst (error_response e) = 422 \<longleftrightarrow> is_ok (require_permission UPLOAD_DATA c) \<and>
      (fr_transaction_date_spot_rate r \<le> 0 \<or> fr_reporting_date_spot_rate r \<le> 0 \<or> (\<exists>f. fr_fec_contract_rate r = Some f \<and> f \<le> 0)))"
proof (cases "require_permission UPLOAD_DATA c")
  case (Inl x)
  then have "x = PermissionDeniedError ''Role does not have permission'' \<or> x = ValueError ''not a valid Role''"
    by (auto simp: require_permission_def role_of_def bindR_eq_Inl split: if_splits option.splits)
  then show ?thesis using assms Inl by (auto simp: calculate_exposure_def)
next
  case (Inr c')
  let ?calc = "calculate_fx_transaction_exposure (fr_foreign_currency_amount r) (fr_transaction_date_spot_rate r)
    (fr_reporting_date_spot_rate r) (fr_fec_contract_rate r)"
  let ?bad = "fr_transaction_date_spot_rate r \<le> 0 \<or> fr_reporting_date_spot_rate r \<le> 0 \<or> (\<exists>f. fr_fec_contract_rate r = Some f \<and> f \<le> 0)"
  obtain y where y: "ingest_fx_transaction db (cl_active_org_id c') (cl_user_id c') r None = Inl y"
    and e: "e = (case y of ValueError _ \<Rightarrow> ValidationFailedError ''FX exposure calculation failed validation''
      | TypeError _ \<Rightarrow> ValidationFailedError ''FX exposure calculation failed validation'' | _ \<Rightarrow> y)"
    using assms Inr by (auto simp: calculate_exposure_def as_validation_error_def split: sum.splits)
  show ?thesis
  proof (cases "?calc")
    case (Inl z)
    have "y = z" using y Inl by (simp add: ingest_fx_transaction_def)
    moreover have "if ?bad then \<exists>m. z = ValueError m else z = InvalidOperation"
      using Inl cur.fails by (auto simp: calculate_fx_transaction_exposure_def bindR_eq_Inl split: if_splits option.splits)
    ultimately show ?thesis using e Inr by (auto simp: as_validation_error_def split: if_splits)
  next
    case (Inr x)
    have ok: "\<not> ?bad" using fx_sides [OF Inr] Inr
      by (auto simp: calculate_fx_transaction_exposure_def split: if_splits option.splits)
    have "(\<exists>m. y = DataError m) \<or> (\<exists>m. y = IntegrityError m)"
      using y Inr by (auto simp: ingest_fx_transaction_def bindR_eq_Inl Let_def insert_fx_snapshot_def record_audit_def
          canonicalize_entity_id_def split: if_splits)
    then show ?thesis using e ok by (auto simp: as_validation_error_def)
  qed
qed

lemma exposure_errors_witness:
  "\<exists>e. calculate_exposure \<lparr> td_snapshots = [], td_audit = [] \<rparr>
      \<lparr> cl_user_id = 7, cl_active_org_id = 1, cl_role = ''buyer'', cl_issued_at = 0, cl_expires_at = 900 \<rparr>
      (fine_rate_request\<lparr> fr_reporting_date_spot_rate := 0 \<rparr>) = Inl e \<and> error_response e = (422, Some ''validation_failed'')"
proof -
  let ?c = "\<lparr> cl_user_id = 7, cl_active_org_id = 1, cl_role = ''buyer'', cl_issued_at = 0, cl_expires_at = 900 \<rparr>"
  have p: "require_permission UPLOAD_DATA ?c = Inr ?c" by (simp add: require_permission_def role_of_def all_roles_def)
  obtain e where e: "calculate_exposure \<lparr> td_snapshots = [], td_audit = [] \<rparr> ?c (fine_rate_request\<lparr> fr_reporting_date_spot_rate := 0 \<rparr>) = Inl e"
    by (simp add: calculate_exposure_def p ingest_fx_transaction_def calculate_fx_transaction_exposure_def fine_rate_request_def
        as_validation_error_def)
  show ?thesis using exposure_errors [OF e] e p by (auto simp: fine_rate_request_def)
qed

text \<open>The route profitability service stores the profit it computed; its route refuses every request.\<close>

lemma route_snapshot_appended:
  assumes "ingest_route_profitability rows logs org user r f d a k = Inr (rows', logs', x)"
  shows "\<exists>s. rows' = rows @ [s] \<and> rs_id s = next_id (map rs_id rows) \<and> rs_net_net_profit s = rp_net_net_profit x \<and>
    rs_revenue s = to_scale 4 (rq_revenue r) \<and> rs_is_net_revenue_negative s = rp_is_net_revenue_negative x"
proof -
  obtain x' where x': "calculate_true_route_profitability (rq_revenue r) (rq_cogs r) (rq_trade_spend r) (rq_revenue_basis r) f d a = Inr x'"
    using assms by (auto simp: ingest_route_profitability_def bindR_eq_Inr)
  then have "on_grid 4 (rp_net_net_profit x')"
    by (auto simp: calculate_true_route_profitability_def calculate_customer_net_margin_def bindR_eq_Inr round_currency_grid split: if_splits)
  then have "to_scale 4 (rp_net_net_profit x') = rp_net_net_profit x'" by (rule to_scale_grid)
  then show ?thesis using assms
    by (auto simp: ingest_route_profitability_def x' bindR_eq_Inr Let_def insert_route_snapshot_def route_row_to_scale_def split: if_splits)
qed

lemma route_always_refused:
  "\<exists>e. create_route_profitability c payload = Inl e \<and>
    (is_ok (require_permission UPLOAD_DATA c) \<longrightarrow> error_response e = (422, Some ''evidence_required''))"
  by (cases "require_permission UPLOAD_DATA c") (simp_all add: create_route_profitability_def)

end
