(* ===== verification/RegisterRoutes.thy ===== *)
theory RegisterRoutes
  imports RebateIngestion OpportunityService DuplicateDetection PurchaseUpload
begin

text \<open>
  The routes over the rebate and opportunity registers (\<open>app/api/v1/rebates.py\<close>,
  \<open>app/api/v1/opportunities.py\<close>) and those that record purchases (\<open>purchase_orders.py\<close>,
  \<open>goods_receipts.py\<close>, \<open>purchase_invoices.py\<close>): the permission each asks for, the rows it looks up for the active
  organisation, the service it calls and the figures it derives for the answer.  A route commits before it
  builds its answer, so an answer that fails is a pair of the new state and the exception.
\<close>

section \<open>Opportunities\<close>

definition get_opportunity :: "ledger \<Rightarrow> access_token_claims \<Rightarrow> int \<Rightarrow> opp res" where
  "get_opportunity l c oid = (case map_of (opps l) oid of
     Some r \<Rightarrow> if op_org r = cl_active_org_id c then Inr r else Inl (NotFoundError ''Opportunity not found'')
   | None \<Rightarrow> Inl (NotFoundError ''Opportunity not found''))"

definition post_opportunity ::
    "rebate_db \<Rightarrow> access_token_claims \<Rightarrow> int option option \<Rightarrow> string option \<Rightarrow> rat option \<Rightarrow> pydate option \<Rightarrow> (rebate_db \<times> int) res" where
  "post_opportunity db c supplier savings_type afi effective_from = bindR (require_permission APPROVE_OPPORTUNITIES c) (\<lambda>c.
     bindR (create_opportunity (led db) (cl_active_org_id c) supplier savings_type afi effective_from) (\<lambda>(l, oid).
     Inr (db\<lparr> led := l \<rparr>, oid)))"

definition get_opportunities :: "rebate_db \<Rightarrow> access_token_claims \<Rightarrow> string option \<Rightarrow> string option \<Rightarrow> opp list res" where
  "get_opportunities db c savings_type status = bindR (require_permission VIEW_FINANCIALS c) (\<lambda>c.
     Inr (filter (\<lambda>r. op_org r = cl_active_org_id c) (list_opportunities (led db) savings_type status)))"

definition advance_opportunity_stage :: "rebate_db \<Rightarrow> access_token_claims \<Rightarrow> int \<Rightarrow> string \<Rightarrow> rebate_db res" where
  "advance_opportunity_stage db c oid target_status = bindR (require_permission APPROVE_OPPORTUNITIES c) (\<lambda>c.
     bindR (get_opportunity (led db) c oid) (\<lambda>_.
     bindR (advance_waterfall_stage (led db) (cl_user_id c) oid target_status) (\<lambda>l. Inr (db\<lparr> led := l \<rparr>))))"

definition realise_opportunity ::
    "rebate_db \<Rightarrow> access_token_claims \<Rightarrow> int \<Rightarrow> int \<Rightarrow> rat \<Rightarrow> pydate \<Rightarrow> pydate \<Rightarrow> rebate_db res" where
  "realise_opportunity db c now oid realised_savings ps pe = bindR (require_permission APPROVE_SAVINGS c) (\<lambda>c.
     bindR (get_opportunity (led db) c oid) (\<lambda>_.
     bindR (record_realised_savings (led db) (cl_user_id c) now oid realised_savings ps pe) (\<lambda>l. Inr (db\<lparr> led := l \<rparr>))))"

section \<open>Rebates\<close>

definition get_agreement :: "rebate_db \<Rightarrow> access_token_claims \<Rightarrow> int \<Rightarrow> agreement res" where
  "get_agreement db c aid = (case map_of (agreements db) aid of
     Some a \<Rightarrow> if ag_org a = cl_active_org_id c then Inr a else Inl (NotFoundError ''Rebate agreement not found'')
   | None \<Rightarrow> Inl (NotFoundError ''Rebate agreement not found''))"

definition get_period_actual :: "rebate_db \<Rightarrow> int \<Rightarrow> int \<Rightarrow> rpa res" where
  "get_period_actual db aid rid = (case map_of (rpas (led db)) rid of
     Some r \<Rightarrow> if rp_agreement r = aid then Inr r else Inl (NotFoundError ''Rebate period not found'')
   | None \<Rightarrow> Inl (NotFoundError ''Rebate period not found''))"

definition get_rebate_agreement :: "rebate_db \<Rightarrow> access_token_claims \<Rightarrow> int \<Rightarrow> agreement res" where
  "get_rebate_agreement db c aid = bindR (require_permission VIEW_FINANCIALS c) (\<lambda>c. get_agreement db c aid)"

text \<open>The answer about a period: its row and the progress to the next band.\<close>

definition period_read_model :: "rebate_db \<Rightarrow> agreement \<Rightarrow> int \<Rightarrow> (rpa \<times> rat option \<times> rat option) res" where
  "period_read_model db a rid = (case map_of (rpas (led db)) rid of
     None \<Rightarrow> Inl NoResultFound
   | Some r \<Rightarrow> bindR (get_derived_progress a r) (\<lambda>p. Inr (r, p)))"

definition answer :: "rebate_db \<Rightarrow> (rebate_db \<times> 'a) res \<Rightarrow> (rebate_db \<Rightarrow> 'a \<Rightarrow> 'b res) \<Rightarrow> rebate_db \<times> 'b res" where
  "answer db m f = (case m of Inl e \<Rightarrow> (db, Inl e) | Inr (db', x) \<Rightarrow> (db', f db' x))"

definition post_rebate_agreement :: "rebate_db \<Rightarrow> access_token_claims \<Rightarrow> rebate_agreement_create \<Rightarrow> (rebate_db \<times> int) res" where
  "post_rebate_agreement db c payload = bindR (require_permission EDIT_SUPPLIERS c) (\<lambda>c.
     bindR (parse_rebate_agreement_create payload) (\<lambda>p. create_rebate_agreement db (cl_active_org_id c) p))"

definition record_rebate_period_actual ::
    "rebate_db \<Rightarrow> access_token_claims \<Rightarrow> int \<Rightarrow> pydate \<Rightarrow> pydate \<Rightarrow> rat option \<Rightarrow> rat option \<Rightarrow> int \<Rightarrow>
     rebate_db \<times> (rpa \<times> rat option \<times> rat option) res" where
  "record_rebate_period_actual db c aid ps pe spend volume now = answer db
     (bindR (require_permission UPLOAD_DATA c) (\<lambda>c. bindR (get_agreement db c aid) (\<lambda>a.
        bindR (record_period_actual db (cl_active_org_id c) aid ps pe spend volume now) (\<lambda>(db', rid). Inr (db', (a, rid))))))
     (\<lambda>db' (a, rid). period_read_model db' a rid)"

definition get_rebate_period_actual :: "rebate_db \<Rightarrow> access_token_claims \<Rightarrow> int \<Rightarrow> int \<Rightarrow> (rpa \<times> rat option \<times> rat option) res" where
  "get_rebate_period_actual db c aid rid = bindR (require_permission VIEW_FINANCIALS c) (\<lambda>c.
     bindR (get_agreement db c aid) (\<lambda>a. bindR (get_period_actual db aid rid) (\<lambda>_. period_read_model db a rid)))"

definition check_rebate_threshold_alert :: "rebate_db \<Rightarrow> access_token_claims \<Rightarrow> int \<Rightarrow> int \<Rightarrow> pydate \<Rightarrow> (rebate_db \<times> bool) res" where
  "check_rebate_threshold_alert db c aid rid as_of_date = bindR (require_permission VIEW_FINANCIALS c) (\<lambda>c.
     bindR (get_agreement db c aid) (\<lambda>a. bindR (get_period_actual db aid rid) (\<lambda>_. check_threshold_alert db a rid as_of_date)))"

definition close_rebate_period ::
    "rebate_db \<Rightarrow> access_token_claims \<Rightarrow> int \<Rightarrow> int \<Rightarrow> pydate \<Rightarrow> rebate_db \<times> (rpa \<times> rat option \<times> rat option) res" where
  "close_rebate_period db c aid rid as_of_date = answer db
     (bindR (require_permission APPROVE_SAVINGS c) (\<lambda>c. bindR (get_agreement db c aid) (\<lambda>a. bindR (get_period_actual db aid rid) (\<lambda>_.
        bindR (close_period (led db) rid as_of_date) (\<lambda>l. Inr (db\<lparr> led := l \<rparr>, a))))))
     (\<lambda>db' a. period_read_model db' a rid)"

definition record_rebate_receipt ::
    "rebate_db \<Rightarrow> access_token_claims \<Rightarrow> int \<Rightarrow> int \<Rightarrow> rat \<Rightarrow> rebate_db \<times> ((rpa \<times> rat option \<times> rat option) \<times> leakage_result) res" where
  "record_rebate_receipt db c aid rid received = answer db
     (bindR (require_permission APPROVE_SAVINGS c) (\<lambda>c. bindR (get_agreement db c aid) (\<lambda>a. bindR (get_period_actual db aid rid) (\<lambda>_.
        bindR (record_receipt (led db) rid received) (\<lambda>(l, leakage). Inr (db\<lparr> led := l \<rparr>, (a, leakage)))))))
     (\<lambda>db' (a, leakage). bindR (period_read_model db' a rid) (\<lambda>m. Inr (m, leakage)))"

section \<open>Duplicate and consolidation flags\<close>

definition scan_duplicate_skus ::
    "spend_db \<Rightarrow> access_token_claims \<Rightarrow> int option \<Rightarrow> duplicate_flag list \<Rightarrow> (duplicate_flag list \<times> nat) res" where
  "scan_duplicate_skus sd c supplier flags = bindR (require_permission EDIT_SUPPLIERS c) (\<lambda>_. case supplier of
     None \<Rightarrow> Inl (NotFoundError ''Supplier not found'')
   | Some sid \<Rightarrow> (let fresh = scan_supplier_for_duplicate_skus sd sid flags in Inr (flags @ fresh, length fresh)))"

definition list_duplicate_sku_flags :: "access_token_claims \<Rightarrow> string option \<Rightarrow> duplicate_flag list \<Rightarrow> duplicate_flag list res" where
  "list_duplicate_sku_flags c status flags = bindR (require_permission VIEW_FINANCIALS c) (\<lambda>_.
     Inr (filter (\<lambda>f. status \<in> {None, Some []} \<or> Some (df_status f) = status) flags))"

definition scan_supplier_consolidation ::
    "spend_db \<Rightarrow> access_token_claims \<Rightarrow> consolidation_flag list \<Rightarrow> (consolidation_flag list \<times> nat) res" where
  "scan_supplier_consolidation sd c flags = bindR (require_permission EDIT_SUPPLIERS c) (\<lambda>_.
     let fresh = scan_for_supplier_consolidation sd flags in Inr (flags @ fresh, length fresh))"

definition list_consolidation_flags :: "access_token_claims \<Rightarrow> string option \<Rightarrow> consolidation_flag list \<Rightarrow> consolidation_flag list res" where
  "list_consolidation_flags c status flags = bindR (require_permission VIEW_FINANCIALS c) (\<lambda>_.
     Inr (filter (\<lambda>f. status \<in> {None, Some []} \<or> Some (cf_status f) = status) flags))"

definition get_consolidation_graph ::
    "access_token_claims \<Rightarrow> supplier_input list \<Rightarrow> consolidation_flag list \<Rightarrow> (graph_node list \<times> (graph_edge \<times> string \<times> string) list) res" where
  "get_consolidation_graph c active_suppliers flags = bindR (require_permission VIEW_FINANCIALS c) (\<lambda>_.
     build_consolidation_graph_payload active_suppliers flags)"

definition review_duplicate_sku_flag_route ::
    "access_token_claims \<Rightarrow> nat \<Rightarrow> bool \<Rightarrow> duplicate_flag list \<Rightarrow> duplicate_flag list res" where
  "review_duplicate_sku_flag_route c i confirmed flags = bindR (require_permission EDIT_SUPPLIERS c) (\<lambda>c.
     if length flags \<le> i then Inl (NotFoundError ''Duplicate SKU flag not found'')
     else Inr (flags[i := review_duplicate_sku_flag (cl_user_id c) confirmed (flags ! i)]))"

definition review_consolidation_flag_route ::
    "access_token_claims \<Rightarrow> nat \<Rightarrow> consolidation_action \<Rightarrow> consolidation_flag list \<Rightarrow> consolidation_flag list res" where
  "review_consolidation_flag_route c i act flags = bindR (require_permission EDIT_SUPPLIERS c) (\<lambda>c.
     if length flags \<le> i then Inl (NotFoundError ''Consolidation flag not found'')
     else bindR (review_consolidation_flag act (flags ! i)) (\<lambda>f. Inr (flags[i := f])))"

section \<open>Purchases\<close>

definition post_purchase_invoice ::
    "rebate_db \<Rightarrow> access_token_claims \<Rightarrow> int option \<Rightarrow> pydate \<Rightarrow> invoice_line_input list \<Rightarrow> int \<Rightarrow> (rebate_db \<times> price_variance list) res" where
  "post_purchase_invoice db c supplier invoice_date lines now = bindR (require_permission UPLOAD_DATA c) (\<lambda>_.
     ingest_purchase_invoice db supplier invoice_date lines now)"

definition post_purchase_order :: "access_token_claims \<Rightarrow> int option \<Rightarrow> (rat \<times> rat) list \<Rightarrow> (int \<times> purchase_order_line list) res" where
  "post_purchase_order c supplier lines = bindR (require_permission UPLOAD_DATA c) (\<lambda>_. create_purchase_order supplier lines)"

definition post_goods_receipt :: "access_token_claims \<Rightarrow> int option \<Rightarrow> (rat option \<times> rat) list \<Rightarrow> (int \<times> receipt_variance list) res" where
  "post_goods_receipt c supplier lines = bindR (require_permission UPLOAD_DATA c) (\<lambda>_. record_goods_receipt supplier lines)"

section \<open>Requests\<close>

text \<open>One request of a user on the registers, whatever the answer.\<close>

inductive register_request :: "access_token_claims \<Rightarrow> rebate_db \<Rightarrow> rebate_db \<Rightarrow> bool" for c where
  Req_opportunity: "post_opportunity db c s ty a d = Inr (db', oid) \<Longrightarrow> register_request c db db'"
| Req_advance: "advance_opportunity_stage db c oid st = Inr db' \<Longrightarrow> register_request c db db'"
| Req_realise: "realise_opportunity db c now oid x ps pe = Inr db' \<Longrightarrow> register_request c db db'"
| Req_agreement: "post_rebate_agreement db c p = Inr (db', aid) \<Longrightarrow> register_request c db db'"
| Req_period: "record_rebate_period_actual db c aid ps pe sp vol now = (db', resp) \<Longrightarrow> register_request c db db'"
| Req_alert: "check_rebate_threshold_alert db c aid rid as_of_day = Inr (db', fired) \<Longrightarrow> register_request c db db'"
| Req_close: "close_rebate_period db c aid rid as_of_day = (db', resp) \<Longrightarrow> register_request c db db'"
| Req_receipt: "record_rebate_receipt db c aid rid x = (db', resp') \<Longrightarrow> register_request c db db'"
| Req_upload: "upload_purchase_transactions sheet db c supplier now = Inr (db', res) \<Longrightarrow> register_request c db db'"
| Req_invoice: "post_purchase_invoice db c supplier d lines now = Inr (db', vs) \<Longrightarrow> register_request c db db'"

inductive_cases register_requestE: "register_request c db db'"

definition may_approve_savings :: "access_token_claims \<Rightarrow> bool" where
  "may_approve_savings c = is_ok (require_permission APPROVE_SAVINGS c)"

text \<open>Periods keep what they earned and received, and the opportunity register is the same.\<close>

definition keeps_settled :: "ledger \<Rightarrow> ledger \<Rightarrow> bool" where
  "keeps_settled l l' = (
     (\<forall>i r. map_of (rpas l) i = Some r \<longrightarrow>
        (\<exists>r'. map_of (rpas l') i = Some r' \<and> rp_earned r' = rp_earned r \<and> rp_received r' = rp_received r)) \<and>
     opps l' = opps l)"

section \<open>Lemmas\<close>

text \<open>Every role that may approve opportunities may approve savings.\<close>

lemma opportunity_approvers:
  assumes "require_permission APPROVE_OPPORTUNITIES c = Inr c'"
  shows "may_approve_savings c"
proof -
  obtain r where "role_of (cl_role c) = Inr r" "APPROVE_OPPORTUNITIES \<in> set (role_permissions r)"
    using assms by (auto simp: require_permission_def bindR_eq_Inr split: if_splits)
  then show ?thesis by (cases r) (auto simp: may_approve_savings_def require_permission_def all_permissions_def)
qed

lemma keeps_refl [simp, intro]: "keeps_settled l l"
  by (simp add: keeps_settled_def)

lemma keeps_trans: "keeps_settled l m \<Longrightarrow> keeps_settled m n \<Longrightarrow> keeps_settled l n"
  unfolding keeps_settled_def by (metis (no_types, lifting))

lemma commit_keys: "commit l = Inr l' \<Longrightarrow> l' = l \<and> keys_ok l"
  by (auto simp: commit_eq_Inr all_cells_db_ok)

lemma fresh_key: "map_of d (fresh_id d) = None"
  by (simp add: map_of_eq_None_iff fresh_id_notin)

lemma record_period_keeps:
  assumes "record_period_actual db org aid ps pe sp vol now = Inr (db', rid)"
  shows "keeps_settled (led db) (led db') \<and> keys_ok (led db')"
proof -
  let ?i = "fresh_id (rpas (led db))"
  let ?l = "(led db)\<lparr> rpas := AList.update ?i (new_period org aid ps pe sp vol) (rpas (led db)) \<rparr>"
  obtain l' x where w: "write_expected_amount_event ?l ?i x By_manual_estimate = Inr l'" and c: "led db' = l'" "keys_ok l'"
    using assms by (auto simp: record_period_actual_def Let_def bindR_eq_Inr recalculate_expected_def
        dest!: commit_keys split: option.splits)
  from write_expected_InrD [OF w] show ?thesis
    using c fresh_key [of "rpas (led db)"] by (auto simp: keeps_settled_def)
qed

lemma alert_keeps:
  assumes "check_threshold_alert db a rid d = Inr (db', fired)"
  shows "led db' = led db"
  using assms by (auto simp: check_threshold_alert_def bindR_eq_Inr dest!: commit_keys split: option.splits if_splits)

lemma recalculation_keeps_opps:
  assumes "foldR (recalculate_period sid now) db rids = Inr db'"
  shows "opps (led db') = opps (led db)"
  using assms
proof (induction rids arbitrary: db)
  case (Cons k ks)
  obtain d where d: "recalculate_period sid now db k = Inr d" "foldR (recalculate_period sid now) d ks = Inr db'"
    using Cons.prems by (auto simp: res_simps)
  have "opps (led d) = opps (led db)"
    using d(1)
  proof (cases rule: recalculate_period_InrD)
    case (aggregated r a ts src agg x e)
    then show ?thesis
      by (auto simp: recalculate_expected_def bindR_eq_Inr put_period_def dest!: write_expected_InrD split: option.splits)
  qed simp
  then show ?case using Cons.IH [OF d(2)] by simp
qed simp

lemma recalculation_keeps:
  assumes k: "keys_ok (led db)" and d: "recalculate_affected_periods db sid a b now = Inr db'" and k': "keys_ok (led db')"
  shows "keeps_settled (led db) (led db') \<and> keys_ok (led db')"
proof -
  have "opps (led db') = opps (led db)"
    using recalculation_keeps_opps [OF d [unfolded recalculate_affected_periods_def]] by simp
  moreover have "\<exists>r'. map_of (rpas (led db')) j = Some r' \<and> rp_earned r' = rp_earned r \<and> rp_received r' = rp_received r"
    if "map_of (rpas (led db)) j = Some r" for j r
    using aggregation_frame [OF k d] that by fastforce
  ultimately show ?thesis using k' by (auto simp: keeps_settled_def)
qed

lemma ingest_keeps:
  assumes k: "keys_ok (led db)" and i: "ingest_transactions db sid rows now = Inr db'"
  shows "keeps_settled (led db) (led db') \<and> keys_ok (led db')"
proof -
  obtain ts where ts: "mapR (parse_tx_row sid) rows = Inr ts" using i by (auto simp: ingest_transactions_def bindR_eq_Inr)
  let ?d = "db\<lparr> transactions := transactions db @ ts \<rparr>"
  show ?thesis
  proof (cases "ts = []")
    case True
    then show ?thesis using i ts by (auto simp: ingest_transactions_def commit_db_def bindR_eq_Inr dest!: commit_keys)
  next
    case False
    then obtain d where d: "recalculate_affected_periods ?d sid (min_date (map pu_date ts)) (max_date (map pu_date ts)) now = Inr d"
      and c: "led db' = led d" "keys_ok (led d)"
      using i ts by (auto simp: ingest_transactions_def Let_def commit_db_def bindR_eq_Inr dest!: commit_keys)
    then show ?thesis using recalculation_keeps [OF _ d c(2)] k by simp
  qed
qed

lemma invoice_keeps:
  assumes k: "keys_ok (led db)" and i: "ingest_purchase_invoice db supplier dt lines now = Inr (db', vs)"
  shows "keeps_settled (led db) (led db') \<and> keys_ok (led db')"
proof -
  obtain sid d and ls :: "(purchase_row \<times> price_variance option) list" where d: "recalculate_affected_periods (db\<lparr> invoice_lines := invoice_lines db @ map fst ls \<rparr>) sid dt dt now = Inr d"
    and c: "led db' = led d" "keys_ok (led d)"
    using i by (auto simp: ingest_purchase_invoice_def commit_db_def bindR_eq_Inr dest!: commit_keys split: option.splits)
  then show ?thesis using recalculation_keeps [OF _ d c(2)] k by simp
qed

lemma upload_stores:
  assumes "upload_purchase_transactions sheet db c supplier now = Inr (db', res)"
  shows "db' = db \<or> (\<exists>sid rows. ingest_transactions db sid rows now = Inr db')"
proof -
  obtain sid s raw where "supplier = Some sid" "sheet = Inr s" "read_workbook s = Inr raw" and ok: "is_ok (require_permission UPLOAD_DATA c)"
    using assms by (auto simp: upload_purchase_transactions_def bindR_eq_Inr is_ok_def split: option.splits)
  with assms show ?thesis
    by (cases raw) (auto simp: upload_purchase_transactions_def bindR_eq_Inr Let_def)
qed

lemma request_keeps:
  assumes "register_request c db db'" "keys_ok (led db)" "\<not> may_approve_savings c"
  shows "keeps_settled (led db) (led db') \<and> keys_ok (led db')"
  using assms
proof (cases rule: register_request.cases)
  case Req_opportunity
  then show ?thesis using assms(3) by (auto simp: post_opportunity_def bindR_eq_Inr dest: opportunity_approvers)
next
  case Req_advance
  then show ?thesis using assms(3) by (auto simp: advance_opportunity_stage_def bindR_eq_Inr dest: opportunity_approvers)
next
  case Req_realise
  then show ?thesis using assms(3) by (auto simp: realise_opportunity_def bindR_eq_Inr may_approve_savings_def is_ok_def)
next
  case Req_agreement
  then show ?thesis using assms(2)
    by (auto simp: post_rebate_agreement_def create_rebate_agreement_def Let_def bindR_eq_Inr dest!: commit_keys split: option.splits)
next
  case Req_period
  then show ?thesis using assms(2)
    by (auto simp: record_rebate_period_actual_def answer_def bindR_eq_Inr bindR_eq_Inl dest: record_period_keeps split: sum.splits)
next
  case Req_alert
  then show ?thesis using assms(2)
    by (auto simp: check_rebate_threshold_alert_def bindR_eq_Inr dest: alert_keeps)
next
  case Req_close
  then show ?thesis using assms(2,3)
    by (auto simp: close_rebate_period_def answer_def bindR_eq_Inr may_approve_savings_def is_ok_def split: sum.splits)
next
  case Req_receipt
  then show ?thesis using assms(2,3)
    by (auto simp: record_rebate_receipt_def answer_def bindR_eq_Inr may_approve_savings_def is_ok_def split: sum.splits)
next
  case Req_upload
  then show ?thesis using assms(2) upload_stores ingest_keeps by blast
next
  case Req_invoice
  then show ?thesis using assms(2) invoice_keeps by (auto simp: post_purchase_invoice_def bindR_eq_Inr)
qed

section \<open>Properties\<close>

text \<open>C10: Whatever users without the permission to approve savings send, in any order and whether their requests
  succeed or fail, no period of a rebate agreement disappears or changes its earned or received amount, and the
  opportunity register stays as it was: no role has the permission for opportunities without the one for
  savings.\<close>

lemma settled_only_by_approvers:
  assumes "(\<lambda>d d'. \<exists>c. \<not> may_approve_savings c \<and> register_request c d d')\<^sup>*\<^sup>* db db'" "keys_ok (led db)"
  shows "keeps_settled (led db) (led db') \<and> keys_ok (led db')"
  using assms
proof (induction rule: rtranclp_induct)
  case (step d d')
  then obtain c where "register_request c d d'" "\<not> may_approve_savings c" by blast
  with step show ?case using request_keeps keeps_trans by blast
qed simp

text \<open>A procurement manager adds an agreement.\<close>

lemma settled_only_by_approvers_witness:
  "\<exists>c db db'. \<not> may_approve_savings c \<and> register_request c db db' \<and> keeps_settled (led db) (led db') \<and>
     opps (led db) \<noteq> [] \<and> length (agreements db') = Suc (length (agreements db))"
proof -
  let ?c = "\<lparr> cl_user_id = 7, cl_active_org_id = 1, cl_role = ''procurement_manager'', cl_issued_at = 0, cl_expires_at = 900 \<rparr>"
  let ?l = "example_register ''implementation''"
  let ?db = "(example_db ?l)\<lparr> agreements := [] \<rparr>"
  let ?p = "\<lparr> rc_supplier = Some 3, rc_type = FIXED_AMOUNT, rc_flat = None, rc_bands = None, rc_fixed = Some 10 \<rparr>"
  have p: "require_permission EDIT_SUPPLIERS ?c = Inr ?c" "\<not> may_approve_savings ?c"
    by (simp_all add: require_permission_def role_of_def all_roles_def may_approve_savings_def)
  have led: "led ?db = ?l" "opps ?l \<noteq> []" by (simp_all add: example_db_def example_register_def)
  obtain db' i where a: "post_rebate_agreement ?db ?c ?p = Inr (db', i)" "length (agreements db') = 1"
    by (simp add: post_rebate_agreement_def p parse_rebate_agreement_create_def validate_type_specific_fields_def
        create_rebate_agreement_def Let_def led ready_commit [OF example_register_ready])
  have k: "keys_ok (led ?db)" using example_register_ready [of "''implementation''"] by (simp add: led ready_def all_cells_db_ok)
  have "keeps_settled (led ?db) (led db')"
    using settled_only_by_approvers [OF r_into_rtranclp k, of db'] p(2) Req_agreement [OF a(1)] by blast
  then show ?thesis using p Req_agreement [OF a(1)] a(2) led
    by (intro exI [of _ ?c] exI [of _ ?db] exI [of _ db']) simp
qed

end
