(* ===== verification/InventoryUpload.thy ===== *)
theory InventoryUpload
  imports InventoryAnalytics Ingestion AccessControl CsvReader "HOL-Library.Sublist"
begin

text \<open>
  The upload of an inventory valuation report, from the file to the stock rows: the route of
  \<open>app/api/v1/inventory.py\<close> with the column names of \<open>app/ingestion/inventory_valuation_mapping.py\<close>, over the
  validator of \<open>Ingestion\<close> and the service of \<open>InventoryAnalytics\<close>.  The sheet \<open>openpyxl\<close> finds in the bytes,
  their text and the location the query finds are arguments.
\<close>

section \<open>Column names\<close>

definition inventory_valuation_canonical_fields :: "string list" where
  "inventory_valuation_canonical_fields = [''supplier_sku'', ''description'', ''quantity_on_hand'', ''unit_cost'', ''total_valuation'']"

definition inventory_valuation_aliases :: "(string, string list) pydict" where
  "inventory_valuation_aliases =
    [(''supplier_sku'', [''stock code'', ''stock_code'', ''stock no'', ''stock_no'', ''item_code'', ''item code'', ''sku'']),
     (''description'', [''description'', ''item_description'', ''item description'', ''stock_description'', ''stock description'']),
     (''quantity_on_hand'', [''qty_on_hand'', ''qty on hand'', ''closing_stock'', ''closing stock'', ''quantity'', ''qoh'']),
     (''unit_cost'', [''moving_avg_cost'', ''moving avg cost'', ''mac_unit_cost'', ''mac unit cost'', ''unit_cost'', ''unit cost'',
        ''avg_cost'', ''avg cost'']),
     (''total_valuation'', [''total_valuation'', ''total valuation'', ''asset_value'', ''asset value'', ''total_cost'', ''total cost''])]"

definition suggest_inventory_valuation_mapping :: "string list \<Rightarrow> mapped_row" where
  "suggest_inventory_valuation_mapping source_columns =
     suggest_mapping source_columns inventory_valuation_canonical_fields inventory_valuation_aliases"

section \<open>Reading the file\<close>

text \<open>An empty cell stays \<open>None\<close>; every other is read through \<open>str\<close> by the validator.\<close>

definition cell_value :: "sheet_cell \<Rightarrow> csv_value" where
  "cell_value c = (if c = Cell_empty then No_value else Val (cell_str c))"

definition worksheet_rows :: "sheet_cell list list option \<Rightarrow> csv_row list res" where
  "worksheet_rows worksheet = (case worksheet of
     None \<Rightarrow> Inl (ValidationFailedError ''no active worksheet'')
   | Some [] \<Rightarrow> Inr []
   | Some (header # rows) \<Rightarrow>
       Inr (map (\<lambda>r. build_dict (zip (map (\<lambda>h. Some (strip (cell_str h))) header) (map cell_value r)))
         (filter (list_ex (\<lambda>c. c \<noteq> Cell_empty)) rows)))"

definition parse_upload_to_rows :: "string \<Rightarrow> sheet_cell list list option res \<Rightarrow> string res \<Rightarrow> csv_row list res" where
  "parse_upload_to_rows filename sheet content = (let name = lower filename in
     if suffix ''.xlsx'' name then bindR sheet worksheet_rows
     else if suffix ''.csv'' name then bindR content read_csv_rows
     else if suffix ''.xls'' name then Inl (ValidationFailedError ''Legacy .xls files are not supported'')
     else Inl (ValidationFailedError ''Unsupported file type''))"

section \<open>The route\<close>

definition required_valuation_fields :: "string list" where
  "required_valuation_fields = [''supplier_sku'', ''quantity_on_hand'', ''unit_cost'']"

definition mapped_valuation_rows :: "csv_row list \<Rightarrow> mapped_row list res" where
  "mapped_valuation_rows raw_rows = (case raw_rows of
     [] \<Rightarrow> Inl (ValidationFailedError ''Uploaded file contains no data rows'')
   | first # _ \<Rightarrow>
       if None \<in> fst ` set first then Inl AttributeError
       else let mapping = suggest_inventory_valuation_mapping (map (\<lambda>(k, _). the k) first) in
         if list_ex (\<lambda>f. cell mapping f = None) required_valuation_fields
         then Inl (ValidationFailedError ''Could not map required columns'')
         else Inr (map (\<lambda>r. apply_mapping (row_fields r) mapping) raw_rows))"

definition checked_valuation_rows ::
    "string option \<Rightarrow> sheet_cell list list option res \<Rightarrow> string res \<Rightarrow> (valuation_row list \<times> validation_issue list) res" where
  "checked_valuation_rows filename sheet content = (case filename of
     None \<Rightarrow> Inl (ValidationFailedError ''Uploaded file has no filename'')
   | Some name \<Rightarrow> bindR (parse_upload_to_rows name sheet content) (\<lambda>raw_rows.
       bindR (mapped_valuation_rows raw_rows) (\<lambda>mapped_rows.
       bindR (validate_inventory_valuation_rows mapped_rows) (\<lambda>results.
       if \<not> list_all (\<lambda>(_, issues). no_errors issues) results then Inl (ValidationFailedError ''rows failed validation'')
       else Inr (map fst results, concat (map snd results))))))"

text \<open>The parsed row for the service.  An infinite amount fits no column, like the smallest number that does
  not; \<open>None\<close> is a row whose cost is not a number, which the database keeps as it is and the model of
  the table does not.\<close>

fun stored_amount :: "pydec \<Rightarrow> rat option" where
  "stored_amount (Fin x) = Some x"
| "stored_amount (Infinity _) = Some (10 ^ 14)"
| "stored_amount (NaN _) = None"

definition to_valuation_record :: "valuation_row \<Rightarrow> valuation_record option" where
  "to_valuation_record v = (case (vl_supplier_sku v, vl_quantity v, vl_unit_cost v) of
     (Some sku, Some q, Some c) \<Rightarrow> (case (stored_amount q, stored_amount c) of
       (Some x, Some y) \<Rightarrow> Some \<lparr> vr_sku = sku, vr_description = vl_description v, vr_quantity = Some x, vr_unit_cost = Some y \<rparr>
     | _ \<Rightarrow> None)
   | _ \<Rightarrow> None)"

record valuation_answer =
  va_record_count :: nat
  va_total_asset_valuation :: rat
  va_snapshot_ids :: "int list"
  va_warnings :: "validation_issue list"

text \<open>\<open>Inr None\<close> is an upload with such a row, which this model follows no further.\<close>

definition upload_inventory_valuation ::
    "inv_snapshot list \<Rightarrow> access_token_claims \<Rightarrow> int option \<Rightarrow> pydate \<Rightarrow> bool \<Rightarrow> string option \<Rightarrow>
     sheet_cell list list option res \<Rightarrow> string res \<Rightarrow> (inv_snapshot list \<times> valuation_answer) option res" where
  "upload_inventory_valuation rows c location snapshot_date is_correction filename sheet content =
     bindR (require_permission UPLOAD_DATA c) (\<lambda>_. case location of
       None \<Rightarrow> Inl (NotFoundError ''Location not found'')
     | Some loc \<Rightarrow> bindR (checked_valuation_rows filename sheet content) (\<lambda>(validated, issues).
         if list_ex (\<lambda>v. to_valuation_record v = None) validated then Inr None
         else bindR (ingest_inventory_valuation rows loc snapshot_date (List.map_filter to_valuation_record validated) None is_correction)
           (\<lambda>(rows', audit). Inr (Some (rows', \<lparr> va_record_count = ac_record_count audit, va_total_asset_valuation = ac_total audit,
              va_snapshot_ids = map st_id (drop (length rows) rows'), va_warnings = issues \<rparr>)))))"

section \<open>Lemmas\<close>

lemma required_number_ok:
  "no_errors (snd (required_number p idx f raw)) \<longleftrightarrow> \<not> missing raw \<and> is_ok (p (the raw))"
  "fst (required_number p idx f raw) = Some x \<longleftrightarrow> \<not> missing raw \<and> p (the raw) = Inr x"
  by (auto simp: required_number_def is_ok_def split: sum.split)

lemma valuation_row_valid:
  assumes "valuation_row_result idx row = Inr (v, issues)" "no_errors issues"
  obtains sku q c where "text_or_none (cell row ''supplier_sku'') = Some sku" "vl_supplier_sku v = Some sku"
    "vl_description v = text_or_none (cell row ''description'')"
    "\<not> missing (cell row ''quantity_on_hand'')" "parse_decimal (strip_currency (the (cell row ''quantity_on_hand''))) = Inr q"
    "vl_quantity v = Some q" "\<not> missing (cell row ''unit_cost'')"
    "parse_decimal (strip_currency (the (cell row ''unit_cost''))) = Inr c" "vl_unit_cost v = Some c"
proof -
  let ?q = "required_number (\<lambda>s. parse_decimal (strip_currency s)) idx ''quantity_on_hand'' (cell row ''quantity_on_hand'')"
  let ?c = "required_number (\<lambda>s. parse_decimal (strip_currency s)) idx ''unit_cost'' (cell row ''unit_cost'')"
  have v: "vl_supplier_sku v = text_or_none (cell row ''supplier_sku'')" "vl_description v = text_or_none (cell row ''description'')"
    "vl_quantity v = fst ?q" "vl_unit_cost v = fst ?c"
    and n: "vl_supplier_sku v \<noteq> None" "no_errors (snd ?q)" "no_errors (snd ?c)"
    using assms by (auto simp: valuation_row_result_def Let_def bindR_eq_Inr split: prod.splits if_splits)
  obtain q where q: "\<not> missing (cell row ''quantity_on_hand'')" "parse_decimal (strip_currency (the (cell row ''quantity_on_hand''))) = Inr q"
    using n(2) unfolding required_number_ok(1) is_ok_iff by blast
  obtain c where c: "\<not> missing (cell row ''unit_cost'')" "parse_decimal (strip_currency (the (cell row ''unit_cost''))) = Inr c"
    using n(3) unfolding required_number_ok(1) is_ok_iff by blast
  have "vl_quantity v = Some q" "vl_unit_cost v = Some c" unfolding v(3,4) required_number_ok(2) using q c by simp_all
  moreover obtain sku where "vl_supplier_sku v = Some sku" using n(1) by blast
  ultimately show ?thesis using that [OF _ _ v(2)] v(1) q c by simp
qed

text \<open>What is written for one checked row.\<close>

definition row_written :: "mapped_row \<Rightarrow> inv_snapshot \<Rightarrow> bool" where
  "row_written row s = (st_sku s = text_or_none (cell row ''supplier_sku'') \<and> st_sku s \<noteq> None \<and>
     (\<exists>q. parse_decimal (strip_currency (the (cell row ''quantity_on_hand''))) = Inr (Fin q) \<and> st_quantity s = to_scale 4 q) \<and>
     (\<exists>u. parse_decimal (strip_currency (the (cell row ''unit_cost''))) = Inr (Fin u) \<and> st_unit_cost s = Some (to_scale 4 u)))"

definition written :: "int \<Rightarrow> pydate \<Rightarrow> valuation_record \<Rightarrow> inv_snapshot \<Rightarrow> bool" where
  "written loc d r s = (st_sku s = Some (vr_sku r) \<and> vr_quantity r \<noteq> None \<and> column_ok 18 4 (vr_quantity r) \<and>
     column_ok 18 4 (vr_unit_cost r) \<and> st_quantity s = to_scale 4 (the (vr_quantity r)) \<and>
     st_unit_cost s = map_option (to_scale 4) (vr_unit_cost r) \<and> st_location s = loc \<and> st_date s = d)"

lemma insert_record_written:
  assumes "insert_record loc d c (rows, pending) r = Inr (rows', pending')"
  shows "\<exists>s. rows' = rows @ [s] \<and> written loc d r s"
  using assms by (auto simp: insert_record_def written_def split: option.splits if_splits)

lemma insert_records_written:
  assumes "foldR (insert_record loc d c) (rows, pending) records = Inr (rows', pending')"
  shows "\<exists>new. rows' = rows @ new \<and> list_all2 (written loc d) records new"
  using assms
proof (induction records arbitrary: rows pending)
  case (Cons r records)
  obtain rows1 p1 where s: "insert_record loc d c (rows, pending) r = Inr (rows1, p1)"
    and t: "foldR (insert_record loc d c) (rows1, p1) records = Inr (rows', pending')"
    using Cons.prems by (auto simp: res_simps)
  from insert_record_written [OF s] Cons.IH [OF t] show ?case by fastforce
qed simp

lemma map_filter_total: "\<not> list_ex (\<lambda>x. f x = None) xs \<Longrightarrow> List.map_filter f xs = map (the \<circ> f) xs"
  by (induction xs) (auto simp: map_filter_simps)

lemma no_errors_concat: "no_errors (concat (map snd rs)) \<longleftrightarrow> list_all (\<lambda>(_, is). no_errors is) rs"
  by (induction rs) auto

lemma validated_nth:
  assumes "validate_inventory_valuation_rows rows = Inr results"
  shows "length results = length rows" "i < length rows \<Longrightarrow> valuation_row_result (i + 1) (rows ! i) = Inr (results ! i)"
  using assms by (auto simp: validate_inventory_valuation_rows_def mapR_eq_Inr list_all2_conv_all_nth)

lemma too_large: "\<not> column_ok 18 4 (Some (10 ^ 14))"
proof -
  have "on_grid 4 (of_int (10 ^ 14))" by (rule on_grid_of_int)
  then show ?thesis by (simp add: column_ok_grid)
qed

lemma record_written:
  assumes "valuation_row_result idx row = Inr (v, issues)" "no_errors issues" "to_valuation_record v = Some r"
    and s: "written loc d r s"
  shows "row_written row s"
  using assms(1,2)
proof (cases rule: valuation_row_valid)
  case (1 sku q c)
  obtain x y where xy: "stored_amount q = Some x" "stored_amount c = Some y"
    and r: "r = \<lparr> vr_sku = sku, vr_description = vl_description v, vr_quantity = Some x, vr_unit_cost = Some y \<rparr>"
    using assms(3) 1 by (auto simp: to_valuation_record_def split: option.splits)
  have "q = Fin x" "c = Fin y" using xy s too_large unfolding r written_def by (cases q; cases c; auto)+
  then show ?thesis using 1 s r by (simp add: row_written_def written_def)
qed

section \<open>Properties\<close>

text \<open>C27: An accepted valuation report is stored completely: every row of the file that is not empty becomes one
  stock row, in the order of the file, with the product code, quantity and cost that the mapped columns say,
  for the given location and date; the answer counts them all, and no row with an error is among them.\<close>

lemma valuation_upload_complete:
  assumes u: "upload_inventory_valuation rows c (Some loc) d is_correction (Some name) sheet content = Inr (Some (rows', ans))"
  shows "\<exists>raw mapped new. parse_upload_to_rows name sheet content = Inr raw \<and> mapped_valuation_rows raw = Inr mapped \<and>
    rows' = rows @ new \<and> list_all2 row_written mapped new \<and> length new = length raw \<and> 0 < length new \<and>
    va_record_count ans = length new \<and> va_snapshot_ids ans = map st_id new \<and> no_errors (va_warnings ans) \<and>
    (\<forall>s\<in>set new. st_location s = loc \<and> st_date s = d)"
proof -
  obtain validated issues where ck: "checked_valuation_rows (Some name) sheet content = Inr (validated, issues)"
    and none: "\<not> list_ex (\<lambda>v. to_valuation_record v = None) validated"
    using u by (auto simp: upload_inventory_valuation_def bindR_eq_Inr split: if_splits prod.splits)
  let ?records = "List.map_filter to_valuation_record validated"
  obtain audit where ing: "ingest_inventory_valuation rows loc d ?records None is_correction = Inr (rows', audit)"
    and ans: "ans = \<lparr> va_record_count = ac_record_count audit, va_total_asset_valuation = ac_total audit,
        va_snapshot_ids = map st_id (drop (length rows) rows'), va_warnings = issues \<rparr>"
    using u ck none by (auto simp: upload_inventory_valuation_def bindR_eq_Inr)
  obtain raw mapped results where raw: "parse_upload_to_rows name sheet content = Inr raw" "mapped_valuation_rows raw = Inr mapped"
    and res: "validate_inventory_valuation_rows mapped = Inr results" "list_all (\<lambda>(_, is). no_errors is) results"
    and vi: "validated = map fst results" "issues = concat (map snd results)"
    using ck by (auto simp: checked_valuation_rows_def bindR_eq_Inr split: if_splits)
  obtain p p' where fo: "foldR (insert_record loc d is_correction) (rows, p) ?records = Inr (rows', p')"
    and audit: "ac_record_count audit = length ?records"
    using ing by (auto simp: ingest_inventory_valuation_def Let_def bindR_eq_Inr build_reconciliation_audit_context_def split: if_splits)
  obtain new where new: "rows' = rows @ new" and w: "list_all2 (written loc d) ?records new"
    using insert_records_written [OF fo] by blast
  have recs: "?records = map (the \<circ> to_valuation_record) validated" using none by (rule map_filter_total)
  have n: "length results = length mapped" "valuation_row_result (i + 1) (mapped ! i) = Inr (results ! i)" if "i < length mapped" for i
    using validated_nth [OF res(1)] that by simp_all
  have len: "length results = length mapped" "length new = length results"
    using validated_nth(1) [OF res(1)] list_all2_lengthD [OF w] unfolding recs by (simp_all add: vi)
  have row: "row_written (mapped ! i) (new ! i)" if i: "i < length mapped" for i
  proof -
    obtain v iss where vi': "results ! i = (v, iss)" by fastforce
    have "no_errors iss" using res(2) i len vi' by (auto simp: list_all_length)
    moreover have "written loc d (the (to_valuation_record v)) (new ! i)"
      using list_all2_nthD [OF w [unfolded recs, unfolded vi(1)], of i] i len vi' by simp
    moreover have "to_valuation_record v \<noteq> None"
      using none i len vi' by (auto simp: list_ex_iff vi) (metis fst_conv image_eqI nth_mem)
    ultimately show ?thesis using record_written [OF n(2) [OF i, unfolded vi']] by (auto simp: written_def)
  qed
  have at: "st_location s = loc \<and> st_date s = d" if "s \<in> set new" for s
    using that list_all2_left [OF w] by (force simp: written_def)
  have raw': "length mapped = length raw" "raw \<noteq> []"
    using raw(2) by (auto simp: mapped_valuation_rows_def Let_def split: list.splits if_splits)
  have "no_errors issues" using res(2) by (simp add: vi no_errors_concat)
  moreover have "list_all2 row_written mapped new" using row len by (simp add: list_all2_conv_all_nth)
  moreover have "ac_record_count audit = length new" using audit len unfolding recs by (simp add: vi)
  ultimately show ?thesis using raw raw' new len at
    by (intro exI [of _ raw] exI [of _ mapped] exI [of _ new]) (simp add: ans)
qed

text \<open>A report of one row.\<close>

definition report :: "string \<Rightarrow> string \<Rightarrow> sheet_cell list list option res" where
  "report quantity cost = Inr (Some [map Cell_text [''sku'', ''quantity'', ''unit cost''], map Cell_text [''A1'', quantity, cost]])"

definition report_row :: "string \<Rightarrow> string \<Rightarrow> mapped_row" where
  "report_row quantity cost = [(''supplier_sku'', Some ''A1''), (''description'', None), (''quantity_on_hand'', Some quantity),
     (''unit_cost'', Some cost), (''total_valuation'', None)]"

abbreviation "uploader \<equiv> \<lparr> cl_user_id = 7, cl_active_org_id = 1, cl_role = ''buyer'', cl_issued_at = 0, cl_expires_at = 900 \<rparr>"

lemma uploader_allowed: "require_permission UPLOAD_DATA uploader = Inr uploader"
  by (simp add: require_permission_def role_of_def all_roles_def)

lemma report_mapped:
  "parse_upload_to_rows ''stock.XLSX'' (report q c) content =
     Inr [[(Some ''sku'', Val ''A1''), (Some ''quantity'', Val q), (Some ''unit cost'', Val c)]]"
  "mapped_valuation_rows [[(Some ''sku'', Val ''A1''), (Some ''quantity'', Val q), (Some ''unit cost'', Val c)]] = Inr [report_row q c]"
proof -
  have s: "strip ''sku'' = ''sku''" "strip ''quantity'' = ''quantity''" "strip ''unit cost'' = ''unit cost''"
    "suffix ''.xlsx'' (lower ''stock.XLSX'')" by code_simp+
  have m: "suggest_inventory_valuation_mapping [''sku'', ''quantity'', ''unit cost''] =
      [(''supplier_sku'', Some ''sku''), (''description'', None), (''quantity_on_hand'', Some ''quantity''),
       (''unit_cost'', Some ''unit cost''), (''total_valuation'', None)]"
    by code_simp
  show "parse_upload_to_rows ''stock.XLSX'' (report q c) content =
     Inr [[(Some ''sku'', Val ''A1''), (Some ''quantity'', Val q), (Some ''unit cost'', Val c)]]"
    by (simp add: parse_upload_to_rows_def s report_def worksheet_rows_def build_dict_def cell_value_def)
  show "mapped_valuation_rows [[(Some ''sku'', Val ''A1''), (Some ''quantity'', Val q), (Some ''unit cost'', Val c)]] = Inr [report_row q c]"
    by (simp add: mapped_valuation_rows_def m required_valuation_fields_def cell_def dict_get_def apply_mapping_def row_fields_def
        map_filter_simps report_row_def)
qed

lemma report_checked:
  "checked_valuation_rows (Some ''stock.XLSX'') (report q c) content =
     bindR (validate_inventory_valuation_rows [report_row q c]) (\<lambda>results.
       if \<not> list_all (\<lambda>(_, issues). no_errors issues) results then Inl (ValidationFailedError ''rows failed validation'')
       else Inr (map fst results, concat (map snd results)))"
  by (simp add: checked_valuation_rows_def report_mapped)

lemma plain_report:
  "checked_valuation_rows (Some ''stock.XLSX'') (report ''5'' ''R2.50'') content =
     Inr ([\<lparr> vl_supplier_sku = Some ''A1'', vl_description = None, vl_quantity = Some (Fin 5), vl_unit_cost = Some (Fin (5/2)), vl_total = None \<rparr>], [])"
proof -
  have v: "validate_inventory_valuation_rows [report_row ''5'' ''R2.50''] =
      Inr [(\<lparr> vl_supplier_sku = Some ''A1'', vl_description = None, vl_quantity = Some (Fin 5), vl_unit_cost = Some (Fin (5/2)), vl_total = None \<rparr>, [])]"
    by code_simp
  show ?thesis by (simp add: report_checked v)
qed

lemma valuation_upload_complete_witness:
  "\<exists>rows' ans. upload_inventory_valuation [] uploader (Some 3) (PyDate 2026 6 30) False (Some ''stock.XLSX'') (report ''5'' ''R2.50'')
     (Inl StopIteration) = Inr (Some (rows', ans)) \<and> length rows' = 1 \<and> va_record_count ans = 1"
proof -
  obtain rows' ans where u: "upload_inventory_valuation [] uploader (Some 3) (PyDate 2026 6 30) False (Some ''stock.XLSX'')
      (report ''5'' ''R2.50'') (Inl StopIteration) = Inr (Some (rows', ans))" and l: "length rows' = 1"
    by (simp add: upload_inventory_valuation_def uploader_allowed plain_report to_valuation_record_def map_filter_simps
        ingest_inventory_valuation_def active_stock_def insert_record_def column_ok_def to_scale_def half_away_def
        Let_def)
  with valuation_upload_complete [OF u] show ?thesis by auto
qed

text \<open>A cost that is not a number passes the validator without an issue; a quantity that is not a number is an
  internal error, not a validation failure.\<close>

lemma nan_cost_accepted:
  "checked_valuation_rows (Some ''stock.XLSX'') (report ''5'' ''NaN'') content =
     Inr ([\<lparr> vl_supplier_sku = Some ''A1'', vl_description = None, vl_quantity = Some (Fin 5), vl_unit_cost = Some (NaN False), vl_total = None \<rparr>], [])"
proof -
  have v: "validate_inventory_valuation_rows [report_row ''5'' ''NaN''] =
      Inr [(\<lparr> vl_supplier_sku = Some ''A1'', vl_description = None, vl_quantity = Some (Fin 5), vl_unit_cost = Some (NaN False), vl_total = None \<rparr>, [])]"
    by code_simp
  show ?thesis by (simp add: report_checked v)
qed

lemma nan_quantity_fails:
  "checked_valuation_rows (Some ''stock.XLSX'') (report ''NaN'' ''2'') content = Inl InvalidOperation"
proof -
  have v: "validate_inventory_valuation_rows [report_row ''NaN'' ''2''] = Inl InvalidOperation" by code_simp
  show ?thesis by (simp add: report_checked v)
qed

text \<open>One row without a code, a quantity or a cost refuses the whole report.\<close>

lemma incomplete_row_refuses_report:
  assumes "parse_upload_to_rows name sheet content = Inr raw" "mapped_valuation_rows raw = Inr mapped" "row \<in> set mapped"
    "text_or_none (cell row ''supplier_sku'') = None \<or> missing (cell row ''quantity_on_hand'') \<or> missing (cell row ''unit_cost'')"
  shows "\<exists>e. upload_inventory_valuation rows c location d is_correction (Some name) sheet content = Inl e"
proof -
  have "\<exists>e. checked_valuation_rows (Some name) sheet content = Inl e"
  proof (cases "validate_inventory_valuation_rows mapped")
    case (Inr results)
    obtain i where i: "i < length mapped" "mapped ! i = row" using assms(3) by (auto simp: in_set_conv_nth)
    obtain v iss where v: "results ! i = (v, iss)" by fastforce
    have "valuation_row_result (i + 1) row = Inr (v, iss)" using validated_nth(2) [OF Inr i(1)] i(2) v by simp
    then have "\<not> no_errors iss" using valuation_row_valid assms(4) by (metis option.distinct(1))
    moreover have "(v, iss) \<in> set results" using v i(1) validated_nth(1) [OF Inr] by (metis nth_mem)
    ultimately have "\<not> list_all (\<lambda>(_, is). no_errors is) results" by (auto simp: list_all_iff)
    then show ?thesis using assms(1,2) Inr by (simp add: checked_valuation_rows_def)
  qed (use assms(1,2) in \<open>simp add: checked_valuation_rows_def\<close>)
  then show ?thesis
    by (cases "require_permission UPLOAD_DATA c"; cases location) (auto simp: upload_inventory_valuation_def)
qed

end
