(* ===== verification/ContractRoutes.thy ===== *)
theory ContractRoutes
  imports Contracts RegisterRoutes
begin

text \<open>
  The routes over contracts (\<open>app/api/v1/contracts.py\<close>) and the three counts of the dashboard
  (\<open>app/api/v1/dashboard.py\<close>).  A row carries its identifier and its organisation; row level security shows a
  user the rows of the active organisation.  A read recomputes the status of what it returns and does not
  commit.
\<close>

section \<open>State\<close>

record contract_db =
  ct_rows :: "(int \<times> int \<times> contract) list"
  ct_alerts :: "contract_alert list"
  ct_extractions :: "(int \<times> int \<times> extraction) list"

definition own_contracts :: "contract_db \<Rightarrow> access_token_claims \<Rightarrow> (int \<times> contract) list" where
  "own_contracts db c = map (\<lambda>(i, _, r). (i, r)) (filter (\<lambda>(_, org, _). org = cl_active_org_id c) (ct_rows db))"

definition get_contract_row :: "contract_db \<Rightarrow> access_token_claims \<Rightarrow> int \<Rightarrow> contract res" where
  "get_contract_row db c i = (case map_of (own_contracts db c) i of
     None \<Rightarrow> Inl (NotFoundError ''Contract not found'') | Some r \<Rightarrow> Inr r)"

definition contract_read_model :: "contract \<Rightarrow> (contract \<times> pydate \<times> pydate option) res" where
  "contract_read_model r = bindR (get_derived_fields r) (\<lambda>derived. Inr (r, derived))"

definition set_contract_row :: "int \<Rightarrow> contract \<Rightarrow> (int \<times> int \<times> contract) list \<Rightarrow> (int \<times> int \<times> contract) list" where
  "set_contract_row i r' = map (\<lambda>(j, org, r). (j, org, if j = i then r' else r))"

definition set_extraction :: "int \<Rightarrow> extraction \<Rightarrow> (int \<times> int \<times> extraction) list \<Rightarrow> (int \<times> int \<times> extraction) list" where
  "set_extraction i x' = map (\<lambda>(j, org, x). (j, org, if j = i then x' else x))"

section \<open>Routes\<close>

text \<open>The row is committed before the answer is built.\<close>

definition post_contract ::
    "contract_db \<Rightarrow> access_token_claims \<Rightarrow> bool \<Rightarrow> contract_create \<Rightarrow> pydate \<Rightarrow>
     contract_db \<times> (contract \<times> pydate \<times> pydate option) res" where
  "post_contract db c supplier_found p as_of_date =
     (case bindR (require_permission EDIT_SUPPLIERS c) (\<lambda>_. bindR (validate_contract_create p) (\<lambda>_.
         create_contract supplier_found p as_of_date)) of
       Inl e \<Rightarrow> (db, Inl e)
     | Inr r \<Rightarrow> (db\<lparr> ct_rows := ct_rows db @ [(next_id (map fst (ct_rows db)), cl_active_org_id c, r)] \<rparr>, contract_read_model r))"

definition list_contracts ::
    "contract_db \<Rightarrow> access_token_claims \<Rightarrow> string option \<Rightarrow> pydate \<Rightarrow> (contract \<times> pydate \<times> pydate option) list res" where
  "list_contracts db c status as_of_date = bindR (require_permission VIEW_CONTRACTS c) (\<lambda>c.
     mapR (\<lambda>r. bindR (refresh_status r as_of_date) contract_read_model)
       (filter (\<lambda>r. status \<in> {None, Some []} \<or> attr r ''status'' = PV_str (the status)) (map snd (own_contracts db c))))"

definition get_contract :: "contract_db \<Rightarrow> access_token_claims \<Rightarrow> int \<Rightarrow> pydate \<Rightarrow> (contract \<times> pydate \<times> pydate option) res" where
  "get_contract db c i as_of_date = bindR (require_permission VIEW_CONTRACTS c) (\<lambda>c. bindR (get_contract_row db c i) (\<lambda>r.
     bindR (refresh_status r as_of_date) contract_read_model))"

definition calculate_escalated_price_endpoint ::
    "contract_db \<Rightarrow> access_token_claims \<Rightarrow> int \<Rightarrow> rat \<Rightarrow> int \<Rightarrow> rat option \<Rightarrow> rat res" where
  "calculate_escalated_price_endpoint db c i base_price periods_elapsed external_index_value_pct =
     bindR (require_permission VIEW_FINANCIALS c) (\<lambda>c. bindR (get_contract_row db c i) (\<lambda>r.
       calculate_escalated_price_for_contract r base_price periods_elapsed external_index_value_pct))"

definition check_contract_alerts :: "contract_db \<Rightarrow> access_token_claims \<Rightarrow> int \<Rightarrow> pydate \<Rightarrow> (contract_db \<times> alert_type list) res" where
  "check_contract_alerts db c i as_of_date = bindR (require_permission VIEW_CONTRACTS c) (\<lambda>c. bindR (get_contract_row db c i) (\<lambda>r.
     bindR (run_alert_check (ct_alerts db) i r as_of_date) (\<lambda>(new_alerts, table).
     Inr (db\<lparr> ct_alerts := table \<rparr>, map ca_alert_type new_alerts))))"

definition verify_contract_extraction ::
    "contract_db \<Rightarrow> access_token_claims \<Rightarrow> int \<Rightarrow> int \<Rightarrow> string list \<Rightarrow> pydate \<Rightarrow>
     contract_db \<times> (contract \<times> pydate \<times> pydate option) res" where
  "verify_contract_extraction db c i extraction_id field_names as_of_date =
     (case bindR (require_permission VIEW_CONTRACTS c) (\<lambda>c. bindR (get_contract_row db c i) (\<lambda>r.
         case map_of (map (\<lambda>(k, _, x). (k, x)) (filter (\<lambda>(_, org, _). org = cl_active_org_id c) (ct_extractions db))) extraction_id of
           None \<Rightarrow> Inl (NotFoundError ''Extraction not found'')
         | Some x \<Rightarrow> promote_extraction_fields (cl_user_id c) x r field_names as_of_date)) of
       Inl e \<Rightarrow> (db, Inl e)
     | Inr (x', r') \<Rightarrow> (db\<lparr> ct_rows := set_contract_row i r' (ct_rows db), ct_extractions := set_extraction extraction_id x' (ct_extractions db) \<rparr>,
         contract_read_model r'))"

section \<open>The dashboard\<close>

record executive_metrics =
  em_active_contracts :: nat
  em_open_rebate_periods :: nat
  em_open_consolidation_flags :: nat

definition active_contracts :: "contract_db \<Rightarrow> access_token_claims \<Rightarrow> nat" where
  "active_contracts db c = length (filter (\<lambda>(_, r). attr r ''status'' \<noteq> PV_str ''expired'' \<and> attr r ''status'' \<noteq> PV_none) (own_contracts db c))"

definition open_rebate_periods :: "rebate_db \<Rightarrow> access_token_claims \<Rightarrow> nat" where
  "open_rebate_periods db c = length (filter (\<lambda>(_, r). rp_earned r = None \<and>
     (case map_of (agreements db) (rp_agreement r) of None \<Rightarrow> False | Some a \<Rightarrow> ag_org a = cl_active_org_id c)) (rpas (led db)))"

definition get_executive_metrics ::
    "contract_db \<Rightarrow> rebate_db \<Rightarrow> consolidation_flag list \<Rightarrow> access_token_claims \<Rightarrow> executive_metrics res" where
  "get_executive_metrics db rdb flags c = bindR (require_permission VIEW_FINANCIALS c) (\<lambda>c.
     Inr \<lparr> em_active_contracts = active_contracts db c, em_open_rebate_periods = open_rebate_periods rdb c,
       em_open_consolidation_flags = length (filter (\<lambda>f. cf_status f \<in> {''flagged'', ''under_review''}) flags) \<rparr>)"

section \<open>Requests\<close>

inductive contract_request :: "access_token_claims \<Rightarrow> contract_db \<Rightarrow> contract_db \<Rightarrow> bool" for c where
  Creq_create: "post_contract db c f p as_of = (db', resp) \<Longrightarrow> contract_request c db db'"
| Creq_alerts: "check_contract_alerts db c i as_of = Inr (db', ts) \<Longrightarrow> contract_request c db db'"
| Creq_verify: "verify_contract_extraction db c i k ns as_of = (db', resp) \<Longrightarrow> contract_request c db db'"

definition contract_inv :: "contract_db \<Rightarrow> bool" where
  "contract_inv db = (distinct (map (\<lambda>a. (ca_contract_id a, ca_alert_type a)) (ct_alerts db)) \<and>
     list_all (\<lambda>(_, _, x). ex_verification_status x = ''pending'') (ct_extractions db) \<and>
     distinct (map fst (ct_rows db)))"

lemma pending_not_promoted:
  assumes "ex_verification_status x = ''pending''"
  shows "promote_extraction_fields u x r ns d = Inl (PermissionDeniedError ''Cannot promote fields'')"
  using assms by (simp add: promote_extraction_fields_def promote_fields_from_extraction_def ensure_verified_def)

lemma verification_changes_nothing:
  assumes "list_all (\<lambda>(_, _, x). ex_verification_status x = ''pending'') (ct_extractions db)"
  shows "fst (verify_contract_extraction db c i k ns d) = db"
proof -
  have p: "ex_verification_status x = ''pending''"
    if "map_of (map (\<lambda>(k, _, x). (k, x)) (filter (\<lambda>(_, org, _). org = o') (ct_extractions db))) k = Some x" for o' x
    using map_of_SomeD [OF that] assms by (auto simp: list_all_iff)
  show ?thesis
    by (cases "require_permission VIEW_CONTRACTS c"; cases "get_contract_row db (projr (require_permission VIEW_CONTRACTS c)) i")
      (auto simp: verify_contract_extraction_def pending_not_promoted [OF p] split: option.split)
qed

lemma alerts_distinct:
  assumes "run_alert_check table k c today = Inr (new, table')"
    and d: "distinct (map (\<lambda>a. (ca_contract_id a, ca_alert_type a)) table)"
  shows "distinct (map (\<lambda>a. (ca_contract_id a, ca_alert_type a)) table') \<and> table' = table @ new"
proof -
  from assms(1) obtain e dl where n: "map ca_alert_type new = determine_due_alerts today e dl
       (set (map ca_alert_type (filter (\<lambda>a. ca_contract_id a = k) table))) default_alert_thresholds_days"
    and t: "table' = table @ new" and k: "\<And>a. a \<in> set new \<Longrightarrow> ca_contract_id a = k"
    by (rule run_alert_checkD) (rule that)
  have "distinct (map ca_alert_type new)"
    unfolding n by (rule due_alerts_distinct) (simp add: default_alert_thresholds_days_def)
  then have "distinct (map (\<lambda>a. (ca_contract_id a, ca_alert_type a)) new)"
    by (auto simp: distinct_map inj_on_def)
  moreover have "ca_alert_type a \<notin> set (map ca_alert_type (filter (\<lambda>a. ca_contract_id a = k) table))" if "a \<in> set new" for a
  proof (rule due_alerts_fresh)
    have "ca_alert_type a \<in> set (map ca_alert_type new)" using that by simp
    then show "ca_alert_type a \<in> set (determine_due_alerts today e dl
       (set (map ca_alert_type (filter (\<lambda>a. ca_contract_id a = k) table))) default_alert_thresholds_days)" unfolding n .
  qed
  ultimately have new: "distinct (map (\<lambda>a. (ca_contract_id a, ca_alert_type a)) new)"
    and fresh: "\<And>a. a \<in> set new \<Longrightarrow> ca_alert_type a \<notin> set (map ca_alert_type (filter (\<lambda>a. ca_contract_id a = k) table))"
    by blast+
  have "\<not> (ca_contract_id a = ca_contract_id b \<and> ca_alert_type a = ca_alert_type b)" if "a \<in> set table" "b \<in> set new" for a b
    using fresh [OF that(2)] k [OF that(2)] that(1) by (simp add: image_iff) metis
  then show ?thesis using d new by (auto simp: t)
qed

lemma contract_step:
  assumes st: "contract_request c db db'" and inv: "contract_inv db"
  shows "contract_inv db' \<and> (\<exists>new. ct_rows db' = ct_rows db @ new \<and> (new \<noteq> [] \<longrightarrow> is_ok (require_permission EDIT_SUPPLIERS c))) \<and>
    ct_extractions db' = ct_extractions db \<and> (\<exists>new. ct_alerts db' = ct_alerts db @ new)"
  using st
proof (cases rule: contract_request.cases)
  case (Creq_create f p as_of resp)
  then show ?thesis using inv next_id_new [of "map fst (ct_rows db)"]
    by (auto simp: post_contract_def contract_inv_def bindR_eq_Inr is_ok_def split: sum.splits)
next
  case (Creq_alerts i as_of ts)
  then show ?thesis using inv alerts_distinct
    by (auto simp: check_contract_alerts_def contract_inv_def bindR_eq_Inr dest!: alerts_distinct)
next
  case (Creq_verify i k ns as_of resp)
  have "fst (verify_contract_extraction db c i k ns as_of) = db"
    using inv by (intro verification_changes_nothing) (simp add: contract_inv_def)
  then have "db' = db" using Creq_verify by simp
  then show ?thesis using inv by auto
qed

lemma own_contracts_append: "ct_rows db' = ct_rows db @ new \<Longrightarrow> own_contracts db' c = own_contracts db c @
    map (\<lambda>(i, _, r). (i, r)) (filter (\<lambda>(_, org, _). org = cl_active_org_id c) new)"
  by (simp add: own_contracts_def)

lemma deadline_of_update: "contract_deadline (AList.update ''status'' v r) = contract_deadline r"
  by (simp add: contract_deadline_def split: pyval.split)

text \<open>The state of a fresh service: some extractions are staged, nothing else.\<close>

definition staged_only :: "contract_db \<Rightarrow> bool" where
  "staged_only db = (ct_rows db = [] \<and> ct_alerts db = [] \<and> list_all (\<lambda>(_, _, x). extraction_reachable x) (ct_extractions db))"

lemma staged_inv: "staged_only db \<Longrightarrow> contract_inv db"
  by (auto simp: staged_only_def contract_inv_def list_all_iff dest: extraction_pending)

section \<open>Properties\<close>

text \<open>C16: Once created, a contract never changes: whatever requests any users send, in any order, rows are only added,
  every alert is recorded at most once for its contract and type, and
  no extraction is ever verified.  In particular the stored status stays the one of the day of creation,
  so the count of active contracts on the dashboard can only grow, however many of them expire.\<close>

lemma contracts_never_change:
  assumes "staged_only db0" "(\<lambda>d d'. \<exists>c. contract_request c d d')\<^sup>*\<^sup>* db0 db" "(\<lambda>d d'. \<exists>c. contract_request c d d')\<^sup>*\<^sup>* db db'"
  shows "(\<exists>new. ct_rows db' = ct_rows db @ new) \<and> ct_extractions db' = ct_extractions db \<and>
    distinct (map (\<lambda>a. (ca_contract_id a, ca_alert_type a)) (ct_alerts db')) \<and>
    active_contracts db c \<le> active_contracts db' c"
proof -
  have inv: "contract_inv db"
    using assms(2) staged_inv [OF assms(1)] by (induction rule: rtranclp_induct) (auto dest: contract_step)
  have "contract_inv db' \<and> (\<exists>new. ct_rows db' = ct_rows db @ new) \<and> ct_extractions db' = ct_extractions db"
    using assms(3)
  proof (induction rule: rtranclp_induct)
    case (step y z)
    then obtain c' where "contract_request c' y z" by blast
    from contract_step [OF this] step.IH show ?case by (metis append.assoc)
  qed (simp add: inv)
  moreover from this obtain new where "ct_rows db' = ct_rows db @ new" by blast
  ultimately show ?thesis
    by (auto simp: contract_inv_def active_contracts_def own_contracts_append)
qed

text \<open>A contract created while active, counted and listed after it has expired.\<close>

abbreviation "contract_editor \<equiv> \<lparr> cl_user_id = 7, cl_active_org_id = 1, cl_role = ''owner'', cl_issued_at = 0, cl_expires_at = 900 \<rparr>"

abbreviation "no_contracts \<equiv> \<lparr> ct_rows = [], ct_alerts = [], ct_extractions = [] \<rparr>"

definition stored_contract :: contract where
  "stored_contract = AList.update ''status'' (PV_str ''active'') (create_row example_create)"

abbreviation "one_contract \<equiv> \<lparr> ct_rows = [(1, 1, stored_contract)], ct_alerts = [], ct_extractions = [] \<rparr>"

lemma editor_allowed: "require_permission EDIT_SUPPLIERS contract_editor = Inr contract_editor"
  "require_permission VIEW_CONTRACTS contract_editor = Inr contract_editor"
  by (simp_all add: require_permission_def role_of_def all_roles_def all_permissions_def)

lemma stored_contract_created:
  "contract_request contract_editor no_contracts one_contract"
proof -
  have e: "calculate_notice_deadline (PyDate 2026 6 30) 30 = Inr (PyDate 2026 5 31)" by code_simp
  have st: "classify_contract_status (PyDate 2026 1 1) (PyDate 2026 6 30) (PyDate 2026 5 31) False 90 = ACTIVE" by code_simp
  have d: "contract_deadline (create_row example_create) = Inr (PyDate 2026 6 30, PyDate 2026 5 31)"
    by (simp add: contract_deadline_def create_row_attrs example_create_def e)
  have a: "Contracts.truthy (attr (create_row example_create) ''auto_renew'') = False"
    by (simp add: create_row_attrs example_create_def)
  have "refresh_status (create_row example_create) (PyDate 2026 1 1) = Inr stored_contract"
    unfolding refresh_status_def d bindR_Inr by (simp add: a st stored_contract_def Let_def)
  then have c: "create_contract True example_create (PyDate 2026 1 1) = Inr stored_contract"
    by (simp add: create_contract_def create_row_def)
  have v: "validate_contract_create example_create = Inr ()" by code_simp
  have n: "next_id [] = 1" by (simp add: next_id_def)
  have "post_contract no_contracts contract_editor True example_create (PyDate 2026 1 1) =
      (one_contract, contract_read_model stored_contract)"
    by (simp add: post_contract_def editor_allowed v c n)
  then show ?thesis by (rule Creq_create)
qed

lemma one_contract_counted: "active_contracts one_contract contract_editor = 1"
  by (simp add: active_contracts_def own_contracts_def stored_contract_def)

lemma contracts_never_change_witness:
  "\<exists>db'. (\<lambda>d d'. \<exists>c. contract_request c d d')\<^sup>*\<^sup>* no_contracts db' \<and> 1 \<le> active_contracts db' contract_editor \<and>
     ct_rows db' \<noteq> []"
proof -
  have s: "staged_only no_contracts" by (simp add: staged_only_def)
  have r: "(\<lambda>d d'. \<exists>c. contract_request c d d')\<^sup>*\<^sup>* no_contracts one_contract"
    using stored_contract_created by (blast intro: r_into_rtranclp)
  from contracts_never_change [OF s r rtranclp.rtrancl_refl, of contract_editor] r one_contract_counted
  show ?thesis by (intro exI [of _ one_contract]) simp
qed

text \<open>What the list of contracts returns is classified by the dates of the day of the request, whatever status is
  stored; its filter looks at the stored one, so a contract can be listed under a status it no longer has.\<close>

lemma listed_status_is_fresh:
  assumes "list_contracts db c status today = Inr rs" "(r, deadline, renewal) \<in> set rs"
  shows "\<exists>i r0 e. (i, r0) \<in> set (own_contracts db c) \<and> r = AList.update ''status'' (attr r ''status'') r0 \<and>
    contract_deadline r0 = Inr (e, deadline) \<and>
    attr r ''status'' = PV_str (status_value (classify_contract_status today e deadline (Contracts.truthy (attr r0 ''auto_renew'')) 90)) \<and>
    (status \<notin> {None, Some []} \<longrightarrow> attr r0 ''status'' = PV_str (the status))"
proof -
  let ?rows = "filter (\<lambda>r. status \<in> {None, Some []} \<or> attr r ''status'' = PV_str (the status)) (map snd (own_contracts db c))"
  have "list_all2 (\<lambda>r0 y. bindR (refresh_status r0 today) contract_read_model = Inr y) ?rows rs"
    using assms(1) by (auto simp: list_contracts_def bindR_eq_Inr mapR_eq_Inr require_permission_def split: if_splits)
  from list_all2_left [OF this] assms(2) obtain r0 where r0: "r0 \<in> set ?rows"
    "bindR (refresh_status r0 today) contract_read_model = Inr (r, deadline, renewal)" by blast
  then have rf: "refresh_status r0 today = Inr r" and g: "get_derived_fields r = Inr (deadline, renewal)"
    by (auto simp: contract_read_model_def bindR_eq_Inr)
  obtain e d where d: "contract_deadline r0 = Inr (e, d)"
    and r: "r = AList.update ''status'' (PV_str (status_value (classify_contract_status today e d (Contracts.truthy (attr r0 ''auto_renew'')) 90))) r0"
    using refresh_statusD [OF rf] by blast
  have "contract_deadline r = Inr (e, d)" using d by (simp add: r deadline_of_update)
  then have "d = deadline" using g by (auto simp: get_derived_fields_def bindR_eq_Inr split: if_splits pyval.splits)
  moreover obtain i where "(i, r0) \<in> set (own_contracts db c)" using r0(1) by auto
  ultimately show ?thesis using r0(1) d by (intro exI [of _ i] exI [of _ r0] exI [of _ e]) (auto simp: r)
qed

text \<open>The contract asked for as active is shown as expired.\<close>

lemma listed_status_is_fresh_witness:
  "\<exists>r. list_contracts one_contract contract_editor (Some ''active'') (PyDate 2027 1 1) = Inr [(r, PyDate 2026 5 31, None)] \<and>
     attr r ''status'' = PV_str ''expired'' \<and> attr stored_contract ''status'' = PV_str ''active''"
proof -
  let ?r = "AList.update ''status'' (PV_str ''expired'') stored_contract"
  have e: "calculate_notice_deadline (PyDate 2026 6 30) 30 = Inr (PyDate 2026 5 31)" by code_simp
  have st: "classify_contract_status (PyDate 2027 1 1) (PyDate 2026 6 30) (PyDate 2026 5 31) False 90 = EXPIRED" by code_simp
  have d: "contract_deadline stored_contract = Inr (PyDate 2026 6 30, PyDate 2026 5 31)"
    unfolding stored_contract_def deadline_of_update by (simp add: contract_deadline_def create_row_attrs example_create_def e)
  have a: "attr stored_contract ''auto_renew'' = PV_bool False" "attr stored_contract ''status'' = PV_str ''active''"
    by (simp_all add: stored_contract_def create_row_attrs example_create_def)
  have rf: "refresh_status stored_contract (PyDate 2027 1 1) = Inr ?r"
    unfolding refresh_status_def d bindR_Inr by (simp add: a st Let_def)
  have m: "contract_read_model ?r = Inr (?r, PyDate 2026 5 31, None)"
    unfolding contract_read_model_def get_derived_fields_def deadline_of_update d bindR_Inr by (simp add: a)
  have o: "own_contracts one_contract contract_editor = [(1, stored_contract)]" by (simp add: own_contracts_def)
  have l: "list_contracts one_contract contract_editor (Some ''active'') (PyDate 2027 1 1) = Inr [(?r, PyDate 2026 5 31, None)]"
    by (simp add: list_contracts_def editor_allowed o a rf m)
  from listed_status_is_fresh [OF l, of ?r] l o a st d show ?thesis by auto
qed

end
