(* ===== verification/PriceReviewExport.thy ===== *)
theory PriceReviewExport
  imports PriceReviewFlow
begin

text \<open>
  The workbook of a price review: \<open>app/reporting/price_review_excel_export.py\<close> and the function of
  \<open>app/api/v1/price_reviews.py\<close> that fills it.  A workbook is the list of its sheets, a sheet the list of its
  rows; fonts and column widths are left out, and a number is kept exactly where the code writes the nearest
  float.
\<close>

section \<open>Lines\<close>

fun movement_value :: "movement_type \<Rightarrow> string" where
  "movement_value New_product = ''new_product''"
| "movement_value Discontinued = ''discontinued''"
| "movement_value Review_required = ''review_required''"
| "movement_value Pack_change = ''pack_change''"
| "movement_value Price_increase = ''price_increase''"
| "movement_value Price_decrease = ''price_decrease''"
| "movement_value No_change = ''no_change''"

record export_line =
  el_old_supplier_sku :: "string option"
  el_old_description :: "string option"
  el_old_pack_raw :: "string option"
  el_old_price :: "rat option"
  el_new_supplier_sku :: "string option"
  el_new_description :: "string option"
  el_new_pack_raw :: "string option"
  el_new_price :: "rat option"
  el_normalized_old_price :: "rat option"
  el_normalized_new_price :: "rat option"
  el_change_amount :: "rat option"
  el_change_pct :: "rat option"
  el_historical_volume :: "rat option"
  el_annual_volume :: "rat option"
  el_annual_impact :: "rat option"
  el_margin_impact :: "rat option"
  el_match_confidence :: "rat option"
  el_pack_changed :: bool
  el_risk :: "string option"
  el_movement_type :: string
  el_buyer_decision :: "string option"
  el_target_price :: "rat option"
  el_potential_cost_avoidance :: "rat option"

record export_summary =
  es_supplier_name :: string
  es_effective_date :: "string option"
  es_summary :: supplier_summary

section \<open>Cells\<close>

datatype out_cell = Out_text string | Out_number rat | Out_blank

definition text_cell :: "string option \<Rightarrow> out_cell" where
  "text_cell x = (case x of None \<Rightarrow> Out_blank | Some s \<Rightarrow> Out_text s)"

definition numeric :: "rat option \<Rightarrow> out_cell" where
  "numeric x = (case x of None \<Rightarrow> Out_blank | Some v \<Rightarrow> Out_number v)"

definition main_table_headers :: "string list" where
  "main_table_headers = [''Supplier SKU (old)'', ''Supplier SKU (new)'', ''Product'', ''Old Pack'', ''New Pack'',
     ''Old Price'', ''New Price'', ''Normalized Old Price'', ''Normalized New Price'',
     ''Change (R)'', ''Change (%)'', ''Historical Volume'', ''Annual Volume'',
     ''Annual Impact (R)'', ''Margin Impact'', ''Match Confidence'', ''Pack Change'',
     ''Risk'', ''Buyer Decision'', ''Target Price'', ''Potential Cost Avoidance'']"

definition write_main_row :: "export_line \<Rightarrow> out_cell list" where
  "write_main_row l = [text_cell (el_old_supplier_sku l), text_cell (el_new_supplier_sku l),
     text_cell (if el_new_description l \<in> {None, Some []} then el_old_description l else el_new_description l),
     text_cell (el_old_pack_raw l), text_cell (el_new_pack_raw l),
     numeric (el_old_price l), numeric (el_new_price l),
     numeric (el_normalized_old_price l), numeric (el_normalized_new_price l),
     numeric (el_change_amount l), numeric (el_change_pct l),
     numeric (el_historical_volume l), numeric (el_annual_volume l),
     numeric (el_annual_impact l), numeric (el_margin_impact l),
     numeric (el_match_confidence l), Out_text (if el_pack_changed l then ''Yes'' else ''No''),
     text_cell (el_risk l), text_cell (el_buyer_decision l),
     numeric (el_target_price l), numeric (el_potential_cost_avoidance l)]"

type_synonym workbook = "(string \<times> out_cell list list) list"

definition table_sheet :: "string \<Rightarrow> export_line list \<Rightarrow> string \<times> out_cell list list" where
  "table_sheet title ls = (title, map Out_text main_table_headers # map write_main_row ls)"

definition executive_rows :: "export_summary \<Rightarrow> out_cell list list" where
  "executive_rows e = (let s = es_summary e; count = (\<lambda>n. Out_number (of_int n)) in
     map (\<lambda>(label, v). [Out_text label, v])
      [(''Supplier'', Out_text (es_supplier_name e)),
       (''Effective Date'', Out_text (case es_effective_date e of None \<Rightarrow> [] | Some d \<Rightarrow> d)),
       (''Total Previous SKUs'', count (total_previous_skus s)),
       (''Total New SKUs'', count (total_new_skus s)),
       (''Matched SKUs'', count (matched_skus s)),
       (''New Products'', count (new_skus s)),
       (''Discontinued Products'', count (discontinued_skus s)),
       (''Increasing'', count (increasing_skus s)),
       (''Decreasing'', count (decreasing_skus s)),
       (''Unchanged'', count (unchanged_skus s)),
       (''Pack Changes'', count (pack_changes s)),
       (''Weighted Average Price Increase (%)'', numeric (weighted_average_price_increase_pct s)),
       (''Annual Cost Impact (R)'', Out_number (annual_cost_impact s)),
       (''Products Requiring Manual Review'', count (products_requiring_manual_review s))])"

definition export_price_review :: "export_line list \<Rightarrow> export_summary \<Rightarrow> workbook" where
  "export_price_review ls e =
    [(''Executive Summary'', executive_rows e),
     table_sheet ''Full Price Review'' ls,
     table_sheet ''Price Increases'' (filter (\<lambda>l. el_movement_type l = ''price_increase'') ls),
     table_sheet ''Price Decreases'' (filter (\<lambda>l. el_movement_type l = ''price_decrease'') ls),
     table_sheet ''Pack Changes'' (filter el_pack_changed ls),
     table_sheet ''Unmatched Products'' (filter (\<lambda>l. el_movement_type l = ''review_required'') ls),
     table_sheet ''New Products'' (filter (\<lambda>l. el_movement_type l = ''new_product'') ls),
     table_sheet ''Discontinued Products'' (filter (\<lambda>l. el_movement_type l = ''discontinued'') ls),
     table_sheet ''Negotiation Targets'' (filter (\<lambda>l. el_target_price l \<noteq> None) ls)]"

section \<open>The route function\<close>

fun risk_value :: "risk \<Rightarrow> string" where
  "risk_value Risk_unclassified = ''unclassified''"
| "risk_value Risk_low = ''low''"
| "risk_value Risk_medium = ''medium''"
| "risk_value Risk_high = ''high''"
| "risk_value Risk_critical = ''critical''"

text \<open>The historical quantity is a column no operation of the model reads; it is an argument.\<close>

definition export_line_of :: "(review_line \<Rightarrow> rat option) \<Rightarrow> review_line \<Rightarrow> export_line" where
  "export_line_of historical l = \<lparr> el_old_supplier_sku = pl_old_sku l, el_old_description = pl_old_description l,
     el_old_pack_raw = pl_old_pack l, el_old_price = pl_old_price l, el_new_supplier_sku = pl_new_sku l,
     el_new_description = pl_new_description l, el_new_pack_raw = pl_new_pack l, el_new_price = pl_new_price l,
     el_normalized_old_price = pl_old_norm l, el_normalized_new_price = pl_new_norm l,
     el_change_amount = pl_absolute_change l, el_change_pct = pl_percentage_change l,
     el_historical_volume = historical l, el_annual_volume = pl_annual_quantity l,
     el_annual_impact = pl_annual_impact l, el_margin_impact = pl_annual_margin_impact l,
     el_match_confidence = pl_match_confidence l, el_pack_changed = pl_pack_changed l,
     el_risk = map_option risk_value (pl_risk l),
     el_movement_type = (case pl_movement_type l of None \<Rightarrow> ''review_required'' | Some m \<Rightarrow> movement_value m),
     el_buyer_decision = pl_buyer_decision l, el_target_price = pl_target_price l,
     el_potential_cost_avoidance = pl_potential_cost_avoidance l \<rparr>"

text \<open>The text of the supplier is the one of its key, and an absent date is the text \<open>None\<close>.\<close>

definition export_price_review_excel ::
    "(int \<Rightarrow> string) \<Rightarrow> (price_review \<Rightarrow> string option) \<Rightarrow> (review_line \<Rightarrow> rat option) \<Rightarrow>
     review_db \<Rightarrow> access_token_claims \<Rightarrow> int \<Rightarrow> workbook res" where
  "export_price_review_excel int_text effective_date historical db c r = bindR (require_permission EXPORT_DATA c) (\<lambda>c.
     bindR (get_review db c r) (\<lambda>v.
     let ls = review_lines db (rv_id v) in
     bindR (get_summary ls) (\<lambda>s.
     Inr (export_price_review (map (export_line_of historical) ls)
       \<lparr> es_supplier_name = int_text (rv_supplier v),
          es_effective_date = Some (case effective_date v of None \<Rightarrow> ''None'' | Some d \<Rightarrow> d), es_summary = s \<rparr>))))"

section \<open>Lemmas\<close>

definition numeric_columns :: "nat list" where
  "numeric_columns = [5, 6, 7, 8, 9, 10, 11, 12, 13, 14, 15, 19, 20]"

fun is_text :: "out_cell \<Rightarrow> bool" where
  "is_text (Out_text _) = True"
| "is_text _ = False"

lemma numeric_not_text [simp]: "\<not> is_text (numeric x)"
  by (cases x) (simp_all add: numeric_def)

lemma main_row_numeric: "i \<in> set numeric_columns \<Longrightarrow> \<not> is_text (write_main_row l ! i)" "length (write_main_row l) = 21"
  by (auto simp: numeric_columns_def write_main_row_def)

lemma movement_value_inj: "movement_value a = movement_value b \<longleftrightarrow> a = b"
  by (cases a; cases b) simp_all

lemma exported_movement:
  "el_movement_type (export_line_of h l) = movement_value m \<longleftrightarrow> sl_movement_type (line_for_summary l) = m"
  using movement_value_inj [of Review_required m]
  by (auto simp: export_line_of_def line_for_summary_def movement_value_inj split: option.split)

lemma exported_count:
  "int (length (filter (\<lambda>l. el_movement_type l = movement_value m) (map (export_line_of h) ls))) =
     count_lines (\<lambda>l. sl_movement_type l = m) (map line_for_summary ls)"
  by (simp add: count_lines_def filter_map comp_def exported_movement)

lemmas exported_counts = exported_count [where m = New_product, simplified] exported_count [where m = Discontinued, simplified]
  exported_count [where m = Review_required, simplified] exported_count [where m = Price_increase, simplified]
  exported_count [where m = Price_decrease, simplified]

lemma matched_counts:
  "m \<in> {Price_increase, Price_decrease} \<Longrightarrow>
    count_lines (\<lambda>l. sl_movement_type l = m) (filter is_matched_line ls) = count_lines (\<lambda>l. sl_movement_type l = m) ls"
  by (auto simp: count_lines_def is_matched_line_def intro!: arg_cong [where f = length] filter_cong)

lemma summarize_counts:
  assumes "summarize ls a b = Inr s"
  shows "increasing_skus s = count_lines (\<lambda>l. sl_movement_type l = Price_increase) ls"
    "decreasing_skus s = count_lines (\<lambda>l. sl_movement_type l = Price_decrease) ls"
    "pack_changes s = count_lines sl_pack_changed ls"
    "new_skus s = count_lines (\<lambda>l. sl_movement_type l = New_product) ls"
    "discontinued_skus s = count_lines (\<lambda>l. sl_movement_type l = Discontinued) ls"
    "unmatched_skus s = count_lines (\<lambda>l. sl_movement_type l = Review_required) ls"
  using assms movement_partition [of ls] by (auto simp: summarize_def Let_def bindR_eq_Inr matched_counts)

section \<open>Properties\<close>

definition sheet_lines :: "workbook \<Rightarrow> string \<Rightarrow> int" where
  "sheet_lines w title = (case map_of w title of None \<Rightarrow> -1 | Some rows \<Rightarrow> int (length rows) - 1)"

text \<open>C32: The sheets of the exported workbook hold as many lines as the summary of the review counts: all lines on the
  full sheet, and increases, decreases, pack changes, unmatched, new and discontinued products on theirs; in
  every table a cell of a numeric column is a number or blank, never a text.\<close>

lemma workbook_agrees_with_summary:
  assumes "export_price_review_excel int_text eff h db c r = Inr w"
  shows "\<exists>s. get_summary (review_lines db r) = Inr s \<and>
    sheet_lines w ''Full Price Review'' = int (length (review_lines db r)) \<and>
    sheet_lines w ''Price Increases'' = increasing_skus s \<and> sheet_lines w ''Price Decreases'' = decreasing_skus s \<and>
    sheet_lines w ''Pack Changes'' = pack_changes s \<and> sheet_lines w ''Unmatched Products'' = unmatched_skus s \<and>
    sheet_lines w ''New Products'' = new_skus s \<and> sheet_lines w ''Discontinued Products'' = discontinued_skus s \<and>
    (\<forall>(title, rows)\<in>set (tl w). \<forall>row\<in>set (tl rows). \<forall>i\<in>set numeric_columns. \<not> is_text (row ! i))"
proof -
  obtain c' v s where v: "get_review db c' r = Inr v" and s: "get_summary (review_lines db (rv_id v)) = Inr s"
    and w: "w = export_price_review (map (export_line_of h) (review_lines db (rv_id v)))
       \<lparr> es_supplier_name = int_text (rv_supplier v),
          es_effective_date = Some (case eff v of None \<Rightarrow> ''None'' | Some d \<Rightarrow> d), es_summary = s \<rparr>"
    using assms by (auto simp: export_price_review_excel_def bindR_eq_Inr Let_def)
  have id: "rv_id v = r" using v by (auto simp: get_review_def find_Some_iff split: option.splits)
  let ?ls = "review_lines db r"
  note c = summarize_counts [OF s [unfolded id get_summary_def]]
  have p: "int (length (filter el_pack_changed (map (export_line_of h) ?ls))) = count_lines sl_pack_changed (map line_for_summary ?ls)"
    by (simp add: count_lines_def filter_map comp_def export_line_of_def line_for_summary_def)
  have "\<forall>(title, rows)\<in>set (tl w). \<forall>row\<in>set (tl rows). \<forall>i\<in>set numeric_columns. \<not> is_text (row ! i)"
    by (auto simp: w export_price_review_def table_sheet_def main_row_numeric)
  then show ?thesis using s id p exported_counts [of h ?ls]
    by (intro exI [of _ s]) (simp add: c w sheet_lines_def export_price_review_def table_sheet_def)
qed

text \<open>A review with one new product and one matched line.\<close>

definition exported_review :: review_db where
  "exported_review = \<lparr> db_suppliers = [(5, 1)],
     db_reviews = [\<lparr> rv_id = 1, rv_org = 1, rv_supplier = 5, rv_status = ''draft'', rv_price_basis = ''tax_exclusive'' \<rparr>],
     db_files = [], db_lines =
       [\<lparr> ln_id = 1, ln_review = 1, ln_line = (blank_line NEW_PRODUCT ''none'')\<lparr> pl_movement_type := Some New_product, pl_new_price := Some 12 \<rparr> \<rparr>,
        \<lparr> ln_id = 2, ln_review = 1, ln_line = (blank_line MATCHED ''exact'')\<lparr> pl_movement_type := Some No_change, pl_pack_changed := True \<rparr> \<rparr>],
     db_templates = [] \<rparr>"

lemma workbook_agrees_with_summary_witness:
  "\<exists>w. export_price_review_excel (\<lambda>i. ''5'') (\<lambda>v. None) (\<lambda>l. None) exported_review
     \<lparr> cl_user_id = 7, cl_active_org_id = 1, cl_role = ''consultant'', cl_issued_at = 0, cl_expires_at = 900 \<rparr> 1 = Inr w \<and>
   sheet_lines w ''Full Price Review'' = 2 \<and> sheet_lines w ''New Products'' = 1"
proof -
  let ?c = "\<lparr> cl_user_id = 7, cl_active_org_id = 1, cl_role = ''consultant'', cl_issued_at = 0, cl_expires_at = 900 \<rparr>"
  have p: "require_permission EXPORT_DATA ?c = Inr ?c" by (simp add: require_permission_def role_of_def all_roles_def)
  obtain s where s: "get_summary (review_lines exported_review 1) = Inr s"
    by (simp add: get_summary_def summarize_def weighted_average_increase_def wavg_pair_def exported_review_def review_lines_def
        line_for_summary_def blank_line_def Let_def)
  have g: "get_review exported_review ?c 1 = Inr (hd (db_reviews exported_review))"
    "rv_id (hd (db_reviews exported_review)) = 1"
    by (simp_all add: get_review_def exported_review_def)
  obtain w where w: "export_price_review_excel (\<lambda>i. ''5'') (\<lambda>v. None) (\<lambda>l. None) exported_review ?c 1 = Inr w"
    by (simp add: export_price_review_excel_def p g s Let_def)
  have "new_skus s = 1" using summarize_counts(4) [OF s [unfolded get_summary_def]]
    by (simp add: count_lines_def exported_review_def review_lines_def line_for_summary_def blank_line_def)
  then show ?thesis using workbook_agrees_with_summary [OF w] s w
    by (intro exI [of _ w]) (auto simp: exported_review_def review_lines_def)
qed

end
