(* ===== verification/OrganisationRoutes.thy ===== *)
theory OrganisationRoutes
  imports TransactionSnapshots CanvasLens SavingsRegister
begin

text \<open>
  The organisation and its suppliers (\<open>app/services/organization_service.py\<close>,
  \<open>app/services/supplier_service.py\<close> with their routes) and the routes that only read: spend analytics
  (\<open>app/api/v1/spend_analytics.py\<close>), the savings register (\<open>app/api/v1/savings_register.py\<close>) and the canvas
  with the form its graphs are sent in (\<open>app/api/v1/canvas.py\<close>).  A commit writes the audit record with the
  rows or neither.
\<close>

section \<open>Organisations\<close>

record organisation =
  og_id :: int
  og_name :: string
  og_legal_name :: "string option"
  og_timezone :: string
  og_industry :: "string option"
  og_fiscal_year_start :: "pydate option"
  og_active :: bool

text \<open>A field the request leaves out is \<open>None\<close>, one it sets to null is \<open>Some None\<close>.\<close>

record organisation_update =
  ou_name :: "string option option"
  ou_legal_name :: "string option option"
  ou_industry :: "string option option"
  ou_fiscal_year_start :: "pydate option option"

definition organisation_update_ok :: "organisation_update \<Rightarrow> bool" where
  "organisation_update_ok u = (case ou_name u of Some (Some s) \<Rightarrow> 1 \<le> length s \<and> length s \<le> 255 | _ \<Rightarrow> True)"

definition changed_fields :: "organisation_update \<Rightarrow> string list" where
  "changed_fields u = map fst (filter snd [(''name'', ou_name u \<noteq> None), (''legal_name'', ou_legal_name u \<noteq> None),
     (''industry'', ou_industry u \<noteq> None), (''fiscal_year_start'', ou_fiscal_year_start u \<noteq> None)])"

definition text_fits :: "nat \<Rightarrow> string option \<Rightarrow> bool" where
  "text_fits n x = (case x of None \<Rightarrow> True | Some s \<Rightarrow> length s \<le> n)"

text \<open>The statement that writes the row: the name must not be null, and the texts must fit their columns.\<close>

definition updated_organisation :: "organisation \<Rightarrow> organisation_update \<Rightarrow> organisation res" where
  "updated_organisation g u =
     (if ou_name u = Some None then Inl (IntegrityError ''null value in column name'')
      else if \<not> (text_fits 255 (case ou_legal_name u of None \<Rightarrow> og_legal_name g | Some v \<Rightarrow> v) \<and>
         text_fits 128 (case ou_industry u of None \<Rightarrow> og_industry g | Some v \<Rightarrow> v)) then Inl (DataError ''value too long for type character varying'')
      else Inr (g\<lparr> og_name := (case ou_name u of Some (Some s) \<Rightarrow> s | _ \<Rightarrow> og_name g),
        og_legal_name := (case ou_legal_name u of None \<Rightarrow> og_legal_name g | Some v \<Rightarrow> v),
        og_industry := (case ou_industry u of None \<Rightarrow> og_industry g | Some v \<Rightarrow> v),
        og_fiscal_year_start := (case ou_fiscal_year_start u of None \<Rightarrow> og_fiscal_year_start g | Some v \<Rightarrow> v) \<rparr>))"

record org_db =
  od_organisations :: "organisation list"
  od_audit :: "audit_log list"

definition get_current :: "org_db \<Rightarrow> int \<Rightarrow> organisation res" where
  "get_current db organisation_id = (case find (\<lambda>g. og_id g = organisation_id) (od_organisations db) of
     None \<Rightarrow> Inl (NotFoundError ''Organisation not found'') | Some g \<Rightarrow> Inr g)"

definition update_current :: "org_db \<Rightarrow> int \<Rightarrow> int \<Rightarrow> organisation_update \<Rightarrow> org_db res" where
  "update_current db organisation_id user_id u = bindR (get_current db organisation_id) (\<lambda>g.
     bindR (if changed_fields u = [] then Inr (od_audit db)
        else record_audit (od_audit db) (Some organisation_id) (Some user_id) ''organisation_updated'' ''organisation''
          (Id_str (show_int organisation_id))) (\<lambda>logs.
     bindR (updated_organisation g u) (\<lambda>g'.
     Inr \<lparr> od_organisations = map (\<lambda>x. if og_id x = organisation_id then g' else x) (od_organisations db), od_audit = logs \<rparr>)))"

definition get_current_organisation :: "org_db \<Rightarrow> access_token_claims \<Rightarrow> organisation res" where
  "get_current_organisation db c = bindR (require_permission VIEW_FINANCIALS c) (\<lambda>c. get_current db (cl_active_org_id c))"

definition update_current_organisation :: "org_db \<Rightarrow> access_token_claims \<Rightarrow> organisation_update \<Rightarrow> (org_db \<times> organisation) res" where
  "update_current_organisation db c u = bindR (require_permission MANAGE_ORGANISATION c) (\<lambda>c.
     if \<not> organisation_update_ok u then Inl (ValidationFailedError ''name'')
     else bindR (update_current db (cl_active_org_id c) (cl_user_id c) u) (\<lambda>db'.
       bindR (get_current db' (cl_active_org_id c)) (\<lambda>g. Inr (db', g))))"

section \<open>Suppliers\<close>

record supplier_create =
  sc_legal_name :: string
  sc_trading_name :: "string option"
  sc_supplier_code :: "string option"
  sc_category :: "string option"
  sc_email :: "string option"
  sc_phone :: "string option"

record supplier =
  su_id :: int
  su_org :: int
  su_fields :: supplier_create
  su_active :: bool
  su_deleted :: bool

definition supplier_create_ok :: "supplier_create \<Rightarrow> bool" where
  "supplier_create_ok p = (1 \<le> length (sc_legal_name p) \<and> length (sc_legal_name p) \<le> 255)"

definition supplier_fits :: "supplier_create \<Rightarrow> bool" where
  "supplier_fits p = (text_fits 255 (sc_trading_name p) \<and> text_fits 64 (sc_supplier_code p) \<and> text_fits 128 (sc_category p) \<and>
     text_fits 320 (sc_email p) \<and> text_fits 32 (sc_phone p))"

definition create_supplier_row ::
    "supplier list \<Rightarrow> audit_log list \<Rightarrow> int \<Rightarrow> int \<Rightarrow> supplier_create \<Rightarrow> (supplier list \<times> audit_log list \<times> supplier) res" where
  "create_supplier_row rows logs organisation_id user_id p =
     (let s = \<lparr> su_id = next_id (map su_id rows), su_org = organisation_id, su_fields = p, su_active = True, su_deleted = False \<rparr> in
      if \<not> supplier_fits p then Inl (DataError ''value too long for type character varying'')
      else bindR (record_audit logs (Some organisation_id) (Some user_id) ''supplier_created'' ''supplier'' (Id_str (show_int (su_id s))))
        (\<lambda>logs'. Inr (rows @ [s], logs', s)))"

text \<open>The order of the database's collation is an argument.\<close>

definition list_supplier_rows :: "(string \<Rightarrow> 'k :: linorder) \<Rightarrow> supplier list \<Rightarrow> int \<Rightarrow> supplier list" where
  "list_supplier_rows collation rows organisation_id =
     sort_key (\<lambda>s. collation (sc_legal_name (su_fields s))) (filter (\<lambda>s. su_org s = organisation_id \<and> \<not> su_deleted s) rows)"

definition list_suppliers :: "(string \<Rightarrow> 'k :: linorder) \<Rightarrow> supplier list \<Rightarrow> access_token_claims \<Rightarrow> supplier list res" where
  "list_suppliers collation rows c = bindR (require_permission VIEW_FINANCIALS c) (\<lambda>c. Inr (list_supplier_rows collation rows (cl_active_org_id c)))"

definition create_supplier ::
    "supplier list \<Rightarrow> audit_log list \<Rightarrow> access_token_claims \<Rightarrow> supplier_create \<Rightarrow> (supplier list \<times> audit_log list \<times> supplier) res" where
  "create_supplier rows logs c p = bindR (require_permission EDIT_SUPPLIERS c) (\<lambda>c.
     if \<not> supplier_create_ok p then Inl (ValidationFailedError ''legal_name'')
     else create_supplier_row rows logs (cl_active_org_id c) (cl_user_id c) p)"

section \<open>Spend analytics\<close>

definition month_over_month_trend :: "spend_db \<Rightarrow> access_token_claims \<Rightarrow> (int \<times> int) month_point list res" where
  "month_over_month_trend db c = bindR (require_permission VIEW_FINANCIALS c) (\<lambda>_. get_month_over_month_trend db)"

text \<open>A negative limit is refused by the database.\<close>

definition top_price_increases :: "ranked_line list \<Rightarrow> access_token_claims \<Rightarrow> int \<Rightarrow> ranked_view list res" where
  "top_price_increases lines c limit = bindR (require_permission VIEW_FINANCIALS c) (\<lambda>_.
     if limit < 0 then Inl (DataError ''LIMIT must not be negative'') else Inr (get_top_supplier_price_increases lines (nat limit)))"

definition spend_by_supplier :: "spend_db \<Rightarrow> access_token_claims \<Rightarrow> int spend_item list res" where
  "spend_by_supplier db c = bindR (require_permission VIEW_FINANCIALS c) (\<lambda>_. get_spend_by_supplier db)"

text \<open>\<open>supplier\<close> is \<open>None\<close> when the request names none, otherwise what the query finds.\<close>

definition spend_by_sku :: "spend_db \<Rightarrow> access_token_claims \<Rightarrow> int option option \<Rightarrow> string spend_item list res" where
  "spend_by_sku db c supplier = bindR (require_permission VIEW_FINANCIALS c) (\<lambda>_. case supplier of
     None \<Rightarrow> get_spend_by_sku db None
   | Some None \<Rightarrow> Inl (NotFoundError ''Supplier not found'')
   | Some (Some s) \<Rightarrow> get_spend_by_sku db (Some s))"

definition abc_classification :: "spend_db \<Rightarrow> access_token_claims \<Rightarrow> int abc_result list res" where
  "abc_classification db c = bindR (require_permission VIEW_FINANCIALS c) (\<lambda>_. get_abc_classification db)"

definition pareto_contributors :: "spend_db \<Rightarrow> access_token_claims \<Rightarrow> int pareto_result res" where
  "pareto_contributors db c = bindR (require_permission VIEW_FINANCIALS c) (\<lambda>_. get_pareto_contributors db)"

definition price_variance_check :: "spend_db \<Rightarrow> access_token_claims \<Rightarrow> int option \<Rightarrow> string \<Rightarrow> price_consistency res" where
  "price_variance_check db c supplier sku_or_description = bindR (require_permission VIEW_FINANCIALS c) (\<lambda>_. case supplier of
     None \<Rightarrow> Inl (NotFoundError ''Supplier not found'')
   | Some s \<Rightarrow> check_price_consistency db s sku_or_description)"

section \<open>The savings register\<close>

definition list_savings_register :: "ledger \<Rightarrow> access_token_claims \<Rightarrow> string option \<Rightarrow> opp list res" where
  "list_savings_register l c savings_type = bindR (require_permission VIEW_FINANCIALS c) (\<lambda>c.
     Inr (filter (\<lambda>r. op_org r = cl_active_org_id c) (list_opportunities l savings_type None)))"

section \<open>The canvas\<close>

record sent_node =
  sn_id :: string
  sn_type :: string
  sn_label :: string
  sn_node_type :: string
  sn_metric_value :: rat
  sn_status :: string
  sn_details :: "(string \<times> detail) list"

record sent_edge =
  se_source :: string
  se_target :: string
  se_animated :: bool
  se_stroke :: string

fun node_status_value :: "node_status \<Rightarrow> string" where
  "node_status_value POSITIVE = ''positive''"
| "node_status_value CanvasLens.WARNING = ''warning''"
| "node_status_value CRITICAL = ''critical''"

definition stroke_of :: "string \<Rightarrow> string res" where
  "stroke_of s = (case map_of [(''positive'', ''#34D399''), (''warning'', ''#FBBF24''), (''critical'', ''#F87171'')] s of
     None \<Rightarrow> Inl KeyError | Some x \<Rightarrow> Inr x)"

definition serialize_node :: "canvas_node \<Rightarrow> sent_node" where
  "serialize_node n = \<lparr> sn_id = cn_id n, sn_type = ''customLensNode'', sn_label = cn_label n, sn_node_type = cn_type n,
     sn_metric_value = cn_metric_value n, sn_status = node_status_value (cn_status n), sn_details = cn_details n \<rparr>"

definition serialize_edge :: "canvas_edge \<Rightarrow> sent_edge res" where
  "serialize_edge e = bindR (stroke_of (node_status_value (ce_status e))) (\<lambda>stroke. Inr
     \<lparr> se_source = ce_source e, se_target = ce_target e, se_animated = (node_status_value (ce_status e) \<noteq> ''positive''), se_stroke = stroke \<rparr>)"

definition serialize_graph :: "canvas_graph \<Rightarrow> (sent_node list \<times> sent_edge list) res" where
  "serialize_graph g = bindR (mapR serialize_edge (snd g)) (\<lambda>edges. Inr (map serialize_node (fst g), edges))"

text \<open>The rows of the active organisation that the three lenses read.\<close>

record lens_rows =
  lr_suppliers :: "canvas_supplier list"
  lr_spend :: spend_db
  lr_periods :: "rpa list"
  lr_renewals :: "contract_renewal_input list"
  lr_locations :: "location_input list"
  lr_stock :: "inv_snapshot list"
  lr_working_capital :: "wc_snapshot list"
  lr_cost_to_serve :: "cost_to_serve list"

definition get_canvas_nodes :: "lens_rows \<Rightarrow> access_token_claims \<Rightarrow> string \<Rightarrow> pydate \<Rightarrow> (sent_node list \<times> sent_edge list) res" where
  "get_canvas_nodes d c lens as_of_date = bindR (require_permission VIEW_FINANCIALS c) (\<lambda>_.
     bindR (if lens = ''procurement'' then build_procurement_lens (lr_suppliers d) (lr_spend d) (lr_periods d) (lr_renewals d)
        else if lens = ''operations'' then Inr (build_inventory_lens (lr_locations d) (lr_stock d) as_of_date 60)
        else if lens = ''management'' then Inr (build_management_lens (lr_working_capital d) (lr_cost_to_serve d))
        else Inl (ValidationFailedError ''Unsupported lens'')) serialize_graph)"

section \<open>Lemmas\<close>

lemma serialize_graph_total: "\<exists>es. serialize_graph g = Inr (map serialize_node (fst g), es) \<and>
    map (\<lambda>e. (se_source e, se_target e)) es = map (\<lambda>e. (ce_source e, ce_target e)) (snd g) \<and>
    map se_animated es = map (\<lambda>e. ce_status e \<noteq> POSITIVE) (snd g)"
proof -
  have "\<exists>es. mapR serialize_edge xs = Inr es \<and> map (\<lambda>e. (se_source e, se_target e)) es = map (\<lambda>e. (ce_source e, ce_target e)) xs \<and>
    map se_animated es = map (\<lambda>e. ce_status e \<noteq> POSITIVE) xs" for xs
  proof (induction xs)
    case (Cons x xs)
    then show ?case by (cases "ce_status x") (auto simp: serialize_edge_def stroke_of_def)
  qed simp
  from this [of "snd g"] show ?thesis by (auto simp: serialize_graph_def)
qed

lemma updated_organisation_InrD:
  assumes "updated_organisation g u = Inr g'"
  shows "og_id g' = og_id g" "og_timezone g' = og_timezone g" "og_active g' = og_active g"
    "ou_name u \<noteq> Some None" "og_name g' = (case ou_name u of Some (Some s) \<Rightarrow> s | _ \<Rightarrow> og_name g)"
    "og_legal_name g' = (case ou_legal_name u of None \<Rightarrow> og_legal_name g | Some v \<Rightarrow> v)"
    "og_industry g' = (case ou_industry u of None \<Rightarrow> og_industry g | Some v \<Rightarrow> v)"
    "og_fiscal_year_start g' = (case ou_fiscal_year_start u of None \<Rightarrow> og_fiscal_year_start g | Some v \<Rightarrow> v)"
    "changed_fields u = [] \<Longrightarrow> g' = g"
  using assms by (auto simp: updated_organisation_def changed_fields_def split: if_splits)

lemma find_own: "distinct (map og_id gs) \<Longrightarrow> find (\<lambda>g. og_id g = i) gs = Some g \<longleftrightarrow> g \<in> set gs \<and> og_id g = i"
  by (induction gs) (auto simp: image_iff)

section \<open>Properties\<close>

text \<open>An update of the organisation that succeeds changes the fields the request sets, of the active organisation
  only, and leaves one audit record naming the organisation and the user, or none when it sets nothing; it never
  changes the time zone, by which the business date is resolved.\<close>

lemma organisation_update_effect:
  assumes "update_current_organisation db c u = Inr (db', g')" "distinct (map og_id (od_organisations db))"
  shows "\<exists>g\<in>set (od_organisations db). og_id g = cl_active_org_id c \<and>
    od_organisations db' = map (\<lambda>x. if x = g then g' else x) (od_organisations db) \<and>
    og_id g' = og_id g \<and> og_timezone g' = og_timezone g \<and> og_active g' = og_active g \<and>
    og_name g' = (case ou_name u of Some (Some s) \<Rightarrow> s | _ \<Rightarrow> og_name g) \<and>
    og_legal_name g' = (case ou_legal_name u of None \<Rightarrow> og_legal_name g | Some v \<Rightarrow> v) \<and>
    og_industry g' = (case ou_industry u of None \<Rightarrow> og_industry g | Some v \<Rightarrow> v) \<and>
    og_fiscal_year_start g' = (case ou_fiscal_year_start u of None \<Rightarrow> og_fiscal_year_start g | Some v \<Rightarrow> v) \<and>
    (if changed_fields u = [] then db' = db
     else \<exists>a. od_audit db' = od_audit db @ [a] \<and> al_organisation_id a = Some (cl_active_org_id c) \<and> al_user_id a = Some (cl_user_id c))"
proof -
  have c: "c' = c" if "require_permission MANAGE_ORGANISATION c = Inr c'" for c'
    using that by (auto simp: require_permission_def bindR_eq_Inr split: if_splits)
  let ?o = "cl_active_org_id c"
  from assms(1) have up: "update_current db ?o (cl_user_id c) u = Inr db'" and after: "get_current db' ?o = Inr g'"
    by (auto simp: update_current_organisation_def bindR_eq_Inr dest!: c split: if_splits)
  obtain g logs h where g: "get_current db ?o = Inr g" and h: "updated_organisation g u = Inr h"
    and logs: "(if changed_fields u = [] then Inr (od_audit db)
        else record_audit (od_audit db) (Some ?o) (Some (cl_user_id c)) ''organisation_updated'' ''organisation''
          (Id_str (show_int ?o))) = Inr logs"
    and db': "db' = \<lparr> od_organisations = map (\<lambda>x. if og_id x = ?o then h else x) (od_organisations db), od_audit = logs \<rparr>"
    using up by (auto simp: update_current_def bindR_eq_Inr)
  note f = updated_organisation_InrD [OF h]
  have own: "g \<in> set (od_organisations db)" "og_id g = ?o"
    using g find_own [OF assms(2)] by (auto simp: get_current_def split: option.splits)
  have same: "og_id x = ?o \<longleftrightarrow> x = g" if "x \<in> set (od_organisations db)" for x
    using own that assms(2) by (auto simp: distinct_map inj_on_def)
  have rows: "od_organisations db' = map (\<lambda>x. if x = g then h else x) (od_organisations db)"
    unfolding db' by (simp add: same)
  have ids: "map og_id (od_organisations db') = map og_id (od_organisations db)"
    unfolding rows using f(1) by simp
  then have "distinct (map og_id (od_organisations db'))" using assms(2) by simp
  moreover have "h \<in> set (od_organisations db')" unfolding rows using own(1) by force
  ultimately have "g' = h"
    using after find_own [of "od_organisations db'" ?o] f(1) own(2)
    by (auto simp: get_current_def split: option.splits) (metis distinct_map inj_on_def)
  moreover have "if changed_fields u = [] then db' = db
     else \<exists>a. od_audit db' = od_audit db @ [a] \<and> al_organisation_id a = Some ?o \<and> al_user_id a = Some (cl_user_id c)"
  proof (cases "changed_fields u = []")
    case True
    then have "h = g" by (rule f(9))
    then have "od_organisations db' = od_organisations db" unfolding rows by (simp add: map_idI)
    then show ?thesis using True logs db' by simp
  next
    case False
    then show ?thesis using logs by (auto simp: db' record_audit_def canonicalize_entity_id_def Let_def split: if_splits)
  qed
  ultimately show ?thesis using own rows f by (intro bexI [of _ g]) simp_all
qed

definition example_organisation :: organisation where
  "example_organisation = \<lparr> og_id = 1, og_name = ''Acme'', og_legal_name = None, og_timezone = ''Africa/Johannesburg'',
     og_industry = Some ''Retail'', og_fiscal_year_start = None, og_active = True \<rparr>"

lemma organisation_update_effect_witness:
  "\<exists>db' g'. update_current_organisation \<lparr> od_organisations = [example_organisation], od_audit = [] \<rparr>
     \<lparr> cl_user_id = 7, cl_active_org_id = 1, cl_role = ''owner'', cl_issued_at = 0, cl_expires_at = 900 \<rparr>
     \<lparr> ou_name = Some (Some ''Acme Ltd''), ou_legal_name = None, ou_industry = Some None, ou_fiscal_year_start = None \<rparr> = Inr (db', g') \<and>
   og_name g' = ''Acme Ltd'' \<and> og_industry g' = None \<and> length (od_audit db') = 1"
proof -
  let ?c = "\<lparr> cl_user_id = 7, cl_active_org_id = 1, cl_role = ''owner'', cl_issued_at = 0, cl_expires_at = 900 \<rparr>"
  let ?u = "\<lparr> ou_name = Some (Some ''Acme Ltd''), ou_legal_name = None, ou_industry = Some None, ou_fiscal_year_start = None \<rparr>"
  let ?db = "\<lparr> od_organisations = [example_organisation], od_audit = [] \<rparr>"
  have p: "require_permission MANAGE_ORGANISATION ?c = Inr ?c"
    by (simp add: require_permission_def role_of_def all_roles_def all_permissions_def)
  have sn: "length (show_nat (Suc 0)) = 1" by (subst show_nat.simps) simp
  obtain db' g' where u: "update_current_organisation ?db ?c ?u = Inr (db', g')"
    by (simp add: update_current_organisation_def p organisation_update_ok_def update_current_def get_current_def example_organisation_def
        changed_fields_def record_audit_def canonicalize_entity_id_def audit_columns_ok_def show_int_def sn updated_organisation_def
        text_fits_def Let_def)
  have "changed_fields ?u \<noteq> []" "distinct (map og_id (od_organisations ?db))" by (simp_all add: changed_fields_def)
  with organisation_update_effect [OF u] u show ?thesis
    by (intro exI [of _ db'] exI [of _ g']) (auto split: if_splits)
qed

text \<open>Setting the name to null passes the schema and is an internal error, not a validation failure.\<close>

lemma null_name_internal_error:
  assumes "require_permission MANAGE_ORGANISATION c = Inr c" "get_current db (cl_active_org_id c) = Inr g" "ou_name u = Some None"
  shows "\<exists>e. update_current_organisation db c u = Inl e \<and> error_response e = (500, None)"
proof -
  have "changed_fields u \<noteq> []" "organisation_update_ok u" using assms(3) by (auto simp: changed_fields_def organisation_update_ok_def)
  then show ?thesis using assms
    by (auto simp: update_current_organisation_def update_current_def updated_organisation_def record_audit_def
        canonicalize_entity_id_def Let_def)
qed

text \<open>A product that was never bought is an internal error of the price check, too.\<close>

lemma unknown_item_internal_error:
  assumes "require_permission VIEW_FINANCIALS c = Inr c"
    "\<And>v l. v \<in> set (sd_invoices db) \<Longrightarrow> iv_supplier v = s \<Longrightarrow> l \<in> set (iv_lines v) \<Longrightarrow> ln_sku l \<noteq> Some item \<and> ln_description l \<noteq> Some item"
  shows "\<exists>e. price_variance_check db c (Some s) item = Inl e \<and> error_response e = (500, None)"
proof -
  have "concat (map (\<lambda>v. map ln_unit_price (filter (\<lambda>l. ln_sku l = Some item \<or> ln_description l = Some item) (iv_lines v)))
      (filter (\<lambda>v. iv_supplier v = s) (sd_invoices db))) = []"
    using assms(2) by (auto simp: filter_empty_conv)
  then show ?thesis using assms(1) by (simp add: price_variance_check_def check_price_consistency_def Let_def)
qed

end
