(* ===== verification/TenantDatabase.thy ===== *)
theory TenantDatabase
  imports TransactionSnapshots "HOL-Library.Sublist"
begin

text \<open>
  Row-level security and grants as the migrations leave them (\<open>alembic/versions\<close>), and the sessions the
  application opens on pooled connections (\<open>app/db/session.py\<close>).  A migration is the list of its statements
  about policies and grants, run on a catalogue; a request is a session that runs statements as the
  application role, each commit starting a new transaction, until it ends or one fails.  The tables hold
  rows of any payload with the organisation they belong to; keys and checks are left to the other theories.
  The table of memberships has a second policy and is modelled in \<open>AccessControl\<close>.
\<close>

section \<open>Migrations\<close>

text \<open>The tables the statements below name.\<close>

datatype db_table =
    T_organisation_memberships | T_organisation_settings | T_locations | T_audit_logs | T_suppliers | T_price_reviews
   | T_price_review_files | T_price_review_mapping_templates | T_price_review_lines | T_opportunities | T_contracts
   | T_contract_extractions | T_contract_alerts | T_organisations | T_users | T_refresh_tokens | T_rebate_agreements
   | T_rebate_period_actuals | T_rebate_alerts | T_purchase_transactions | T_purchase_orders | T_purchase_order_lines
   | T_purchase_invoices | T_purchase_invoice_lines | T_goods_receipts | T_goods_receipt_lines | T_duplicate_sku_flags
   | T_supplier_consolidation_flags | T_inventory_snapshots | T_cost_allocation_rules | T_cost_to_serve_ledger
   | T_working_capital_snapshots | T_aging_ledger_snapshots | T_route_profitability_snapshots
   | T_fx_transaction_snapshots | T_inventory_reconciliations | T_inventory_reconciliation_bridges
   | T_financial_amount_status_events | T_financial_amount_evidence

datatype privilege = May_select | May_insert | May_update | May_delete

text \<open>The two forms of the policy: the setting is cast as it is, or an empty one counts as unset.\<close>

datatype policy = Raw_cast | Guarded_cast

datatype ddl =
    Enable_rls db_table
  | Force_rls db_table
  | Create_policy db_table policy
  | Alter_policy db_table policy
  | Drop_policy db_table
  | Create_role
  | Grant db_table "privilege list"
  | Revoke db_table "privilege list"

record catalogue =
  ca_role :: bool
  ca_enabled :: "db_table list"
  ca_forced :: "db_table list"
  ca_policies :: "(db_table, policy) pydict"
  ca_grants :: "(db_table \<times> privilege) list"

text \<open>A grant is guarded by the existence of the role; creating a policy twice or altering one that does not exist
  fails.\<close>

fun run_ddl :: "catalogue \<Rightarrow> ddl \<Rightarrow> catalogue res" where
  "run_ddl c (Enable_rls t) = Inr (c\<lparr> ca_enabled := t # ca_enabled c \<rparr>)"
| "run_ddl c (Force_rls t) = Inr (c\<lparr> ca_forced := t # ca_forced c \<rparr>)"
| "run_ddl c (Create_policy t p) = (case map_of (ca_policies c) t of
     Some _ \<Rightarrow> Inl (RuntimeError ''policy already exists'') | None \<Rightarrow> Inr (c\<lparr> ca_policies := (t, p) # ca_policies c \<rparr>))"
| "run_ddl c (Alter_policy t p) = (case map_of (ca_policies c) t of
     None \<Rightarrow> Inl (RuntimeError ''policy does not exist'') | Some _ \<Rightarrow> Inr (c\<lparr> ca_policies := AList.update t p (ca_policies c) \<rparr>))"
| "run_ddl c (Drop_policy t) = Inr (c\<lparr> ca_policies := filter (\<lambda>x. fst x \<noteq> t) (ca_policies c) \<rparr>)"
| "run_ddl c Create_role = Inr (c\<lparr> ca_role := True \<rparr>)"
| "run_ddl c (Grant t ps) = Inr (if ca_role c then c\<lparr> ca_grants := map (Pair t) ps @ ca_grants c \<rparr> else c)"
| "run_ddl c (Revoke t ps) = Inr (if ca_role c then c\<lparr> ca_grants := filter (\<lambda>(u, p). \<not> (u = t \<and> p \<in> set ps)) (ca_grants c) \<rparr> else c)"

abbreviation "all_dml \<equiv> [May_select, May_insert, May_update, May_delete]"
abbreviation "append_dml \<equiv> [May_select, May_insert]"

definition secured :: "privilege list \<Rightarrow> db_table \<Rightarrow> ddl list" where
  "secured ps t = [Enable_rls t, Force_rls t, Create_policy t Raw_cast, Grant t ps]"

definition migration_0001 :: "ddl list" where
  "migration_0001 = concat (map (\<lambda>t. [Enable_rls t, Create_policy t Raw_cast])
     [T_organisation_memberships, T_organisation_settings, T_locations]) @
     [Revoke T_audit_logs [May_update, May_delete]]"

definition migration_0002 :: "ddl list" where
  "migration_0002 = concat (map (\<lambda>t. [Enable_rls t, Create_policy t Raw_cast])
     [T_suppliers, T_price_reviews, T_price_review_files, T_price_review_mapping_templates, T_price_review_lines,
      T_opportunities])"

definition migration_0003 :: "ddl list" where
  "migration_0003 = concat (map (\<lambda>t. [Enable_rls t, Create_policy t Raw_cast])
     [T_contracts, T_contract_extractions, T_contract_alerts])"

definition all_tenant_scoped_tables :: "db_table list" where
  "all_tenant_scoped_tables = [T_organisation_memberships, T_organisation_settings, T_locations,
     T_suppliers, T_price_reviews, T_price_review_files, T_price_review_mapping_templates,
     T_price_review_lines, T_opportunities,
     T_contracts, T_contract_extractions, T_contract_alerts]"

definition migration_0004 :: "ddl list" where
  "migration_0004 = Create_role #
     concat (map (\<lambda>t. [Grant t all_dml, Force_rls t]) all_tenant_scoped_tables) @
     map (\<lambda>t. Grant t all_dml) [T_organisations, T_users, T_refresh_tokens] @
     [Grant T_audit_logs append_dml]"

definition migration_0005 :: "ddl list" where
  "migration_0005 = concat (map (secured all_dml) [T_rebate_agreements, T_rebate_period_actuals, T_rebate_alerts])"

definition migration_0006 :: "ddl list" where
  "migration_0006 = secured append_dml T_purchase_transactions"

definition migration_0008 :: "ddl list" where
  "migration_0008 = (let mutable_tables = [T_purchase_orders, T_purchase_order_lines];
       append_only = [T_purchase_invoices, T_purchase_invoice_lines, T_goods_receipts, T_goods_receipt_lines] in
     concat (map (\<lambda>t. [Enable_rls t, Force_rls t, Create_policy t Raw_cast]) (mutable_tables @ append_only)) @
     map (\<lambda>t. Grant t all_dml) mutable_tables @ map (\<lambda>t. Grant t append_dml) append_only)"

definition migration_0009 :: "ddl list" where
  "migration_0009 = concat (map (secured all_dml) [T_duplicate_sku_flags, T_supplier_consolidation_flags])"

definition migration_0013 :: "ddl list" where
  "migration_0013 = secured append_dml T_inventory_snapshots"

definition migration_0014 :: "ddl list" where
  "migration_0014 = (let mutable_tables = [T_cost_allocation_rules];
       append_only = [T_cost_to_serve_ledger, T_working_capital_snapshots, T_aging_ledger_snapshots] in
     concat (map (\<lambda>t. [Enable_rls t, Force_rls t, Create_policy t Raw_cast]) (mutable_tables @ append_only)) @
     map (\<lambda>t. Grant t all_dml) mutable_tables @ map (\<lambda>t. Grant t append_dml) append_only)"

definition migration_0018 :: "ddl list" where
  "migration_0018 = secured append_dml T_route_profitability_snapshots"

definition migration_0019 :: "ddl list" where
  "migration_0019 = secured append_dml T_fx_transaction_snapshots"

definition migration_0020 :: "ddl list" where
  "migration_0020 = concat (map (secured append_dml) [T_inventory_reconciliations, T_inventory_reconciliation_bridges])"

definition migration_0021 :: "ddl list" where
  "migration_0021 = concat (map (secured append_dml) [T_financial_amount_status_events, T_financial_amount_evidence])"

definition migration_0022 :: "ddl list" where
  "migration_0022 = [Drop_policy T_organisation_memberships, Create_policy T_organisation_memberships Guarded_cast]"

definition unsafe_tenant_isolation_tables :: "db_table list" where
  "unsafe_tenant_isolation_tables = [
     T_aging_ledger_snapshots, T_contract_alerts, T_contract_extractions, T_contracts, T_cost_allocation_rules,
     T_cost_to_serve_ledger, T_duplicate_sku_flags, T_financial_amount_evidence, T_financial_amount_status_events,
     T_fx_transaction_snapshots, T_goods_receipt_lines, T_goods_receipts, T_inventory_reconciliation_bridges,
     T_inventory_reconciliations, T_inventory_snapshots, T_locations, T_opportunities, T_organisation_settings,
     T_price_review_files, T_price_review_lines, T_price_review_mapping_templates, T_price_reviews,
     T_purchase_invoice_lines, T_purchase_invoices, T_purchase_order_lines, T_purchase_orders, T_purchase_transactions,
     T_rebate_agreements, T_rebate_alerts, T_rebate_period_actuals, T_route_profitability_snapshots,
     T_supplier_consolidation_flags, T_suppliers, T_working_capital_snapshots]"

definition migration_0023 :: "ddl list" where
  "migration_0023 = map (\<lambda>t. Alter_policy t Guarded_cast) unsafe_tenant_isolation_tables"

definition empty_catalogue :: catalogue where
  "empty_catalogue = \<lparr> ca_role = False, ca_enabled = [], ca_forced = [], ca_policies = [], ca_grants = [] \<rparr>"

definition upgrade_0022 :: "catalogue res" where
  "upgrade_0022 = foldR run_ddl empty_catalogue (migration_0001 @ migration_0002 @ migration_0003 @ migration_0004 @
     migration_0005 @ migration_0006 @ migration_0008 @ migration_0009 @ migration_0013 @ migration_0014 @ migration_0018 @
     migration_0019 @ migration_0020 @ migration_0021 @ migration_0022)"

definition upgrade_head :: "catalogue res" where
  "upgrade_head = bindR upgrade_0022 (\<lambda>c. foldR run_ddl c migration_0023)"

definition head_catalogue :: catalogue where
  "head_catalogue = (case upgrade_head of Inl _ \<Rightarrow> empty_catalogue | Inr c \<Rightarrow> c)"

text \<open>The tables whose rows the role may add but neither change nor delete.\<close>

definition append_only_tables :: "db_table list" where
  "append_only_tables = [T_audit_logs, T_purchase_transactions, T_purchase_invoices, T_purchase_invoice_lines, T_goods_receipts,
     T_goods_receipt_lines, T_inventory_snapshots, T_cost_to_serve_ledger, T_working_capital_snapshots, T_aging_ledger_snapshots,
     T_route_profitability_snapshots, T_fx_transaction_snapshots, T_inventory_reconciliations, T_inventory_reconciliation_bridges,
     T_financial_amount_status_events, T_financial_amount_evidence]"

section \<open>The policy of a row\<close>

definition bigint_of :: "string \<Rightarrow> int res" where
  "bigint_of s = (let (neg, r) = sign_of s; v = (if neg then - int (digits_value r) else int (digits_value r)) in
     if r = [] \<or> \<not> list_all is_digit r then Inl (DataError ''invalid input syntax for type bigint'')
     else if v < - (2 ^ 63) \<or> 2 ^ 63 \<le> v then Inl (DataError ''value out of range for type bigint'')
     else Inr v)"

text \<open>\<open>current_setting('app.current_org_id', true)\<close> as a number; \<open>None\<close> is NULL, with which no row compares equal.\<close>

fun current_org :: "policy \<Rightarrow> string option \<Rightarrow> int option res" where
  "current_org _ None = Inr None"
| "current_org Raw_cast (Some s) = bindR (bigint_of s) (\<lambda>i. Inr (Some i))"
| "current_org Guarded_cast (Some s) = (if s = [] then Inr None else bindR (bigint_of s) (\<lambda>i. Inr (Some i)))"

definition check_row :: "catalogue \<Rightarrow> string option \<Rightarrow> db_table \<Rightarrow> int \<Rightarrow> bool res" where
  "check_row c setting t org = (if t \<notin> set (ca_enabled c) then Inr True
     else case map_of (ca_policies c) t of None \<Rightarrow> Inr False
     | Some p \<Rightarrow> bindR (current_org p setting) (\<lambda>i. Inr (i = Some org)))"

section \<open>Statements and sessions\<close>

type_synonym 'a row = "int \<times> 'a"

text \<open>\<open>Set_org\<close> is \<open>set_config('app.current_org_id', _, true)\<close>, which registration calls itself.\<close>

datatype 'a stmt =
    Select_rows db_table
  | Insert_row db_table "'a row"
  | Update_rows db_table "'a row \<Rightarrow> bool" "'a row \<Rightarrow> 'a row"
  | Delete_rows db_table "'a row \<Rightarrow> bool"
  | Set_org string
  | Commit
  | Rollback

fun stmt_table :: "'a stmt \<Rightarrow> db_table option" where
  "stmt_table (Select_rows t) = Some t"
| "stmt_table (Insert_row t _) = Some t"
| "stmt_table (Update_rows t _ _) = Some t"
| "stmt_table (Delete_rows t _) = Some t"
| "stmt_table _ = None"

record 'a conn =
  cx_setting :: "string option"
  cx_db :: "db_table \<Rightarrow> 'a row list"
  cx_committed :: "db_table \<Rightarrow> 'a row list"
  cx_reads :: "(db_table \<times> 'a row) list"

definition permitted :: "catalogue \<Rightarrow> db_table \<Rightarrow> privilege \<Rightarrow> unit res" where
  "permitted c t p = (if (t, p) \<in> set (ca_grants c) then Inr () else Inl InsufficientPrivilege)"

definition visible_rows :: "catalogue \<Rightarrow> string option \<Rightarrow> db_table \<Rightarrow> 'a row list \<Rightarrow> 'a row list res" where
  "visible_rows c setting t rows = bindR (mapR (\<lambda>r. bindR (check_row c setting t (fst r)) (\<lambda>b. Inr (b, r))) rows)
     (\<lambda>bs. Inr (map snd (filter fst bs)))"

definition updated_rows ::
    "catalogue \<Rightarrow> string option \<Rightarrow> db_table \<Rightarrow> ('a row \<Rightarrow> bool) \<Rightarrow> ('a row \<Rightarrow> 'a row) \<Rightarrow> 'a row list \<Rightarrow> 'a row list res" where
  "updated_rows c setting t P f = mapR (\<lambda>r. bindR (check_row c setting t (fst r)) (\<lambda>b.
     if \<not> (b \<and> P r) then Inr r
     else bindR (check_row c setting t (fst (f r))) (\<lambda>b'. if b' then Inr (f r) else Inl InsufficientPrivilege)))"

definition remaining_rows :: "catalogue \<Rightarrow> string option \<Rightarrow> db_table \<Rightarrow> ('a row \<Rightarrow> bool) \<Rightarrow> 'a row list \<Rightarrow> 'a row list res" where
  "remaining_rows c setting t P rows = bindR (mapR (\<lambda>r. bindR (check_row c setting t (fst r)) (\<lambda>b. Inr (b \<and> P r, r))) rows)
     (\<lambda>bs. Inr (map snd (filter (\<lambda>x. \<not> fst x) bs)))"

text \<open>The listener sets the organisation of the session at the start of every transaction; at its end the setting is
  the empty text if it was ever set on the connection.\<close>

definition apply_tenant_context :: "int option \<Rightarrow> string option \<Rightarrow> string option" where
  "apply_tenant_context org setting = (case org of None \<Rightarrow> setting | Some i \<Rightarrow> Some (show_int i))"

definition end_transaction :: "string option \<Rightarrow> string option" where
  "end_transaction setting = map_option (\<lambda>_. []) setting"

fun exec_stmt :: "catalogue \<Rightarrow> int option \<Rightarrow> 'a stmt \<Rightarrow> 'a conn \<Rightarrow> 'a conn res" where
  "exec_stmt c org (Select_rows t) x = bindR (permitted c t May_select) (\<lambda>_.
     bindR (visible_rows c (cx_setting x) t (cx_db x t)) (\<lambda>rows. Inr (x\<lparr> cx_reads := cx_reads x @ map (Pair t) rows \<rparr>)))"
| "exec_stmt c org (Insert_row t r) x = bindR (permitted c t May_insert) (\<lambda>_.
     bindR (check_row c (cx_setting x) t (fst r)) (\<lambda>b.
     if b then Inr (x\<lparr> cx_db := (cx_db x)(t := cx_db x t @ [r]) \<rparr>) else Inl InsufficientPrivilege))"
| "exec_stmt c org (Update_rows t P f) x = bindR (permitted c t May_update) (\<lambda>_.
     bindR (updated_rows c (cx_setting x) t P f (cx_db x t)) (\<lambda>rows. Inr (x\<lparr> cx_db := (cx_db x)(t := rows) \<rparr>)))"
| "exec_stmt c org (Delete_rows t P) x = bindR (permitted c t May_delete) (\<lambda>_.
     bindR (remaining_rows c (cx_setting x) t P (cx_db x t)) (\<lambda>rows. Inr (x\<lparr> cx_db := (cx_db x)(t := rows) \<rparr>)))"
| "exec_stmt c org (Set_org s) x = Inr (x\<lparr> cx_setting := Some s \<rparr>)"
| "exec_stmt c org Commit x = Inr (x\<lparr> cx_committed := cx_db x, cx_setting := apply_tenant_context org (end_transaction (cx_setting x)) \<rparr>)"
| "exec_stmt c org Rollback x = Inr (x\<lparr> cx_db := cx_committed x, cx_setting := apply_tenant_context org (end_transaction (cx_setting x)) \<rparr>)"

fun run_stmts :: "catalogue \<Rightarrow> int option \<Rightarrow> 'a stmt list \<Rightarrow> 'a conn \<Rightarrow> 'a conn \<times> pyerr option" where
  "run_stmts c org [] x = (x, None)"
| "run_stmts c org (s # ss) x = (case exec_stmt c org s x of Inl e \<Rightarrow> (x, Some e) | Inr x' \<Rightarrow> run_stmts c org ss x')"

text \<open>A request: \<open>get_db\<close> with the organisation of the token, or \<open>get_db_unauthenticated\<close> without one.\<close>

definition get_db :: "catalogue \<Rightarrow> int option \<Rightarrow> 'a stmt list \<Rightarrow> 'a conn \<Rightarrow> 'a conn \<times> pyerr option" where
  "get_db c org ss x = (case run_stmts c org ss
       (x\<lparr> cx_setting := apply_tenant_context org (cx_setting x), cx_db := cx_committed x, cx_reads := [] \<rparr>) of
     (x', e) \<Rightarrow> (x'\<lparr> cx_setting := end_transaction (cx_setting x'), cx_db := cx_committed x' \<rparr>, e))"

text \<open>The requests a connection of the pool serves one after the other.\<close>

definition serve_all :: "catalogue \<Rightarrow> (int option \<times> 'a stmt list) list \<Rightarrow> 'a conn \<Rightarrow> 'a conn" where
  "serve_all c reqs x = foldl (\<lambda>x (org, ss). fst (get_db c org ss x)) x reqs"

definition fresh_conn :: "(db_table \<Rightarrow> 'a row list) \<Rightarrow> 'a conn" where
  "fresh_conn db = \<lparr> cx_setting = None, cx_db = db, cx_committed = db, cx_reads = [] \<rparr>"

text \<open>The statements of a session that serves a tenant: on its tables, never setting the organisation itself.\<close>

definition tenant_stmt :: "'a stmt \<Rightarrow> bool" where
  "tenant_stmt s = (case s of Set_org _ \<Rightarrow> False
     | _ \<Rightarrow> (case stmt_table s of None \<Rightarrow> True | Some t \<Rightarrow> t \<in> set unsafe_tenant_isolation_tables))"

definition own_rows :: "int option \<Rightarrow> 'a row list \<Rightarrow> 'a row list" where
  "own_rows org rows = filter (\<lambda>r. org = Some (fst r)) rows"

definition other_rows :: "int option \<Rightarrow> 'a row list \<Rightarrow> 'a row list" where
  "other_rows org rows = filter (\<lambda>r. org \<noteq> Some (fst r)) rows"

definition bigint_range :: "int \<Rightarrow> bool" where
  "bigint_range i = (- (2 ^ 63) \<le> i \<and> i < 2 ^ 63)"

section \<open>What the migrations leave\<close>

lemmas migration_defs = migration_0001_def migration_0002_def migration_0003_def migration_0004_def migration_0005_def
  migration_0006_def migration_0008_def migration_0009_def migration_0013_def migration_0014_def migration_0018_def
  migration_0019_def migration_0020_def migration_0021_def migration_0022_def migration_0023_def secured_def
  all_tenant_scoped_tables_def unsafe_tenant_isolation_tables_def empty_catalogue_def

lemma upgrade_facts:
  "\<exists>c0 c. upgrade_0022 = Inr c0 \<and> upgrade_head = Inr c \<and>
    (list_all (\<lambda>t. t \<in> set (ca_enabled c) \<and> t \<in> set (ca_forced c) \<and> map_of (ca_policies c) t = Some Guarded_cast \<and>
      (t, May_select) \<in> set (ca_grants c) \<and> (t, May_insert) \<in> set (ca_grants c)) unsafe_tenant_isolation_tables \<and>
    list_all (\<lambda>t. (t, May_update) \<notin> set (ca_grants c) \<and> (t, May_delete) \<notin> set (ca_grants c)) append_only_tables \<and>
    T_audit_logs \<notin> set (ca_enabled c) \<and>
    T_suppliers \<in> set (ca_enabled c0) \<and> map_of (ca_policies c0) T_suppliers = Some Raw_cast \<and> (T_suppliers, May_select) \<in> set (ca_grants c0))"
  by (simp add: upgrade_head_def upgrade_0022_def append_only_tables_def migration_defs Let_def cong: bindR_weak_cong)

lemma head_facts:
  "t \<in> set unsafe_tenant_isolation_tables \<Longrightarrow>
     t \<in> set (ca_enabled head_catalogue) \<and> t \<in> set (ca_forced head_catalogue) \<and> map_of (ca_policies head_catalogue) t = Some Guarded_cast"
  "t \<in> set append_only_tables \<Longrightarrow> (t, May_update) \<notin> set (ca_grants head_catalogue) \<and> (t, May_delete) \<notin> set (ca_grants head_catalogue)"
  "t \<in> set unsafe_tenant_isolation_tables \<Longrightarrow> (t, May_select) \<in> set (ca_grants head_catalogue) \<and> (t, May_insert) \<in> set (ca_grants head_catalogue)"
proof -
  obtain c where u: "upgrade_head = Inr c" and f:
    "list_all (\<lambda>t. t \<in> set (ca_enabled c) \<and> t \<in> set (ca_forced c) \<and> map_of (ca_policies c) t = Some Guarded_cast \<and>
      (t, May_select) \<in> set (ca_grants c) \<and> (t, May_insert) \<in> set (ca_grants c)) unsafe_tenant_isolation_tables"
    "list_all (\<lambda>t. (t, May_update) \<notin> set (ca_grants c) \<and> (t, May_delete) \<notin> set (ca_grants c)) append_only_tables"
    using upgrade_facts by blast
  have "head_catalogue = c" unfolding head_catalogue_def u by simp
  then show
    "t \<in> set unsafe_tenant_isolation_tables \<Longrightarrow>
       t \<in> set (ca_enabled head_catalogue) \<and> t \<in> set (ca_forced head_catalogue) \<and> map_of (ca_policies head_catalogue) t = Some Guarded_cast"
    "t \<in> set append_only_tables \<Longrightarrow> (t, May_update) \<notin> set (ca_grants head_catalogue) \<and> (t, May_delete) \<notin> set (ca_grants head_catalogue)"
    "t \<in> set unsafe_tenant_isolation_tables \<Longrightarrow> (t, May_select) \<in> set (ca_grants head_catalogue) \<and> (t, May_insert) \<in> set (ca_grants head_catalogue)"
    using f by (auto simp only: list_all_iff)
qed

section \<open>The setting\<close>

lemma sign_of_minus [simp]: "sign_of (CHR ''-'' # s) = (True, s)"
  by (simp add: sign_of_def)

lemma bigint_show:
  assumes "bigint_range i"
  shows "bigint_of (show_int i) = Inr i"
proof -
  have "list_all is_digit (show_nat n)" for n using show_nat_digits by (auto simp: list_all_iff)
  then show ?thesis using assms by (auto simp: bigint_of_def show_int_def bigint_range_def Let_def)
qed

lemma show_int_nonempty [simp]: "show_int i \<noteq> []"
  by (simp add: show_int_def)

text \<open>The settings a session for \<open>org\<close> can have, \<open>None\<close> being one without an organisation.\<close>

definition setting_for :: "int option \<Rightarrow> string option \<Rightarrow> bool" where
  "setting_for org s = (case org of None \<Rightarrow> s \<in> {None, Some []} | Some i \<Rightarrow> s = Some (show_int i))"

lemma check_tenant_row:
  assumes "t \<in> set unsafe_tenant_isolation_tables" "setting_for org s" "\<And>i. org = Some i \<Longrightarrow> bigint_range i"
  shows "check_row head_catalogue s t x = Inr (org = Some x)"
  using assms head_facts(1) [OF assms(1)]
  by (cases org) (auto simp: check_row_def setting_for_def bigint_show)

lemma setting_restored: "setting_for org (apply_tenant_context org s) \<longleftrightarrow> org \<noteq> None \<or> s \<in> {None, Some []}"
  by (cases org) (auto simp: setting_for_def apply_tenant_context_def)

lemma end_transaction_clear [simp]: "end_transaction s = None \<or> end_transaction s = Some []"
  by (cases s) (auto simp: end_transaction_def)

text \<open>Whatever a connection has served, it carries no organisation into the next request.\<close>

lemma served_setting: "cx_setting (serve_all c reqs (fresh_conn db)) \<in> {None, Some []}"
proof (induction reqs rule: rev_induct)
  case (snoc r reqs)
  then show ?case by (cases r) (simp add: serve_all_def get_db_def split: prod.split)
qed (simp add: serve_all_def fresh_conn_def)

lemma served_committed: "cx_db (serve_all c reqs (fresh_conn db)) = cx_committed (serve_all c reqs (fresh_conn db))"
proof (induction reqs rule: rev_induct)
  case (snoc r reqs)
  then show ?case by (cases r) (simp add: serve_all_def get_db_def split: prod.split)
qed (simp add: serve_all_def fresh_conn_def)

section \<open>Statements under the policy of one organisation\<close>

lemma visible_own:
  assumes "\<And>x. check_row c s t x = Inr (org = Some x)"
  shows "visible_rows c s t rows = Inr (own_rows org rows)"
proof -
  have "mapR (\<lambda>r. bindR (check_row c s t (fst r)) (\<lambda>b. Inr (b, r))) rows = Inr (map (\<lambda>r. (org = Some (fst r), r)) rows)"
    by (rule mapR_Inr) (simp add: assms)
  then show ?thesis by (simp add: visible_rows_def own_rows_def filter_map comp_def)
qed

lemma remaining_own:
  assumes "\<And>x. check_row c s t x = Inr (org = Some x)"
  shows "remaining_rows c s t P rows = Inr (filter (\<lambda>r. \<not> (org = Some (fst r) \<and> P r)) rows)"
proof -
  have "mapR (\<lambda>r. bindR (check_row c s t (fst r)) (\<lambda>b. Inr (b \<and> P r, r))) rows = Inr (map (\<lambda>r. (org = Some (fst r) \<and> P r, r)) rows)"
    by (rule mapR_Inr) (simp add: assms)
  then show ?thesis by (simp add: remaining_rows_def filter_map comp_def)
qed

lemma updated_checked:
  assumes "\<And>x. check_row c s t x = Inr (own x)"
  shows "updated_rows c s t P f rows =
     (if \<forall>r\<in>set rows. own (fst r) \<and> P r \<longrightarrow> own (fst (f r))
      then Inr (map (\<lambda>r. if own (fst r) \<and> P r then f r else r) rows) else Inl InsufficientPrivilege)"
proof (induction rows)
  case (Cons r rows)
  have e: "updated_rows c s t P f (r # rows) = bindR (if \<not> (own (fst r) \<and> P r) then Inr r
      else if own (fst (f r)) then Inr (f r) else Inl InsufficientPrivilege) (\<lambda>y. bindR (updated_rows c s t P f rows) (\<lambda>ys. Inr (y # ys)))"
    by (simp add: updated_rows_def assms)
  show ?case unfolding e Cons.IH by auto
qed (simp add: updated_rows_def)

lemma updated_own:
  assumes "\<And>x. check_row c s t x = Inr (org = Some x)"
  shows "updated_rows c s t P f rows =
     (if \<forall>r\<in>set (own_rows org rows). P r \<longrightarrow> org = Some (fst (f r))
      then Inr (map (\<lambda>r. if org = Some (fst r) \<and> P r then f r else r) rows) else Inl InsufficientPrivilege)"
proof -
  have "(\<forall>r\<in>set (own_rows org rows). P r \<longrightarrow> org = Some (fst (f r))) =
      (\<forall>r\<in>set rows. org = Some (fst r) \<and> P r \<longrightarrow> org = Some (fst (f r)))"
    unfolding own_rows_def set_filter by blast
  then show ?thesis unfolding updated_checked [where own = "\<lambda>x. org = Some x", OF assms] by presburger
qed

text \<open>What an update does to the rows inside and outside a class it does not leave.\<close>

lemma update_inside:
  assumes "\<And>r. r \<in> set rows \<Longrightarrow> own r \<Longrightarrow> P r \<Longrightarrow> own (f r)"
  shows "filter own (map (\<lambda>r. if own r \<and> P r then f r else r) rows) = map (\<lambda>r. if P r then f r else r) (filter own rows)"
    "filter (\<lambda>r. \<not> own r) (map (\<lambda>r. if own r \<and> P r then f r else r) rows) = filter (\<lambda>r. \<not> own r) rows"
  using assms by (induction rows) auto

lemma updated_own_rows:
  assumes "\<forall>r\<in>set (own_rows org rows). P r \<longrightarrow> org = Some (fst (f r))"
  shows "own_rows org (map (\<lambda>r. if org = Some (fst r) \<and> P r then f r else r) rows) =
      map (\<lambda>r. if P r then f r else r) (own_rows org rows)"
    "other_rows org (map (\<lambda>r. if org = Some (fst r) \<and> P r then f r else r) rows) = other_rows org rows"
proof -
  have h: "r \<in> set rows \<Longrightarrow> org = Some (fst r) \<Longrightarrow> P r \<Longrightarrow> org = Some (fst (f r))" for r
    using assms unfolding own_rows_def set_filter by blast
  show "own_rows org (map (\<lambda>r. if org = Some (fst r) \<and> P r then f r else r) rows) = map (\<lambda>r. if P r then f r else r) (own_rows org rows)"
    unfolding own_rows_def by (rule update_inside [where own = "\<lambda>r. org = Some (fst r)"]) (rule h)
  show "other_rows org (map (\<lambda>r. if org = Some (fst r) \<and> P r then f r else r) rows) = other_rows org rows"
    unfolding other_rows_def by (rule update_inside [where own = "\<lambda>r. org = Some (fst r)"]) (rule h)
qed

lemma removed_rows:
  "own_rows org (filter (\<lambda>r. \<not> (org = Some (fst r) \<and> P r)) rows) = filter (\<lambda>r. \<not> P r) (own_rows org rows)"
  "other_rows org (filter (\<lambda>r. \<not> (org = Some (fst r) \<and> P r)) rows) = other_rows org rows"
  unfolding own_rows_def other_rows_def filter_filter by (rule filter_cong; blast)+

lemma added_rows:
  "own_rows org (rows @ [r]) = own_rows org rows @ (if org = Some (fst r) then [r] else [])"
  "other_rows org (rows @ [r]) = other_rows org rows @ (if org = Some (fst r) then [] else [r])"
  by (simp_all add: own_rows_def other_rows_def)

lemma own_row: "r \<in> set (own_rows org rows) \<Longrightarrow> org = Some (fst r)"
  unfolding own_rows_def set_filter by blast

section \<open>A session sees and changes its own organisation only\<close>

text \<open>The state inside a request of \<open>org\<close> that started on the committed tables \<open>base\<close>.\<close>

definition confined :: "int option \<Rightarrow> (db_table \<Rightarrow> 'a row list) \<Rightarrow> 'a conn \<Rightarrow> bool" where
  "confined org base x = (setting_for org (cx_setting x) \<and>
     (\<forall>t\<in>set unsafe_tenant_isolation_tables. other_rows org (cx_db x t) = other_rows org (base t) \<and>
        other_rows org (cx_committed x t) = other_rows org (base t)) \<and>
     (\<forall>p\<in>set (cx_reads x). fst p \<in> set unsafe_tenant_isolation_tables \<and> org = Some (fst (snd p))))"

text \<open>Two states that agree on what belongs to \<open>org\<close>.\<close>

definition agree_for :: "int option \<Rightarrow> 'a conn \<Rightarrow> 'a conn \<Rightarrow> bool" where
  "agree_for org x y = (setting_for org (cx_setting x) \<and> setting_for org (cx_setting y) \<and> cx_reads x = cx_reads y \<and>
     (\<forall>t\<in>set unsafe_tenant_isolation_tables. own_rows org (cx_db x t) = own_rows org (cx_db y t) \<and>
        own_rows org (cx_committed x t) = own_rows org (cx_committed y t)))"

lemma setting_next: "setting_for org s \<Longrightarrow> setting_for org (apply_tenant_context org (end_transaction s))"
  by (simp add: setting_restored)

lemma confined_step:
  assumes st: "tenant_stmt s" "\<And>i. org = Some i \<Longrightarrow> bigint_range i" and c: "confined org base x"
    and e: "exec_stmt head_catalogue org s x = Inr x'"
  shows "confined org base x'"
proof -
  have set: "setting_for org (cx_setting x)" using c by (simp add: confined_def)
  have chk: "check_row head_catalogue (cx_setting x) t y = Inr (org = Some y)" if "t \<in> set unsafe_tenant_isolation_tables" for t y
    by (rule check_tenant_row [OF that set]) (rule st(2))
  show ?thesis
  proof (cases s)
    case (Select_rows t)
    then have t: "t \<in> set unsafe_tenant_isolation_tables" using st(1) by (simp add: tenant_stmt_def)
    have "x' = x\<lparr> cx_reads := cx_reads x @ map (Pair t) (own_rows org (cx_db x t)) \<rparr>"
      using e by (auto simp: Select_rows bindR_eq_Inr visible_own [OF chk [OF t]])
    then show ?thesis using c t own_row by (fastforce simp: confined_def)
  next
    case (Insert_row t r)
    then have t: "t \<in> set unsafe_tenant_isolation_tables" using st(1) by (simp add: tenant_stmt_def)
    have "x' = x\<lparr> cx_db := (cx_db x)(t := cx_db x t @ [r]) \<rparr> \<and> org = Some (fst r)"
      using e by (auto simp: Insert_row bindR_eq_Inr chk [OF t] split: if_splits)
    then show ?thesis using c by (auto simp: confined_def added_rows)
  next
    case (Update_rows t P f)
    then have t: "t \<in> set unsafe_tenant_isolation_tables" using st(1) by (simp add: tenant_stmt_def)
    have "(\<forall>r\<in>set (own_rows org (cx_db x t)). P r \<longrightarrow> org = Some (fst (f r))) \<and>
        x' = x\<lparr> cx_db := (cx_db x)(t := map (\<lambda>r. if org = Some (fst r) \<and> P r then f r else r) (cx_db x t)) \<rparr>"
      using e unfolding Update_rows exec_stmt.simps bindR_eq_Inr updated_own [OF chk [OF t]] by (simp split: if_splits)
    then show ?thesis using c updated_own_rows(2) [of org "cx_db x t" P f] by (auto simp: confined_def)
  next
    case (Delete_rows t P)
    then have t: "t \<in> set unsafe_tenant_isolation_tables" using st(1) by (simp add: tenant_stmt_def)
    have "x' = x\<lparr> cx_db := (cx_db x)(t := filter (\<lambda>r. \<not> (org = Some (fst r) \<and> P r)) (cx_db x t)) \<rparr>"
      using e unfolding Delete_rows exec_stmt.simps bindR_eq_Inr remaining_own [OF chk [OF t]] by auto
    then show ?thesis using c removed_rows(2) [of org P "cx_db x t"] by (auto simp: confined_def)
  next
    case Commit
    then show ?thesis using c e setting_next [OF set] by (auto simp: confined_def)
  next
    case Rollback
    then show ?thesis using c e setting_next [OF set] by (auto simp: confined_def)
  qed (use st(1) in \<open>simp add: tenant_stmt_def\<close>)
qed

lemma agree_step:
  assumes st: "tenant_stmt s" "\<And>i. org = Some i \<Longrightarrow> bigint_range i" and a: "agree_for org x y"
  shows "(\<exists>e. exec_stmt head_catalogue org s x = Inl e \<and> exec_stmt head_catalogue org s y = Inl e) \<or>
    (\<exists>x' y'. exec_stmt head_catalogue org s x = Inr x' \<and> exec_stmt head_catalogue org s y = Inr y' \<and> agree_for org x' y')"
proof -
  have set: "setting_for org (cx_setting x)" "setting_for org (cx_setting y)" using a by (simp_all add: agree_for_def)
  have chk: "check_row head_catalogue (cx_setting x) t z = Inr (org = Some z)" "check_row head_catalogue (cx_setting y) t z = Inr (org = Some z)"
    if "t \<in> set unsafe_tenant_isolation_tables" for t z
    by (rule check_tenant_row [OF that], rule set, rule st(2), assumption)+
  show ?thesis
  proof (cases s)
    case (Select_rows t)
    then have t: "t \<in> set unsafe_tenant_isolation_tables" using st(1) by (simp add: tenant_stmt_def)
    show ?thesis using a t by (auto simp: Select_rows permitted_def visible_own [OF chk(1) [OF t]] visible_own [OF chk(2) [OF t]] agree_for_def)
  next
    case (Insert_row t r)
    then have t: "t \<in> set unsafe_tenant_isolation_tables" using st(1) by (simp add: tenant_stmt_def)
    show ?thesis using a t by (auto simp: Insert_row permitted_def chk [OF t] agree_for_def added_rows)
  next
    case (Update_rows t P f)
    then have t: "t \<in> set unsafe_tenant_isolation_tables" using st(1) by (simp add: tenant_stmt_def)
    have eq: "own_rows org (cx_db x t) = own_rows org (cx_db y t)" using a t by (simp add: agree_for_def)
    note up = updated_own [OF chk(1) [OF t], of P f "cx_db x t"] updated_own [OF chk(2) [OF t], of P f "cx_db y t"]
    show ?thesis
    proof (cases "(t, May_update) \<in> set (ca_grants head_catalogue) \<and> (\<forall>r\<in>set (own_rows org (cx_db y t)). P r \<longrightarrow> org = Some (fst (f r)))")
      case True
      then show ?thesis using a updated_own_rows(1) [of org "cx_db x t" P f] updated_own_rows(1) [of org "cx_db y t" P f]
        by (simp add: Update_rows permitted_def up eq agree_for_def)
    next
      case False
      then show ?thesis by (auto simp: Update_rows permitted_def up eq)
    qed
  next
    case (Delete_rows t P)
    then have t: "t \<in> set unsafe_tenant_isolation_tables" using st(1) by (simp add: tenant_stmt_def)
    note rem = remaining_own [OF chk(1) [OF t], of P "cx_db x t"] remaining_own [OF chk(2) [OF t], of P "cx_db y t"]
    show ?thesis using a t removed_rows(1) [of org P "cx_db x t"] removed_rows(1) [of org P "cx_db y t"]
      by (auto simp: Delete_rows permitted_def rem agree_for_def)
  next
    case Commit
    then show ?thesis using a setting_next [OF set(1)] setting_next [OF set(2)] by (simp add: agree_for_def)
  next
    case Rollback
    then show ?thesis using a setting_next [OF set(1)] setting_next [OF set(2)] by (simp add: agree_for_def)
  qed (use st(1) in \<open>simp add: tenant_stmt_def\<close>)
qed

text \<open>The only way a statement fails is for want of a privilege.\<close>

lemma tenant_stmt_error:
  assumes st: "tenant_stmt s" "\<And>i. org = Some i \<Longrightarrow> bigint_range i" and set: "setting_for org (cx_setting x)"
    and e: "exec_stmt head_catalogue org s x = Inl e"
  shows "e = InsufficientPrivilege"
proof -
  have chk: "check_row head_catalogue (cx_setting x) t y = Inr (org = Some y)" if "t \<in> set unsafe_tenant_isolation_tables" for t y
    by (rule check_tenant_row [OF that set]) (rule st(2))
  have t: "t \<in> set unsafe_tenant_isolation_tables" if "stmt_table s = Some t" for t
    using st(1) that by (auto simp: tenant_stmt_def split: stmt.splits)
  show ?thesis
    using e t by (cases s) (auto simp: bindR_eq_Inl permitted_def chk visible_own [OF chk] remaining_own [OF chk] updated_own [OF chk]
        split: if_splits)
qed

lemma tenant_run_error:
  assumes "list_all tenant_stmt ss" "\<And>i. org = Some i \<Longrightarrow> bigint_range i" "confined org base x"
    "run_stmts head_catalogue org ss x = (x', e)"
  shows "e \<in> {None, Some InsufficientPrivilege}"
  using assms
proof (induction ss arbitrary: x)
  case (Cons s ss)
  have s: "setting_for org (cx_setting x)" "tenant_stmt s" using Cons.prems by (simp_all add: confined_def)
  show ?case
  proof (cases "exec_stmt head_catalogue org s x")
    case (Inl err)
    then show ?thesis using Cons.prems(4) tenant_stmt_error [OF s(2) Cons.prems(2) s(1)] by auto
  next
    case (Inr x1)
    then show ?thesis using Cons.IH [of x1] Cons.prems confined_step [OF s(2) Cons.prems(2,3)] by auto
  qed
qed simp

lemma confined_run:
  assumes "list_all tenant_stmt ss" "\<And>i. org = Some i \<Longrightarrow> bigint_range i" "confined org base x"
    "run_stmts head_catalogue org ss x = (x', e)"
  shows "confined org base x'"
  using assms
proof (induction ss arbitrary: x)
  case (Cons s ss)
  then show ?case using confined_step [OF _ Cons.prems(2) Cons.prems(3), of s] by (auto split: sum.splits)
qed simp

lemma agree_run:
  assumes "list_all tenant_stmt ss" "\<And>i. org = Some i \<Longrightarrow> bigint_range i" "agree_for org x y"
    "run_stmts head_catalogue org ss x = (x', e)" "run_stmts head_catalogue org ss y = (y', e')"
  shows "agree_for org x' y' \<and> e = e'"
  using assms
proof (induction ss arbitrary: x y)
  case (Cons s ss)
  have t: "tenant_stmt s" using Cons.prems(1) by simp
  from agree_step [OF t Cons.prems(2,3)] show ?case using Cons by auto
qed simp

section \<open>Append-only tables\<close>

definition extends :: "db_table \<Rightarrow> 'a conn \<Rightarrow> 'a conn \<Rightarrow> bool" where
  "extends t x x' = (prefix (cx_committed x t) (cx_committed x' t) \<and> prefix (cx_committed x' t) (cx_db x' t))"

lemma extends_step:
  assumes "t \<in> set append_only_tables" "extends t x0 x" "exec_stmt head_catalogue org s x = Inr x'"
  shows "extends t x0 x'"
proof (cases s)
  case (Insert_row u r)
  then have "cx_committed x' = cx_committed x \<and> cx_db x' = (cx_db x)(u := cx_db x u @ [r])"
    using assms(3) by (auto simp: bindR_eq_Inr split: if_splits)
  then show ?thesis using assms(2) by (auto simp: extends_def intro: prefix_order.trans)
next
  case (Update_rows u P f)
  then have "u \<noteq> t" using assms(3) head_facts(2) [OF assms(1)] by (auto simp: bindR_eq_Inr permitted_def split: if_splits)
  then show ?thesis using assms(2,3) by (auto simp: Update_rows extends_def bindR_eq_Inr)
next
  case (Delete_rows u P)
  then have "u \<noteq> t" using assms(3) head_facts(2) [OF assms(1)] by (auto simp: bindR_eq_Inr permitted_def split: if_splits)
  then show ?thesis using assms(2,3) by (auto simp: Delete_rows extends_def bindR_eq_Inr)
qed (use assms(2,3) in \<open>auto simp: extends_def bindR_eq_Inr intro: prefix_order.trans\<close>)

lemma extends_run:
  assumes "t \<in> set append_only_tables" "extends t x0 x" "run_stmts head_catalogue org ss x = (x', e)"
  shows "extends t x0 x'"
  using assms
proof (induction ss arbitrary: x)
  case (Cons s ss)
  then show ?case using extends_step [OF Cons.prems(1,2), of org s] by (auto split: sum.splits)
qed simp

section \<open>Properties\<close>

text \<open>C4: Whatever requests a pooled connection has served before, a session for an organisation reads rows of that
  organisation only and leaves the rows of every other one as they were, committed or not, in every table
  under the policy; a session without an organisation reads and changes nothing in them.  A statement fails for want of
  a privilege only, never on the setting an earlier request left behind.\<close>

lemma tenant_session_confined:
  assumes "list_all tenant_stmt ss" "\<And>i. org = Some i \<Longrightarrow> bigint_range i" "t \<in> set unsafe_tenant_isolation_tables"
    and x: "x = serve_all head_catalogue reqs (fresh_conn db)" and g: "get_db head_catalogue org ss x = (x', e)"
  shows "other_rows org (cx_committed x' t) = other_rows org (cx_committed x t) \<and>
    (\<forall>p\<in>set (cx_reads x'). fst p \<in> set unsafe_tenant_isolation_tables \<and> org = Some (fst (snd p))) \<and>
    (org = None \<longrightarrow> cx_committed x' t = cx_committed x t \<and> cx_reads x' = []) \<and>
    e \<in> {None, Some InsufficientPrivilege}"
proof -
  let ?x0 = "x\<lparr> cx_setting := apply_tenant_context org (cx_setting x), cx_db := cx_committed x, cx_reads := [] \<rparr>"
  obtain x1 where r: "run_stmts head_catalogue org ss ?x0 = (x1, e)"
    and x': "x' = x1\<lparr> cx_setting := end_transaction (cx_setting x1), cx_db := cx_committed x1 \<rparr>"
    using g by (auto simp: get_db_def split: prod.splits)
  have "confined org (cx_committed x) ?x0"
    using served_setting [of head_catalogue reqs db] by (simp add: confined_def setting_restored x)
  then have c: "confined org (cx_committed x) x1" and err: "e \<in> {None, Some InsufficientPrivilege}"
    using confined_run [OF assms(1,2) _ r] tenant_run_error [OF assms(1,2) _ r] by blast+
  have "other_rows None rows = rows" for rows :: "'a row list" by (simp add: other_rows_def)
  moreover have "org = None \<Longrightarrow> cx_reads x1 = []" using c by (cases "cx_reads x1") (auto simp: confined_def)
  ultimately show ?thesis using c assms(3) err by (auto simp: x' confined_def)
qed

text \<open>Two tenants; the suppliers of the second are \<open>names\<close>.\<close>

definition two_tenants :: "string list \<Rightarrow> db_table \<Rightarrow> string row list" where
  "two_tenants names t = (if t = T_suppliers then (1, ''Acme'') # map (Pair 2) names
     else if t = T_audit_logs then [(1, ''login'')] else [])"

abbreviation "take_all \<equiv> [Select_rows T_suppliers, Delete_rows T_suppliers (\<lambda>_. True), Commit]"

lemma take_all_tenant: "list_all tenant_stmt (take_all :: string stmt list)"
  by (simp add: tenant_stmt_def unsafe_tenant_isolation_tables_def)

lemma nothing_served:
  "cx_committed (serve_all head_catalogue [(Some 2, [])] (fresh_conn (two_tenants names))) = two_tenants names"
  "cx_committed (serve_all head_catalogue [] (fresh_conn (two_tenants names))) = two_tenants names"
  by (simp_all add: serve_all_def get_db_def fresh_conn_def)

lemma tenant_session_confined_witness:
  "\<exists>x' e. get_db head_catalogue (Some 1) take_all (serve_all head_catalogue [(Some 2, [])] (fresh_conn (two_tenants [''Bolt'']))) = (x', e) \<and>
     other_rows (Some 1) (cx_committed x' T_suppliers) = [(2, ''Bolt'')] \<and> e \<in> {None, Some InsufficientPrivilege}"
proof -
  let ?x = "serve_all head_catalogue [(Some 2, [])] (fresh_conn (two_tenants [''Bolt'']))"
  obtain x' e where g: "get_db head_catalogue (Some 1) take_all ?x = (x', e)" by fastforce
  have "T_suppliers \<in> set unsafe_tenant_isolation_tables" by (simp add: unsafe_tenant_isolation_tables_def)
  from tenant_session_confined [OF take_all_tenant _ this refl g]
  have "other_rows (Some 1) (cx_committed x' T_suppliers) = other_rows (Some 1) (cx_committed ?x T_suppliers)"
    "e \<in> {None, Some InsufficientPrivilege}" by (auto simp: bigint_range_def)
  then show ?thesis using g by (auto simp: nothing_served two_tenants_def other_rows_def)
qed



text \<open>C18: The ledgers the migrations grant the application no update or delete on, the audit log among them, are
  append-only against any requests of any sessions, with or without an organisation, and whatever settings
  they make: the committed rows of an earlier moment are a prefix of those of a later one.\<close>

lemma append_only_history:
  assumes "t \<in> set append_only_tables"
  shows "prefix (cx_committed (serve_all head_catalogue reqs (fresh_conn db)) t)
    (cx_committed (serve_all head_catalogue (reqs @ reqs') (fresh_conn db)) t)"
proof (induction reqs' rule: rev_induct)
  case (snoc r reqs')
  obtain org ss where r: "r = (org, ss)" by (cases r)
  let ?x = "serve_all head_catalogue (reqs @ reqs') (fresh_conn db)"
  let ?x0 = "?x\<lparr> cx_setting := apply_tenant_context org (cx_setting ?x), cx_db := cx_committed ?x, cx_reads := [] \<rparr>"
  obtain x1 e where x1: "run_stmts head_catalogue org ss ?x0 = (x1, e)" by fastforce
  have "extends t ?x0 x1" by (rule extends_run [OF assms _ x1]) (simp add: extends_def)
  moreover have "cx_committed (serve_all head_catalogue (reqs @ reqs' @ [r]) (fresh_conn db)) = cx_committed x1"
    using x1 by (simp add: serve_all_def get_db_def r)
  ultimately show ?case using snoc by (auto simp: extends_def intro: prefix_order.trans)
qed simp

lemma append_only_history_witness:
  "prefix [(1, ''login'')] (cx_committed (serve_all head_catalogue ([] @ [(Some 1, [Delete_rows T_audit_logs (\<lambda>_. True), Commit])])
     (fresh_conn (two_tenants []))) T_audit_logs)"
proof -
  have "T_audit_logs \<in> set append_only_tables" by (simp add: append_only_tables_def)
  from append_only_history [OF this, of "[]" "two_tenants []" "[(Some 1, [Delete_rows T_audit_logs (\<lambda>_. True), Commit])]"]
  show ?thesis by (simp add: serve_all_def fresh_conn_def two_tenants_def)
qed

text \<open>Before migration 0023 a connection that had served a tenant failed the next session without one, on any table with
  rows, where a fresh connection answered with no rows.\<close>

lemma reused_connection_failed:
  assumes "upgrade_0022 = Inr c" "db T_suppliers \<noteq> []"
  shows "snd (get_db c None [Select_rows T_suppliers] (fst (get_db c (Some 1) [] (fresh_conn db)))) =
      Some (DataError ''invalid input syntax for type bigint'')"
    "snd (get_db c None [Select_rows T_suppliers] (fresh_conn db)) = None"
proof -
  have f: "T_suppliers \<in> set (ca_enabled c)" "map_of (ca_policies c) T_suppliers = Some Raw_cast" "(T_suppliers, May_select) \<in> set (ca_grants c)"
    using upgrade_facts unfolding assms(1) by auto
  have chk: "check_row c None T_suppliers y = Inr (None = Some y)" for y by (simp add: check_row_def f)
  have bad: "check_row c (Some []) T_suppliers y = Inl (DataError ''invalid input syntax for type bigint'')" for y
    by (simp add: check_row_def f bigint_of_def sign_of_def)
  obtain a rows where "db T_suppliers = a # rows" using assms(2) by (cases "db T_suppliers") auto
  then have "visible_rows c (Some []) T_suppliers (db T_suppliers) = Inl (DataError ''invalid input syntax for type bigint'')"
    by (simp add: visible_rows_def bad)
  then show "snd (get_db c None [Select_rows T_suppliers] (fst (get_db c (Some 1) [] (fresh_conn db)))) =
      Some (DataError ''invalid input syntax for type bigint'')"
    by (simp add: get_db_def fresh_conn_def apply_tenant_context_def end_transaction_def permitted_def f)
  show "snd (get_db c None [Select_rows T_suppliers] (fresh_conn db)) = None"
    by (simp add: get_db_def fresh_conn_def apply_tenant_context_def permitted_def f visible_own [OF chk])
qed

end
