(* ===== verification/ModelProvider.thy ===== *)
theory ModelProvider
  imports PyText TransactionSnapshots
begin

text \<open>
  The boundary to the language model: \<open>app/ai/prompt_loader.py\<close> cuts the developer header off a prompt file,
  \<open>str.format\<close> fills it in, \<open>app/ai/llm_provider.py\<close> sends it and parses the answer.  The files, the answer of the
  service, \<open>json.loads\<close> and the validation of the expected schema are arguments.
\<close>

section \<open>Prompt files\<close>

definition line_feed :: char where "line_feed = CHR 0x0A"

text \<open>The expression \<open>^---[ \t]*$\<close> on one line.\<close>

definition separator_line :: "string \<Rightarrow> bool" where
  "separator_line l = (take 3 l = ''---'' \<and> list_all (\<lambda>c. c \<in> {CHR '' '', CHR 0x09}) (drop 3 l))"

text \<open>What follows the first line that matches: the newline that ends it and the rest, if any.\<close>

function after_separator :: "string \<Rightarrow> string option" where
  "after_separator s = (let l = takeWhile (\<lambda>c. c \<noteq> line_feed) s; r = dropWhile (\<lambda>c. c \<noteq> line_feed) s in
     if separator_line l then Some r else case r of [] \<Rightarrow> None | _ # rest \<Rightarrow> after_separator rest)"
  by pat_completeness auto

termination
proof (relation "measure length")
  fix s l r :: string and x xs
  assume "r = dropWhile (\<lambda>c. c \<noteq> line_feed) s" "r = x # xs"
  then have "length (x # xs) \<le> length s" using length_dropWhile_le [of "\<lambda>c. c \<noteq> line_feed" s] by metis
  then show "(xs, s) \<in> measure length" by simp
qed simp

declare after_separator.simps [simp del]

definition known_templates :: "(string, string) pydict" where
  "known_templates = [(''negotiation_brief'', ''negotiation_brief.md''), (''contract_clause_extraction'', ''contract_clause_extraction.md'')]"

definition load_prompt_body :: "(string \<Rightarrow> string res) \<Rightarrow> string \<Rightarrow> string res" where
  "load_prompt_body read_prompt template_name = (case map_of known_templates template_name of
     None \<Rightarrow> Inl (PromptTemplateBoundaryError ''Unknown prompt template name'')
   | Some filename \<Rightarrow> bindR (read_prompt filename) (\<lambda>raw. case after_separator raw of
       None \<Rightarrow> Inl (PromptTemplateBoundaryError ''no standalone line'')
     | Some r \<Rightarrow> (let body = (case r of [] \<Rightarrow> [] | c # rest \<Rightarrow> if c = line_feed then rest else r) in
         if strip body = [] then Inl (PromptTemplateBoundaryError ''no runtime body'') else Inr body)))"

section \<open>Filling in a template\<close>

text \<open>\<open>str.format\<close> with named fields: a doubled brace is a brace, a name in braces its value, which is not read
  again.\<close>

function format_fields :: "(string, string) pydict \<Rightarrow> string \<Rightarrow> string res" where
  "format_fields kwargs [] = Inr []"
| "format_fields kwargs (c # s) =
    (if c = CHR ''{'' then
       (if s \<noteq> [] \<and> hd s = CHR ''{'' then bindR (format_fields kwargs (tl s)) (\<lambda>r. Inr (CHR ''{'' # r))
        else if CHR ''}'' \<notin> set s then Inl (ValueError ''expected a closing brace'')
        else case map_of kwargs (takeWhile (\<lambda>c. c \<noteq> CHR ''}'') s) of
          None \<Rightarrow> Inl KeyError
        | Some v \<Rightarrow> bindR (format_fields kwargs (tl (dropWhile (\<lambda>c. c \<noteq> CHR ''}'') s))) (\<lambda>r. Inr (v @ r)))
     else if c = CHR ''}'' then
       (if s \<noteq> [] \<and> hd s = CHR ''}'' then bindR (format_fields kwargs (tl s)) (\<lambda>r. Inr (CHR ''}'' # r))
        else Inl (ValueError ''Single closing brace''))
     else bindR (format_fields kwargs s) (\<lambda>r. Inr (c # r)))"
  by pat_completeness auto

termination
proof (relation "measure (\<lambda>(_, s). length s)")
  fix kwargs :: "(string, string) pydict" and c and s :: string and v
  assume "\<not> CHR ''}'' \<notin> set s"
  have "length (dropWhile (\<lambda>c. c \<noteq> CHR ''}'') s) \<le> length s" by (rule length_dropWhile_le)
  then show "((kwargs, tl (dropWhile (\<lambda>c. c \<noteq> CHR ''}'') s)), kwargs, c # s) \<in> measure (\<lambda>(_, s). length s)"
    by (simp add: le_imp_less_Suc)
qed (auto simp: le_imp_less_Suc)

declare format_fields.simps(2) [simp del]

section \<open>The answer of the model\<close>

definition line_breaks :: "char list" where
  "line_breaks = [CHR 0x0A, CHR 0x0B, CHR 0x0C, CHR 0x0D, CHR 0x1C, CHR 0x1D, CHR 0x1E]"

text \<open>\<open>str.splitlines\<close>: a carriage return and a line feed together are one break, and a break at the end starts no
  line.\<close>

fun splitlines :: "string \<Rightarrow> string list" where
  "splitlines [] = []"
| "splitlines [c] = (if c \<in> set line_breaks then [[]] else [[c]])"
| "splitlines (c # d # s) =
    (if c = CHR 0x0D \<and> d = CHR 0x0A then [] # splitlines s
     else if c \<in> set line_breaks then [] # splitlines (d # s)
     else case splitlines (d # s) of [] \<Rightarrow> [[c]] | l # ls \<Rightarrow> (c # l) # ls)"

abbreviation "fence \<equiv> [CHR 0x60, CHR 0x60, CHR 0x60]"

definition strip_markdown_fences :: "string \<Rightarrow> string res" where
  "strip_markdown_fences text = (let stripped = strip text in
     if \<not> prefix fence stripped then Inr stripped
     else case splitlines stripped of
       [] \<Rightarrow> Inl IndexError
     | first # rest \<Rightarrow> (let lines = (if prefix fence first then rest else first # rest);
           lines' = (if lines \<noteq> [] \<and> strip (last lines) = fence then butlast lines else lines) in
         Inr (join_with line_feed lines')))"

text \<open>The instructions appended to the prompt name the schema.\<close>

definition complete_structured ::
    "(string \<Rightarrow> string \<Rightarrow> string res) \<Rightarrow> (string \<Rightarrow> 'j option) \<Rightarrow> ('j \<Rightarrow> 'm option) \<Rightarrow> string \<Rightarrow> string \<Rightarrow> string \<Rightarrow> 'm res" where
  "complete_structured send json_loads model_validate schema_instructions system prompt =
     bindR (send system (prompt @ schema_instructions)) (\<lambda>raw.
     bindR (strip_markdown_fences raw) (\<lambda>text. case json_loads text of
       None \<Rightarrow> Inl (LLMOutputParsingError ''Model response did not match the schema'')
     | Some payload \<Rightarrow> (case model_validate payload of
         None \<Rightarrow> Inl (LLMOutputParsingError ''Model response did not match the schema'')
       | Some m \<Rightarrow> Inr m)))"

text \<open>\<open>extract_terms\<close> and \<open>generate_brief\<close> differ in the template, its fields and the system text.\<close>

definition extract_terms ::
    "(string \<Rightarrow> string res) \<Rightarrow> (string \<Rightarrow> string \<Rightarrow> string res) \<Rightarrow> (string \<Rightarrow> 'j option) \<Rightarrow> ('j \<Rightarrow> 'm option) \<Rightarrow> string \<Rightarrow> string \<Rightarrow> 'm res" where
  "extract_terms read_prompt send json_loads model_validate schema document_text =
     bindR (load_prompt_body read_prompt ''contract_clause_extraction'') (\<lambda>template.
     bindR (format_fields [(''document_text'', document_text)] template) (\<lambda>prompt.
     complete_structured send json_loads model_validate schema
       ''Contract term extraction assistant - never a source of legal advice.'' prompt))"

section \<open>Providers\<close>

text \<open>What \<open>import\<close> of the client library does: it succeeds, or some module is missing.\<close>

datatype sdk = Installed | Missing string

text \<open>The blocks of an answer: their type and text.\<close>

definition anthropic_complete :: "sdk \<Rightarrow> (string \<Rightarrow> string \<Rightarrow> (string \<times> string) list res) \<Rightarrow> string \<Rightarrow> string \<Rightarrow> string res" where
  "anthropic_complete sdk messages_create system prompt = (case sdk of
     Missing name \<Rightarrow> Inl (if name \<noteq> ''anthropic'' then ModuleNotFoundError name
       else LLMProviderUnavailableError ''AI provider is currently unavailable'')
   | Installed \<Rightarrow> bindR (messages_create system prompt) (\<lambda>content.
       Inr (concat (map snd (filter (\<lambda>(type, _). type = ''text'') content)))))"

definition openai_complete :: "sdk \<Rightarrow> (string \<Rightarrow> string \<Rightarrow> string option list res) \<Rightarrow> string \<Rightarrow> string \<Rightarrow> string res" where
  "openai_complete sdk completions_create system prompt = (case sdk of
     Missing name \<Rightarrow> Inl (ModuleNotFoundError name)
   | Installed \<Rightarrow> bindR (completions_create system prompt) (\<lambda>choices. case choices of
       [] \<Rightarrow> Inl IndexError
     | content # _ \<Rightarrow> Inr (case content of None \<Rightarrow> [] | Some s \<Rightarrow> s)))"

datatype llm_provider = AnthropicProvider | OpenAIProvider

definition providers :: "(string, llm_provider) pydict" where
  "providers = [(''anthropic'', AnthropicProvider), (''openai'', OpenAIProvider)]"

definition get_llm_provider :: "string \<Rightarrow> llm_provider res" where
  "get_llm_provider setting = (case map_of providers setting of
     None \<Rightarrow> Inl (ValueError ''Unknown LLM_PROVIDER'') | Some p \<Rightarrow> Inr p)"

section \<open>Lemmas\<close>

lemma break_at:
  "x \<notin> set w \<Longrightarrow> takeWhile (\<lambda>c. c \<noteq> x) (w @ x # s) = w" "x \<notin> set w \<Longrightarrow> dropWhile (\<lambda>c. c \<noteq> x) (w @ x # s) = x # s"
  by (induction w) auto

lemma after_separator_append:
  assumes "after_separator h = None" "h = [] \<or> last h = line_feed" "separator_line l" "line_feed \<notin> set l"
  shows "after_separator (h @ l @ line_feed # b) = Some (line_feed # b)"
  using assms(1,2)
proof (induction h rule: after_separator.induct)
  case (1 s)
  note l = break_at [OF assms(4)]
  show ?case
  proof (cases "s = []")
    case True
    then show ?thesis using assms(3) l by (simp add: after_separator.simps)
  next
    case False
    then have "line_feed \<in> set s" using 1(3) last_in_set by fastforce
    then obtain u v where s: "s = u @ line_feed # v" "line_feed \<notin> set u" by (meson split_list_first)
    note u = break_at [OF s(2)]
    have n: "\<not> separator_line u \<and> after_separator v = None"
      using 1(2) by (subst (asm) after_separator.simps) (simp add: s(1) u Let_def split: if_splits)
    have "v = [] \<or> last v = line_feed" using 1(3) s by (cases v) auto
    then have "after_separator (v @ l @ line_feed # b) = Some (line_feed # b)"
      using 1(1) [OF refl refl] n by (simp add: s(1) u)
    then show ?thesis using n by (subst after_separator.simps) (simp add: s(1) u)
  qed
qed

lemma format_plain:
  assumes "CHR ''{'' \<notin> set p" "CHR ''}'' \<notin> set p"
  shows "format_fields kwargs (p @ s) = bindR (format_fields kwargs s) (\<lambda>r. Inr (p @ r))"
  using assms
proof (induction p)
  case Nil
  then show ?case by (cases "format_fields kwargs s") simp_all
next
  case (Cons c p)
  then have "c \<noteq> CHR ''{''" "c \<noteq> CHR ''}''" by auto
  then show ?case using Cons by (simp add: format_fields.simps(2) bindR_assoc)
qed

lemma format_field:
  assumes "CHR ''}'' \<notin> set n" "n \<noteq> []" "hd n \<noteq> CHR ''{''" "map_of kwargs n = Some v"
  shows "format_fields kwargs (CHR ''{'' # n @ CHR ''}'' # s) = bindR (format_fields kwargs s) (\<lambda>r. Inr (v @ r))"
  using assms(2-4) by (simp add: format_fields.simps(2) break_at [OF assms(1)])

definition no_breaks :: "string \<Rightarrow> bool" where
  "no_breaks l = list_all (\<lambda>c. c \<notin> set line_breaks) l"

lemma line_feed_breaks [simp]: "line_feed \<in> set line_breaks"
  by (simp add: line_feed_def line_breaks_def)

lemma splitlines_line:
  assumes "no_breaks l"
  shows "splitlines (l @ line_feed # s) = l # splitlines s"
  using assms
proof (induction l)
  case Nil
  then show ?case by (cases s) (auto simp: line_feed_def line_breaks_def)
next
  case (Cons c l)
  have c: "c \<notin> set line_breaks" "c \<noteq> CHR 0x0D" using Cons.prems by (auto simp: no_breaks_def line_breaks_def)
  obtain d r where d: "l @ line_feed # s = d # r" by (cases "l @ line_feed # s") auto
  have "splitlines (d # r) = l # splitlines s" using Cons by (simp add: no_breaks_def d [symmetric])
  then show ?case using c d by simp
qed

lemma splitlines_last:
  assumes "no_breaks l" "l \<noteq> []"
  shows "splitlines l = [l]"
  using assms
proof (induction l)
  case (Cons c l)
  have c: "c \<notin> set line_breaks" "c \<noteq> CHR 0x0D" using Cons.prems by (auto simp: no_breaks_def line_breaks_def)
  then show ?case using Cons by (cases l) (auto simp: no_breaks_def)
qed simp

lemma splitlines_nonempty: "s \<noteq> [] \<Longrightarrow> splitlines s \<noteq> []"
  by (cases s rule: splitlines.cases) (auto split: list.split)

lemma splitlines_join:
  assumes "ls \<noteq> []" "list_all no_breaks ls"
  shows "splitlines (join_with line_feed ls @ line_feed # s) = ls @ splitlines s"
  using assms
proof (induction ls)
  case (Cons l ls)
  then show ?case by (cases ls) (simp_all add: splitlines_line)
qed simp

lemma strip_fences_total: "\<exists>r. strip_markdown_fences text = Inr r"
proof (cases "prefix fence (strip text)")
  case True
  then obtain l ls where "splitlines (strip text) = l # ls"
    using splitlines_nonempty [of "strip text"] by (cases "splitlines (strip text)"; cases "strip text") auto
  then show ?thesis using True by (simp add: strip_markdown_fences_def Let_def)
qed (simp add: strip_markdown_fences_def)

lemma strip_nonempty:
  assumes "c \<in> set s" "\<not> is_space c"
  shows "strip s \<noteq> []"
proof -
  have "dropWhile is_space s \<noteq> []" using assms by (auto simp: dropWhile_eq_Nil_conv)
  then have "hd (dropWhile is_space s) \<in> set (dropWhile is_space s)" "\<not> is_space (hd (dropWhile is_space s))"
    by (simp_all add: hd_dropWhile)
  then show ?thesis unfolding strip_def by (metis dropWhile_eq_Nil_conv rev_is_Nil_conv set_rev)
qed

lemma strip_fenced: "strip (fence @ s @ fence) = fence @ s @ fence"
  by (simp add: strip_def is_space_def space_chars_def)

section \<open>Properties\<close>



text \<open>A structured answer is returned only when the text the model sent, without its fences, parsed and passed the schema;
  every other answer is the error that the AI step failed (502), never a value filled in, and the stripping of
  the fences itself cannot fail.\<close>

lemma structured_answer_or_error:
  "(case complete_structured send json_loads model_validate schema system prompt of
     Inr m \<Rightarrow> \<exists>raw text payload. send system (prompt @ schema) = Inr raw \<and> strip_markdown_fences raw = Inr text \<and>
       json_loads text = Some payload \<and> model_validate payload = Some m
   | Inl e \<Rightarrow> send system (prompt @ schema) = Inl e \<or> error_response e = (502, Some ''llm_output_parsing_failed''))"
proof (cases "send system (prompt @ schema)")
  case (Inr raw)
  obtain reply where "strip_markdown_fences raw = Inr reply" using strip_fences_total by blast
  then show ?thesis using Inr by (auto simp: complete_structured_def split: option.split)
qed (simp add: complete_structured_def)

text \<open>A fenced answer loses exactly its fences: any text of several lines, put between an opening fence with or without a
  language and a closing one, is what remains.\<close>

lemma fence_roundtrip:
  assumes "ls \<noteq> []" "list_all no_breaks ls" "no_breaks language"
  shows "strip_markdown_fences (fence @ language @ line_feed # join_with line_feed ls @ line_feed # fence) = Inr (join_with line_feed ls)"
proof -
  let ?t = "fence @ (language @ line_feed # join_with line_feed ls @ [line_feed]) @ fence"
  have f: "no_breaks fence" "no_breaks (fence @ language)" using assms(3) by (simp_all add: no_breaks_def line_breaks_def)
  have "splitlines ?t = (fence @ language) # ls @ [fence]"
    using splitlines_line [OF f(2), of "join_with line_feed ls @ line_feed # fence"] splitlines_join [OF assms(1,2), of fence]
      splitlines_last [OF f(1)] by simp
  moreover have "strip fence = fence" by code_simp
  ultimately have "strip_markdown_fences ?t = Inr (join_with line_feed ls)"
    by (simp only: strip_markdown_fences_def Let_def strip_fenced) simp
  then show ?thesis by simp
qed

lemma fence_roundtrip_witness:
  "strip_markdown_fences (fence @ ''json'' @ line_feed # join_with line_feed [''{'', ''}''] @ line_feed # fence) = Inr [CHR ''{'', line_feed, CHR ''}'']"
  using fence_roundtrip [of "[''{'', ''}'']" "''json''"] by (simp add: no_breaks_def line_breaks_def)

text \<open>An answer fenced on one line is lost as a whole.\<close>

lemma one_line_fence_lost:
  assumes "no_breaks (strip text)" "prefix fence (strip text)"
  shows "strip_markdown_fences text = Inr []"
proof -
  have "strip text \<noteq> []" using assms(2) by auto
  then show ?thesis using assms by (simp add: strip_markdown_fences_def splitlines_last)
qed

text \<open>A missing client library is reported as an unavailable service for one provider, as an internal error for the
  other.\<close>

lemma missing_sdk_status:
  "\<exists>e. anthropic_complete (Missing ''anthropic'') f system prompt = Inl e \<and> error_response e = (503, Some ''ai_provider_unavailable'')"
  "\<exists>e. openai_complete (Missing ''openai'') g system prompt = Inl e \<and> error_response e = (500, None)"
  by (simp_all add: anthropic_complete_def openai_complete_def)

end
