(* ===== verification/BusinessCalendar.thy ===== *)
theory BusinessCalendar
  imports OrganisationRoutes
begin

text \<open>
  The business date of an organisation: \<open>app/core/business_calendar.py\<close> and
  \<open>get_organisation_business_date\<close> of \<open>app/db/session.py\<close>, which every route with an \<open>as_of_date\<close> asks.  An
  instant is a number of seconds since midnight before the first day of the calendar, the database of time
  zones an argument that gives the offset of a zone at an instant.
\<close>

section \<open>Instants\<close>

text \<open>What the caller passes: nothing, a time without a zone, or one with its offset.\<close>

datatype utc_instant = Now | Naive int | Aware int int

definition day_seconds :: int where "day_seconds = 86400"

definition resolve_business_date :: "(string \<Rightarrow> (int \<Rightarrow> int) option) \<Rightarrow> int \<Rightarrow> string \<Rightarrow> utc_instant \<Rightarrow> pydate res" where
  "resolve_business_date zone_info clock organisation_timezone instant = bindR (case instant of
       Now \<Rightarrow> Inr clock
     | Naive _ \<Rightarrow> Inl (InvalidBusinessTimezoneError ''utc_instant must be an aware, genuinely-UTC datetime'')
     | Aware i offset \<Rightarrow> if offset \<noteq> 0 then Inl (InvalidBusinessTimezoneError ''utc_instant must be an aware, genuinely-UTC datetime'')
         else Inr i) (\<lambda>i.
     case zone_info organisation_timezone of
       None \<Rightarrow> Inl (InvalidBusinessTimezoneError ''not a valid IANA timezone name'')
     | Some offset_at \<Rightarrow> fromordinal ((i + offset_at i) div day_seconds + 1))"

definition get_organisation_business_date ::
    "(string \<Rightarrow> (int \<Rightarrow> int) option) \<Rightarrow> int \<Rightarrow> org_db \<Rightarrow> access_token_claims \<Rightarrow> pydate res" where
  "get_organisation_business_date zone_info clock db c =
     (case filter (\<lambda>g. og_id g = cl_active_org_id c) (od_organisations db) of
       [] \<Rightarrow> Inl NoResultFound
     | [g] \<Rightarrow> resolve_business_date zone_info clock (og_timezone g) Now
     | _ \<Rightarrow> Inl MultipleResultsFound)"

section \<open>Lemmas\<close>

lemma zones_of_ids:
  "map (\<lambda>x. (og_id x, og_timezone x)) xs = map (\<lambda>x. (og_id x, og_timezone x)) ys \<Longrightarrow>
     map og_timezone (filter (\<lambda>x. og_id x = i) xs) = map og_timezone (filter (\<lambda>x. og_id x = i) ys)"
  by (induction xs arbitrary: ys) (auto simp: Cons_eq_map_conv)

lemma business_date_by_zones:
  "get_organisation_business_date zone_info clock db c =
     (case map og_timezone (filter (\<lambda>g. og_id g = cl_active_org_id c) (od_organisations db)) of
       [] \<Rightarrow> Inl NoResultFound
     | [z] \<Rightarrow> resolve_business_date zone_info clock z Now
     | _ \<Rightarrow> Inl MultipleResultsFound)"
  by (simp add: get_organisation_business_date_def split: list.split)

section \<open>Properties\<close>

text \<open>The business date is at most one day before or after the date in UTC, as long as the offset of the zone is less than
  a day, which every zone of the database satisfies.\<close>

lemma business_date_near_utc:
  assumes "get_organisation_business_date zone_info clock db c = Inr d" "fromordinal (clock div day_seconds + 1) = Inr u"
    and "\<And>z offset_at i. zone_info z = Some offset_at \<Longrightarrow> \<bar>offset_at i\<bar> < day_seconds"
  shows "\<bar>toordinal d - toordinal u\<bar> \<le> 1"
proof -
  obtain g :: organisation and offset_at where z: "zone_info (og_timezone g) = Some offset_at" and d: "fromordinal ((clock + offset_at clock) div day_seconds + 1) = Inr d"
    using assms(1) that by (auto simp: get_organisation_business_date_def resolve_business_date_def split: list.splits option.splits)
  have "toordinal d = (clock + offset_at clock) div day_seconds + 1" "toordinal u = clock div day_seconds + 1"
    using fromordinal_InrD [OF d] fromordinal_InrD [OF assms(2)] by auto
  moreover have "\<bar>(clock + offset_at clock) div day_seconds - clock div day_seconds\<bar> \<le> 1"
    using assms(3) [OF z, of clock] unfolding day_seconds_def by linarith
  ultimately show ?thesis by simp
qed

text \<open>At half past eleven at night in UTC it is the next day in Johannesburg.\<close>

definition johannesburg :: "string \<Rightarrow> (int \<Rightarrow> int) option" where
  "johannesburg z = (if z = ''Africa/Johannesburg'' then Some (\<lambda>_. 7200) else None)"

abbreviation "night \<equiv> 730000 * 86400 + 84600"

lemma business_date_near_utc_witness:
  "\<exists>d u. get_organisation_business_date johannesburg night \<lparr> od_organisations = [example_organisation], od_audit = [] \<rparr>
      \<lparr> cl_user_id = 7, cl_active_org_id = 1, cl_role = ''owner'', cl_issued_at = 0, cl_expires_at = 900 \<rparr> = Inr d \<and>
    fromordinal (night div day_seconds + 1) = Inr u \<and> d \<noteq> u \<and> \<bar>toordinal d - toordinal u\<bar> \<le> 1"
proof -
  let ?c = "\<lparr> cl_user_id = 7, cl_active_org_id = 1, cl_role = ''owner'', cl_issued_at = 0, cl_expires_at = 900 \<rparr>"
  let ?db = "\<lparr> od_organisations = [example_organisation], od_audit = [] \<rparr>"
  have d: "get_organisation_business_date johannesburg night ?db ?c = Inr (ord2ymd 730002)"
    by (simp add: get_organisation_business_date_def resolve_business_date_def example_organisation_def johannesburg_def day_seconds_def
        fromordinal_def max_ordinal_def)
  have u: "fromordinal (night div day_seconds + 1) = Inr (ord2ymd 730001)"
    by (simp add: day_seconds_def fromordinal_def max_ordinal_def)
  have z: "\<bar>offset_at i\<bar> < day_seconds" if "johannesburg z = Some offset_at" for z offset_at i
    using that by (auto simp: johannesburg_def day_seconds_def split: if_splits)
  have "toordinal (ord2ymd 730002) \<noteq> toordinal (ord2ymd 730001)"
    using ord2ymd_correct [of 730002] ord2ymd_correct [of 730001] by (simp add: max_ordinal_def)
  moreover have "\<bar>toordinal (ord2ymd 730002) - toordinal (ord2ymd 730001)\<bar> \<le> 1"
    by (rule business_date_near_utc [OF d u]) (rule z)
  ultimately show ?thesis using d u by auto
qed

text \<open>Updating an organisation never moves its business date, or anyone else's: the time zone is not among the fields a
  request can set.\<close>

lemma update_keeps_business_date:
  assumes "update_current_organisation db c u = Inr (db', g)" "distinct (map og_id (od_organisations db))"
  shows "get_organisation_business_date zone_info clock db' c' = get_organisation_business_date zone_info clock db c'"
proof -
  let ?o = "cl_active_org_id c"
  have c: "c0 = c" if "require_permission MANAGE_ORGANISATION c = Inr c0" for c0
    using that by (auto simp: require_permission_def bindR_eq_Inr split: if_splits)
  obtain g0 h where "get_current db ?o = Inr g0" and h: "updated_organisation g0 u = Inr h"
    and rows: "od_organisations db' = map (\<lambda>x. if og_id x = ?o then h else x) (od_organisations db)"
    using assms(1) by (auto simp: update_current_organisation_def update_current_def bindR_eq_Inr dest!: c split: if_splits)
  then have g0: "g0 \<in> set (od_organisations db)" "og_id g0 = ?o"
    using find_own [OF assms(2)] by (auto simp: get_current_def split: option.splits)
  note f = updated_organisation_InrD [OF h]
  have same: "x = g0" if "x \<in> set (od_organisations db)" "og_id x = ?o" for x
    using that g0 assms(2) by (auto simp: distinct_map inj_on_def)
  have "map (\<lambda>x. (og_id x, og_timezone x)) (od_organisations db') = map (\<lambda>x. (og_id x, og_timezone x)) (od_organisations db)"
    unfolding rows using f(1,2) g0(2) same by auto
  then have "map og_timezone (filter (\<lambda>x. og_id x = i) (od_organisations db')) = map og_timezone (filter (\<lambda>x. og_id x = i) (od_organisations db))" for i
    by (rule zones_of_ids)
  then show ?thesis unfolding business_date_by_zones by presburger
qed

lemma update_keeps_business_date_witness:
  "\<exists>db'. get_organisation_business_date johannesburg night db'
      \<lparr> cl_user_id = 7, cl_active_org_id = 1, cl_role = ''owner'', cl_issued_at = 0, cl_expires_at = 900 \<rparr> = Inr (ord2ymd 730002) \<and>
    map og_name (od_organisations db') = [''Acme Ltd'']"
proof -
  let ?c = "\<lparr> cl_user_id = 7, cl_active_org_id = 1, cl_role = ''owner'', cl_issued_at = 0, cl_expires_at = 900 \<rparr>"
  let ?db = "\<lparr> od_organisations = [example_organisation], od_audit = [] \<rparr>"
  let ?u = "\<lparr> ou_name = Some (Some ''Acme Ltd''), ou_legal_name = None, ou_industry = None, ou_fiscal_year_start = None \<rparr>"
  have p: "require_permission MANAGE_ORGANISATION ?c = Inr ?c" by (simp add: require_permission_def role_of_def all_roles_def all_permissions_def)
  have sn: "show_int 1 = ''1''" by code_simp
  obtain db' g where u: "update_current_organisation ?db ?c ?u = Inr (db', g)" "map og_name (od_organisations db') = [''Acme Ltd'']"
    by (simp add: update_current_organisation_def p organisation_update_ok_def update_current_def get_current_def example_organisation_def
        changed_fields_def record_audit_def canonicalize_entity_id_def audit_columns_ok_def updated_organisation_def text_fits_def sn Let_def)
  have "get_organisation_business_date johannesburg night ?db ?c = Inr (ord2ymd 730002)"
    by (simp add: get_organisation_business_date_def resolve_business_date_def example_organisation_def johannesburg_def day_seconds_def
        fromordinal_def max_ordinal_def)
  then show ?thesis using update_keeps_business_date [OF u(1), of johannesburg night ?c] u(2) by auto
qed

text \<open>A time zone the database does not know fails every request that asks for the date with an internal error.\<close>

lemma unknown_zone_internal_error:
  assumes "get_current db (cl_active_org_id c) = Inr g" "distinct (map og_id (od_organisations db))" "zone_info (og_timezone g) = None"
  shows "\<exists>e. get_organisation_business_date zone_info clock db c = Inl e \<and> error_response e = (500, Some ''invalid_business_timezone'')"
proof -
  have g: "g \<in> set (od_organisations db)" "og_id g = cl_active_org_id c"
    using assms(1,2) by (auto simp: get_current_def find_own split: option.splits)
  have "filter (\<lambda>x. og_id x = cl_active_org_id c) (od_organisations db) = [g]"
  proof -
    have "filter (\<lambda>x. og_id x = k) gs = [h]" if "distinct (map og_id gs)" "h \<in> set gs" "og_id h = k" for gs h k
      using that by (induction gs) (auto simp: filter_empty_conv image_iff)
    then show ?thesis using assms(2) g by blast
  qed
  then show ?thesis using assms(3) by (simp add: get_organisation_business_date_def resolve_business_date_def)
qed

end
