(* ===== verification/Spec2Isabelle.thy ===== *)
theory Spec2Isabelle
  imports CashFlow Contracts Logistics PriceReviewService RebateIngestion OpportunityService EvidenceBackfill
    PackParser CapitalInvestment SpendAnalytics
    SavingsRegister DuplicateDetection InventoryAnalytics Copilot PriceReviewFlow PurchaseUpload
    TransactionSnapshots RegisterRoutes InventoryUpload ContractRoutes PriceReviewExport OrganisationRoutes
    TenantDatabase ModelProvider BusinessCalendar
begin

text \<open>
  A model of the backend of ProcureIQ (\<open>src/backend\<close>), a multi-tenant service for procurement: buyers upload
  price lists, purchases, inventory and balances; the service matches, values and aggregates them, keeps
  an evidence trail for the amounts it reports, and answers questions about them.  The model covers the
  calculation modules (\<open>app/analytics\<close>, \<open>app/matching\<close>, \<open>app/ingestion\<close>), the services that write and
  read the database (\<open>app/services\<close>), the constraints and triggers the database itself enforces
  (\<open>alembic/versions\<close>), the routes through which requests reach them (\<open>app/api/v1\<close>), and access control.

  Conventions.  A Python function is a HOL function of the same name; one that can raise returns
  \<open>'a res\<close>, the exception on the left.  A service function takes the rows it reads and returns the rows
  after its commit; a request that raises leaves them as they were.  A table is the list of its rows
  in the order of insertion, restricted to one organisation, except in \<open>AccessControl\<close>, where several
  organisations share the tables.  Random values, the clock and libraries outside the repository are
  arguments.

  \<^bold>\<open>Foundations.\<close>
  \<open>Prelude\<close>: exceptions, results, loops over fallible bodies, dictionaries.
  \<open>PyDecimal\<close>: \<open>decimal.Decimal\<close> as rationals with every operation rounded to 28 significant digits, half to
  even; sums of values on a grid of four decimals are exact while their absolute values add up to less than
  \<open>10 ^ 23\<close> (\<open>dsum_exact\<close>), which is the bound many properties assume.
  \<open>Rounding\<close>, \<open>Columns\<close>: \<open>quantize\<close> and the scale and range of \<open>Numeric\<close> columns.
  \<open>PyDate\<close>, \<open>PyNumber\<close>, \<open>PyText\<close>: dates, \<open>Decimal\<close>, \<open>int\<close> and ISO date parsing, ASCII text.
  \<open>SequenceMatch\<close>: \<open>difflib.SequenceMatcher\<close>; its recursion is bounded by the length of the first text, which
  every recursive call makes shorter.
  \<open>Grouping\<close>, \<open>Tiers\<close>: the two ways rows are grouped into dictionaries, and rate bands.

  \<^bold>\<open>Governed amounts.\<close>
  \<open>EvidenceState\<close> holds the event log, the parent rows and the constraints of migrations 0021 and 0024,
  with the two writers; \<open>EvidenceWriters\<close> states as locales what both writers promise (a write by an
  allowed transition commits and leaves every other measure alone) and interprets them;
  \<open>EvidenceBackfill\<close> is the data migration.  \<open>RebateService\<close>, \<open>RebateIngestion\<close> (\<open>rebate_service\<close>,
  \<open>rebate_aggregation_service\<close>, the purchase services) and \<open>OpportunityService\<close> are its clients: which
  operations commit, which are refused, what stays unchanged.  \<open>SavingsRegister\<close> reads the register.
  \<open>RegisterRoutes\<close> puts the permission checks and lookups of the routes before them and shows, by induction
  over any sequence of requests, what users without a permission can never change.

  \<^bold>\<open>Uploads and matching.\<close>
  \<open>CsvReader\<close> is \<open>csv.DictReader\<close>, its parser a machine that reads one character at a time; \<open>Ingestion\<close> maps
  columns and validates rows, \<open>Matching\<close> and \<open>PackParser\<close> score descriptions and read pack
  sizes, \<open>PriceReviewCalc\<close> and \<open>PriceReviewService\<close> run a price review from the staged rows to the summary;
  \<open>PriceReviewFlow\<close> is the routes over them as a step relation with an invariant of all reachable databases, and
  \<open>PriceReviewExport\<close> the workbook.  \<open>PurchaseUpload\<close> and \<open>InventoryUpload\<close> are the two other spreadsheet uploads, from
  the cells to the stored rows.

  \<^bold>\<open>Analytics.\<close>
  \<open>RebateCalc\<close>, \<open>ContractCalc\<close>, \<open>ManagementAccounting\<close>, \<open>Logistics\<close>, \<open>CashFlow\<close> and \<open>CapitalInvestment\<close> are the pure
  calculation modules (the internal rate of return is a bisection of at most 200 steps, as in the
  code); \<open>Contracts\<close> is contract creation and the promotion of extracted fields.
  \<open>SpendAnalytics\<close> (spend by supplier and item, ABC and Pareto), \<open>DuplicateDetection\<close> (both scans, the review
  state machine, the consolidation graph), \<open>Snapshots\<close> (working capital and aging ledgers with their
  correction chain, a locale with two interpretations), \<open>InventoryAnalytics\<close> (stock valuation and movement)
  and \<open>CanvasLens\<close> (the graphs of the management canvas) read what the others wrote.
  \<open>TransactionSnapshots\<close> (foreign-exchange and route ledgers, the audit record, the status codes of errors),
  \<open>ContractRoutes\<close> (contract requests and the dashboard over any history of them) and \<open>OrganisationRoutes\<close> (organisation,
  suppliers, the analytics and canvas routes) are the request handlers over these.

  \<^bold>\<open>Access.\<close>
  \<open>AccessControl\<close>: roles, tokens, registration, login, organisation switch and memberships under row-level
  security, as a step relation with an invariant of all reachable databases.  \<open>TenantDatabase\<close>: the policies and grants
  that the migrations leave, executed statement by statement, and the sessions on pooled connections, with
  confinement and non-interference of the organisations.  \<open>BusinessCalendar\<close>: the date the routes use as today.
  \<open>Copilot\<close>: the intent router, its handlers and the negotiation briefs; the language model is an arbitrary
  function.  \<open>ModelProvider\<close>: prompt files, \<open>str.format\<close> and the parsing of structured answers.

  Main results.  Every operation on a governed amount is characterised: when its commit is accepted, what it
  leaves unchanged, and that amounts edited past the event log are refused.  Aggregations lose
  nothing and count nothing twice.  Sequences of uploads keep one active row per date.  Scans are
  idempotent and the graphs are well formed.  Rate of return, renewal dates and the parsers terminate
  with the documented result.  Tokens speak only for active memberships and organisations stay
  separated, by the application and by the policies of the database.  Where the code departs from its documentation the theorem states what it does: for instance
  corrections of snapshots that no reader shows, an administrator who makes himself owner, contract
  extractions that can never be promoted.

  \<^bold>\<open>Not modelled.\<close>  The web framework around the handlers (parsing of requests, printing of answers, cookies), the call
  to the language model, the database of time zones, logging and settings, the frontend, seeds and
  scripts: they move data without deciding anything the model keeps.  Audit records are modelled where
  \<open>TransactionSnapshots\<close> and \<open>InventoryAnalytics\<close> write them; the other services append theirs to a table nothing reads, and
  their models leave it out.  Table definitions are modelled as far as a constraint named above
  uses them.  Fonts, colours and column widths of the workbook are left out.  Text outside ASCII is left to the
  libraries.  Match scores are exact rationals where the code has binary floats.  Concurrent
  transactions are not interleaved: a request runs alone, as under serialisable isolation.
\<close>

end
